(* ===== verification/Prelude.thy ===== *)
theory Prelude
  imports Complex_Main "HOL-Library.AList" "HOL-Library.Word"
begin

unbundle bit_operations_syntax

text \<open>
  What every component shares: Python's exceptions as values, the dictionary that keeps
  insertion order, the rounding and remainder operations of Python's numbers, and two
  interfaces (a keyed store, and a machine driven by events) whose lemmas the components
  reuse through interpretations.

  Python's floats are read as exact reals throughout the development: the rounding of IEEE
  double arithmetic is not modelled, while every rounding the source itself asks for
  (\<open>round\<close>, \<open>int\<close>, the clamps) is.
\<close>

section \<open>Exceptions as values\<close>

datatype py_error =
    ValueError | StructError | IndexError | KeyError | UnicodeError | AttributeError
  | ZeroDivisionError | OverflowError | TypeError

type_synonym 'a result = "py_error + 'a"

named_theorems result_simps \<open>the algebra of results\<close>

text \<open>\<open>rbind m f\<close> runs \<open>f\<close> on the value of \<open>m\<close>, or passes the exception on.\<close>

definition rbind :: "'a result \<Rightarrow> ('a \<Rightarrow> 'b result) \<Rightarrow> 'b result" where
  "rbind m f = (case m of Inl e \<Rightarrow> Inl e | Inr x \<Rightarrow> f x)"

lemma rbind_Inl [simp]: "rbind (Inl e) f = Inl e"
  by (simp add: rbind_def)

lemma rbind_Inr [simp]: "rbind (Inr x) f = f x"
  by (simp add: rbind_def)

lemma rbind_eq_Inr [result_simps]: "rbind m f = Inr y \<longleftrightarrow> (\<exists>x. m = Inr x \<and> f x = Inr y)"
  by (cases m) auto

lemma rbind_eq_Inl [result_simps]:
  "rbind m f = Inl e \<longleftrightarrow> m = Inl e \<or> (\<exists>x. m = Inr x \<and> f x = Inl e)"
  by (cases m) auto

lemma rbind_assoc: "rbind (rbind m f) g = rbind m (\<lambda>x. rbind (f x) g)"
  by (cases m) auto

text \<open>\<open>xs[i]\<close> for an index that is not negative.\<close>

definition py_index :: "'a list \<Rightarrow> nat \<Rightarrow> 'a result" where
  "py_index xs i = (if i < length xs then Inr (xs ! i) else Inl IndexError)"

lemma py_index_Inr [result_simps]: "py_index xs i = Inr x \<longleftrightarrow> i < length xs \<and> x = xs ! i"
  by (auto simp: py_index_def)

text \<open>\<open>xs[a:b]\<close> for bounds that are not negative: a slice never raises.\<close>

definition slice :: "'a list \<Rightarrow> nat \<Rightarrow> nat \<Rightarrow> 'a list" where
  "slice xs a b = take (b - a) (drop a xs)"

lemma length_slice: "length (slice xs a b) = min (b - a) (length xs - a)"
  by (simp add: slice_def)

section \<open>Python's numbers\<close>

text \<open>\<open>round(x)\<close> of a float: to the nearest integer, a tie to the even one.\<close>

definition py_round :: "real \<Rightarrow> int" where
  "py_round x =
     (let f = \<lfloor>x\<rfloor>; d = x - of_int f
      in if d < 1 / 2 then f
         else if 1 / 2 < d then f + 1
         else if even f then f else f + 1)"

lemma py_round_of_int [simp]: "py_round (of_int k) = k"
  by (simp add: py_round_def)

lemma py_round_error: "\<bar>of_int (py_round x) - x\<bar> \<le> 1 / 2"
proof -
  have "of_int \<lfloor>x\<rfloor> \<le> x" and "x < of_int \<lfloor>x\<rfloor> + 1"
    by linarith+
  then show ?thesis
    unfolding py_round_def Let_def abs_if of_int_add of_int_1
    by (simp split: if_splits) linarith
qed

lemma py_round_lower: "of_int k \<le> x \<Longrightarrow> k \<le> py_round x"
  using floor_mono [of "of_int k" x] by (auto simp: py_round_def Let_def)

lemma py_round_upper:
  assumes "x \<le> of_int k"
  shows "py_round x \<le> k"
proof -
  have "\<bar>of_int (py_round x) - x\<bar> \<le> 1 / 2"
    by (rule py_round_error)
  with assms have "of_int (py_round x) \<le> (of_int k :: real) + 1 / 2"
    by linarith
  then show ?thesis by linarith
qed

text \<open>\<open>int(x)\<close> of a float truncates towards zero.\<close>

definition py_int :: "real \<Rightarrow> int" where
  "py_int x = (if x < 0 then \<lceil>x\<rceil> else \<lfloor>x\<rfloor>)"

lemma py_int_of_int [simp]: "py_int (of_int k) = k"
  by (simp add: py_int_def)

lemma py_int_nonneg: "0 \<le> x \<Longrightarrow> 0 \<le> py_int x"
  by (simp add: py_int_def)

text \<open>\<open>a % m\<close> of floats: the remainder has the sign of \<open>m\<close>.\<close>

definition py_fmod :: "real \<Rightarrow> real \<Rightarrow> real" where
  "py_fmod a m = a - m * of_int \<lfloor>a / m\<rfloor>"

lemma py_fmod_bounds:
  assumes "0 < m"
  shows "0 \<le> py_fmod a m" and "py_fmod a m < m"
proof -
  have "of_int \<lfloor>a / m\<rfloor> \<le> a / m" and "a / m < of_int \<lfloor>a / m\<rfloor> + 1"
    by linarith+
  then have "of_int \<lfloor>a / m\<rfloor> * m \<le> a" and "a < (of_int \<lfloor>a / m\<rfloor> + 1) * m"
    using assms pos_le_divide_eq [of m] pos_divide_less_eq [of m] by blast+
  then show "0 \<le> py_fmod a m" and "py_fmod a m < m"
    by (simp_all add: py_fmod_def algebra_simps)
qed

text \<open>Truth of \<open>x & bit\<close>, the membership test of the \<open>IntFlag\<close> bitmaps.\<close>

definition has_bits :: "int \<Rightarrow> int \<Rightarrow> bool" where
  "has_bits x b \<longleftrightarrow> x AND b \<noteq> 0"

lemma has_bits_zero [simp]: "\<not> has_bits 0 b" "\<not> has_bits x 0"
  by (simp_all add: has_bits_def)

text \<open>\<open>round(x, n)\<close> of a float.\<close>

definition py_round_to :: "nat \<Rightarrow> real \<Rightarrow> real" where
  "py_round_to n x = of_int (py_round (x * 10 ^ n)) / 10 ^ n"

lemma py_round_mono:
  assumes "a \<le> b"
  shows "py_round a \<le> py_round b"
proof (cases "\<lfloor>a\<rfloor> = \<lfloor>b\<rfloor>")
  case True
  with assms show ?thesis by (auto simp: py_round_def Let_def)
next
  case False
  with floor_mono [OF assms] have "of_int (\<lfloor>a\<rfloor> + 1) \<le> b" by linarith
  then have "\<lfloor>a\<rfloor> + 1 \<le> py_round b" by (rule py_round_lower)
  moreover have "py_round a \<le> \<lfloor>a\<rfloor> + 1" by (auto simp: py_round_def Let_def)
  ultimately show ?thesis by linarith
qed

lemma py_round_to_mono: "x \<le> y \<Longrightarrow> py_round_to n x \<le> py_round_to n y"
  by (simp add: py_round_to_def divide_right_mono mult_right_mono py_round_mono)

lemma py_round_to_zero [simp]: "py_round_to n 0 = 0"
  using py_round_of_int [of 0] by (simp add: py_round_to_def)

text \<open>\<open>str(n)\<close> of an integer, \<open>f"{x:.2f}"\<close> of a float, \<open>s.lower()\<close> and \<open>s.upper()\<close> of ASCII text.\<close>

fun nat_digits :: "nat \<Rightarrow> string" where
  "nat_digits n = (if n < 10 then [char_of (48 + n)] else nat_digits (n div 10) @ [char_of (48 + n mod 10)])"

declare nat_digits.simps [simp del]

definition str_int :: "int \<Rightarrow> string" where
  "str_int n = (if n < 0 then CHR ''-'' # nat_digits (nat (- n)) else nat_digits (nat n))"

definition str_fixed2 :: "real \<Rightarrow> string" where
  "str_fixed2 x =
     (let n = nat \<bar>py_round (x * 100)\<bar>
      in (if x < 0 then ''-'' else '''') @ nat_digits (n div 100) @ ''.''
         @ nat_digits (n mod 100 div 10) @ nat_digits (n mod 10))"

definition lower_char :: "char \<Rightarrow> char" where
  "lower_char c =
     (let n = (of_char c :: nat) in if 65 \<le> n \<and> n \<le> 90 then char_of (n + 32) else c)"

definition upper_char :: "char \<Rightarrow> char" where
  "upper_char c =
     (let n = (of_char c :: nat) in if 97 \<le> n \<and> n \<le> 122 then char_of (n - 32) else c)"

section \<open>Dictionaries with insertion order\<close>

text \<open>
  A \<open>dict\<close> whose iteration order the code observes is an association list with distinct
  keys: assigning to a key it holds keeps the key's place, a new key goes to the end. That is
  \<open>AList.update\<close>. The laws a client relies on form the interface \<open>keyed_store\<close>.
\<close>

type_synonym ('k, 'v) dict = "('k \<times> 'v) list"

locale keyed_store =
  fixes get :: "'m \<Rightarrow> 'k \<Rightarrow> 'v option"
    and put :: "'k \<Rightarrow> 'v \<Rightarrow> 'm \<Rightarrow> 'm"
    and keys :: "'m \<Rightarrow> 'k list"
  assumes get_put: "get (put k v m) j = (if j = k then Some v else get m j)"
    and keys_get: "k \<in> set (keys m) \<longleftrightarrow> get m k \<noteq> None"
    and keys_put: "keys (put k v m) = (if k \<in> set (keys m) then keys m else keys m @ [k])"
begin

lemma get_put_same: "get (put k v m) k = Some v"
  by (simp add: get_put)

lemma get_put_other: "j \<noteq> k \<Longrightarrow> get (put k v m) j = get m j"
  by (simp add: get_put)

lemma distinct_put: "distinct (keys m) \<Longrightarrow> distinct (keys (put k v m))"
  by (simp add: keys_put)

fun put_all :: "('k \<times> 'v) list \<Rightarrow> 'm \<Rightarrow> 'm" where
  "put_all [] m = m"
| "put_all ((k, v) # kvs) m = put_all kvs (put k v m)"

lemma get_put_all:
  "get (put_all kvs m) j = (case map_of (rev kvs) j of None \<Rightarrow> get m j | Some v \<Rightarrow> Some v)"
  by (induction kvs m rule: put_all.induct)
     (auto simp: get_put map_add_def split: option.splits)

lemma distinct_put_all: "distinct (keys m) \<Longrightarrow> distinct (keys (put_all kvs m))"
  by (induction kvs m rule: put_all.induct) (auto simp: distinct_put)

end

definition dget :: "('k, 'v) dict \<Rightarrow> 'k \<Rightarrow> 'v option" where
  "dget d k = map_of d k"

definition dset :: "'k \<Rightarrow> 'v \<Rightarrow> ('k, 'v) dict \<Rightarrow> ('k, 'v) dict" where
  "dset k v d = AList.update k v d"

definition dkeys :: "('k, 'v) dict \<Rightarrow> 'k list" where
  "dkeys d = map fst d"

definition dvals :: "('k, 'v) dict \<Rightarrow> 'v list" where
  "dvals d = map snd d"

interpretation pydict: keyed_store dget dset dkeys
proof unfold_locales
  fix k j :: 'k and v :: 'v and m :: "('k, 'v) dict"
  show "dget (dset k v m) j = (if j = k then Some v else dget m j)"
    by (simp add: dget_def dset_def update_conv)
  show "k \<in> set (dkeys m) \<longleftrightarrow> dget m k \<noteq> None"
    by (simp add: dget_def dkeys_def map_of_eq_None_iff)
  show "dkeys (dset k v m) = (if k \<in> set (dkeys m) then dkeys m else dkeys m @ [k])"
    by (simp add: dset_def dkeys_def update_keys)
qed

lemmas dict_laws = pydict.get_put pydict.keys_put

lemma dget_code [simp]:
  "dget [] k = None" "dget ((a, v) # d) k = (if k = a then Some v else dget d k)"
  by (simp_all add: dget_def)

lemma dset_code [simp]:
  "dset k v [] = [(k, v)]"
  "dset k v ((a, w) # d) = (if a = k then (k, v) # d else (a, w) # dset k v d)"
  by (simp_all add: dset_def)

lemma dkeys_code [simp]: "dkeys [] = []" "dkeys ((a, v) # d) = a # dkeys d"
  by (simp_all add: dkeys_def)

lemma dvals_code [simp]: "dvals [] = []" "dvals ((a, v) # d) = v # dvals d"
  by (simp_all add: dvals_def)

lemma dget_in_dvals: "dget d k = Some v \<Longrightarrow> v \<in> set (dvals d)"
  by (force simp: dget_def dvals_def dest: map_of_SomeD)

lemma dvals_dget:
  assumes "distinct (dkeys d)" and "v \<in> set (dvals d)"
  shows "\<exists>k. dget d k = Some v"
proof -
  from assms(2) obtain k where "(k, v) \<in> set d"
    by (auto simp: dvals_def)
  with assms(1) show ?thesis
    by (auto simp: dget_def dkeys_def dest: map_of_is_SomeI)
qed

text \<open>An in-place change of the objects a dictionary holds, key by key.\<close>

definition dmap :: "('v \<Rightarrow> 'w) \<Rightarrow> ('k, 'v) dict \<Rightarrow> ('k, 'w) dict" where
  "dmap f d = map (\<lambda>(k, v). (k, f v)) d"

lemma dkeys_dmap [simp]: "dkeys (dmap f d) = dkeys d"
  by (induction d) (auto simp: dmap_def dkeys_def)

lemma dget_dmap [simp]: "dget (dmap f d) k = map_option f (dget d k)"
  by (induction d) (auto simp: dmap_def dget_def)

lemma dvals_dmap [simp]: "dvals (dmap f d) = map f (dvals d)"
  by (induction d) (auto simp: dmap_def dvals_def)

lemma dict_eqI:
  assumes "dkeys d = dkeys d'" and "distinct (dkeys d)" and "\<And>k. dget d k = dget d' k"
  shows "d = d'"
  using assms
proof (induction d arbitrary: d')
  case Nil
  then show ?case by (cases d') (auto simp: dkeys_def)
next
  case (Cons kv d)
  obtain k v where kv: "kv = (k, v)" by (cases kv)
  with Cons.prems(1) obtain v' e where d': "d' = (k, v') # e" "dkeys d = dkeys e"
    by (cases d') (auto simp: dkeys_def)
  have "v = v'" using Cons.prems(3) [of k] kv d' by (simp add: dget_def)
  have "k \<notin> set (dkeys d)" using Cons.prems(2) kv by (simp add: dkeys_def)
  have "d = e"
  proof (rule Cons.IH [OF d'(2)])
    show "distinct (dkeys d)" using Cons.prems(2) by (simp add: dkeys_def)
    fix j
    have n: "dget d k = None" "dget e k = None"
      using \<open>k \<notin> set (dkeys d)\<close> d'(2) pydict.keys_get [of k d] pydict.keys_get [of k e] by simp_all
    show "dget d j = dget e j"
      using Cons.prems(3) [of j] kv d' n by (cases "j = k") (simp_all add: dget_def)
  qed
  with kv d' \<open>v = v'\<close> show ?case by simp
qed

section \<open>Machines driven by events\<close>

text \<open>
  Several components are an object whose methods are called in some order. The interface: a
  step per call and a property every step keeps; then every run keeps it.
\<close>

locale event_machine =
  fixes step :: "'s \<Rightarrow> 'e \<Rightarrow> 's"
    and inv :: "'s \<Rightarrow> bool"
  assumes step_inv: "inv s \<Longrightarrow> inv (step s e)"
begin

lemma run_inv: "inv s \<Longrightarrow> inv (foldl step s es)"
  by (induction es arbitrary: s) (auto simp: step_inv)

lemma run_append: "foldl step s (es @ es') = foldl step (foldl step s es) es'"
  by simp

end

section \<open>Refinement\<close>

text \<open>
  A component may promise less than it computes: an abstract machine of fewer states. The interface: an
  invariant the allowed events keep, and under it every step, seen through the abstraction, is no
  step or one of the abstract machine; then every run is a path of the abstract machine.
\<close>

locale refinement =
  fixes cstep :: "'s \<Rightarrow> 'e \<Rightarrow> 's"
    and ok :: "'e \<Rightarrow> bool"
    and inv :: "'s \<Rightarrow> bool"
    and abstraction :: "'s \<Rightarrow> 'a"
    and astep :: "'a \<Rightarrow> 'a \<Rightarrow> bool"
  assumes inv_step: "inv s \<Longrightarrow> ok e \<Longrightarrow> inv (cstep s e)"
    and simulation: "inv s \<Longrightarrow> ok e \<Longrightarrow> abstraction (cstep s e) = abstraction s
                       \<or> astep (abstraction s) (abstraction (cstep s e))"
begin

lemma inv_run: "inv s \<Longrightarrow> \<forall>e\<in>set es. ok e \<Longrightarrow> inv (foldl cstep s es)"
  by (induction es arbitrary: s) (auto simp: inv_step)

lemma run_path: "inv s \<Longrightarrow> \<forall>e\<in>set es. ok e \<Longrightarrow> astep\<^sup>*\<^sup>* (abstraction s) (abstraction (foldl cstep s es))"
proof (induction es arbitrary: s)
  case (Cons e es)
  then have "inv (cstep s e)" by (simp add: inv_step)
  with Cons have "astep\<^sup>*\<^sup>* (abstraction (cstep s e)) (abstraction (foldl cstep (cstep s e) es))" by simp
  moreover have "astep\<^sup>*\<^sup>* (abstraction s) (abstraction (cstep s e))"
    using simulation [of s e] Cons.prems by (auto intro: r_into_rtranclp)
  ultimately show ?case by (simp add: rtranclp_trans)
qed simp

end

end
