(* ===== verification/Struct.thy ===== *)
theory Struct
  imports Prelude
begin

text \<open>
  Bytes and the standard library's \<open>struct\<close> codec in its little-endian mode, as far as
  the wire format uses it: unsigned and signed integers, fixed-size byte strings and 32-bit
  floats (moved as their bit pattern). \<open>pack\<close> raises \<open>struct.error\<close> for an integer out
  of range and \<open>unpack\<close> for a buffer of the wrong size. The lemmas are the two round
  trips, and the reading of a counted sequence of fixed-size elements, which four messages of
  the protocol share: an element codec is the interface \<open>fixed_codec\<close>.
\<close>

type_synonym byte = "8 word"
type_synonym bytes = "byte list"

section \<open>Little-endian integers\<close>

fun le_bytes :: "nat \<Rightarrow> int \<Rightarrow> bytes" where
  "le_bytes 0 v = []"
| "le_bytes (Suc n) v = word_of_int v # le_bytes n (v div 256)"

fun le_int :: "bytes \<Rightarrow> int" where
  "le_int [] = 0"
| "le_int (b # bs) = uint b + 256 * le_int bs"

lemma length_le_bytes [simp]: "length (le_bytes n v) = n"
  by (induction n arbitrary: v) auto

lemma uint_byte_of_int: "uint (word_of_int v :: byte) = v mod 256"
  by (simp add: uint_word_of_int)

lemma le_int_le_bytes: "le_int (le_bytes n v) = v mod 256 ^ n"
proof (induction n arbitrary: v)
  case 0
  then show ?case by simp
next
  case (Suc n)
  have "v mod (256 * 256 ^ n) = 256 * (v div 256 mod 256 ^ n) + v mod 256"
    by (rule zmod_zmult2_eq) simp
  with Suc show ?case by (simp add: uint_byte_of_int)
qed

lemma uint_byte_bounds: "0 \<le> uint (b :: byte)" "uint (b :: byte) < 256"
  using uint_lt2p [of b] by simp_all

lemma le_int_bounds: "0 \<le> le_int bs" "le_int bs < 256 ^ length bs"
proof (induction bs)
  case Nil
  case 1 show ?case by simp
  case 2 show ?case by simp
next
  case (Cons b bs)
  case 1 show ?case using Cons uint_byte_bounds [of b] by simp
  case 2 show ?case using Cons uint_byte_bounds [of b] by simp
qed

lemma le_bytes_le_int: "le_bytes (length bs) (le_int bs) = bs"
proof (induction bs)
  case Nil
  then show ?case by simp
next
  case (Cons b bs)
  have "(uint b + 256 * le_int bs) div 256 = le_int bs"
    using uint_byte_bounds [of b] by simp
  moreover have "(word_of_int (uint b + 256 * le_int bs) :: byte) = b"
  proof (rule word_uint_eqI)
    show "uint (word_of_int (uint b + 256 * le_int bs) :: byte) = uint b"
      unfolding uint_byte_of_int using uint_byte_bounds [of b] by simp
  qed
  ultimately show ?case using Cons by simp
qed

definition to_signed :: "nat \<Rightarrow> int \<Rightarrow> int" where
  "to_signed n v = (if 2 * v < 256 ^ n then v else v - 256 ^ n)"

section \<open>Formats and values\<close>

datatype sfmt = SU nat | SI nat | SBytes nat | SF32

datatype sval = VInt int | VBytes bytes | VF32 "32 word"

fun fmt_size :: "sfmt \<Rightarrow> nat" where
  "fmt_size (SU n) = n"
| "fmt_size (SI n) = n"
| "fmt_size (SBytes n) = n"
| "fmt_size SF32 = 4"

definition calcsize :: "sfmt list \<Rightarrow> nat" where
  "calcsize fs = sum_list (map fmt_size fs)"

lemma calcsize_simps [simp]:
  "calcsize [] = 0" "calcsize (f # fs) = fmt_size f + calcsize fs"
  by (simp_all add: calcsize_def)

fun pack1 :: "sfmt \<Rightarrow> sval \<Rightarrow> bytes result" where
  "pack1 (SU n) (VInt v) = (if 0 \<le> v \<and> v < 256 ^ n then Inr (le_bytes n v) else Inl StructError)"
| "pack1 (SI n) (VInt v) =
     (if - (256 ^ n) \<le> 2 * v \<and> 2 * v < 256 ^ n then Inr (le_bytes n v) else Inl StructError)"
| "pack1 (SBytes n) (VBytes bs) = Inr (take n bs @ replicate (n - length bs) 0)"
| "pack1 SF32 (VF32 w) = Inr (le_bytes 4 (uint w))"
| "pack1 _ _ = Inl StructError"

fun struct_pack :: "sfmt list \<Rightarrow> sval list \<Rightarrow> bytes result" where
  "struct_pack [] [] = Inr []"
| "struct_pack (f # fs) (v # vs) =
     rbind (pack1 f v) (\<lambda>b. rbind (struct_pack fs vs) (\<lambda>bs. Inr (b @ bs)))"
| "struct_pack _ _ = Inl StructError"

fun unpack1 :: "sfmt \<Rightarrow> bytes \<Rightarrow> sval" where
  "unpack1 (SU n) bs = VInt (le_int bs)"
| "unpack1 (SI n) bs = VInt (to_signed n (le_int bs))"
| "unpack1 (SBytes n) bs = VBytes bs"
| "unpack1 SF32 bs = VF32 (word_of_int (le_int bs))"

fun unpack_fields :: "sfmt list \<Rightarrow> bytes \<Rightarrow> sval list" where
  "unpack_fields [] bs = []"
| "unpack_fields (f # fs) bs =
     unpack1 f (take (fmt_size f) bs) # unpack_fields fs (drop (fmt_size f) bs)"

definition struct_unpack :: "sfmt list \<Rightarrow> bytes \<Rightarrow> sval list result" where
  "struct_unpack fs bs =
     (if length bs = calcsize fs then Inr (unpack_fields fs bs) else Inl StructError)"

text \<open>The values a format carries without loss.\<close>

fun fits :: "sfmt \<Rightarrow> sval \<Rightarrow> bool" where
  "fits (SU n) (VInt v) \<longleftrightarrow> 0 \<le> v \<and> v < 256 ^ n"
| "fits (SI n) (VInt v) \<longleftrightarrow> - (256 ^ n) \<le> 2 * v \<and> 2 * v < 256 ^ n"
| "fits (SBytes n) (VBytes bs) \<longleftrightarrow> length bs = n"
| "fits SF32 (VF32 w) \<longleftrightarrow> True"
| "fits _ _ \<longleftrightarrow> False"

lemma mod_signed:
  assumes "- m \<le> 2 * v" and "2 * v < m" and "even m"
  shows "(if 2 * (v mod m) < m then v mod m else v mod m - m) = (v :: int)"
proof (cases "0 \<le> v")
  case True
  with assms have "v mod m = v" by simp
  with assms show ?thesis by simp
next
  case False
  with assms have "(v + m) mod m = v + m" by (intro mod_pos_pos_trivial) simp_all
  then have "v mod m = v + m" by simp
  with False assms show ?thesis by simp
qed

lemma pack1_fits:
  assumes "fits f v" and "0 < fmt_size f"
  shows "\<exists>bs. pack1 f v = Inr bs \<and> length bs = fmt_size f \<and> unpack1 f bs = v"
proof (cases "(f, v)" rule: fits.cases)
  case (1 n x)
  with assms show ?thesis by (simp add: le_int_le_bytes)
next
  case (2 n x)
  with assms have "to_signed n (x mod 256 ^ n) = x"
    unfolding to_signed_def by (intro mod_signed) simp_all
  with 2 assms show ?thesis by (simp add: le_int_le_bytes)
next
  case (3 n bs)
  with assms show ?thesis by simp
next
  case (4 w)
  have "uint w mod 256 ^ 4 = uint w"
    using uint_lt2p [of w] by simp
  with 4 show ?thesis by (simp add: le_int_le_bytes)
qed (use assms in auto)

text \<open>What \<open>pack\<close> writes, \<open>unpack\<close> reads back, also from the front of a longer buffer.\<close>

lemma struct_roundtrip:
  assumes "list_all2 fits fs vs" and "list_all (\<lambda>f. 0 < fmt_size f) fs"
  shows "\<exists>bs. struct_pack fs vs = Inr bs \<and> length bs = calcsize fs
            \<and> (\<forall>rest. unpack_fields fs (bs @ rest) = vs)"
  using assms
proof (induction fs vs rule: list_all2_induct)
  case Nil
  then show ?case by simp
next
  case (Cons f fs v vs)
  from Cons.prems Cons.hyps(1) obtain b
    where b: "pack1 f v = Inr b" "length b = fmt_size f" "unpack1 f b = v"
    using pack1_fits [of f v] by auto
  from Cons obtain bs where "struct_pack fs vs = Inr bs" "length bs = calcsize fs"
      "\<forall>rest. unpack_fields fs (bs @ rest) = vs"
    by auto
  with b show ?case by simp
qed

lemma struct_pack_length: "struct_pack fs vs = Inr bs \<Longrightarrow> length bs = calcsize fs"
proof (induction fs vs arbitrary: bs rule: struct_pack.induct)
  case (2 f fs v vs)
  have "pack1 f v = Inr b \<Longrightarrow> length b = fmt_size f" for b
    by (cases "(f, v)" rule: pack1.cases) (auto split: if_splits)
  with 2 show ?case by (auto simp: rbind_eq_Inr)
qed auto

text \<open>And a buffer of the right size is what packing its fields gives.\<close>

lemma pack1_unpack1:
  assumes "length bs = fmt_size f" and "0 < fmt_size f"
  shows "pack1 f (unpack1 f bs) = Inr bs" and "fits f (unpack1 f bs)"
proof -
  note b = le_int_bounds [of bs]
  have "pack1 f (unpack1 f bs) = Inr bs \<and> fits f (unpack1 f bs)"
  proof (cases f)
    case (SU n)
    with assms b le_bytes_le_int [of bs] show ?thesis by auto
  next
    case (SI n)
    have ev: "even (256 ^ n :: int)" using SI assms by simp
    have m: "le_bytes n (le_int bs - 256 ^ n) = le_bytes n (le_int bs)"
    proof -
      have "le_bytes k (v - 256 ^ k * w) = le_bytes k v" for k v w
      proof (induction k arbitrary: v w)
        case (Suc k)
        have "(v - 256 * 256 ^ k * w) div 256 = v div 256 - 256 ^ k * w"
          using div_mult_self2 [of 256 v "- (256 ^ k * w)"] by (simp add: algebra_simps)
        moreover have "(word_of_int (v - 256 * 256 ^ k * w) :: byte) = word_of_int v"
          by (rule word_uint_eqI, unfold uint_byte_of_int)
            (use mod_mult_self2 [of v 256 "- (256 ^ k * w)"] in \<open>simp add: algebra_simps\<close>)
        ultimately show ?case using Suc [of "v div 256" w] by simp
      qed simp
      from this [of n "le_int bs" 1] show ?thesis by simp
    qed
    from SI assms have n: "n = length bs" by simp
    with b le_bytes_le_int [of bs] m SI show ?thesis
      by (auto simp: to_signed_def)
  next
    case (SBytes n)
    with assms show ?thesis by simp
  next
    case SF32
    with assms have "length bs = 4" by simp
    with b have "uint (word_of_int (le_int bs) :: 32 word) = le_int bs"
      by (simp add: uint_word_of_int)
    with SF32 assms le_bytes_le_int [of bs] show ?thesis by simp
  qed
  then show "pack1 f (unpack1 f bs) = Inr bs" and "fits f (unpack1 f bs)" by simp_all
qed

lemma struct_unpack_pack:
  assumes "struct_unpack fs bs = Inr vs" and "list_all (\<lambda>f. 0 < fmt_size f) fs"
  shows "struct_pack fs vs = Inr bs" and "list_all2 fits fs vs"
proof -
  from assms(1) have "vs = unpack_fields fs bs" and "length bs = calcsize fs"
    by (auto simp: struct_unpack_def split: if_splits)
  with assms(2) have "struct_pack fs vs = Inr bs \<and> list_all2 fits fs vs"
  proof (induction fs arbitrary: bs vs)
    case (Cons f fs)
    from Cons.prems have "length (take (fmt_size f) bs) = fmt_size f" by simp
    with Cons show ?case by (simp add: pack1_unpack1)
  qed simp
  then show "struct_pack fs vs = Inr bs" and "list_all2 fits fs vs" by simp_all
qed

section \<open>Counted sequences of fixed-size elements\<close>

text \<open>
  \<open>for _ in range(count): unpack(body[off:off + size]); off += size\<close>, with the element's
  reader as an argument: it is given the slice, which may be short.
\<close>

fun read_many :: "nat \<Rightarrow> (bytes \<Rightarrow> 'a result) \<Rightarrow> nat \<Rightarrow> bytes \<Rightarrow> 'a list result" where
  "read_many sz rd 0 bs = Inr []"
| "read_many sz rd (Suc n) bs =
     rbind (rd (take sz bs)) (\<lambda>x.
     rbind (read_many sz rd n (drop sz bs)) (\<lambda>xs. Inr (x # xs)))"

fun write_many :: "('a \<Rightarrow> bytes result) \<Rightarrow> 'a list \<Rightarrow> bytes result" where
  "write_many wr [] = Inr []"
| "write_many wr (x # xs) = rbind (wr x) (\<lambda>b. rbind (write_many wr xs) (\<lambda>bs. Inr (b @ bs)))"

locale fixed_codec =
  fixes wr :: "'a \<Rightarrow> bytes result"
    and rd :: "bytes \<Rightarrow> 'a result"
    and sz :: nat
    and wf :: "'a \<Rightarrow> bool"
  assumes write_read: "wf x \<Longrightarrow> \<exists>bs. wr x = Inr bs \<and> length bs = sz \<and> rd bs = Inr x"
begin

lemma write_read_many:
  "list_all wf xs \<Longrightarrow>
     \<exists>bs. write_many wr xs = Inr bs \<and> length bs = sz * length xs
        \<and> (\<forall>rest. read_many sz rd (length xs) (bs @ rest) = Inr xs)"
proof (induction xs)
  case (Cons x xs)
  from Cons.prems obtain b where b: "wr x = Inr b" "length b = sz" "rd b = Inr x"
    using write_read [of x] by auto
  from Cons obtain bs where "write_many wr xs = Inr bs" "length bs = sz * length xs"
    "\<forall>rest. read_many sz rd (length xs) (bs @ rest) = Inr xs"
    by auto
  with b show ?case by simp
qed simp

end

lemma read_many_length: "read_many sz rd n bs = Inr xs \<Longrightarrow> length xs = n"
  by (induction n arbitrary: bs xs) (auto simp: rbind_eq_Inr)

end
