(* ===== verification/Framing.thy ===== *)
theory Framing
  imports Struct
begin

text \<open>
  The serial framing of \<open>proto/swarm_proto.py\<close>: the CRC16/CCITT-FALSE checksum, COBS
  byte stuffing, the framing of a payload as COBS of payload and checksum, and the stream
  reader that cuts a byte stream at the 0x00 delimiter. The lemmas: COBS decodes what it
  encodes and writes no zero byte, the checksum detects every change of one byte, and the
  reader recovers the framed payloads whatever the chunks they arrive in.
\<close>

section \<open>CRC16\<close>

text \<open>The two nested loops of \<open>crc16\<close>, on Python's unbounded integers with the masks.\<close>

definition crc_bit :: "int \<Rightarrow> int" where
  "crc_bit crc =
     (if crc AND 0x8000 \<noteq> 0 then ((push_bit 1 crc) XOR 0x1021) AND 0xFFFF
      else (push_bit 1 crc) AND 0xFFFF)"

definition crc_byte :: "int \<Rightarrow> byte \<Rightarrow> int" where
  "crc_byte crc b = (crc_bit ^^ 8) (crc XOR push_bit 8 (uint b))"

definition crc16 :: "bytes \<Rightarrow> int" where
  "crc16 data = foldl crc_byte 0xFFFF data"

text \<open>The reference: the same polynomial division in 16-bit registers, without a mask.\<close>

definition crc_bit_w :: "16 word \<Rightarrow> 16 word" where
  "crc_bit_w c = (if bit c 15 then push_bit 1 c XOR 0x1021 else push_bit 1 c)"

definition crc_byte_w :: "16 word \<Rightarrow> byte \<Rightarrow> 16 word" where
  "crc_byte_w c b = (crc_bit_w ^^ 8) (c XOR push_bit 8 (ucast b))"

definition crc16_w :: "bytes \<Rightarrow> 16 word" where
  "crc16_w data = foldl crc_byte_w 0xFFFF data"

lemma and_ffff: "x AND 0xFFFF = take_bit 16 (x :: int)"
  by (simp add: take_bit_eq_mask mask_eq_exp_minus_1)

lemma and_8000: "(x :: int) AND 0x8000 \<noteq> 0 \<longleftrightarrow> bit x 15"
  using and_exp_eq_0_iff_not_bit [of x 15] by simp

lemma xor_right_cancel: "x XOR k = y XOR k \<longleftrightarrow> x = (y :: 'a :: len word)"
  by (metis xor.assoc xor.right_neutral xor_self_eq)

lemma crc_bit_word: "crc_bit (uint c) = uint (crc_bit_w c)"
proof -
  have top: "bit (uint c) 15 \<longleftrightarrow> bit c 15"
    by (simp add: bit_uint_iff)
  have shl: "uint (push_bit 1 c) = take_bit 16 (push_bit 1 (uint c))"
    by (simp only: unsigned_push_bit_eq) simp
  have poly: "uint (0x1021 :: 16 word) = 0x1021" "take_bit 16 (0x1021 :: int) = 0x1021"
    by simp_all
  have "uint (push_bit 1 c XOR 0x1021) = take_bit 16 (push_bit 1 (uint c) XOR 0x1021)"
    by (simp only: unsigned_xor_eq shl take_bit_xor poly)
  then show ?thesis
    by (simp only: crc_bit_def crc_bit_w_def and_8000 and_ffff top shl split: if_split) simp
qed

lemma uint_shifted_byte: "uint (push_bit 8 (ucast (b :: byte) :: 16 word)) = push_bit 8 (uint b)"
proof -
  have "push_bit 8 (uint b) = uint b * 256" and "uint b * 256 < 65536" and "0 \<le> uint b"
    using uint_byte_bounds [of b] by (simp_all add: push_bit_eq_mult)
  then have "take_bit 16 (push_bit 8 (uint b)) = push_bit 8 (uint b)"
    by (simp add: take_bit_int_eq_self_iff)
  moreover have "uint (ucast b :: 16 word) = uint b"
    using uint_byte_bounds [of b] by (simp add: unsigned_ucast_eq take_bit_int_eq_self_iff)
  ultimately show ?thesis
    by (simp only: unsigned_push_bit_eq) simp
qed

lemma crc_byte_word: "crc_byte (uint c) b = uint (crc_byte_w c b)"
proof -
  have "(crc_bit ^^ n) (uint c) = uint ((crc_bit_w ^^ n) c)" for n c
    by (induction n) (simp_all add: crc_bit_word)
  moreover have "uint c XOR push_bit 8 (uint b) = uint (c XOR push_bit 8 (ucast b))"
    by (simp only: unsigned_xor_eq uint_shifted_byte)
  ultimately show ?thesis
    by (simp only: crc_byte_def crc_byte_w_def)
qed

lemma foldl_crc_word: "foldl crc_byte (uint c) data = uint (foldl crc_byte_w c data)"
  by (induction data arbitrary: c) (simp_all add: crc_byte_word)

lemma crc16_word: "crc16 data = uint (crc16_w data)"
  using foldl_crc_word [of "0xFFFF" data] by (simp add: crc16_def crc16_w_def)

lemma crc16_bounds: "0 \<le> crc16 data" "crc16 data < 65536"
  using uint_lt2p [of "crc16_w data"] by (simp_all add: crc16_word)

text \<open>One step of the register loses nothing: its low bit records the bit shifted out.\<close>

lemma crc_bit_w_inj: "inj crc_bit_w"
proof (rule injI)
  fix c d :: "16 word"
  assume eq: "crc_bit_w c = crc_bit_w d"
  have low: "bit (crc_bit_w x) 0 \<longleftrightarrow> bit x 15" for x :: "16 word"
    using bit_push_bit_iff [of 1 x 0] by (simp add: crc_bit_w_def bit_simps del: push_bit_numeral push_bit_of_1)
  with eq have top: "bit c 15 \<longleftrightarrow> bit d 15" by metis
  with eq have "push_bit 1 c = push_bit 1 d"
    unfolding crc_bit_w_def by (cases "bit d 15") (simp_all only: xor_right_cancel if_True if_False)
  then have shifted: "bit (push_bit 1 c) (Suc n) \<longleftrightarrow> bit (push_bit 1 d) (Suc n)" for n
    by (simp only:)
  show "c = d"
  proof (rule bit_word_eqI)
    fix n assume "n < LENGTH(16)"
    then consider "n = 15" | "Suc n < LENGTH(16)" by force
    then show "bit c n \<longleftrightarrow> bit d n"
    proof cases
      case 1
      with top show ?thesis by simp
    next
      case 2
      with shifted [of n] show ?thesis
        unfolding bit_push_bit_iff by simp
    qed
  qed
qed

lemma crc_byte_w_inj_reg: "crc_byte_w c b = crc_byte_w d b \<Longrightarrow> c = d"
  using inj_fn [OF crc_bit_w_inj, of 8]
  by (simp only: crc_byte_w_def inj_eq xor_right_cancel)

lemma crc_byte_w_inj_byte:
  assumes "crc_byte_w c a = crc_byte_w c b"
  shows "a = b"
proof -
  from assms have eq: "push_bit 8 (ucast a) = (push_bit 8 (ucast b) :: 16 word)"
    using inj_fn [OF crc_bit_w_inj, of 8]
    by (simp only: crc_byte_w_def inj_eq xor.commute [of c] xor_right_cancel)
  show ?thesis
  proof (rule bit_word_eqI)
    fix n assume "n < LENGTH(8)"
    moreover have "bit (push_bit 8 (ucast a :: 16 word)) (n + 8)
                     \<longleftrightarrow> bit (push_bit 8 (ucast b :: 16 word)) (n + 8)"
      by (simp only: eq)
    ultimately show "bit a n \<longleftrightarrow> bit b n"
      by (simp add: bit_push_bit_iff bit_ucast_iff)
  qed
qed

lemma crc16_one_byte:
  assumes "a \<noteq> b"
  shows "crc16 (pre @ a # suf) \<noteq> crc16 (pre @ b # suf)"
proof
  assume "crc16 (pre @ a # suf) = crc16 (pre @ b # suf)"
  then have "foldl crc_byte_w (crc_byte_w (foldl crc_byte_w 0xFFFF pre) a) suf
           = foldl crc_byte_w (crc_byte_w (foldl crc_byte_w 0xFFFF pre) b) suf"
    by (simp only: crc16_word crc16_w_def word_uint_eq_iff foldl_append foldl_Cons)
  moreover have "foldl crc_byte_w c suf = foldl crc_byte_w d suf \<Longrightarrow> c = d" for c d
    by (induction suf arbitrary: c d) (auto dest: crc_byte_w_inj_reg)
  ultimately have "crc_byte_w (foldl crc_byte_w 0xFFFF pre) a = crc_byte_w (foldl crc_byte_w 0xFFFF pre) b"
    by blast
  with assms show False by (auto dest: crc_byte_w_inj_byte)
qed

section \<open>COBS\<close>

text \<open>
  \<open>cobs_encode\<close>: the loop's state is the output so far, the index of the code byte still
  to be filled in, and the code.
\<close>

type_synonym cobs_state = "bytes \<times> nat \<times> nat"

fun cobs_step :: "cobs_state \<Rightarrow> byte \<Rightarrow> cobs_state" where
  "cobs_step (out, code_idx, code) b =
     (if b = 0 then (out[code_idx := of_nat code] @ [0], length out, 1)
      else let out = out @ [b]; code = code + 1
           in if code = 0xFF then (out[code_idx := of_nat code] @ [0], length out, 1)
              else (out, code_idx, code))"

definition cobs_encode :: "bytes \<Rightarrow> bytes" where
  "cobs_encode data =
     (let (out, code_idx, code) = foldl cobs_step ([0], 0, 1) data
      in out[code_idx := of_nat code])"

text \<open>\<open>cobs_decode\<close>: the inner \<open>for\<close> copies a block, the outer \<open>while\<close> runs over blocks.\<close>

fun cobs_copy :: "nat \<Rightarrow> bytes \<Rightarrow> bytes \<Rightarrow> (bytes \<times> bytes) result" where
  "cobs_copy 0 out rest = Inr (out, rest)"
| "cobs_copy (Suc n) out [] = Inl ValueError"
| "cobs_copy (Suc n) out (b # rest) = cobs_copy n (out @ [b]) rest"

lemma cobs_copy_eq:
  "cobs_copy n out rest =
     (if n \<le> length rest then Inr (out @ take n rest, drop n rest) else Inl ValueError)"
  by (induction n out rest rule: cobs_copy.induct) auto

function cobs_loop :: "bytes \<Rightarrow> bytes \<Rightarrow> bytes result" where
  "cobs_loop out [] = Inr out"
| "cobs_loop out (code # rest) =
     (if code = 0 then Inl ValueError
      else case cobs_copy (unat code - 1) out rest of
             Inl e \<Rightarrow> Inl e
           | Inr (out, rest) \<Rightarrow>
               cobs_loop (if code < 0xFF \<and> rest \<noteq> [] then out @ [0] else out) rest)"
  by pat_completeness auto
termination
  by (relation "measure (\<lambda>(out, rest). length rest)") (auto simp: cobs_copy_eq split: if_splits)

definition cobs_decode :: "bytes \<Rightarrow> bytes result" where
  "cobs_decode data = cobs_loop [] data"

text \<open>The reference: the block being collected is explicit, and written when it closes.\<close>

fun cobs_ref :: "bytes \<Rightarrow> bytes \<Rightarrow> bytes" where
  "cobs_ref blk [] = of_nat (length blk + 1) # blk"
| "cobs_ref blk (b # data) =
     (if b = 0 then of_nat (length blk + 1) # blk @ cobs_ref [] data
      else if length blk = 253 then 0xFF # blk @ b # cobs_ref [] data
      else cobs_ref (blk @ [b]) data)"

lemma cobs_step_block:
  "cobs_step (pre @ 0 # blk, length pre, Suc (length blk)) b =
     (if b = 0 then (pre @ of_nat (Suc (length blk)) # blk @ [0], length pre + length blk + 1, 1)
      else if length blk = 253
           then (pre @ 0xFF # blk @ [b, 0], length pre + length blk + 2, 1)
           else (pre @ 0 # blk @ [b], length pre, Suc (Suc (length blk))))"
  by (simp add: list_update_append)

lemma cobs_fold_ref:
  "(let (out, i, code) = foldl cobs_step (pre @ 0 # blk, length pre, Suc (length blk)) data
    in out[i := of_nat code]) = pre @ cobs_ref blk data"
proof (induction blk data arbitrary: pre rule: cobs_ref.induct)
  case (1 blk)
  then show ?case by simp
next
  case (2 blk b data)
  consider "b = 0" | "b \<noteq> 0" "length blk = 253" | "b \<noteq> 0" "length blk \<noteq> 253" by blast
  then show ?case
  proof cases
    case 1
    from "2.IH"(1) [OF 1, of "pre @ of_nat (Suc (length blk)) # blk"] 1 show ?thesis
      by (simp only: foldl_Cons cobs_step_block) simp
  next
    case b: 2
    from "2.IH"(2) [OF b, of "pre @ 0xFF # blk @ [b]"] b show ?thesis
      by (simp only: foldl_Cons cobs_step_block) simp
  next
    case b: 3
    from "2.IH"(3) [OF b, of pre] b show ?thesis
      by (simp only: foldl_Cons cobs_step_block) simp
  qed
qed

lemma cobs_encode_ref: "cobs_encode data = cobs_ref [] data"
  using cobs_fold_ref [of "[]" "[]" data] by (simp add: cobs_encode_def)

lemma cobs_ref_nonempty: "cobs_ref blk data \<noteq> []"
  by (induction blk data rule: cobs_ref.induct) auto

lemma unat_code: "n \<le> 254 \<Longrightarrow> unat (1 + of_nat n :: byte) = n + 1"
  using unat_of_nat [where 'a = 8, of "n + 1"] by (simp add: take_bit_nat_eq_self)

lemma code_nonzero: "n \<le> 254 \<Longrightarrow> (1 + of_nat n :: byte) \<noteq> 0"
  using unat_code [of n] by (metis Suc_eq_plus1 nat.distinct(1) unat_0)

lemma code_less_ff: "n < 254 \<Longrightarrow> (1 + of_nat n :: byte) < 0xFF"
  by (simp add: word_less_nat_alt unat_code)

lemma cobs_loop_ref:
  "length blk \<le> 253 \<Longrightarrow> cobs_loop out (cobs_ref blk data) = Inr (out @ blk @ data)"
proof (induction blk data arbitrary: out rule: cobs_ref.induct)
  case (1 blk)
  then show ?case
    by (simp add: cobs_copy_eq unat_code code_nonzero)
next
  case (2 blk b data)
  consider "b = 0" | "b \<noteq> 0" "length blk = 253" | "b \<noteq> 0" "length blk \<noteq> 253" by blast
  then show ?case
  proof cases
    case 1
    with 2 show ?thesis
      by (simp add: cobs_copy_eq unat_code code_nonzero code_less_ff cobs_ref_nonempty)
  next
    case b: 2
    with 2 show ?thesis by (simp add: cobs_copy_eq)
  next
    case b: 3
    with 2 show ?thesis by simp
  qed
qed

lemma cobs_ref_no_zero:
  "\<lbrakk>length blk \<le> 253; 0 \<notin> set blk\<rbrakk> \<Longrightarrow> 0 \<notin> set (cobs_ref blk data)"
  by (induction blk data rule: cobs_ref.induct) (auto simp: code_nonzero)

lemma cobs_ref_length:
  "length blk \<le> 253 \<Longrightarrow>
     length (cobs_ref blk data)
       \<le> length blk + length data + 1 + (length blk + length data) div 254"
proof (induction blk data rule: cobs_ref.induct)
  case (2 blk b data)
  consider "b = 0" | "b \<noteq> 0" "length blk = 253" | "b \<noteq> 0" "length blk \<noteq> 253" by blast
  then show ?case
  proof cases
    case 1
    with 2 have "length (cobs_ref [] data) \<le> length data + 1 + length data div 254" by simp
    also have "length data div 254 \<le> (length blk + length (b # data)) div 254"
      by (rule div_le_mono) simp
    finally show ?thesis using 1 by simp
  qed (use 2 in auto)
qed simp

section \<open>Frames\<close>

definition frame_serial :: "bytes \<Rightarrow> bytes result" where
  "frame_serial payload =
     rbind (struct_pack [SU 2] [VInt (crc16 payload)]) (\<lambda>trailer.
     Inr (cobs_encode (payload @ trailer) @ [0]))"

definition deframe_serial :: "bytes \<Rightarrow> bytes result" where
  "deframe_serial frame =
     rbind (cobs_decode frame) (\<lambda>decoded.
     if length decoded < 2 then Inl ValueError
     else let payload = take (length decoded - 2) decoded
          in rbind (struct_unpack [SU 2] (drop (length decoded - 2) decoded)) (\<lambda>vs.
             if vs \<noteq> [VInt (crc16 payload)] then Inl ValueError else Inr payload))"

text \<open>The body of a frame: COBS of the payload and its checksum, without the delimiter.\<close>

definition frame_body :: "bytes \<Rightarrow> bytes" where
  "frame_body payload = cobs_encode (payload @ le_bytes 2 (crc16 payload))"

lemma frame_serial_body: "frame_serial payload = Inr (frame_body payload @ [0])"
  using crc16_bounds [of payload] by (simp add: frame_serial_def frame_body_def)

lemma deframe_cobs:
  assumes "length trailer = 2"
  shows "deframe_serial (cobs_encode (payload @ trailer)) =
           (if le_int trailer = crc16 payload then Inr payload else Inl ValueError)"
  using assms
  by (simp add: deframe_serial_def cobs_decode_def cobs_encode_ref cobs_loop_ref
      struct_unpack_def)

lemma crc_trailer: "le_int (le_bytes 2 (crc16 payload)) = crc16 payload"
  using crc16_bounds [of payload] by (simp add: le_int_le_bytes)

lemma deframe_error: "deframe_serial frame = Inl e \<Longrightarrow> e = ValueError"
proof -
  have "cobs_loop out data = Inl e \<Longrightarrow> e = ValueError" for out data e
    by (induction out data rule: cobs_loop.induct)
       (auto simp: cobs_copy_eq split: if_splits)
  then show "deframe_serial frame = Inl e \<Longrightarrow> e = ValueError"
    by (auto simp: deframe_serial_def cobs_decode_def struct_unpack_def rbind_eq_Inl Let_def
        split: if_splits)
qed

section \<open>The stream reader\<close>

record serial_reader =
  sr_buf :: bytes

definition serial_reader_init :: serial_reader where
  "serial_reader_init = \<lparr>sr_buf = []\<rparr>"

fun index_zero :: "bytes \<Rightarrow> nat option" where
  "index_zero [] = None"
| "index_zero (b # bs) = (if b = 0 then Some 0 else map_option Suc (index_zero bs))"

lemma index_zero_less: "index_zero bs = Some i \<Longrightarrow> i < length bs"
  by (induction bs arbitrary: i) (auto split: if_splits)

function feed_loop :: "bytes \<Rightarrow> bytes list \<Rightarrow> (bytes list \<times> bytes) result" where
  "feed_loop buf payloads =
     (case index_zero buf of
        None \<Rightarrow> Inr (payloads, buf)
      | Some idx \<Rightarrow>
          let frame = take idx buf; buf = drop (idx + 1) buf
          in if frame = [] then feed_loop buf payloads
             else case deframe_serial frame of
                    Inr p \<Rightarrow> feed_loop buf (payloads @ [p])
                  | Inl e \<Rightarrow> if e = ValueError then feed_loop buf payloads else Inl e)"
  by pat_completeness auto
termination
  by (relation "measure (\<lambda>(buf, payloads). length buf)") (auto dest: index_zero_less)

declare feed_loop.simps [simp del]

definition serial_feed :: "serial_reader \<Rightarrow> bytes \<Rightarrow> (bytes list \<times> serial_reader) result" where
  "serial_feed r chunk =
     rbind (feed_loop (sr_buf r @ chunk) []) (\<lambda>(payloads, buf).
     Inr (payloads, r\<lparr>sr_buf := buf\<rparr>))"

fun feed_all :: "serial_reader \<Rightarrow> bytes list \<Rightarrow> (bytes list \<times> serial_reader) result" where
  "feed_all r [] = Inr ([], r)"
| "feed_all r (chunk # chunks) =
     rbind (serial_feed r chunk) (\<lambda>(ps, r).
     rbind (feed_all r chunks) (\<lambda>(qs, r). Inr (ps @ qs, r)))"

text \<open>
  The specification: cut the stream at the delimiters, keep the payloads of the frames that
  check. It reads byte by byte, \<open>cur\<close> being the frame under way.
\<close>

fun split_frames :: "bytes \<Rightarrow> bytes \<Rightarrow> bytes list \<times> bytes" where
  "split_frames cur [] = ([], cur)"
| "split_frames cur (b # bs) =
     (if b = 0 then let (fs, r) = split_frames [] bs in (cur # fs, r)
      else split_frames (cur @ [b]) bs)"

definition frame_payloads :: "bytes \<Rightarrow> bytes list" where
  "frame_payloads frame =
     (if frame = [] then []
      else case deframe_serial frame of Inr p \<Rightarrow> [p] | Inl e \<Rightarrow> [])"

lemma frame_payloads_simps:
  "frame_payloads [] = []"
  "\<lbrakk>f \<noteq> []; deframe_serial f = Inr p\<rbrakk> \<Longrightarrow> frame_payloads f = [p]"
  "deframe_serial f = Inl e \<Longrightarrow> frame_payloads f = []"
  by (simp_all add: frame_payloads_def)

lemma split_frames_append:
  "split_frames cur (xs @ ys) =
     (let (fs, r) = split_frames cur xs; (gs, q) = split_frames r ys in (fs @ gs, q))"
  by (induction cur xs rule: split_frames.induct) (auto simp: Let_def split: prod.splits)

lemma split_frames_no_zero: "0 \<notin> set xs \<Longrightarrow> split_frames cur xs = ([], cur @ xs)"
  by (induction xs arbitrary: cur) auto

lemma split_frames_rest: "0 \<notin> set cur \<Longrightarrow> 0 \<notin> set (snd (split_frames cur xs))"
  by (induction cur xs rule: split_frames.induct) (auto split: prod.splits)

lemma index_zero_split:
  "split_frames cur bs =
     (case index_zero bs of
        None \<Rightarrow> ([], cur @ bs)
      | Some i \<Rightarrow> let (fs, r) = split_frames [] (drop (Suc i) bs) in ((cur @ take i bs) # fs, r))"
  by (induction bs arbitrary: cur) (auto split: option.splits)

lemma feed_loop_spec:
  "feed_loop buf payloads =
     (let (fs, r) = split_frames [] buf in Inr (payloads @ concat (map frame_payloads fs), r))"
proof (induction buf payloads rule: feed_loop.induct)
  case (1 buf payloads)
  show ?case
  proof (cases "index_zero buf")
    case None
    then show ?thesis
      by (subst feed_loop.simps) (simp add: index_zero_split [of "[]" buf])
  next
    case (Some i)
    show ?thesis
    proof (cases "take i buf = []")
      case True
      with Some 1(1) [OF Some refl refl True] show ?thesis
        by (subst feed_loop.simps)
           (auto simp: index_zero_split [of "[]" buf] frame_payloads_simps split: prod.splits)
    next
      case False
      show ?thesis
      proof (cases "deframe_serial (take i buf)")
        case (Inl e)
        then have "e = ValueError" by (rule deframe_error)
        with Some False Inl 1(2) [OF Some refl refl False Inl] show ?thesis
          by (subst feed_loop.simps)
             (simp add: index_zero_split [of "[]" buf] frame_payloads_simps split: prod.splits)
      next
        case (Inr p)
        with Some False 1(3) [OF Some refl refl False Inr] show ?thesis
          by (subst feed_loop.simps)
             (simp add: index_zero_split [of "[]" buf] frame_payloads_simps split: prod.splits)
      qed
    qed
  qed
qed

lemma serial_feed_spec:
  assumes "0 \<notin> set (sr_buf r)"
  shows "serial_feed r chunk =
           (let (fs, q) = split_frames (sr_buf r) chunk
            in Inr (concat (map frame_payloads fs), \<lparr>sr_buf = q\<rparr>))"
  using split_frames_append [of "[]" "sr_buf r" chunk] assms
  by (cases r) (simp add: serial_feed_def feed_loop_spec split_frames_no_zero split: prod.splits)

lemma feed_all_spec:
  "0 \<notin> set (sr_buf r) \<Longrightarrow>
     feed_all r chunks =
       (let (fs, q) = split_frames (sr_buf r) (concat chunks)
        in Inr (concat (map frame_payloads fs), \<lparr>sr_buf = q\<rparr>))"
proof (induction chunks arbitrary: r)
  case Nil
  then show ?case by (cases r) simp
next
  case (Cons chunk chunks)
  obtain fs q where fq: "split_frames (sr_buf r) chunk = (fs, q)" by fastforce
  with Cons.prems have "0 \<notin> set q"
    using split_frames_rest [of "sr_buf r" chunk] by simp
  with Cons.IH [of "\<lparr>sr_buf = q\<rparr>"] Cons.prems fq show ?case
    by (simp add: serial_feed_spec split_frames_append Let_def split: prod.splits)
qed

text \<open>
  What the reader relies on in a stuffing: a frame decodes to its payload, and holds neither a
  delimiter nor nothing at all. Then a delimited sequence of frames is cut as it was built.
\<close>

locale stuffing =
  fixes enc :: "bytes \<Rightarrow> bytes"
    and dec :: "bytes \<Rightarrow> bytes result"
  assumes dec_enc: "dec (enc p) = Inr p"
    and enc_no_zero: "0 \<notin> set (enc p)"
    and enc_nonempty: "enc p \<noteq> []"
begin

lemma split_stream:
  "split_frames [] (concat (map (\<lambda>p. enc p @ [0]) ps)) = (map enc ps, [])"
  by (induction ps) (simp_all add: split_frames_append split_frames_no_zero enc_no_zero)

lemma enc_inj: "enc p = enc q \<Longrightarrow> p = q"
  by (metis dec_enc Inr_inject)

end

interpretation serial: stuffing frame_body deframe_serial
proof unfold_locales
  fix p :: bytes
  show "deframe_serial (frame_body p) = Inr p"
    by (simp add: frame_body_def deframe_cobs crc_trailer)
  show "0 \<notin> set (frame_body p)" and "frame_body p \<noteq> []"
    by (simp_all add: frame_body_def cobs_encode_ref cobs_ref_no_zero cobs_ref_nonempty)
qed

lemma frame_payloads_body: "frame_payloads (frame_body p) = [p]"
  by (simp add: frame_payloads_def serial.dec_enc serial.enc_nonempty)

section \<open>The properties of the framing\<close>

text \<open>COBS loses nothing: what \<open>cobs_encode\<close> writes contains no 0x00 byte, decodes to
  the data it came from, and is longer than the data by one byte and one more for each full
  254 bytes at most.\<close>

theorem cobs_roundtrip:
  "cobs_decode (cobs_encode data) = Inr data
   \<and> 0 \<notin> set (cobs_encode data)
   \<and> length (cobs_encode data) \<le> length data + 1 + length data div 254"
  using cobs_ref_length [of "[]" data]
  by (simp add: cobs_encode_ref cobs_decode_def cobs_loop_ref cobs_ref_no_zero)

text \<open>A serial frame always gets built, ends in the only 0x00 byte it has, and the bytes
  before it give the payload back.\<close>

theorem frame_roundtrip:
  "\<exists>body. frame_serial payload = Inr (body @ [0]) \<and> 0 \<notin> set body
        \<and> deframe_serial body = Inr payload"
  using frame_serial_body [of payload] serial.dec_enc [of payload] serial.enc_no_zero [of payload]
  by blast

text \<open>A frame in which one byte of the payload was changed after the checksum was taken
  is refused with ValueError, whatever the byte and its place.\<close>

theorem deframe_detects_byte:
  assumes "a \<noteq> b"
  shows "deframe_serial (cobs_encode ((pre @ b # suf) @ le_bytes 2 (crc16 (pre @ a # suf))))
           = Inl ValueError"
  using crc16_one_byte [OF assms, of pre suf] crc_trailer [of "pre @ a # suf"]
  by (simp only: deframe_cobs length_le_bytes) simp

lemma deframe_detects_byte_witness:
  "deframe_serial (cobs_encode (([1] @ 3 # []) @ le_bytes 2 (crc16 ([1] @ 2 # [])))) = Inl ValueError"
  by (rule deframe_detects_byte) simp

text \<open>C3: The reader does not depend on how the stream is cut into chunks: fed any chunks,
  it yields the payloads and ends in the buffer that one read of all the bytes would give,
  and it never raises.\<close>

theorem feed_chunking:
  assumes "0 \<notin> set (sr_buf r)"
  shows "feed_all r chunks = serial_feed r (concat chunks)
         \<and> (\<exists>ps q. feed_all r chunks = Inr (ps, q) \<and> 0 \<notin> set (sr_buf q))"
  using assms split_frames_rest [OF assms, of "concat chunks"]
  by (auto simp: feed_all_spec serial_feed_spec split: prod.splits)

lemma feed_chunking_witness:
  "feed_all serial_reader_init [[2], [7, 0, 1]] = serial_feed serial_reader_init (concat [[2], [7, 0, 1]])
   \<and> (\<exists>ps q. feed_all serial_reader_init [[2], [7, 0, 1]] = Inr (ps, q) \<and> 0 \<notin> set (sr_buf q))"
  by (rule feed_chunking) (simp add: serial_reader_init_def)

text \<open>C2: The reader resynchronises: whatever garbage it was fed, after one delimiter it
  yields exactly the payloads of the frames that follow (after what the garbage itself gave),
  and its buffer is empty again.\<close>

theorem feed_resync:
  assumes "0 \<notin> set (sr_buf r)"
    and "map frame_serial ps = map Inr frames"
  shows "\<exists>junk. serial_feed r (garbage @ [0] @ concat frames) = Inr (junk @ ps, serial_reader_init)"
proof -
  from assms(2) have frames: "frames = map (\<lambda>p. frame_body p @ [0]) ps"
    by (induction ps arbitrary: frames) (auto simp: frame_serial_body Cons_eq_map_conv)
  obtain fs q where fq: "split_frames (sr_buf r) garbage = (fs, q)" by fastforce
  have "concat (map frame_payloads (map frame_body ps)) = ps"
    by (induction ps) (simp_all add: frame_payloads_body)
  moreover have "split_frames (sr_buf r) (garbage @ [0] @ concat frames)
                   = (fs @ q # map frame_body ps, [])"
    by (simp add: split_frames_append fq serial.split_stream frames)
  ultimately show ?thesis
    by (auto simp: serial_feed_spec [OF assms(1)] serial_reader_init_def)
qed

lemma feed_resync_witness:
  "\<exists>junk. serial_feed serial_reader_init ([5, 6] @ [0] @ concat [frame_body [1, 0] @ [0]])
            = Inr (junk @ [[1, 0]], serial_reader_init)"
  by (rule feed_resync) (simp_all add: serial_reader_init_def frame_serial_body)

end
