(* ===== verification/Utf8.thy ===== *)
theory Utf8
  imports Struct
begin

text \<open>
  The text fields of the protocol: a Python string is its list of code points, \<open>encode("utf-8")\<close>
  raises for a surrogate, and \<open>decode("utf-8", "replace")\<close> never raises: each maximal piece
  of an ill-formed sequence becomes U+FFFD. The lemmas: decoding undoes encoding, and decoding
  an encoding cut at any byte gives a prefix of the text with at most one U+FFFD behind it.
\<close>

type_synonym pystr = "nat list"

text \<open>A literal of the source as text.\<close>

definition ascii :: "string \<Rightarrow> pystr" where
  "ascii s = map of_char s"

section \<open>Encoding\<close>

definition scalar_value :: "nat \<Rightarrow> bool" where
  "scalar_value c \<longleftrightarrow> c < 0xD800 \<or> 0xDFFF < c \<and> c \<le> 0x10FFFF"

definition utf8_code :: "nat \<Rightarrow> nat list" where
  "utf8_code c =
     (if c < 0x80 then [c]
      else if c < 0x800 then [0xC0 + c div 64, 0x80 + c mod 64]
      else if c < 0x10000 then [0xE0 + c div 4096, 0x80 + c div 64 mod 64, 0x80 + c mod 64]
      else [0xF0 + c div 262144, 0x80 + c div 4096 mod 64, 0x80 + c div 64 mod 64, 0x80 + c mod 64])"

fun utf8_encode :: "pystr \<Rightarrow> bytes result" where
  "utf8_encode [] = Inr []"
| "utf8_encode (c # cs) =
     (if scalar_value c
      then rbind (utf8_encode cs) (\<lambda>bs. Inr (map of_nat (utf8_code c) @ bs))
      else Inl UnicodeError)"

section \<open>Decoding with replacement\<close>

definition lead_len :: "nat \<Rightarrow> nat" where
  "lead_len b =
     (if b < 0x80 then 1
      else if 0xC2 \<le> b \<and> b \<le> 0xDF then 2
      else if 0xE0 \<le> b \<and> b \<le> 0xEF then 3
      else if 0xF0 \<le> b \<and> b \<le> 0xF4 then 4
      else 0)"

definition lead_bits :: "nat \<Rightarrow> nat" where
  "lead_bits b = (if b < 0xE0 then b - 0xC0 else if b < 0xF0 then b - 0xE0 else b - 0xF0)"

definition second_range :: "nat \<Rightarrow> nat \<times> nat" where
  "second_range b =
     (if b = 0xE0 then (0xA0, 0xBF)
      else if b = 0xED then (0x80, 0x9F)
      else if b = 0xF0 then (0x90, 0xBF)
      else if b = 0xF4 then (0x80, 0x8F)
      else (0x80, 0xBF))"

text \<open>The code point read and the number of bytes it took.\<close>

fun utf8_follow :: "nat \<Rightarrow> nat \<times> nat \<Rightarrow> nat \<Rightarrow> nat \<Rightarrow> nat list \<Rightarrow> nat \<times> nat" where
  "utf8_follow 0 rng acc k bs = (acc, k)"
| "utf8_follow (Suc n) rng acc k [] = (0xFFFD, k)"
| "utf8_follow (Suc n) rng acc k (b # bs) =
     (if fst rng \<le> b \<and> b \<le> snd rng
      then utf8_follow n (0x80, 0xBF) (acc * 64 + (b - 0x80)) (Suc k) bs
      else (0xFFFD, k))"

definition utf8_next :: "nat \<Rightarrow> nat list \<Rightarrow> nat \<times> nat" where
  "utf8_next b bs =
     (let n = lead_len b
      in if n = 0 then (0xFFFD, 1)
         else if n = 1 then (b, 1)
         else utf8_follow (n - 1) (second_range b) (lead_bits b) 1 bs)"

lemma utf8_follow_pos: "k \<le> snd (utf8_follow n rng acc k bs)"
proof (induction n rng acc k bs rule: utf8_follow.induct)
  case (3 n rng acc k b bs)
  then show ?case by (auto dest: Suc_leD)
qed auto

lemma utf8_next_pos: "0 < snd (utf8_next b bs)"
proof -
  have "Suc 0 \<le> snd (utf8_follow n rng acc 1 bs)" for n rng acc
    using utf8_follow_pos [of 1 n rng acc bs] by simp
  then show ?thesis
    by (simp add: utf8_next_def Let_def Suc_le_lessD)
qed

function utf8_codes :: "nat list \<Rightarrow> pystr" where
  "utf8_codes [] = []"
| "utf8_codes (b # bs) =
     (let (c, k) = utf8_next b bs in c # utf8_codes (drop k (b # bs)))"
  by pat_completeness auto
termination
proof (relation "measure length")
  fix b bs x c k
  assume "x = utf8_next b bs" and "(c, k) = x"
  with utf8_next_pos [of b bs] have "0 < k" by (metis snd_conv)
  then show "(drop k (b # bs), b # bs) \<in> measure length" by simp
qed simp

declare utf8_codes.simps(2) [simp del]

definition utf8_decode_replace :: "bytes \<Rightarrow> pystr" where
  "utf8_decode_replace bs = utf8_codes (map unat bs)"

section \<open>The round trip\<close>

lemma utf8_code_bytes:
  assumes "scalar_value c"
  shows "list_all (\<lambda>b. b < 256) (utf8_code c)" and "utf8_code c \<noteq> []"
  using assms by (auto simp: utf8_code_def scalar_value_def)

lemma utf8_code_cases:
  assumes "scalar_value c"
  obtains
    (one) "c < 0x80" "utf8_code c = [c]"
  | (two) a b where "2 \<le> a" "a < 32" "b < 64" "c = a * 64 + b"
      "utf8_code c = [0xC0 + a, 0x80 + b]"
  | (three) a b d where "a < 16" "b < 64" "d < 64" "c = (a * 64 + b) * 64 + d"
      "a = 0 \<Longrightarrow> 32 \<le> b" "a = 13 \<Longrightarrow> b \<le> 31"
      "utf8_code c = [0xE0 + a, 0x80 + b, 0x80 + d]"
  | (four) a b d e where "a \<le> 4" "b < 64" "d < 64" "e < 64"
      "c = ((a * 64 + b) * 64 + d) * 64 + e" "a = 0 \<Longrightarrow> 16 \<le> b" "a = 4 \<Longrightarrow> b \<le> 15"
      "utf8_code c = [0xF0 + a, 0x80 + b, 0x80 + d, 0x80 + e]"
proof -
  consider "c < 0x80" | "0x80 \<le> c" "c < 0x800" | "0x800 \<le> c" "c < 0x10000"
    | "0x10000 \<le> c" "c \<le> 0x10FFFF"
    using assms by (force simp: scalar_value_def)
  then show ?thesis
  proof cases
    case 1
    then show ?thesis by (intro one) (auto simp: utf8_code_def)
  next
    case 2
    then show ?thesis by (intro two [of "c div 64" "c mod 64"]) (auto simp: utf8_code_def)
  next
    case 3
    define a b d where "a = c div 4096" and "b = c div 64 mod 64" and "d = c mod 64"
    with 3 have code: "utf8_code c = [0xE0 + a, 0x80 + b, 0x80 + d]"
      by (simp add: utf8_code_def)
    have "c div 4096 = c div 64 div 64" by (simp flip: div_mult2_eq)
    then have c: "c = (a * 64 + b) * 64 + d"
      by (simp only: a_def b_def d_def div_mult_mod_eq)
    have "b < 64" and "d < 64" by (simp_all add: b_def d_def)
    moreover from this 3 assms c have "a < 16" "a = 0 \<Longrightarrow> 32 \<le> b" "a = 13 \<Longrightarrow> b \<le> 31"
      by (auto simp: scalar_value_def)
    ultimately show ?thesis using c code by (intro three)
  next
    case 4
    define a b d e
      where "a = c div 262144" and "b = c div 4096 mod 64" and "d = c div 64 mod 64" and "e = c mod 64"
    with 4 have code: "utf8_code c = [0xF0 + a, 0x80 + b, 0x80 + d, 0x80 + e]"
      by (simp add: utf8_code_def)
    have "c div 262144 = c div 64 div 64 div 64" and "c div 4096 = c div 64 div 64"
      by (simp_all flip: div_mult2_eq)
    then have c: "c = ((a * 64 + b) * 64 + d) * 64 + e"
      by (simp only: a_def b_def d_def e_def div_mult_mod_eq)
    have "b < 64" and "d < 64" and "e < 64" by (simp_all add: b_def d_def e_def)
    moreover from this 4 c have "a \<le> 4" "a = 0 \<Longrightarrow> 16 \<le> b" "a = 4 \<Longrightarrow> b \<le> 15"
      by auto
    ultimately show ?thesis using c code by (intro four)
  qed
qed

lemma utf8_codes_next:
  "utf8_next b bs = (c, k) \<Longrightarrow> utf8_codes (b # bs) = c # utf8_codes (drop k (b # bs))"
  by (simp add: utf8_codes.simps(2))

text \<open>One code point: the lead byte tells how many follow, and the range of the second.\<close>

lemma lead_simps:
  "b < 0x80 \<Longrightarrow> utf8_next b bs = (b, 1)"
  "\<lbrakk>2 \<le> a; a < 32\<rbrakk> \<Longrightarrow> utf8_next (0xC0 + a) bs = utf8_follow 1 (0x80, 0xBF) a 1 bs"
  "a < 16 \<Longrightarrow> utf8_next (0xE0 + a) bs =
     utf8_follow 2 (if a = 0 then 0xA0 else 0x80, if a = 13 then 0x9F else 0xBF) a 1 bs"
  "a \<le> 4 \<Longrightarrow> utf8_next (0xF0 + a) bs =
     utf8_follow 3 (if a = 0 then 0x90 else 0x80, if a = 4 then 0x8F else 0xBF) a 1 bs"
  by (simp_all add: utf8_next_def lead_len_def lead_bits_def second_range_def)

lemma follow_simps:
  "\<lbrakk>lo \<le> 0x80 + x; 0x80 + x \<le> hi\<rbrakk> \<Longrightarrow>
     utf8_follow (Suc n) (lo, hi) acc k ((0x80 + x) # bs)
       = utf8_follow n (0x80, 0xBF) (acc * 64 + x) (Suc k) bs"
  by simp

lemma utf8_next_code:
  assumes "scalar_value c"
  shows "utf8_next (hd (utf8_code c)) (tl (utf8_code c) @ rest) = (c, length (utf8_code c))"
  using assms
proof (cases rule: utf8_code_cases)
  case one
  then show ?thesis by (simp add: lead_simps)
next
  case (two a b)
  then show ?thesis by (simp add: lead_simps)
next
  case (three a b d)
  then have "utf8_next (0xE0 + a) ((0x80 + b) # (0x80 + d) # rest)
      = utf8_follow 1 (0x80, 0xBF) (a * 64 + b) 2 ((0x80 + d) # rest)"
    by (simp add: lead_simps numeral_2_eq_2)
  with three show ?thesis by simp
next
  case (four a b d e)
  then have "utf8_next (0xF0 + a) ((0x80 + b) # (0x80 + d) # (0x80 + e) # rest)
      = utf8_follow 2 (0x80, 0xBF) (a * 64 + b) 2 ((0x80 + d) # (0x80 + e) # rest)"
    by (simp add: lead_simps numeral_3_eq_3 numeral_2_eq_2)
  with four show ?thesis by (simp add: numeral_2_eq_2)
qed

text \<open>A code point cut short: its bytes so far make one replacement character.\<close>

lemma utf8_next_cut:
  assumes "scalar_value c" and "0 < n" and "n < length (utf8_code c)"
  shows "utf8_next (hd (utf8_code c)) (tl (take n (utf8_code c))) = (0xFFFD, n)"
  using assms(1)
proof (cases rule: utf8_code_cases)
  case one
  with assms show ?thesis by simp
next
  case (two a b)
  with assms have "n = 1" by simp
  with two show ?thesis by (simp add: lead_simps)
next
  case (three a b d)
  with assms consider "n = 1" | "n = 2" by fastforce
  then show ?thesis
    by cases (use three in \<open>simp_all add: lead_simps numeral_2_eq_2\<close>)
next
  case (four a b d e)
  with assms consider "n = 1" | "n = 2" | "n = 3" by fastforce
  then show ?thesis
    by cases (use four in \<open>simp_all add: lead_simps numeral_3_eq_3 numeral_2_eq_2\<close>)
qed

lemma utf8_codes_code:
  assumes "scalar_value c"
  shows "utf8_codes (utf8_code c @ rest) = c # utf8_codes rest"
proof -
  have "utf8_code c @ rest = hd (utf8_code c) # tl (utf8_code c) @ rest"
    using utf8_code_bytes(2) [OF assms] by (cases "utf8_code c") simp_all
  with utf8_codes_next [OF utf8_next_code [OF assms, of rest]] show ?thesis
    by (metis append_eq_conv_conj)
qed

lemma utf8_codes_cut:
  assumes "scalar_value c" and "n < length (utf8_code c)"
  shows "utf8_codes (take n (utf8_code c)) = (if n = 0 then [] else [0xFFFD])"
proof (cases "n = 0")
  case False
  then have "take n (utf8_code c) = hd (utf8_code c) # tl (take n (utf8_code c))"
    by (cases "utf8_code c"; cases n) (use assms in auto)
  with utf8_codes_next [OF utf8_next_cut [OF assms(1) _ assms(2)]] False show ?thesis
    by simp
qed simp

lemma unat_bytes:
  assumes "scalar_value c"
  shows "map (unat \<circ> (of_nat :: nat \<Rightarrow> byte)) (utf8_code c) = utf8_code c"
proof (rule map_idI)
  fix b assume "b \<in> set (utf8_code c)"
  with utf8_code_bytes(1) [OF assms] have "b < 256" by (simp add: list_all_iff)
  then show "(unat \<circ> (of_nat :: nat \<Rightarrow> byte)) b = b"
    by (simp add: unat_of_nat take_bit_nat_eq_self)
qed

lemma utf8_encode_codes:
  assumes "list_all scalar_value s"
  shows "\<exists>bs. utf8_encode s = Inr bs \<and> map unat bs = concat (map utf8_code s)"
  using assms
proof (induction s)
  case (Cons c s)
  then obtain bs where "utf8_encode s = Inr bs" "map unat bs = concat (map utf8_code s)" by auto
  with Cons show ?case by (simp add: unat_bytes)
qed simp

lemma utf8_encode_Inr_iff: "(\<exists>bs. utf8_encode s = Inr bs) \<longleftrightarrow> list_all scalar_value s"
  by (induction s) (auto simp: rbind_eq_Inr)

lemma utf8_codes_take:
  assumes "list_all scalar_value s"
  shows "\<exists>t. utf8_codes (take n (concat (map utf8_code s))) = t
           \<and> (\<exists>k. t = take k s \<or> t = take k s @ [0xFFFD])"
  using assms
proof (induction s arbitrary: n)
  case (Cons c s)
  show ?case
  proof (cases "n < length (utf8_code c)")
    case True
    then have "utf8_codes (take n (concat (map utf8_code (c # s)))) = (if n = 0 then [] else [0xFFFD])"
      using utf8_codes_cut [of c n] Cons.prems by simp
    then show ?thesis by (metis append_Nil take_0)
  next
    case False
    from Cons obtain k where
      k: "utf8_codes (take (n - length (utf8_code c)) (concat (map utf8_code s))) \<in>
            {take k s, take k s @ [0xFFFD]}"
      by fastforce
    have "utf8_codes (take n (concat (map utf8_code (c # s)))) =
            c # utf8_codes (take (n - length (utf8_code c)) (concat (map utf8_code s)))"
      using False Cons.prems by (simp add: utf8_codes_code)
    with k show ?thesis
      by (intro exI [of _ "Suc k"] exI conjI refl) auto
  qed
qed simp

text \<open>The two facts the text fields of the messages rest on.\<close>

lemma utf8_roundtrip:
  assumes "utf8_encode s = Inr bs"
  shows "utf8_decode_replace bs = s"
proof -
  have sv: "list_all scalar_value s"
    using assms utf8_encode_Inr_iff [of s] by blast
  with assms utf8_encode_codes [OF sv] have "map unat bs = concat (map utf8_code s)" by simp
  moreover have "utf8_codes (concat (map utf8_code s)) = s"
    using sv by (induction s) (simp_all add: utf8_codes_code)
  ultimately show ?thesis by (simp add: utf8_decode_replace_def)
qed

lemma utf8_cut:
  assumes "utf8_encode s = Inr bs"
  shows "\<exists>k. utf8_decode_replace (take n bs) \<in> {take k s, take k s @ [0xFFFD]}"
proof -
  have sv: "list_all scalar_value s"
    using assms utf8_encode_Inr_iff [of s] by blast
  with assms utf8_encode_codes [OF sv] have "map unat bs = concat (map utf8_code s)" by simp
  with utf8_codes_take [OF sv, of n] show ?thesis
    by (simp add: utf8_decode_replace_def flip: take_map)
qed

end
