(* ===== verification/Protocol.thy ===== *)
theory Protocol
  imports Struct
begin

text \<open>
  The vocabulary of \<open>proto/swarm_proto.py\<close>: the enumerations with their wire codes, the
  bitmaps with their bits, the manifests of names the dashboard shows, and the text form of a
  module id. The lemmas: a code belongs to one constructor, a manifest lists exactly the bits
  that are set, and an id survives the way to text and back.
\<close>

section \<open>Enumerations\<close>

datatype msg_type =
    HELLO | TELEMETRY | NEIGHBORS | RANGE_REQ | RANGE_RESP | POSE_INJECT | MESH_SEND
  | ROUTE | CMD | BROADCAST

fun msg_code :: "msg_type \<Rightarrow> int" where
  "msg_code HELLO = 0x01"
| "msg_code TELEMETRY = 0x02"
| "msg_code NEIGHBORS = 0x03"
| "msg_code RANGE_REQ = 0x04"
| "msg_code RANGE_RESP = 0x05"
| "msg_code POSE_INJECT = 0x06"
| "msg_code MESH_SEND = 0x07"
| "msg_code ROUTE = 0x10"
| "msg_code CMD = 0x11"
| "msg_code BROADCAST = 0x12"

definition all_msg_types :: "msg_type list" where
  "all_msg_types =
     [HELLO, TELEMETRY, NEIGHBORS, RANGE_REQ, RANGE_RESP, POSE_INJECT, MESH_SEND, ROUTE, CMD,
      BROADCAST]"

text \<open>\<open>MsgType(code)\<close>, as the decoder table looks a code up.\<close>

definition msg_of_code :: "int \<Rightarrow> msg_type option" where
  "msg_of_code c = map_of (map (\<lambda>t. (msg_code t, t)) all_msg_types) c"

lemma msg_of_code_code [simp]: "msg_of_code (msg_code t) = Some t"
  by (cases t) (simp_all add: msg_of_code_def all_msg_types_def)

lemma msg_of_code_Some: "msg_of_code c = Some t \<Longrightarrow> c = msg_code t"
  by (auto simp: msg_of_code_def all_msg_types_def split: if_splits)

lemma msg_code_range: "0 \<le> msg_code t" "msg_code t < 256"
  by (cases t; simp)+

datatype mount = STANDALONE | VEHICLE

fun mount_code :: "mount \<Rightarrow> int" where
  "mount_code STANDALONE = 0"
| "mount_code VEHICLE = 1"

datatype pos_source = SRC_NONE | SRC_GPS | SRC_RANGED | SRC_IMU | SRC_FUSED

fun pos_source_code :: "pos_source \<Rightarrow> int" where
  "pos_source_code SRC_NONE = 0"
| "pos_source_code SRC_GPS = 1"
| "pos_source_code SRC_RANGED = 2"
| "pos_source_code SRC_IMU = 3"
| "pos_source_code SRC_FUSED = 4"

datatype node_status =
    ST_IDLE | ST_SCANNING | ST_TRANSITING | ST_EXECUTING | ST_RETURNING | ST_CHARGING
  | ST_EMERGENCY | ST_OFFLINE

fun status_code :: "node_status \<Rightarrow> int" where
  "status_code ST_IDLE = 0"
| "status_code ST_SCANNING = 1"
| "status_code ST_TRANSITING = 2"
| "status_code ST_EXECUTING = 3"
| "status_code ST_RETURNING = 4"
| "status_code ST_CHARGING = 5"
| "status_code ST_EMERGENCY = 6"
| "status_code ST_OFFLINE = 7"

text \<open>The channels of a reading, with the names \<open>Channel.name.lower()\<close> gives them.\<close>

definition channel_names :: "(int, string) dict" where
  "channel_names =
     [(0x01, ''temp''), (0x02, ''humidity''), (0x03, ''pressure''), (0x10, ''accel_x''),
      (0x11, ''accel_y''), (0x12, ''accel_z''), (0x13, ''gyro_x''), (0x14, ''gyro_y''),
      (0x15, ''gyro_z''), (0x16, ''vel_n''), (0x17, ''vel_e''), (0x18, ''vel_d''),
      (0x19, ''pos_var''), (0x1A, ''vel_var''), (0x1B, ''hdg_var''), (0x1C, ''mag_hdg''),
      (0x20, ''rangefinder''), (0x30, ''battery_v'')]"

datatype cmd_op =
    NOOP | SET_ROLE | IDENTIFY | SET_RATE | REBOOT | LIGHT | SET_MOUNT | SET_WAYPOINT
  | SET_MISSION | OVERRIDE | CLEAR_OVERRIDE | SET_PERMISSIONS

fun cmd_code :: "cmd_op \<Rightarrow> int" where
  "cmd_code NOOP = 0"
| "cmd_code SET_ROLE = 1"
| "cmd_code IDENTIFY = 2"
| "cmd_code SET_RATE = 3"
| "cmd_code REBOOT = 4"
| "cmd_code LIGHT = 5"
| "cmd_code SET_MOUNT = 6"
| "cmd_code SET_WAYPOINT = 7"
| "cmd_code SET_MISSION = 8"
| "cmd_code OVERRIDE = 9"
| "cmd_code CLEAR_OVERRIDE = 10"
| "cmd_code SET_PERMISSIONS = 11"

lemma cmd_code_range: "0 \<le> cmd_code c" "cmd_code c < 256"
  by (cases c; simp)+

lemma cmd_code_eq_iff: "cmd_code a = cmd_code b \<longleftrightarrow> a = b"
  by (cases a; cases b; simp)

datatype mission_type = EXPLORE | SEARCH | COVERAGE | PATROL | GOTO | LOITER | RTL

fun mission_code :: "mission_type \<Rightarrow> int" where
  "mission_code EXPLORE = 0"
| "mission_code SEARCH = 1"
| "mission_code COVERAGE = 2"
| "mission_code PATROL = 3"
| "mission_code GOTO = 4"
| "mission_code LOITER = 5"
| "mission_code RTL = 6"

section \<open>Bitmaps\<close>

datatype frame_flag = F_GATEWAY | F_RELAYED | F_LEADER | F_OVERRIDE

fun flag_bit :: "frame_flag \<Rightarrow> int" where
  "flag_bit F_GATEWAY = 1"
| "flag_bit F_RELAYED = 2"
| "flag_bit F_LEADER = 4"
| "flag_bit F_OVERRIDE = 8"

datatype role = R_PROVIDER | R_CONSUMER | R_RELAY

fun role_bit :: "role \<Rightarrow> int" where
  "role_bit R_PROVIDER = 1"
| "role_bit R_CONSUMER = 2"
| "role_bit R_RELAY = 4"

datatype sensor =
    S_GPS | S_IMU | S_MAG | S_BARO | S_TEMP | S_HUMIDITY | S_RANGEFINDER | S_CAMERA | S_VIO

fun sensor_bit :: "sensor \<Rightarrow> int" where
  "sensor_bit S_GPS = 1"
| "sensor_bit S_IMU = 2"
| "sensor_bit S_MAG = 4"
| "sensor_bit S_BARO = 8"
| "sensor_bit S_TEMP = 16"
| "sensor_bit S_HUMIDITY = 32"
| "sensor_bit S_RANGEFINDER = 64"
| "sensor_bit S_CAMERA = 128"
| "sensor_bit S_VIO = 256"

datatype capability = C_OVERRIDABLE | C_AUTONOMOUS | C_PASSIVE_RX | C_BEACON_TX | C_RELAY_ONLY

fun capability_bit :: "capability \<Rightarrow> int" where
  "capability_bit C_OVERRIDABLE = 1"
| "capability_bit C_AUTONOMOUS = 2"
| "capability_bit C_PASSIVE_RX = 4"
| "capability_bit C_BEACON_TX = 8"
| "capability_bit C_RELAY_ONLY = 16"

datatype ekf_flag = E_GPS_USED | E_IMU_USED | E_VIO_USED | E_PEER_USED | E_CONVERGED

fun ekf_bit :: "ekf_flag \<Rightarrow> int" where
  "ekf_bit E_GPS_USED = 1"
| "ekf_bit E_IMU_USED = 2"
| "ekf_bit E_VIO_USED = 4"
| "ekf_bit E_PEER_USED = 8"
| "ekf_bit E_CONVERGED = 16"

definition sensor_names :: "(int, string) dict" where
  "sensor_names =
     [(sensor_bit S_GPS, ''gps''), (sensor_bit S_IMU, ''imu''), (sensor_bit S_MAG, ''magnetometer''),
      (sensor_bit S_BARO, ''barometer''), (sensor_bit S_TEMP, ''temperature''),
      (sensor_bit S_HUMIDITY, ''humidity''), (sensor_bit S_RANGEFINDER, ''rangefinder''),
      (sensor_bit S_CAMERA, ''camera''), (sensor_bit S_VIO, ''vio'')]"

definition capability_names :: "(int, string) dict" where
  "capability_names =
     [(capability_bit C_OVERRIDABLE, ''overridable''), (capability_bit C_AUTONOMOUS, ''autonomous''),
      (capability_bit C_PASSIVE_RX, ''passive_rx''), (capability_bit C_BEACON_TX, ''beacon_tx''),
      (capability_bit C_RELAY_ONLY, ''relay_only'')]"

definition sensor_list :: "int \<Rightarrow> string list" where
  "sensor_list bitmap = [name. (b, name) \<leftarrow> sensor_names, has_bits bitmap b]"

definition capability_list :: "int \<Rightarrow> string list" where
  "capability_list bitmap = [name. (b, name) \<leftarrow> capability_names, has_bits bitmap b]"

lemma sensor_list_mem:
  "(''gps'' \<in> set (sensor_list m) \<longleftrightarrow> has_bits m (sensor_bit S_GPS))
   \<and> (''vio'' \<in> set (sensor_list m) \<longleftrightarrow> has_bits m (sensor_bit S_VIO))"
  by (simp add: sensor_list_def sensor_names_def)

lemma sensor_list_length: "length (sensor_list m) \<le> 9"
  by (simp add: sensor_list_def sensor_names_def)

section \<open>Module ids as text\<close>

definition hex_digit :: "nat \<Rightarrow> char" where
  "hex_digit n = char_of (if n < 10 then 48 + n else 87 + n)"

definition hex_value :: "char \<Rightarrow> nat option" where
  "hex_value c =
     (let n = of_char c :: nat
      in if 48 \<le> n \<and> n \<le> 57 then Some (n - 48)
         else if 97 \<le> n \<and> n \<le> 102 then Some (n - 87)
         else if 65 \<le> n \<and> n \<le> 70 then Some (n - 55)
         else None)"

lemma hex_value_digit: "n < 16 \<Longrightarrow> hex_value (hex_digit n) = Some n"
  by (simp add: hex_value_def hex_digit_def Let_def)

text \<open>\<open>bytes.hex()\<close> and \<open>bytes.fromhex\<close>, which skips ASCII space between bytes.\<close>

fun eui_str :: "bytes \<Rightarrow> string" where
  "eui_str [] = []"
| "eui_str (b # bs) = hex_digit (unat b div 16) # hex_digit (unat b mod 16) # eui_str bs"

definition ascii_space :: "char \<Rightarrow> bool" where
  "ascii_space c \<longleftrightarrow> (of_char c :: nat) \<in> {9, 10, 11, 12, 13, 32}"

fun from_hex :: "string \<Rightarrow> bytes result" where
  "from_hex [] = Inr []"
| "from_hex [c] = (if ascii_space c then Inr [] else Inl ValueError)"
| "from_hex (c # d # s) =
     (if ascii_space c then from_hex (d # s)
      else case hex_value c of
             None \<Rightarrow> Inl ValueError
           | Some hi \<Rightarrow>
               (case hex_value d of
                  None \<Rightarrow> Inl ValueError
                | Some lo \<Rightarrow> rbind (from_hex s) (\<lambda>bs. Inr (of_nat (16 * hi + lo) # bs))))"

definition eui_bytes :: "string \<Rightarrow> bytes result" where
  "eui_bytes s =
     rbind (from_hex (filter (\<lambda>c. c \<noteq> CHR '':'') s)) (\<lambda>raw.
     if length raw \<noteq> 8 then Inl ValueError else Inr raw)"

lemma hex_digit_plain:
  assumes "n < 16"
  shows "\<not> ascii_space (hex_digit n)" and "hex_digit n \<noteq> CHR '':''"
proof -
  have "(of_char (hex_digit n) :: nat) = (if n < 10 then 48 + n else 87 + n)"
    using assms by (simp add: hex_digit_def)
  then show "\<not> ascii_space (hex_digit n)" and "hex_digit n \<noteq> CHR '':''"
    using assms by (auto simp: ascii_space_def split: if_splits)
qed

lemma from_hex_eui_str: "from_hex (eui_str bs) = Inr bs"
proof (induction bs)
  case (Cons b bs)
  have "unat b < 256" using unsigned_less [of b] by simp
  then have digits: "unat b div 16 < 16" "unat b mod 16 < 16" by simp_all
  have "of_nat (16 * (unat b div 16) + unat b mod 16) = b"
    by (simp only: mult_div_mod_eq) simp
  with Cons digits show ?case by (simp add: hex_digit_plain hex_value_digit)
qed simp

lemma filter_eui_str: "filter (\<lambda>c. c \<noteq> CHR '':'') (eui_str bs) = eui_str bs"
proof (induction bs)
  case (Cons b bs)
  have "unat b < 256" using unsigned_less [of b] by simp
  then have digits: "unat b div 16 < 16" "unat b mod 16 < 16" by simp_all
  from Cons hex_digit_plain(2) [OF digits(1)] hex_digit_plain(2) [OF digits(2)] show ?case
    by simp
qed simp

lemma eui_str_inj: "eui_str a = eui_str b \<Longrightarrow> a = b"
  by (metis from_hex_eui_str Inr_inject)

lemma length_eui_str: "length (eui_str bs) = 2 * length bs"
  by (induction bs) auto

text \<open>A module id of eight bytes survives the way to its text form and back, two different
  ids have different texts of 16 characters, and text that does not spell eight bytes is
  refused.\<close>

theorem eui_text_roundtrip:
  "(length e = 8 \<longrightarrow> eui_bytes (eui_str e) = Inr e \<and> length (eui_str e) = 16)
   \<and> (eui_str e = eui_str e' \<longleftrightarrow> e = e')
   \<and> (eui_bytes s = Inr e \<longrightarrow> length e = 8)
   \<and> (length e \<noteq> 8 \<longrightarrow> eui_bytes (eui_str e) = Inl ValueError)"
  by (auto simp: eui_bytes_def filter_eui_str from_hex_eui_str length_eui_str rbind_eq_Inr
      dest: eui_str_inj split: if_splits)

lemma eui_text_roundtrip_witness:
  "eui_bytes (eui_str [0xA1, 2, 3, 4, 5, 6, 7, 0xFF]) = Inr [0xA1, 2, 3, 4, 5, 6, 7, 0xFF]
   \<and> length (eui_str [0xA1, 2, 3, 4, 5, 6, 7, 0xFF]) = 16"
  using eui_text_roundtrip [of "[0xA1, 2, 3, 4, 5, 6, 7, 0xFF]"] by simp

end
