(* ===== verification/Messages.thy ===== *)
theory Messages
  imports Utf8 Protocol
begin

text \<open>
  The messages of \<open>proto/swarm_proto.py\<close>: one record per message class, its encoder and
  its decoder, the 16-byte header in front of each, and the dispatch on the message type. Each
  message comes with its well-formedness (what its encoder accepts) and its form on the wire
  (what the receiver gets: the fixed-point rounding and the cut names made explicit). The
  lemmas: a well-formed message is encoded, and decodes to its form on the wire.
\<close>

section \<open>Fixed point and bounds\<close>

text \<open>\<open>_clamp\<close>.\<close>

definition clamp :: "int \<Rightarrow> int \<Rightarrow> int \<Rightarrow> int" where
  "clamp v lo hi = (if v < lo then lo else if v > hi then hi else v)"

lemma clamp_bounds: "lo \<le> hi \<Longrightarrow> lo \<le> clamp v lo hi \<and> clamp v lo hi \<le> hi"
  by (simp add: clamp_def)

lemma clamp_id: "\<lbrakk>lo \<le> v; v \<le> hi\<rbrakk> \<Longrightarrow> clamp v lo hi = v"
  by (simp add: clamp_def)

definition fix_e7 :: "real \<Rightarrow> int" where
  "fix_e7 x = py_round (x * 10000000)"

definition fix_centi :: "real \<Rightarrow> int" where
  "fix_centi x = py_round (x * 100)"

lemma fix_e7_fits: "\<bar>x\<bar> \<le> 214 \<Longrightarrow> fits (SI 4) (VInt (fix_e7 x))"
  using py_round_lower [of "-2140000000" "x * 10000000"]
    py_round_upper [of "x * 10000000" 2140000000]
  by (simp add: fix_e7_def abs_le_iff)

lemma fix_centi_fits: "\<bar>x\<bar> \<le> 21000000 \<Longrightarrow> fits (SI 4) (VInt (fix_centi x))"
  using py_round_lower [of "-2100000000" "x * 100"] py_round_upper [of "x * 100" 2100000000]
  by (simp add: fix_centi_def abs_le_iff)

lemma scaled_error:
  assumes "0 < k"
  shows "\<bar>of_int (py_round (x * k)) / k - x\<bar> \<le> 1 / (2 * k)"
proof -
  have "of_int (py_round (x * k)) / k - x = (of_int (py_round (x * k)) - x * k) / k"
    using assms by (simp add: diff_divide_distrib)
  then have "\<bar>of_int (py_round (x * k)) / k - x\<bar> = \<bar>of_int (py_round (x * k)) - x * k\<bar> / k"
    using assms by (simp add: abs_divide)
  also have "\<dots> \<le> (1 / 2) / k"
    using assms by (intro divide_right_mono py_round_error) simp
  finally show ?thesis by simp
qed

lemma fix_e7_error: "\<bar>of_int (fix_e7 x) / 10000000 - x\<bar> \<le> 5 / 10 ^ 8"
  using scaled_error [of 10000000 x] by (simp add: fix_e7_def)

lemma fix_centi_error: "\<bar>of_int (fix_centi x) / 100 - x\<bar> \<le> 5 / 1000"
  using scaled_error [of 100 x] by (simp add: fix_centi_def)

lemma fix_centi_clamp:
  assumes "of_int lo \<le> x * 100" and "x * 100 \<le> of_int hi"
  shows "clamp (fix_centi x) lo hi = fix_centi x"
  using py_round_lower [OF assms(1)] py_round_upper [OF assms(2)]
  by (intro clamp_id) (simp_all add: fix_centi_def)

lemma and_mask_mod:
  "x AND 0xFF = (x :: int) mod 256"
  "x AND 0xFFFF = (x :: int) mod 65536"
  "x AND 0xFFFFFFFF = (x :: int) mod 4294967296"
  using take_bit_eq_mask [of 8 x] take_bit_eq_mask [of 16 x] take_bit_eq_mask [of 32 x]
  by (simp_all add: mask_eq_exp_minus_1 take_bit_eq_mod)

section \<open>The header\<close>

record header =
  hdr_type :: int
  hdr_eui :: bytes
  hdr_seq :: int
  hdr_flags :: int

definition hdr_fmt :: "sfmt list" where
  "hdr_fmt = [SU 1, SU 1, SU 1, SU 1, SBytes 8, SU 4]"

definition header_pack :: "header \<Rightarrow> bytes result" where
  "header_pack h =
     struct_pack hdr_fmt
       [VInt 0x53, VInt 0x01, VInt (hdr_type h), VInt (hdr_flags h), VBytes (hdr_eui h),
        VInt (hdr_seq h)]"

definition header_unpack :: "bytes \<Rightarrow> header result" where
  "header_unpack data =
     (if length data < 16 then Inl ValueError
      else rbind (struct_unpack hdr_fmt (take 16 data)) (\<lambda>vs.
        case vs of
          [VInt magic, VInt ver, VInt mtype, VInt flags, VBytes eui, VInt seq] \<Rightarrow>
            if magic \<noteq> 0x53 then Inl ValueError
            else if ver > 0x01 then Inl ValueError
            else Inr \<lparr>hdr_type = mtype, hdr_eui = eui, hdr_seq = seq, hdr_flags = flags\<rparr>
        | _ \<Rightarrow> Inl StructError))"

definition wf_header :: "header \<Rightarrow> bool" where
  "wf_header h \<longleftrightarrow>
     0 \<le> hdr_type h \<and> hdr_type h < 256 \<and> length (hdr_eui h) = 8
     \<and> 0 \<le> hdr_seq h \<and> hdr_seq h < 2 ^ 32 \<and> 0 \<le> hdr_flags h \<and> hdr_flags h < 256"

text \<open>What is packed is unpacked from the front of whatever follows.\<close>

lemma pack_front:
  assumes "list_all2 fits fs vs" and "list_all (\<lambda>f. 0 < fmt_size f) fs" and "n = calcsize fs"
  shows "\<exists>bs. struct_pack fs vs = Inr bs \<and> length bs = n
            \<and> (\<forall>rest. struct_unpack fs (take n (bs @ rest)) = Inr vs)"
proof -
  obtain bs where bs: "struct_pack fs vs = Inr bs" "length bs = calcsize fs"
    "\<forall>rest. unpack_fields fs (bs @ rest) = vs"
    using struct_roundtrip [OF assms(1, 2)] by blast
  moreover from bs(3) have "unpack_fields fs bs = vs" by (metis append_Nil2)
  ultimately show ?thesis
    using assms(3) by (simp add: struct_unpack_def)
qed

lemma header_roundtrip:
  assumes "wf_header h"
  shows "\<exists>b. header_pack h = Inr b \<and> length b = 16 \<and> (\<forall>rest. header_unpack (b @ rest) = Inr h)"
proof -
  have "\<exists>b. header_pack h = Inr b \<and> length b = 16
      \<and> (\<forall>rest. struct_unpack hdr_fmt (take 16 (b @ rest)) = Inr
          [VInt 0x53, VInt 0x01, VInt (hdr_type h), VInt (hdr_flags h), VBytes (hdr_eui h),
           VInt (hdr_seq h)])"
    unfolding header_pack_def
    by (rule pack_front) (use assms in \<open>simp_all add: hdr_fmt_def wf_header_def\<close>)
  then show ?thesis by (force simp: header_unpack_def)
qed

lemma header_unpack_error: "header_unpack data = Inl e \<Longrightarrow> e = ValueError"
  by (auto simp: header_unpack_def struct_unpack_def hdr_fmt_def rbind_eq_Inl
      split: if_splits)

text \<open>The end of every encoder: \<open>Header(type, eui, seq, flags).pack() + body\<close>.\<close>

definition with_header :: "msg_type \<Rightarrow> bytes \<Rightarrow> int \<Rightarrow> int \<Rightarrow> bytes \<Rightarrow> bytes result" where
  "with_header t eui seq flags body =
     rbind (header_pack \<lparr>hdr_type = msg_code t, hdr_eui = eui, hdr_seq = seq, hdr_flags = flags\<rparr>)
       (\<lambda>h. Inr (h @ body))"

text \<open>\<open>bytes([a, b, ...])\<close> raises ValueError for a value that is not a byte.\<close>

definition py_bytes :: "int list \<Rightarrow> bytes result" where
  "py_bytes xs =
     (if list_all (\<lambda>x. 0 \<le> x \<and> x < 256) xs then Inr (map word_of_int xs) else Inl ValueError)"

lemma unat_byte_of_nat: "n < 256 \<Longrightarrow> unat (word_of_int (int n) :: byte) = n"
  by (simp add: unat_of_nat take_bit_nat_eq_self)

lemma uint_byte_small: "\<lbrakk>0 \<le> x; x < 256\<rbrakk> \<Longrightarrow> uint (word_of_int x :: byte) = x"
  by (simp add: uint_byte_of_int)

section \<open>Text fields\<close>

definition pack_str :: "pystr \<Rightarrow> nat \<Rightarrow> bytes result" where
  "pack_str s maxlen =
     rbind (utf8_encode s) (\<lambda>enc.
     let raw = take maxlen enc
     in rbind (py_bytes [int (length raw)]) (\<lambda>n. Inr (n @ raw)))"

definition read_str :: "bytes \<Rightarrow> nat \<Rightarrow> (pystr \<times> nat) result" where
  "read_str data off =
     rbind (py_index data off) (\<lambda>b.
     let n = unat b; off = off + 1
     in Inr (utf8_decode_replace (slice data off (off + n)), off + n))"

text \<open>The text the receiver sees.\<close>

definition cut_text :: "nat \<Rightarrow> pystr \<Rightarrow> pystr" where
  "cut_text maxlen s =
     (case utf8_encode s of Inr enc \<Rightarrow> utf8_decode_replace (take maxlen enc) | Inl e \<Rightarrow> s)"

lemma pack_read_str:
  assumes "list_all scalar_value s" and "maxlen < 256"
  shows "\<exists>bs. pack_str s maxlen = Inr bs
            \<and> (\<forall>pre rest. read_str (pre @ bs @ rest) (length pre)
                             = Inr (cut_text maxlen s, length pre + length bs))"
proof -
  obtain enc where enc: "utf8_encode s = Inr enc"
    using assms(1) utf8_encode_Inr_iff by blast
  define raw where "raw = take maxlen enc"
  have len: "length raw < 256" using assms(2) by (simp add: raw_def)
  then have "pack_str s maxlen = Inr (word_of_int (int (length raw)) # raw)"
    by (simp add: pack_str_def enc py_bytes_def Let_def del: length_take flip: raw_def)
  moreover have "read_str (pre @ (word_of_int (int (length raw)) # raw) @ rest) (length pre)
        = Inr (cut_text maxlen s, length pre + length (word_of_int (int (length raw)) # raw))"
    for pre rest :: bytes
    using unat_byte_of_nat [OF len]
    by (simp add: read_str_def py_index_def Let_def slice_def cut_text_def enc flip: raw_def)
  ultimately show ?thesis by blast
qed

lemma cut_text_prefix:
  assumes "list_all scalar_value s"
  shows "\<exists>k. cut_text maxlen s \<in> {take k s, take k s @ [0xFFFD]}"
proof -
  obtain enc where "utf8_encode s = Inr enc"
    using assms utf8_encode_Inr_iff by blast
  with utf8_cut [OF this, of maxlen] show ?thesis by (simp add: cut_text_def)
qed

lemma cut_text_short:
  "\<lbrakk>utf8_encode s = Inr enc; length enc \<le> maxlen\<rbrakk> \<Longrightarrow> cut_text maxlen s = s"
  by (simp add: cut_text_def utf8_roundtrip)

section \<open>HELLO\<close>

record hello =
  he_eui :: bytes
  he_role :: int
  he_mount :: int
  he_sensors :: int
  he_fw_version :: int
  he_battery_pct :: int
  he_uptime_s :: int
  he_name :: pystr
  he_attached_to :: pystr
  he_capabilities :: int
  he_seq :: int
  he_flags :: int

definition hello_fmt :: "sfmt list" where
  "hello_fmt = [SU 1, SU 1, SU 2, SU 2, SU 1, SU 4]"

definition hello_encode :: "hello \<Rightarrow> bytes result" where
  "hello_encode m =
     rbind (struct_pack hello_fmt
       [VInt (he_role m), VInt (he_mount m), VInt (he_sensors m), VInt (he_fw_version m),
        VInt (he_battery_pct m), VInt (he_uptime_s m)]) (\<lambda>fixed.
     rbind (pack_str (he_name m) 24) (\<lambda>name.
     rbind (pack_str (he_attached_to m) 32) (\<lambda>attached.
     rbind (struct_pack [SU 2] [VInt (he_capabilities m)]) (\<lambda>caps.
     with_header HELLO (he_eui m) (he_seq m) (he_flags m) (fixed @ name @ attached @ caps)))))"

definition hello_decode :: "header \<Rightarrow> bytes \<Rightarrow> hello result" where
  "hello_decode hdr body =
     rbind (struct_unpack hello_fmt (take 11 body)) (\<lambda>vs.
     case vs of
       [VInt role, VInt mount, VInt sensors, VInt fw, VInt batt, VInt uptime] \<Rightarrow>
         rbind (read_str body 11) (\<lambda>(name, off).
         rbind (read_str body off) (\<lambda>(attached, off).
         rbind (if off + 2 \<le> length body
                then rbind (struct_unpack [SU 2] (slice body off (off + 2))) (\<lambda>cs.
                       case cs of [VInt caps] \<Rightarrow> Inr caps | _ \<Rightarrow> Inl StructError)
                else Inr 0) (\<lambda>caps.
         Inr \<lparr>he_eui = hdr_eui hdr, he_role = role, he_mount = mount, he_sensors = sensors,
              he_fw_version = fw, he_battery_pct = batt, he_uptime_s = uptime, he_name = name,
              he_attached_to = attached, he_capabilities = caps, he_seq = hdr_seq hdr,
              he_flags = hdr_flags hdr\<rparr>)))
     | _ \<Rightarrow> Inl StructError)"

text \<open>The header fields every message carries.\<close>

definition wf_hdr_fields :: "bytes \<Rightarrow> int \<Rightarrow> int \<Rightarrow> bool" where
  "wf_hdr_fields eui seq flags \<longleftrightarrow>
     length eui = 8 \<and> 0 \<le> seq \<and> seq < 2 ^ 32 \<and> 0 \<le> flags \<and> flags < 256"

definition wf_hello :: "hello \<Rightarrow> bool" where
  "wf_hello m \<longleftrightarrow>
     wf_hdr_fields (he_eui m) (he_seq m) (he_flags m)
     \<and> list_all2 fits hello_fmt
         [VInt (he_role m), VInt (he_mount m), VInt (he_sensors m), VInt (he_fw_version m),
          VInt (he_battery_pct m), VInt (he_uptime_s m)]
     \<and> 0 \<le> he_capabilities m \<and> he_capabilities m < 65536
     \<and> list_all scalar_value (he_name m) \<and> list_all scalar_value (he_attached_to m)"

definition hello_on_wire :: "hello \<Rightarrow> hello" where
  "hello_on_wire m =
     m\<lparr>he_name := cut_text 24 (he_name m), he_attached_to := cut_text 32 (he_attached_to m)\<rparr>"

text \<open>
  The shape of every message's round trip: the encoder wrote a header the decoder reads back,
  and the decoder of the body gives the message, whatever bytes a newer version appended.
\<close>

definition header_of :: "msg_type \<Rightarrow> bytes \<Rightarrow> int \<Rightarrow> int \<Rightarrow> header" where
  "header_of t eui seq flags =
     \<lparr>hdr_type = msg_code t, hdr_eui = eui, hdr_seq = seq, hdr_flags = flags\<rparr>"

lemma with_header_Inr:
  assumes "wf_hdr_fields eui seq flags"
  shows "\<exists>bs. with_header t eui seq flags body = Inr bs
            \<and> (\<forall>extra. header_unpack (bs @ extra) = Inr (header_of t eui seq flags)
                       \<and> drop 16 (bs @ extra) = body @ extra)"
proof -
  have "wf_header (header_of t eui seq flags)"
    using assms msg_code_range [of t] by (simp add: wf_header_def header_of_def wf_hdr_fields_def)
  from header_roundtrip [OF this] obtain b
    where "header_pack (header_of t eui seq flags) = Inr b" "length b = 16"
      "\<forall>rest. header_unpack (b @ rest) = Inr (header_of t eui seq flags)"
    by blast
  then show ?thesis by (auto simp: with_header_def header_of_def)
qed

lemma header_of_sel [simp]:
  "hdr_type (header_of t eui seq flags) = msg_code t"
  "hdr_eui (header_of t eui seq flags) = eui"
  "hdr_seq (header_of t eui seq flags) = seq"
  "hdr_flags (header_of t eui seq flags) = flags"
  by (simp_all add: header_of_def)

lemma hello_roundtrip:
  assumes "wf_hello m"
  shows "\<exists>body. hello_encode m = with_header HELLO (he_eui m) (he_seq m) (he_flags m) body
            \<and> (\<forall>extra. hello_decode (header_of HELLO (he_eui m) (he_seq m) (he_flags m)) (body @ extra)
                         = Inr (hello_on_wire m))"
proof -
  let ?vs = "[VInt (he_role m), VInt (he_mount m), VInt (he_sensors m), VInt (he_fw_version m),
        VInt (he_battery_pct m), VInt (he_uptime_s m)]"
  have "\<exists>f. struct_pack hello_fmt ?vs = Inr f \<and> length f = 11
      \<and> (\<forall>rest. struct_unpack hello_fmt (take 11 (f @ rest)) = Inr ?vs)"
    by (rule pack_front) (use assms in \<open>simp_all add: wf_hello_def hello_fmt_def\<close>)
  then obtain f where f: "struct_pack hello_fmt ?vs = Inr f" "length f = 11"
    "\<And>rest. struct_unpack hello_fmt (take 11 (f @ rest)) = Inr ?vs"
    by blast
  obtain n where n: "pack_str (he_name m) 24 = Inr n"
    "\<And>pre rest. read_str (pre @ n @ rest) (length pre)
                  = Inr (cut_text 24 (he_name m), length pre + length n)"
    using pack_read_str [of "he_name m" 24] assms by (auto simp: wf_hello_def)
  obtain a where a: "pack_str (he_attached_to m) 32 = Inr a"
    "\<And>pre rest. read_str (pre @ a @ rest) (length pre)
                  = Inr (cut_text 32 (he_attached_to m), length pre + length a)"
    using pack_read_str [of "he_attached_to m" 32] assms by (auto simp: wf_hello_def)
  have "\<exists>c. struct_pack [SU 2] [VInt (he_capabilities m)] = Inr c \<and> length c = 2
      \<and> (\<forall>rest. struct_unpack [SU 2] (take 2 (c @ rest)) = Inr [VInt (he_capabilities m)])"
    by (rule pack_front) (use assms in \<open>simp_all add: wf_hello_def\<close>)
  then obtain c where c: "struct_pack [SU 2] [VInt (he_capabilities m)] = Inr c" "length c = 2"
    "\<And>rest. struct_unpack [SU 2] (take 2 (c @ rest)) = Inr [VInt (he_capabilities m)]"
    by blast
  have caps: "struct_unpack [SU 2] c = Inr [VInt (he_capabilities m)]"
    using c(3) [of "[]"] c(2) by simp
  have "hello_decode (header_of HELLO (he_eui m) (he_seq m) (he_flags m))
          ((f @ n @ a @ c) @ extra) = Inr (hello_on_wire m)" for extra
    using f(3) [of "n @ a @ c @ extra"] n(2) [of f "a @ c @ extra"] a(2) [of "f @ n" "c @ extra"]
      f(2) c(2) caps
    by (simp add: hello_decode_def slice_def hello_on_wire_def)
  with f(1) n(1) a(1) c(1) show ?thesis
    by (auto simp: hello_encode_def)
qed

section \<open>TELEMETRY\<close>

text \<open>A reading's value is a 32-bit float on the wire: the model holds its bit pattern.\<close>

record reading =
  rd_channel :: int
  rd_value :: "32 word"

definition reading_pack :: "reading \<Rightarrow> bytes result" where
  "reading_pack r = struct_pack [SU 1, SF32] [VInt (rd_channel r), VF32 (rd_value r)]"

definition reading_unpack :: "bytes \<Rightarrow> reading result" where
  "reading_unpack bs =
     rbind (struct_unpack [SU 1, SF32] bs) (\<lambda>vs.
     case vs of [VInt ch, VF32 val] \<Rightarrow> Inr \<lparr>rd_channel = ch, rd_value = val\<rparr>
     | _ \<Rightarrow> Inl StructError)"

definition wf_reading :: "reading \<Rightarrow> bool" where
  "wf_reading r \<longleftrightarrow> 0 \<le> rd_channel r \<and> rd_channel r < 256"

interpretation readings: fixed_codec reading_pack reading_unpack 5 wf_reading
proof
  fix r assume wf: "wf_reading r"
  have "\<exists>bs. struct_pack [SU 1, SF32] [VInt (rd_channel r), VF32 (rd_value r)] = Inr bs
      \<and> length bs = 5
      \<and> (\<forall>rest. struct_unpack [SU 1, SF32] (take 5 (bs @ rest))
                  = Inr [VInt (rd_channel r), VF32 (rd_value r)])"
    by (rule pack_front) (use wf in \<open>simp_all add: wf_reading_def\<close>)
  then obtain bs where bs: "reading_pack r = Inr bs" "length bs = 5"
    "\<And>rest. struct_unpack [SU 1, SF32] (take 5 (bs @ rest))
       = Inr [VInt (rd_channel r), VF32 (rd_value r)]"
    unfolding reading_pack_def by blast
  from bs(3) [of "[]"] bs(2) have "reading_unpack bs = Inr r"
    by (simp add: reading_unpack_def)
  with bs show "\<exists>bs. reading_pack r = Inr bs \<and> length bs = 5 \<and> reading_unpack bs = Inr r"
    by blast
qed

record telemetry =
  te_eui :: bytes
  te_status :: int
  te_pos_source :: int
  te_lat :: real
  te_lon :: real
  te_alt :: real
  te_heading :: real
  te_battery_pct :: int
  te_pos_quality :: int
  te_readings :: "reading list"
  te_has_kinematics :: bool
  te_vel_n :: real
  te_vel_e :: real
  te_pos_std :: real
  te_hdg_std :: real
  te_ekf_flags :: int
  te_seq :: int
  te_flags :: int

definition tlm_fmt :: "sfmt list" where
  "tlm_fmt = [SU 1, SU 1, SI 4, SI 4, SI 4, SU 2, SU 1, SU 1]"

definition kin_fmt :: "sfmt list" where
  "kin_fmt = [SI 2, SI 2, SU 2, SU 2, SU 1]"

definition telemetry_fixed :: "telemetry \<Rightarrow> sval list" where
  "telemetry_fixed m =
     [VInt (te_status m), VInt (te_pos_source m), VInt (fix_e7 (te_lat m)), VInt (fix_e7 (te_lon m)),
      VInt (fix_centi (te_alt m)), VInt (fix_centi (te_heading m) mod 36000),
      VInt (te_battery_pct m), VInt (te_pos_quality m)]"

definition telemetry_kin :: "telemetry \<Rightarrow> sval list" where
  "telemetry_kin m =
     [VInt (clamp (fix_centi (te_vel_n m)) (- 32768) 32767),
      VInt (clamp (fix_centi (te_vel_e m)) (- 32768) 32767),
      VInt (clamp (fix_centi (te_pos_std m)) 0 65535),
      VInt (clamp (fix_centi (te_hdg_std m)) 0 65535),
      VInt (te_ekf_flags m AND 0xFF)]"

definition telemetry_encode :: "telemetry \<Rightarrow> bytes result" where
  "telemetry_encode m =
     rbind (struct_pack tlm_fmt (telemetry_fixed m)) (\<lambda>fixed.
     rbind (py_bytes [int (length (te_readings m))]) (\<lambda>count.
     rbind (write_many reading_pack (te_readings m)) (\<lambda>readings.
     rbind (if te_has_kinematics m then struct_pack kin_fmt (telemetry_kin m) else Inr []) (\<lambda>kin.
     with_header TELEMETRY (te_eui m) (te_seq m) (te_flags m) (fixed @ count @ readings @ kin)))))"

text \<open>\<open>telemetry_kinematics\<close> reads the optional trailer: the flag and its five values.\<close>

definition telemetry_kinematics ::
  "bytes \<Rightarrow> nat \<Rightarrow> (bool \<times> real \<times> real \<times> real \<times> real \<times> int) result" where
  "telemetry_kinematics body off =
     (if off + 9 \<le> length body
      then rbind (struct_unpack kin_fmt (slice body off (off + 9))) (\<lambda>vs.
        case vs of
          [VInt vn, VInt ve, VInt ps, VInt hs, VInt ef] \<Rightarrow>
            Inr (True, of_int vn / 100, of_int ve / 100, of_int ps / 100, of_int hs / 100, ef)
        | _ \<Rightarrow> Inl StructError)
      else Inr (False, 0, 0, 0, 0, 0))"

definition telemetry_decode :: "header \<Rightarrow> bytes \<Rightarrow> telemetry result" where
  "telemetry_decode hdr body =
     rbind (struct_unpack tlm_fmt (take 18 body)) (\<lambda>vs.
     case vs of
       [VInt status, VInt src, VInt lat_e7, VInt lon_e7, VInt alt_cm, VInt hdg, VInt batt, VInt q] \<Rightarrow>
         rbind (py_index body 18) (\<lambda>count.
         rbind (read_many 5 reading_unpack (unat count) (drop 19 body)) (\<lambda>readings.
         rbind (telemetry_kinematics body (19 + 5 * unat count)) (\<lambda>(has, vn, ve, ps, hs, ef).
         Inr \<lparr>te_eui = hdr_eui hdr, te_status = status, te_pos_source = src,
              te_lat = of_int lat_e7 / 10000000, te_lon = of_int lon_e7 / 10000000,
              te_alt = of_int alt_cm / 100, te_heading = of_int hdg / 100, te_battery_pct = batt,
              te_pos_quality = q, te_readings = readings, te_has_kinematics = has, te_vel_n = vn,
              te_vel_e = ve, te_pos_std = ps, te_hdg_std = hs, te_ekf_flags = ef,
              te_seq = hdr_seq hdr, te_flags = hdr_flags hdr\<rparr>)))
     | _ \<Rightarrow> Inl StructError)"

definition wf_telemetry :: "telemetry \<Rightarrow> bool" where
  "wf_telemetry m \<longleftrightarrow>
     wf_hdr_fields (te_eui m) (te_seq m) (te_flags m)
     \<and> list_all (\<lambda>x. 0 \<le> x \<and> x < 256)
         [te_status m, te_pos_source m, te_battery_pct m, te_pos_quality m]
     \<and> \<bar>te_lat m\<bar> \<le> 214 \<and> \<bar>te_lon m\<bar> \<le> 214 \<and> \<bar>te_alt m\<bar> \<le> 21000000
     \<and> length (te_readings m) < 256 \<and> list_all wf_reading (te_readings m)"

definition wire_e7 :: "real \<Rightarrow> real" where
  "wire_e7 x = of_int (fix_e7 x) / 10000000"

definition wire_centi :: "real \<Rightarrow> real" where
  "wire_centi x = of_int (fix_centi x) / 100"

definition wire_heading :: "real \<Rightarrow> real" where
  "wire_heading x = of_int (fix_centi x mod 36000) / 100"

definition wire_speed :: "real \<Rightarrow> real" where
  "wire_speed x = of_int (clamp (fix_centi x) (- 32768) 32767) / 100"

definition wire_std :: "real \<Rightarrow> real" where
  "wire_std x = of_int (clamp (fix_centi x) 0 65535) / 100"

definition telemetry_on_wire :: "telemetry \<Rightarrow> telemetry" where
  "telemetry_on_wire m =
     m\<lparr>te_lat := wire_e7 (te_lat m), te_lon := wire_e7 (te_lon m), te_alt := wire_centi (te_alt m),
       te_heading := wire_heading (te_heading m),
       te_vel_n := (if te_has_kinematics m then wire_speed (te_vel_n m) else 0),
       te_vel_e := (if te_has_kinematics m then wire_speed (te_vel_e m) else 0),
       te_pos_std := (if te_has_kinematics m then wire_std (te_pos_std m) else 0),
       te_hdg_std := (if te_has_kinematics m then wire_std (te_hdg_std m) else 0),
       te_ekf_flags := (if te_has_kinematics m then te_ekf_flags m mod 256 else 0)\<rparr>"

lemma fits_clamped:
  "fits (SI 2) (VInt (clamp x (- 32768) 32767))" "fits (SU 2) (VInt (clamp x 0 65535))"
  by (simp_all add: clamp_def)

lemma telemetry_fixed_fits: "wf_telemetry m \<Longrightarrow> list_all2 fits tlm_fmt (telemetry_fixed m)"
  using fix_e7_fits [of "te_lat m"] fix_e7_fits [of "te_lon m"] fix_centi_fits [of "te_alt m"]
  by (simp add: wf_telemetry_def tlm_fmt_def telemetry_fixed_def)

lemma telemetry_kin_fits: "list_all2 fits kin_fmt (telemetry_kin m)"
  using fits_clamped
  by (simp add: kin_fmt_def telemetry_kin_def and_mask_mod)

lemma telemetry_roundtrip:
  assumes "wf_telemetry m"
  shows "\<exists>body. telemetry_encode m = with_header TELEMETRY (te_eui m) (te_seq m) (te_flags m) body
            \<and> (\<forall>extra. te_has_kinematics m \<or> length extra < 9 \<longrightarrow>
                 telemetry_decode (header_of TELEMETRY (te_eui m) (te_seq m) (te_flags m)) (body @ extra)
                   = Inr (telemetry_on_wire m))"
proof -
  have "\<exists>f. struct_pack tlm_fmt (telemetry_fixed m) = Inr f \<and> length f = 18
      \<and> (\<forall>rest. struct_unpack tlm_fmt (take 18 (f @ rest)) = Inr (telemetry_fixed m))"
    by (rule pack_front) (use assms telemetry_fixed_fits in \<open>simp_all add: tlm_fmt_def\<close>)
  then obtain f where f: "struct_pack tlm_fmt (telemetry_fixed m) = Inr f" "length f = 18"
    "\<And>rest. struct_unpack tlm_fmt (take 18 (f @ rest)) = Inr (telemetry_fixed m)"
    by blast
  have "\<exists>k. struct_pack kin_fmt (telemetry_kin m) = Inr k \<and> length k = 9
      \<and> (\<forall>rest. struct_unpack kin_fmt (take 9 (k @ rest)) = Inr (telemetry_kin m))"
    by (rule pack_front) (use telemetry_kin_fits in \<open>simp_all add: kin_fmt_def\<close>)
  then obtain k where k: "struct_pack kin_fmt (telemetry_kin m) = Inr k" "length k = 9"
    "\<And>rest. struct_unpack kin_fmt (take 9 (k @ rest)) = Inr (telemetry_kin m)"
    by blast
  have kk: "struct_unpack kin_fmt k = Inr (telemetry_kin m)"
    using k(3) [of "[]"] k(2) by simp
  obtain r where r: "write_many reading_pack (te_readings m) = Inr r"
    "length r = 5 * length (te_readings m)"
    "\<And>rest. read_many 5 reading_unpack (length (te_readings m)) (r @ rest) = Inr (te_readings m)"
    using readings.write_read_many [of "te_readings m"] assms by (auto simp: wf_telemetry_def)
  let ?c = "word_of_int (int (length (te_readings m))) :: byte"
  have len: "length (te_readings m) < 256" using assms by (simp add: wf_telemetry_def)
  then have count: "py_bytes [int (length (te_readings m))] = Inr [?c]"
    and c: "unat ?c = length (te_readings m)"
    using unat_byte_of_nat [OF len] by (simp_all add: py_bytes_def)
  let ?h = "header_of TELEMETRY (te_eui m) (te_seq m) (te_flags m)"
  have idx: "py_index (f @ ?c # rest) 18 = Inr ?c" for rest
    using f(2) by (simp add: py_index_def nth_append)
  have with_kin: "telemetry_decode ?h (f @ [?c] @ r @ k @ extra) = Inr (telemetry_on_wire m)"
    if "te_has_kinematics m" for extra
  proof -
    have "telemetry_kinematics (f @ ?c # r @ k @ extra) (19 + 5 * length (te_readings m))
            = Inr (True, wire_speed (te_vel_n m), wire_speed (te_vel_e m), wire_std (te_pos_std m),
                   wire_std (te_hdg_std m), te_ekf_flags m mod 256)"
      using f(2) r(2) k(2) kk
      by (simp add: telemetry_kinematics_def slice_def telemetry_kin_def and_mask_mod
          wire_speed_def wire_std_def)
    with f(2) f(3) [of "?c # r @ k @ extra"] idx [of "r @ k @ extra"] r(3) [of "k @ extra"] c that
    show ?thesis
      by (simp add: telemetry_decode_def telemetry_fixed_def telemetry_on_wire_def wire_e7_def
          wire_centi_def wire_heading_def del: take_append)
  qed
  have without: "telemetry_decode ?h (f @ [?c] @ r @ extra) = Inr (telemetry_on_wire m)"
    if "\<not> te_has_kinematics m" "length extra < 9" for extra
  proof -
    have "telemetry_kinematics (f @ ?c # r @ extra) (19 + 5 * length (te_readings m))
            = Inr (False, 0, 0, 0, 0, 0)"
      using f(2) r(2) that by (simp add: telemetry_kinematics_def)
    with f(2) f(3) [of "?c # r @ extra"] idx [of "r @ extra"] r(3) [of extra] c that
    show ?thesis
      by (simp add: telemetry_decode_def telemetry_fixed_def telemetry_on_wire_def wire_e7_def
          wire_centi_def wire_heading_def del: take_append)
  qed
  show ?thesis
  proof (cases "te_has_kinematics m")
    case True
    with f(1) k(1) r(1) count with_kin show ?thesis
      by (intro exI [of _ "f @ [?c] @ r @ k"]) (simp add: telemetry_encode_def)
  next
    case False
    with f(1) r(1) count without show ?thesis
      by (intro exI [of _ "f @ [?c] @ r"]) (simp add: telemetry_encode_def)
  qed
qed

section \<open>NEIGHBORS\<close>

record neighbor_link =
  nl_eui :: bytes
  nl_rssi :: int
  nl_range_cm :: int
  nl_link_quality :: int

record neighbors =
  ne_eui :: bytes
  ne_links :: "neighbor_link list"
  ne_seq :: int
  ne_flags :: int

definition link_fmt :: "sfmt list" where
  "link_fmt = [SI 1, SU 2, SU 1]"

definition link_pack :: "neighbor_link \<Rightarrow> bytes result" where
  "link_pack n =
     rbind (struct_pack link_fmt [VInt (nl_rssi n), VInt (nl_range_cm n), VInt (nl_link_quality n)])
       (\<lambda>b. Inr (nl_eui n @ b))"

definition link_unpack :: "bytes \<Rightarrow> neighbor_link result" where
  "link_unpack bs =
     rbind (struct_unpack link_fmt (slice bs 8 12)) (\<lambda>vs.
     case vs of
       [VInt rssi, VInt rng, VInt lq] \<Rightarrow>
         Inr \<lparr>nl_eui = slice bs 0 8, nl_rssi = rssi, nl_range_cm = rng, nl_link_quality = lq\<rparr>
     | _ \<Rightarrow> Inl StructError)"

definition neighbors_encode :: "neighbors \<Rightarrow> bytes result" where
  "neighbors_encode m =
     rbind (py_bytes [int (length (ne_links m))]) (\<lambda>count.
     rbind (write_many link_pack (ne_links m)) (\<lambda>links.
     with_header NEIGHBORS (ne_eui m) (ne_seq m) (ne_flags m) (count @ links)))"

definition neighbors_decode :: "header \<Rightarrow> bytes \<Rightarrow> neighbors result" where
  "neighbors_decode hdr body =
     rbind (py_index body 0) (\<lambda>count.
     rbind (read_many 12 link_unpack (unat count) (drop 1 body)) (\<lambda>links.
     Inr \<lparr>ne_eui = hdr_eui hdr, ne_links = links, ne_seq = hdr_seq hdr, ne_flags = hdr_flags hdr\<rparr>))"

definition wf_link :: "neighbor_link \<Rightarrow> bool" where
  "wf_link n \<longleftrightarrow>
     length (nl_eui n) = 8 \<and> -128 \<le> nl_rssi n \<and> nl_rssi n \<le> 127
     \<and> 0 \<le> nl_range_cm n \<and> nl_range_cm n < 65536
     \<and> 0 \<le> nl_link_quality n \<and> nl_link_quality n < 256"

definition wf_neighbors :: "neighbors \<Rightarrow> bool" where
  "wf_neighbors m \<longleftrightarrow>
     wf_hdr_fields (ne_eui m) (ne_seq m) (ne_flags m)
     \<and> length (ne_links m) < 256 \<and> list_all wf_link (ne_links m)"

interpretation links: fixed_codec link_pack link_unpack 12 wf_link
proof
  fix n assume wf: "wf_link n"
  let ?vs = "[VInt (nl_rssi n), VInt (nl_range_cm n), VInt (nl_link_quality n)]"
  have "\<exists>bs. struct_pack link_fmt ?vs = Inr bs \<and> length bs = 4
      \<and> (\<forall>rest. struct_unpack link_fmt (take 4 (bs @ rest)) = Inr ?vs)"
    by (rule pack_front) (use wf in \<open>simp_all add: wf_link_def link_fmt_def\<close>)
  then obtain bs where bs: "struct_pack link_fmt ?vs = Inr bs" "length bs = 4"
    "\<And>rest. struct_unpack link_fmt (take 4 (bs @ rest)) = Inr ?vs"
    by blast
  from bs(3) [of "[]"] bs(2) wf have "link_unpack (nl_eui n @ bs) = Inr n"
    by (simp add: link_unpack_def slice_def wf_link_def)
  with bs wf show "\<exists>bs. link_pack n = Inr bs \<and> length bs = 12 \<and> link_unpack bs = Inr n"
    by (simp add: link_pack_def wf_link_def)
qed

text \<open>A count byte and that many elements, at the front of a body.\<close>

lemma count_byte:
  assumes "n < 256"
  shows "py_bytes [int n] = Inr [word_of_int (int n)]"
    and "unat (word_of_int (int n) :: byte) = n"
  using assms unat_byte_of_nat [of n] by (simp_all add: py_bytes_def)

lemma neighbors_roundtrip:
  assumes "wf_neighbors m"
  shows "\<exists>body. neighbors_encode m = with_header NEIGHBORS (ne_eui m) (ne_seq m) (ne_flags m) body
            \<and> (\<forall>extra. neighbors_decode (header_of NEIGHBORS (ne_eui m) (ne_seq m) (ne_flags m))
                         (body @ extra) = Inr m)"
proof -
  obtain r where r: "write_many link_pack (ne_links m) = Inr r"
    "\<And>rest. read_many 12 link_unpack (length (ne_links m)) (r @ rest) = Inr (ne_links m)"
    using links.write_read_many [of "ne_links m"] assms by (auto simp: wf_neighbors_def)
  note c = count_byte [of "length (ne_links m)"]
  with r assms show ?thesis
    by (auto simp: neighbors_encode_def neighbors_decode_def py_index_def wf_neighbors_def)
qed

section \<open>RANGE_REQ and RANGE_RESP\<close>

record range_req =
  rq_eui :: bytes
  rq_target :: bytes
  rq_t1_us :: int
  rq_seq :: int
  rq_flags :: int

definition range_req_encode :: "range_req \<Rightarrow> bytes result" where
  "range_req_encode m =
     rbind (struct_pack [SU 4] [VInt (rq_t1_us m)]) (\<lambda>t.
     with_header RANGE_REQ (rq_eui m) (rq_seq m) (rq_flags m) (rq_target m @ t))"

definition range_req_decode :: "header \<Rightarrow> bytes \<Rightarrow> range_req result" where
  "range_req_decode hdr body =
     rbind (struct_unpack [SU 4] (slice body 8 12)) (\<lambda>vs.
     case vs of
       [VInt t1] \<Rightarrow>
         Inr \<lparr>rq_eui = hdr_eui hdr, rq_target = slice body 0 8, rq_t1_us = t1,
              rq_seq = hdr_seq hdr, rq_flags = hdr_flags hdr\<rparr>
     | _ \<Rightarrow> Inl StructError)"

definition wf_range_req :: "range_req \<Rightarrow> bool" where
  "wf_range_req m \<longleftrightarrow>
     wf_hdr_fields (rq_eui m) (rq_seq m) (rq_flags m)
     \<and> length (rq_target m) = 8 \<and> 0 \<le> rq_t1_us m \<and> rq_t1_us m < 2 ^ 32"

lemma slice_after: "length xs = a \<Longrightarrow> slice (xs @ ys) a b = take (b - a) ys"
  by (simp add: slice_def)

lemma slice_front: "length xs = b \<Longrightarrow> slice (xs @ ys) 0 b = xs"
  by (simp add: slice_def)

lemma range_req_roundtrip:
  assumes "wf_range_req m"
  shows "\<exists>body. range_req_encode m = with_header RANGE_REQ (rq_eui m) (rq_seq m) (rq_flags m) body
            \<and> (\<forall>extra. range_req_decode (header_of RANGE_REQ (rq_eui m) (rq_seq m) (rq_flags m))
                         (body @ extra) = Inr m)"
proof -
  have "\<exists>t. struct_pack [SU 4] [VInt (rq_t1_us m)] = Inr t \<and> length t = 4
      \<and> (\<forall>rest. struct_unpack [SU 4] (take 4 (t @ rest)) = Inr [VInt (rq_t1_us m)])"
    by (rule pack_front) (use assms in \<open>simp_all add: wf_range_req_def\<close>)
  then obtain t where t: "struct_pack [SU 4] [VInt (rq_t1_us m)] = Inr t"
    "\<And>rest. struct_unpack [SU 4] (take 4 (t @ rest)) = Inr [VInt (rq_t1_us m)]"
    by blast
  have "length (rq_target m) = 8" using assms by (simp add: wf_range_req_def)
  then have "range_req_decode (header_of RANGE_REQ (rq_eui m) (rq_seq m) (rq_flags m))
      ((rq_target m @ t) @ extra) = Inr m" for extra
    using t(2) [of extra]
    by (simp add: range_req_decode_def slice_after slice_front del: take_append)
  with t(1) show ?thesis by (auto simp: range_req_encode_def)
qed

record range_resp =
  rr_eui :: bytes
  rr_initiator :: bytes
  rr_t1_us :: int
  rr_t2_us :: int
  rr_t3_us :: int
  rr_seq :: int
  rr_flags :: int

definition range_resp_encode :: "range_resp \<Rightarrow> bytes result" where
  "range_resp_encode m =
     rbind (struct_pack [SU 4, SU 4, SU 4] [VInt (rr_t1_us m), VInt (rr_t2_us m), VInt (rr_t3_us m)])
       (\<lambda>t. with_header RANGE_RESP (rr_eui m) (rr_seq m) (rr_flags m) (rr_initiator m @ t))"

definition range_resp_decode :: "header \<Rightarrow> bytes \<Rightarrow> range_resp result" where
  "range_resp_decode hdr body =
     rbind (struct_unpack [SU 4, SU 4, SU 4] (slice body 8 20)) (\<lambda>vs.
     case vs of
       [VInt t1, VInt t2, VInt t3] \<Rightarrow>
         Inr \<lparr>rr_eui = hdr_eui hdr, rr_initiator = slice body 0 8, rr_t1_us = t1, rr_t2_us = t2,
              rr_t3_us = t3, rr_seq = hdr_seq hdr, rr_flags = hdr_flags hdr\<rparr>
     | _ \<Rightarrow> Inl StructError)"

definition wf_range_resp :: "range_resp \<Rightarrow> bool" where
  "wf_range_resp m \<longleftrightarrow>
     wf_hdr_fields (rr_eui m) (rr_seq m) (rr_flags m) \<and> length (rr_initiator m) = 8
     \<and> list_all (\<lambda>t. 0 \<le> t \<and> t < 2 ^ 32) [rr_t1_us m, rr_t2_us m, rr_t3_us m]"

lemma range_resp_roundtrip:
  assumes "wf_range_resp m"
  shows "\<exists>body. range_resp_encode m = with_header RANGE_RESP (rr_eui m) (rr_seq m) (rr_flags m) body
            \<and> (\<forall>extra. range_resp_decode (header_of RANGE_RESP (rr_eui m) (rr_seq m) (rr_flags m))
                         (body @ extra) = Inr m)"
proof -
  let ?vs = "[VInt (rr_t1_us m), VInt (rr_t2_us m), VInt (rr_t3_us m)]"
  have "\<exists>t. struct_pack [SU 4, SU 4, SU 4] ?vs = Inr t \<and> length t = 12
      \<and> (\<forall>rest. struct_unpack [SU 4, SU 4, SU 4] (take 12 (t @ rest)) = Inr ?vs)"
    by (rule pack_front) (use assms in \<open>simp_all add: wf_range_resp_def\<close>)
  then obtain t where t: "struct_pack [SU 4, SU 4, SU 4] ?vs = Inr t"
    "\<And>rest. struct_unpack [SU 4, SU 4, SU 4] (take 12 (t @ rest)) = Inr ?vs"
    by blast
  have "length (rr_initiator m) = 8" using assms by (simp add: wf_range_resp_def)
  then have "range_resp_decode (header_of RANGE_RESP (rr_eui m) (rr_seq m) (rr_flags m))
      ((rr_initiator m @ t) @ extra) = Inr m" for extra
    using t(2) [of extra]
    by (simp add: range_resp_decode_def slice_after slice_front del: take_append)
  with t(1) show ?thesis by (auto simp: range_resp_encode_def)
qed

section \<open>ROUTE\<close>

record route =
  ro_eui :: bytes
  ro_primary_parent :: bytes
  ro_secondary_parent :: bytes
  ro_role_override :: int
  ro_subscriptions :: "bytes list"
  ro_seq :: int
  ro_flags :: int

definition eui64_none :: bytes where
  "eui64_none = replicate 8 0xFF"

definition route_encode :: "route \<Rightarrow> bytes result" where
  "route_encode m =
     rbind (py_bytes [ro_role_override m]) (\<lambda>role.
     rbind (py_bytes [int (length (ro_subscriptions m))]) (\<lambda>count.
     with_header ROUTE (ro_eui m) (ro_seq m) (ro_flags m)
       (ro_primary_parent m @ ro_secondary_parent m @ role @ count @ concat (ro_subscriptions m))))"

definition route_decode :: "header \<Rightarrow> bytes \<Rightarrow> route result" where
  "route_decode hdr body =
     rbind (py_index body 16) (\<lambda>role.
     rbind (py_index body 17) (\<lambda>count.
     Inr \<lparr>ro_eui = hdr_eui hdr, ro_primary_parent = slice body 0 8,
          ro_secondary_parent = slice body 8 16, ro_role_override = uint role,
          ro_subscriptions = map (\<lambda>i. slice body (18 + i * 8) (18 + i * 8 + 8)) [0..<unat count],
          ro_seq = hdr_seq hdr, ro_flags = hdr_flags hdr\<rparr>))"

definition wf_route :: "route \<Rightarrow> bool" where
  "wf_route m \<longleftrightarrow>
     wf_hdr_fields (ro_eui m) (ro_seq m) (ro_flags m)
     \<and> length (ro_primary_parent m) = 8 \<and> length (ro_secondary_parent m) = 8
     \<and> 0 \<le> ro_role_override m \<and> ro_role_override m < 256
     \<and> length (ro_subscriptions m) < 256
     \<and> list_all (\<lambda>s. length s = 8) (ro_subscriptions m)"

lemma slices_concat:
  assumes "list_all (\<lambda>s. length s = 8) subs"
  shows "length pre = off \<Longrightarrow>
     map (\<lambda>i. slice (pre @ concat subs @ extra) (off + i * 8) (off + i * 8 + 8)) [0..<length subs] = subs"
  using assms
proof (induction subs arbitrary: pre off)
  case (Cons s subs)
  from Cons.IH [of "pre @ s" "off + 8"] Cons.prems
  have "map (\<lambda>i. slice (pre @ concat (s # subs) @ extra) (off + Suc i * 8) (off + Suc i * 8 + 8))
          [0..<length subs] = subs"
    by (simp add: algebra_simps)
  moreover have "slice (pre @ concat (s # subs) @ extra) (off + 0 * 8) (off + 0 * 8 + 8) = s"
    using Cons.prems by (simp add: slice_def)
  ultimately show ?case
    by (simp only: length_Cons map_upt_Suc)
qed simp

lemma route_roundtrip:
  assumes "wf_route m"
  shows "\<exists>body. route_encode m = with_header ROUTE (ro_eui m) (ro_seq m) (ro_flags m) body
            \<and> (\<forall>extra. route_decode (header_of ROUTE (ro_eui m) (ro_seq m) (ro_flags m))
                         (body @ extra) = Inr m)"
proof -
  let ?r = "word_of_int (ro_role_override m) :: byte"
  let ?c = "word_of_int (int (length (ro_subscriptions m))) :: byte"
  let ?pre = "ro_primary_parent m @ ro_secondary_parent m @ [?r, ?c]"
  have role: "py_bytes [ro_role_override m] = Inr [?r]" "uint ?r = ro_role_override m"
    using assms uint_byte_small by (auto simp: py_bytes_def wf_route_def)
  have count: "py_bytes [int (length (ro_subscriptions m))] = Inr [?c]"
    "unat ?c = length (ro_subscriptions m)"
    using assms count_byte [of "length (ro_subscriptions m)"] by (auto simp: wf_route_def)
  have len: "length (ro_primary_parent m) = 8" "length (ro_secondary_parent m) = 8"
    and subs: "list_all (\<lambda>s. length s = 8) (ro_subscriptions m)"
    using assms by (simp_all add: wf_route_def)
  have "route_decode (header_of ROUTE (ro_eui m) (ro_seq m) (ro_flags m))
      (?pre @ concat (ro_subscriptions m) @ extra) = Inr m" for extra
  proof -
    have "py_index (?pre @ concat (ro_subscriptions m) @ extra) 16 = Inr ?r"
      "py_index (?pre @ concat (ro_subscriptions m) @ extra) 17 = Inr ?c"
      "slice (?pre @ concat (ro_subscriptions m) @ extra) 0 8 = ro_primary_parent m"
      "slice (?pre @ concat (ro_subscriptions m) @ extra) 8 16 = ro_secondary_parent m"
      using len by (simp_all add: py_index_def nth_append slice_def)
    moreover have "map (\<lambda>i. slice (?pre @ concat (ro_subscriptions m) @ extra) (18 + i * 8)
          (18 + i * 8 + 8)) [0..<length (ro_subscriptions m)] = ro_subscriptions m"
      using len by (intro slices_concat subs) simp
    ultimately show ?thesis
      by (simp only: route_decode_def rbind_Inr role count header_of_sel) simp
  qed
  with role(1) count(1) show ?thesis
    by (intro exI [of _ "?pre @ concat (ro_subscriptions m)"]) (simp add: route_encode_def)
qed

section \<open>CMD and BROADCAST\<close>

record cmd =
  cm_eui :: bytes
  cm_op :: int
  cm_params :: bytes
  cm_seq :: int
  cm_flags :: int

text \<open>Both classes have the same body: the op, the length of the parameters, the parameters.\<close>

definition cmd_body :: "int \<Rightarrow> bytes \<Rightarrow> bytes result" where
  "cmd_body op params = rbind (py_bytes [op, int (length params)]) (\<lambda>b. Inr (b @ params))"

definition cmd_encode :: "cmd \<Rightarrow> bytes result" where
  "cmd_encode m =
     rbind (cmd_body (cm_op m) (cm_params m)) (\<lambda>body.
     with_header CMD (cm_eui m) (cm_seq m) (cm_flags m) body)"

definition cmd_decode :: "header \<Rightarrow> bytes \<Rightarrow> cmd result" where
  "cmd_decode hdr body =
     rbind (py_index body 0) (\<lambda>op.
     rbind (py_index body 1) (\<lambda>plen.
     Inr \<lparr>cm_eui = hdr_eui hdr, cm_op = uint op, cm_params = slice body 2 (2 + unat plen),
          cm_seq = hdr_seq hdr, cm_flags = hdr_flags hdr\<rparr>))"

record broadcast =
  bc_eui :: bytes
  bc_op :: int
  bc_params :: bytes
  bc_seq :: int
  bc_flags :: int

definition broadcast_encode :: "broadcast \<Rightarrow> bytes result" where
  "broadcast_encode m =
     rbind (cmd_body (bc_op m) (bc_params m)) (\<lambda>body.
     with_header BROADCAST (bc_eui m) (bc_seq m) (bc_flags m) body)"

definition broadcast_decode :: "header \<Rightarrow> bytes \<Rightarrow> broadcast result" where
  "broadcast_decode hdr body =
     rbind (py_index body 0) (\<lambda>op.
     rbind (py_index body 1) (\<lambda>plen.
     Inr \<lparr>bc_eui = hdr_eui hdr, bc_op = uint op, bc_params = slice body 2 (2 + unat plen),
          bc_seq = hdr_seq hdr, bc_flags = hdr_flags hdr\<rparr>))"

definition wf_cmd_body :: "int \<Rightarrow> bytes \<Rightarrow> bool" where
  "wf_cmd_body op params \<longleftrightarrow> 0 \<le> op \<and> op < 256 \<and> length params < 256"

definition wf_cmd :: "cmd \<Rightarrow> bool" where
  "wf_cmd m \<longleftrightarrow>
     wf_hdr_fields (cm_eui m) (cm_seq m) (cm_flags m) \<and> wf_cmd_body (cm_op m) (cm_params m)"

definition wf_broadcast :: "broadcast \<Rightarrow> bool" where
  "wf_broadcast m \<longleftrightarrow>
     wf_hdr_fields (bc_eui m) (bc_seq m) (bc_flags m) \<and> wf_cmd_body (bc_op m) (bc_params m)"

lemma cmd_body_wf:
  assumes "wf_cmd_body op params"
  shows "cmd_body op params = Inr (word_of_int op # word_of_int (int (length params)) # params)"
    and "uint (word_of_int op :: byte) = op"
    and "unat (word_of_int (int (length params)) :: byte) = length params"
  using assms count_byte [of "length params"] uint_byte_small [of op]
  by (simp_all add: cmd_body_def wf_cmd_body_def py_bytes_def)

lemma cmd_roundtrip:
  assumes "wf_cmd m"
  shows "\<exists>body. cmd_encode m = with_header CMD (cm_eui m) (cm_seq m) (cm_flags m) body
            \<and> (\<forall>extra. cmd_decode (header_of CMD (cm_eui m) (cm_seq m) (cm_flags m))
                         (body @ extra) = Inr m)"
  using assms cmd_body_wf [of "cm_op m" "cm_params m"]
  by (intro exI [of _ "word_of_int (cm_op m) # word_of_int (int (length (cm_params m))) # cm_params m"])
     (simp add: wf_cmd_def cmd_encode_def cmd_decode_def py_index_def slice_def)

lemma broadcast_roundtrip:
  assumes "wf_broadcast m"
  shows "\<exists>body. broadcast_encode m = with_header BROADCAST (bc_eui m) (bc_seq m) (bc_flags m) body
            \<and> (\<forall>extra. broadcast_decode (header_of BROADCAST (bc_eui m) (bc_seq m) (bc_flags m))
                         (body @ extra) = Inr m)"
  using assms cmd_body_wf [of "bc_op m" "bc_params m"]
  by (intro exI [of _ "word_of_int (bc_op m) # word_of_int (int (length (bc_params m))) # bc_params m"])
     (simp add: wf_broadcast_def broadcast_encode_def broadcast_decode_def py_index_def slice_def)

section \<open>POSE_INJECT and MESH_SEND\<close>

record pose_inject =
  pj_eui :: bytes
  pj_lat :: real
  pj_lon :: real
  pj_alt :: real
  pj_heading :: real
  pj_vel_n :: real
  pj_vel_e :: real
  pj_pos_std :: real
  pj_hdg_std :: real
  pj_src_flags :: int
  pj_ts_ms :: int
  pj_seq :: int
  pj_flags :: int

definition pose_fmt :: "sfmt list" where
  "pose_fmt = [SI 4, SI 4, SI 4, SU 2, SI 2, SI 2, SU 2, SU 2, SU 1, SU 4]"

definition pose_values :: "pose_inject \<Rightarrow> sval list" where
  "pose_values m =
     [VInt (fix_e7 (pj_lat m)), VInt (fix_e7 (pj_lon m)), VInt (fix_centi (pj_alt m)),
      VInt (fix_centi (pj_heading m) mod 36000),
      VInt (clamp (fix_centi (pj_vel_n m)) (- 32768) 32767),
      VInt (clamp (fix_centi (pj_vel_e m)) (- 32768) 32767),
      VInt (clamp (fix_centi (pj_pos_std m)) 0 65535),
      VInt (clamp (fix_centi (pj_hdg_std m)) 0 65535),
      VInt (pj_src_flags m AND 0xFF), VInt (pj_ts_ms m AND 0xFFFFFFFF)]"

definition pose_encode :: "pose_inject \<Rightarrow> bytes result" where
  "pose_encode m =
     rbind (struct_pack pose_fmt (pose_values m)) (\<lambda>body.
     with_header POSE_INJECT (pj_eui m) (pj_seq m) (pj_flags m) body)"

definition pose_decode :: "header \<Rightarrow> bytes \<Rightarrow> pose_inject result" where
  "pose_decode hdr body =
     rbind (struct_unpack pose_fmt (take 27 body)) (\<lambda>vs.
     case vs of
       [VInt lat_e7, VInt lon_e7, VInt alt_cm, VInt hdg, VInt vn, VInt ve, VInt ps, VInt hs,
        VInt sf, VInt ts] \<Rightarrow>
         Inr \<lparr>pj_eui = hdr_eui hdr, pj_lat = of_int lat_e7 / 10000000,
              pj_lon = of_int lon_e7 / 10000000, pj_alt = of_int alt_cm / 100,
              pj_heading = of_int hdg / 100, pj_vel_n = of_int vn / 100,
              pj_vel_e = of_int ve / 100, pj_pos_std = of_int ps / 100,
              pj_hdg_std = of_int hs / 100, pj_src_flags = sf, pj_ts_ms = ts,
              pj_seq = hdr_seq hdr, pj_flags = hdr_flags hdr\<rparr>
     | _ \<Rightarrow> Inl StructError)"

definition wf_pose :: "pose_inject \<Rightarrow> bool" where
  "wf_pose m \<longleftrightarrow>
     wf_hdr_fields (pj_eui m) (pj_seq m) (pj_flags m)
     \<and> \<bar>pj_lat m\<bar> \<le> 214 \<and> \<bar>pj_lon m\<bar> \<le> 214 \<and> \<bar>pj_alt m\<bar> \<le> 21000000"

definition pose_on_wire :: "pose_inject \<Rightarrow> pose_inject" where
  "pose_on_wire m =
     m\<lparr>pj_lat := wire_e7 (pj_lat m), pj_lon := wire_e7 (pj_lon m), pj_alt := wire_centi (pj_alt m),
       pj_heading := wire_heading (pj_heading m), pj_vel_n := wire_speed (pj_vel_n m),
       pj_vel_e := wire_speed (pj_vel_e m), pj_pos_std := wire_std (pj_pos_std m),
       pj_hdg_std := wire_std (pj_hdg_std m), pj_src_flags := pj_src_flags m mod 256,
       pj_ts_ms := pj_ts_ms m mod 4294967296\<rparr>"

lemma pose_roundtrip:
  assumes "wf_pose m"
  shows "\<exists>body. pose_encode m = with_header POSE_INJECT (pj_eui m) (pj_seq m) (pj_flags m) body
            \<and> (\<forall>extra. pose_decode (header_of POSE_INJECT (pj_eui m) (pj_seq m) (pj_flags m))
                         (body @ extra) = Inr (pose_on_wire m))"
proof -
  have "list_all2 fits pose_fmt (pose_values m)"
    using fix_e7_fits [of "pj_lat m"] fix_e7_fits [of "pj_lon m"] fix_centi_fits [of "pj_alt m"]
      fits_clamped assms
    by (simp add: wf_pose_def pose_fmt_def pose_values_def and_mask_mod)
  then have "\<exists>b. struct_pack pose_fmt (pose_values m) = Inr b \<and> length b = 27
      \<and> (\<forall>rest. struct_unpack pose_fmt (take 27 (b @ rest)) = Inr (pose_values m))"
    by (rule pack_front) (simp_all add: pose_fmt_def)
  then show ?thesis
    by (auto simp: pose_encode_def pose_decode_def pose_values_def pose_on_wire_def wire_e7_def
        wire_centi_def wire_heading_def wire_speed_def wire_std_def and_mask_mod
        simp del: take_append)
qed

record mesh_send =
  mh_eui :: bytes
  mh_payload :: bytes
  mh_seq :: int
  mh_flags :: int

definition mesh_send_encode :: "mesh_send \<Rightarrow> bytes result" where
  "mesh_send_encode m = with_header MESH_SEND (mh_eui m) (mh_seq m) (mh_flags m) (mh_payload m)"

definition mesh_send_decode :: "header \<Rightarrow> bytes \<Rightarrow> mesh_send result" where
  "mesh_send_decode hdr body =
     Inr \<lparr>mh_eui = hdr_eui hdr, mh_payload = body, mh_seq = hdr_seq hdr, mh_flags = hdr_flags hdr\<rparr>"

lemma mesh_send_roundtrip:
  "mesh_send_decode (header_of MESH_SEND (mh_eui m) (mh_seq m) (mh_flags m)) (mh_payload m) = Inr m"
  by (simp add: mesh_send_decode_def)

section \<open>Parameters of commands\<close>

record waypoint =
  wp_lat :: real
  wp_lon :: real
  wp_alt :: real
  wp_mission_type :: int
  wp_priority :: int
  wp_ttl_s :: int

definition wp_fmt :: "sfmt list" where
  "wp_fmt = [SI 4, SI 4, SI 4, SU 1, SU 1, SU 2]"

definition pack_waypoint :: "waypoint \<Rightarrow> bytes result" where
  "pack_waypoint w =
     struct_pack wp_fmt
       [VInt (fix_e7 (wp_lat w)), VInt (fix_e7 (wp_lon w)), VInt (fix_centi (wp_alt w)),
        VInt (wp_mission_type w AND 0xFF), VInt (wp_priority w AND 0xFF), VInt (wp_ttl_s w AND 0xFFFF)]"

definition unpack_waypoint :: "bytes \<Rightarrow> waypoint result" where
  "unpack_waypoint params =
     rbind (struct_unpack wp_fmt (take 16 params)) (\<lambda>vs.
     case vs of
       [VInt lat_e7, VInt lon_e7, VInt alt_cm, VInt mt, VInt pr, VInt ttl] \<Rightarrow>
         Inr \<lparr>wp_lat = of_int lat_e7 / 10000000, wp_lon = of_int lon_e7 / 10000000,
              wp_alt = of_int alt_cm / 100, wp_mission_type = mt, wp_priority = pr, wp_ttl_s = ttl\<rparr>
     | _ \<Rightarrow> Inl StructError)"

definition pack_mission :: "int \<Rightarrow> int \<Rightarrow> bytes result" where
  "pack_mission mt ttl = struct_pack [SU 1, SU 2] [VInt (mt AND 0xFF), VInt (ttl AND 0xFFFF)]"

definition unpack_mission :: "bytes \<Rightarrow> (int \<times> int) result" where
  "unpack_mission params =
     rbind (struct_unpack [SU 1, SU 2] (take 3 params)) (\<lambda>vs.
     case vs of [VInt mt, VInt ttl] \<Rightarrow> Inr (mt, ttl) | _ \<Rightarrow> Inl StructError)"

definition pack_permissions :: "int \<Rightarrow> bytes result" where
  "pack_permissions caps = struct_pack [SU 2] [VInt (caps AND 0xFFFF)]"

definition unpack_permissions :: "bytes \<Rightarrow> int result" where
  "unpack_permissions params =
     rbind (struct_unpack [SU 2] (take 2 params)) (\<lambda>vs.
     case vs of [VInt caps] \<Rightarrow> Inr caps | _ \<Rightarrow> Inl StructError)"

definition wf_waypoint :: "waypoint \<Rightarrow> bool" where
  "wf_waypoint w \<longleftrightarrow> \<bar>wp_lat w\<bar> \<le> 214 \<and> \<bar>wp_lon w\<bar> \<le> 214 \<and> \<bar>wp_alt w\<bar> \<le> 21000000"

definition waypoint_on_wire :: "waypoint \<Rightarrow> waypoint" where
  "waypoint_on_wire w =
     w\<lparr>wp_lat := wire_e7 (wp_lat w), wp_lon := wire_e7 (wp_lon w), wp_alt := wire_centi (wp_alt w),
       wp_mission_type := wp_mission_type w mod 256, wp_priority := wp_priority w mod 256,
       wp_ttl_s := wp_ttl_s w mod 65536\<rparr>"

lemma waypoint_roundtrip:
  assumes "wf_waypoint w"
  shows "\<exists>bs. pack_waypoint w = Inr bs \<and> length bs = 16 \<and> unpack_waypoint bs = Inr (waypoint_on_wire w)"
proof -
  let ?vs = "[VInt (fix_e7 (wp_lat w)), VInt (fix_e7 (wp_lon w)), VInt (fix_centi (wp_alt w)),
        VInt (wp_mission_type w AND 0xFF), VInt (wp_priority w AND 0xFF), VInt (wp_ttl_s w AND 0xFFFF)]"
  have "list_all2 fits wp_fmt ?vs"
    using fix_e7_fits [of "wp_lat w"] fix_e7_fits [of "wp_lon w"] fix_centi_fits [of "wp_alt w"] assms
    by (simp add: wf_waypoint_def wp_fmt_def and_mask_mod)
  then have "\<exists>b. struct_pack wp_fmt ?vs = Inr b \<and> length b = 16
      \<and> (\<forall>rest. struct_unpack wp_fmt (take 16 (b @ rest)) = Inr ?vs)"
    by (rule pack_front) (simp_all add: wp_fmt_def)
  then obtain b where b: "pack_waypoint w = Inr b" "length b = 16"
    "\<And>rest. struct_unpack wp_fmt (take 16 (b @ rest)) = Inr ?vs"
    unfolding pack_waypoint_def by blast
  from b(3) [of "[]"] have "unpack_waypoint b = Inr (waypoint_on_wire w)"
    by (simp add: unpack_waypoint_def waypoint_on_wire_def wire_e7_def wire_centi_def and_mask_mod)
  with b show ?thesis by blast
qed

lemma mission_roundtrip:
  "\<exists>bs. pack_mission mt ttl = Inr bs \<and> unpack_mission bs = Inr (mt mod 256, ttl mod 65536)"
  by (simp add: pack_mission_def unpack_mission_def and_mask_mod struct_unpack_def le_int_le_bytes
      uint_byte_of_int take_Cons')

lemma permissions_roundtrip:
  "\<exists>bs. pack_permissions caps = Inr bs \<and> unpack_permissions bs = Inr (caps mod 65536)"
  by (simp add: pack_permissions_def unpack_permissions_def and_mask_mod struct_unpack_def
      le_int_le_bytes)

section \<open>Dispatch\<close>

datatype message =
    MHello hello | MTelemetry telemetry | MNeighbors neighbors | MRangeReq range_req
  | MRangeResp range_resp | MPoseInject pose_inject | MMeshSend mesh_send | MRoute route
  | MCmd cmd | MBroadcast broadcast

definition rmap :: "('a \<Rightarrow> 'b) \<Rightarrow> 'a result \<Rightarrow> 'b result" where
  "rmap f m = rbind m (\<lambda>x. Inr (f x))"

lemma rmap_simps [simp]: "rmap f (Inr x) = Inr (f x)" "rmap f (Inl e) = Inl e"
  by (simp_all add: rmap_def)

fun decoder_of :: "msg_type \<Rightarrow> header \<Rightarrow> bytes \<Rightarrow> message result" where
  "decoder_of HELLO hdr body = rmap MHello (hello_decode hdr body)"
| "decoder_of TELEMETRY hdr body = rmap MTelemetry (telemetry_decode hdr body)"
| "decoder_of NEIGHBORS hdr body = rmap MNeighbors (neighbors_decode hdr body)"
| "decoder_of RANGE_REQ hdr body = rmap MRangeReq (range_req_decode hdr body)"
| "decoder_of RANGE_RESP hdr body = rmap MRangeResp (range_resp_decode hdr body)"
| "decoder_of POSE_INJECT hdr body = rmap MPoseInject (pose_decode hdr body)"
| "decoder_of MESH_SEND hdr body = rmap MMeshSend (mesh_send_decode hdr body)"
| "decoder_of ROUTE hdr body = rmap MRoute (route_decode hdr body)"
| "decoder_of CMD hdr body = rmap MCmd (cmd_decode hdr body)"
| "decoder_of BROADCAST hdr body = rmap MBroadcast (broadcast_decode hdr body)"

definition decode_message :: "bytes \<Rightarrow> message option result" where
  "decode_message payload =
     rbind (header_unpack payload) (\<lambda>hdr.
     let body = drop 16 payload
     in case msg_of_code (hdr_type hdr) of
          None \<Rightarrow> Inr None
        | Some t \<Rightarrow> rmap Some (decoder_of t hdr body))"

text \<open>Every message carries \<open>eui\<close> and \<open>flags\<close>.\<close>

fun message_eui :: "message \<Rightarrow> bytes" where
  "message_eui (MHello m) = he_eui m"
| "message_eui (MTelemetry m) = te_eui m"
| "message_eui (MNeighbors m) = ne_eui m"
| "message_eui (MRangeReq m) = rq_eui m"
| "message_eui (MRangeResp m) = rr_eui m"
| "message_eui (MPoseInject m) = pj_eui m"
| "message_eui (MMeshSend m) = mh_eui m"
| "message_eui (MRoute m) = ro_eui m"
| "message_eui (MCmd m) = cm_eui m"
| "message_eui (MBroadcast m) = bc_eui m"

fun message_flags :: "message \<Rightarrow> int" where
  "message_flags (MHello m) = he_flags m"
| "message_flags (MTelemetry m) = te_flags m"
| "message_flags (MNeighbors m) = ne_flags m"
| "message_flags (MRangeReq m) = rq_flags m"
| "message_flags (MRangeResp m) = rr_flags m"
| "message_flags (MPoseInject m) = pj_flags m"
| "message_flags (MMeshSend m) = mh_flags m"
| "message_flags (MRoute m) = ro_flags m"
| "message_flags (MCmd m) = cm_flags m"
| "message_flags (MBroadcast m) = bc_flags m"

fun encode_message :: "message \<Rightarrow> bytes result" where
  "encode_message (MHello m) = hello_encode m"
| "encode_message (MTelemetry m) = telemetry_encode m"
| "encode_message (MNeighbors m) = neighbors_encode m"
| "encode_message (MRangeReq m) = range_req_encode m"
| "encode_message (MRangeResp m) = range_resp_encode m"
| "encode_message (MPoseInject m) = pose_encode m"
| "encode_message (MMeshSend m) = mesh_send_encode m"
| "encode_message (MRoute m) = route_encode m"
| "encode_message (MCmd m) = cmd_encode m"
| "encode_message (MBroadcast m) = broadcast_encode m"

fun wf_message :: "message \<Rightarrow> bool" where
  "wf_message (MHello m) = wf_hello m"
| "wf_message (MTelemetry m) = wf_telemetry m"
| "wf_message (MNeighbors m) = wf_neighbors m"
| "wf_message (MRangeReq m) = wf_range_req m"
| "wf_message (MRangeResp m) = wf_range_resp m"
| "wf_message (MPoseInject m) = wf_pose m"
| "wf_message (MMeshSend m) = wf_hdr_fields (mh_eui m) (mh_seq m) (mh_flags m)"
| "wf_message (MRoute m) = wf_route m"
| "wf_message (MCmd m) = wf_cmd m"
| "wf_message (MBroadcast m) = wf_broadcast m"

fun on_wire :: "message \<Rightarrow> message" where
  "on_wire (MHello m) = MHello (hello_on_wire m)"
| "on_wire (MTelemetry m) = MTelemetry (telemetry_on_wire m)"
| "on_wire (MPoseInject m) = MPoseInject (pose_on_wire m)"
| "on_wire m = m"

text \<open>
  The messages to which a newer version can append fields: not MESH_SEND, whose payload is the
  rest of the frame, and TELEMETRY only with the kinematics trailer, whose place is otherwise free.
\<close>

fun appendable :: "message \<Rightarrow> bool" where
  "appendable (MTelemetry m) = te_has_kinematics m"
| "appendable (MMeshSend m) = False"
| "appendable m = True"

lemma decode_with_header:
  assumes "wf_hdr_fields eui seq flags"
  shows "\<exists>bs. with_header t eui seq flags body = Inr bs
            \<and> (\<forall>extra. decode_message (bs @ extra)
                 = rmap Some (decoder_of t (header_of t eui seq flags) (body @ extra)))"
proof -
  obtain bs where "with_header t eui seq flags body = Inr bs"
    "\<forall>extra. header_unpack (bs @ extra) = Inr (header_of t eui seq flags)
       \<and> drop 16 (bs @ extra) = body @ extra"
    using with_header_Inr [OF assms(1)] by blast
  then show ?thesis
    by (simp add: decode_message_def del: drop_append)
qed

lemma decodes_by:
  assumes "wf_hdr_fields eui seq flags"
    and "enc = with_header t eui seq flags body"
    and "\<And>extra. P extra \<Longrightarrow> decoder_of t (header_of t eui seq flags) (body @ extra) = Inr m"
  shows "\<exists>bs. enc = Inr bs \<and> (\<forall>extra. P extra \<longrightarrow> decode_message (bs @ extra) = Inr (Some m))"
  using decode_with_header [OF assms(1), of t body] assms(2, 3) by auto

lemma message_decodes:
  assumes "wf_message m"
  shows "\<exists>bs. encode_message m = Inr bs
     \<and> (\<forall>extra. extra = [] \<or> appendable m \<longrightarrow> decode_message (bs @ extra) = Inr (Some (on_wire m)))"
proof (cases m)
  case (MHello x)
  with assms hello_roundtrip [of x] obtain body
    where "hello_encode x = with_header HELLO (he_eui x) (he_seq x) (he_flags x) body"
      and "\<And>extra. hello_decode (header_of HELLO (he_eui x) (he_seq x) (he_flags x)) (body @ extra)
             = Inr (hello_on_wire x)"
    by auto
  with assms MHello show ?thesis
    by (intro decodes_by [of "he_eui x" "he_seq x" "he_flags x" _ HELLO body])
       (auto simp: wf_hello_def)
next
  case (MTelemetry x)
  with assms telemetry_roundtrip [of x] obtain body
    where b: "telemetry_encode x = with_header TELEMETRY (te_eui x) (te_seq x) (te_flags x) body"
      and d: "\<And>extra. te_has_kinematics x \<or> length extra < 9 \<Longrightarrow> telemetry_decode (header_of TELEMETRY (te_eui x) (te_seq x) (te_flags x)) (body @ extra)
             = Inr (telemetry_on_wire x)"
    by auto
  with assms MTelemetry b d d [of "[]"] show ?thesis
    by (intro decodes_by [of "te_eui x" "te_seq x" "te_flags x" _ TELEMETRY body])
       (auto simp: wf_telemetry_def)
next
  case (MNeighbors x)
  with assms neighbors_roundtrip [of x] obtain body
    where "neighbors_encode x = with_header NEIGHBORS (ne_eui x) (ne_seq x) (ne_flags x) body"
      and "\<And>extra. neighbors_decode (header_of NEIGHBORS (ne_eui x) (ne_seq x) (ne_flags x)) (body @ extra)
             = Inr (x)"
    by auto
  with assms MNeighbors show ?thesis
    by (intro decodes_by [of "ne_eui x" "ne_seq x" "ne_flags x" _ NEIGHBORS body])
       (auto simp: wf_neighbors_def)
next
  case (MRangeReq x)
  with assms range_req_roundtrip [of x] obtain body
    where "range_req_encode x = with_header RANGE_REQ (rq_eui x) (rq_seq x) (rq_flags x) body"
      and "\<And>extra. range_req_decode (header_of RANGE_REQ (rq_eui x) (rq_seq x) (rq_flags x)) (body @ extra)
             = Inr (x)"
    by auto
  with assms MRangeReq show ?thesis
    by (intro decodes_by [of "rq_eui x" "rq_seq x" "rq_flags x" _ RANGE_REQ body])
       (auto simp: wf_range_req_def)
next
  case (MRangeResp x)
  with assms range_resp_roundtrip [of x] obtain body
    where "range_resp_encode x = with_header RANGE_RESP (rr_eui x) (rr_seq x) (rr_flags x) body"
      and "\<And>extra. range_resp_decode (header_of RANGE_RESP (rr_eui x) (rr_seq x) (rr_flags x)) (body @ extra)
             = Inr (x)"
    by auto
  with assms MRangeResp show ?thesis
    by (intro decodes_by [of "rr_eui x" "rr_seq x" "rr_flags x" _ RANGE_RESP body])
       (auto simp: wf_range_resp_def)
next
  case (MPoseInject x)
  with assms pose_roundtrip [of x] obtain body
    where "pose_encode x = with_header POSE_INJECT (pj_eui x) (pj_seq x) (pj_flags x) body"
      and "\<And>extra. pose_decode (header_of POSE_INJECT (pj_eui x) (pj_seq x) (pj_flags x)) (body @ extra)
             = Inr (pose_on_wire x)"
    by auto
  with assms MPoseInject show ?thesis
    by (intro decodes_by [of "pj_eui x" "pj_seq x" "pj_flags x" _ POSE_INJECT body])
       (auto simp: wf_pose_def)
next
  case (MMeshSend x)
  with assms show ?thesis
    by (intro decodes_by [of "mh_eui x" "mh_seq x" "mh_flags x" _ MESH_SEND "mh_payload x"])
       (auto simp: mesh_send_encode_def mesh_send_roundtrip)
next
  case (MRoute x)
  with assms route_roundtrip [of x] obtain body
    where "route_encode x = with_header ROUTE (ro_eui x) (ro_seq x) (ro_flags x) body"
      and "\<And>extra. route_decode (header_of ROUTE (ro_eui x) (ro_seq x) (ro_flags x)) (body @ extra)
             = Inr (x)"
    by auto
  with assms MRoute show ?thesis
    by (intro decodes_by [of "ro_eui x" "ro_seq x" "ro_flags x" _ ROUTE body])
       (auto simp: wf_route_def)
next
  case (MCmd x)
  with assms cmd_roundtrip [of x] obtain body
    where "cmd_encode x = with_header CMD (cm_eui x) (cm_seq x) (cm_flags x) body"
      and "\<And>extra. cmd_decode (header_of CMD (cm_eui x) (cm_seq x) (cm_flags x)) (body @ extra)
             = Inr (x)"
    by auto
  with assms MCmd show ?thesis
    by (intro decodes_by [of "cm_eui x" "cm_seq x" "cm_flags x" _ CMD body])
       (auto simp: wf_cmd_def)
next
  case (MBroadcast x)
  with assms broadcast_roundtrip [of x] obtain body
    where "broadcast_encode x = with_header BROADCAST (bc_eui x) (bc_seq x) (bc_flags x) body"
      and "\<And>extra. broadcast_decode (header_of BROADCAST (bc_eui x) (bc_seq x) (bc_flags x)) (body @ extra)
             = Inr (x)"
    by auto
  with assms MBroadcast show ?thesis
    by (intro decodes_by [of "bc_eui x" "bc_seq x" "bc_flags x" _ BROADCAST body])
       (auto simp: wf_broadcast_def)
qed

section \<open>Errors of the decoders\<close>

lemma read_many_error:
  "\<lbrakk>\<And>b e'. rd b = Inl e' \<Longrightarrow> e' = StructError; read_many sz rd n bs = Inl e\<rbrakk> \<Longrightarrow> e = StructError"
  by (induction n arbitrary: bs) (auto simp: rbind_eq_Inl)

lemmas field_errors = struct_unpack_def py_index_def read_str_def rbind_eq_Inl Let_def

lemma hello_decode_error: "hello_decode h body = Inl e \<Longrightarrow> e \<in> {StructError, IndexError}"
  by (auto simp: hello_decode_def field_errors hello_fmt_def split: if_splits)

lemma telemetry_decode_error: "telemetry_decode h body = Inl e \<Longrightarrow> e \<in> {StructError, IndexError}"
proof -
  have "reading_unpack b = Inl e' \<Longrightarrow> e' = StructError" for b e'
    by (auto simp: reading_unpack_def field_errors split: if_splits)
  then have "read_many 5 reading_unpack n b = Inl e' \<Longrightarrow> e' = StructError" for n b e'
    by (rule read_many_error)
  moreover have "telemetry_kinematics b off = Inl e' \<Longrightarrow> e' = StructError" for b off e'
    by (auto simp: telemetry_kinematics_def field_errors kin_fmt_def split: if_splits)
  ultimately show "telemetry_decode h body = Inl e \<Longrightarrow> e \<in> {StructError, IndexError}"
    by (auto simp: telemetry_decode_def field_errors tlm_fmt_def split: if_splits)
qed

lemma neighbors_decode_error: "neighbors_decode h body = Inl e \<Longrightarrow> e \<in> {StructError, IndexError}"
proof -
  have "link_unpack b = Inl e' \<Longrightarrow> e' = StructError" for b e'
    by (auto simp: link_unpack_def link_fmt_def field_errors split: if_splits)
  then have "read_many 12 link_unpack n b = Inl e' \<Longrightarrow> e' = StructError" for n b e'
    by (rule read_many_error)
  then show "neighbors_decode h body = Inl e \<Longrightarrow> e \<in> {StructError, IndexError}"
    by (auto simp: neighbors_decode_def field_errors split: if_splits)
qed

lemma decoder_error: "decoder_of t h body = Inl e \<Longrightarrow> e \<in> {StructError, IndexError}"
proof -
  assume e: "decoder_of t h body = Inl e"
  have r: "rmap f m = Inl e \<longleftrightarrow> m = Inl e" for f :: "'x \<Rightarrow> 'y" and m
    by (simp add: rmap_def rbind_eq_Inl)
  show ?thesis
    by (cases t; insert e)
       (auto simp: rmap_def rbind_eq_Inl range_req_decode_def range_resp_decode_def pose_decode_def
          pose_fmt_def mesh_send_decode_def route_decode_def cmd_decode_def broadcast_decode_def
          struct_unpack_def py_index_def
          dest: hello_decode_error telemetry_decode_error neighbors_decode_error split: if_splits)
qed

lemma decodes_itself:
  "wf_message m \<Longrightarrow> \<exists>bs. encode_message m = Inr bs \<and> decode_message bs = Inr (Some (on_wire m))"
  by (metis message_decodes append_Nil2)

section \<open>The sequence number of an encoded frame\<close>

definition frame_seq :: "bytes \<Rightarrow> int" where
  "frame_seq b = (case header_unpack b of Inr h \<Rightarrow> hdr_seq h | Inl _ \<Rightarrow> 0)"

lemma header_pack_wf:
  assumes "header_pack h = Inr b" and "length (hdr_eui h) = 8"
  shows "wf_header h"
  using assms
  by (auto simp: header_pack_def hdr_fmt_def wf_header_def rbind_eq_Inr split: if_splits)

lemma frame_seq_encoded:
  assumes "with_header t eui seq flags body = Inr b" and "length eui = 8"
  shows "frame_seq b = seq"
proof -
  let ?h = "\<lparr>hdr_type = msg_code t, hdr_eui = eui, hdr_seq = seq, hdr_flags = flags\<rparr>"
  obtain hb where hb: "header_pack ?h = Inr hb" and b: "b = hb @ body"
    using assms(1) by (auto simp: with_header_def rbind_eq_Inr)
  have "wf_header ?h" using header_pack_wf [OF hb] assms(2) by simp
  with hb header_roundtrip [of ?h] have "header_unpack b = Inr ?h" by (auto simp: b)
  then show ?thesis by (simp add: frame_seq_def)
qed

lemma eui_bytes_length: "eui_bytes s = Inr eui \<Longrightarrow> length eui = 8"
  by (auto simp: eui_bytes_def rbind_eq_Inr split: if_splits)

section \<open>The properties of the messages\<close>

text \<open>C1: Every well-formed message of the ten types is encoded, and the receiver decodes
  exactly its form on the wire; for the messages with room for new fields this holds whatever
  bytes a newer version appends behind the frame.\<close>

theorem message_roundtrip:
  assumes "wf_message m"
  shows "\<exists>bs. encode_message m = Inr bs
            \<and> decode_message bs = Inr (Some (on_wire m))
            \<and> (appendable m \<longrightarrow> (\<forall>extra. decode_message (bs @ extra) = Inr (Some (on_wire m))))"
  using message_decodes [OF assms] by (metis append_Nil2)

lemma message_roundtrip_witness:
  "\<exists>bs. encode_message (MCmd \<lparr>cm_eui = eui64_none, cm_op = cmd_code REBOOT, cm_params = [1, 2],
                              cm_seq = 70000, cm_flags = 4\<rparr>) = Inr bs
      \<and> decode_message bs = Inr (Some (MCmd \<lparr>cm_eui = eui64_none, cm_op = cmd_code REBOOT,
          cm_params = [1, 2], cm_seq = 70000, cm_flags = 4\<rparr>))"
  using message_roundtrip [of "MCmd \<lparr>cm_eui = eui64_none, cm_op = cmd_code REBOOT, cm_params = [1, 2],
      cm_seq = 70000, cm_flags = 4\<rparr>"]
  by (auto simp: wf_cmd_def wf_hdr_fields_def wf_cmd_body_def eui64_none_def)

lemma telemetry_wire_bounds:
  "\<bar>te_lat (telemetry_on_wire m) - te_lat m\<bar> \<le> 5 / 10 ^ 8 \<and> \<bar>te_lon (telemetry_on_wire m) - te_lon m\<bar> \<le> 5 / 10 ^ 8
    \<and> \<bar>te_alt (telemetry_on_wire m) - te_alt m\<bar> \<le> 5 / 1000
    \<and> 0 \<le> te_heading (telemetry_on_wire m) \<and> te_heading (telemetry_on_wire m) < 360
    \<and> (\<exists>k :: int. \<bar>te_heading (telemetry_on_wire m) + 360 * of_int k - te_heading m\<bar> \<le> 5 / 1000)
    \<and> te_readings (telemetry_on_wire m) = te_readings m
    \<and> (te_has_kinematics m \<longrightarrow>
         (\<bar>te_vel_n m\<bar> \<le> 327.67 \<longrightarrow> \<bar>te_vel_n (telemetry_on_wire m) - te_vel_n m\<bar> \<le> 5 / 1000)
       \<and> (0 \<le> te_pos_std m \<and> te_pos_std m \<le> 655.35 \<longrightarrow> \<bar>te_pos_std (telemetry_on_wire m) - te_pos_std m\<bar> \<le> 5 / 1000)
       \<and> (327.67 \<le> te_vel_n m \<longrightarrow> te_vel_n (telemetry_on_wire m) = 327.67)
       \<and> (655.35 \<le> te_pos_std m \<longrightarrow> te_pos_std (telemetry_on_wire m) = 655.35))"
proof -
  let ?h = "fix_centi (te_heading m)"
  have "of_int ?h / 100 = wire_heading (te_heading m) + 360 * of_int (?h div 36000)"
    using of_int_add [where 'a = real, of "?h div 36000 * 36000" "?h mod 36000"]
    unfolding wire_heading_def by (simp add: add_divide_distrib)
  with fix_centi_error [of "te_heading m"]
  have hdg: "\<exists>k :: int. \<bar>wire_heading (te_heading m) + 360 * of_int k - te_heading m\<bar> \<le> 5 / 1000"
    by metis
  have range: "0 \<le> wire_heading x" "wire_heading x < 360" for x
    using pos_mod_bound [of 36000 "fix_centi x"] pos_mod_sign [of 36000 "fix_centi x"]
    by (simp_all add: wire_heading_def)
  have vel: "\<bar>wire_speed x - x\<bar> \<le> 5 / 1000" if "\<bar>x\<bar> \<le> 327.67" for x
    using fix_centi_clamp [of "- 32768" x 32767] that fix_centi_error [of x]
    by (simp add: wire_speed_def abs_le_iff)
  have std: "\<bar>wire_std x - x\<bar> \<le> 5 / 1000" if "0 \<le> x" "x \<le> 655.35" for x
    using fix_centi_clamp [of 0 x 65535] that fix_centi_error [of x]
    by (simp add: wire_std_def)
  have top: "327.67 \<le> x \<Longrightarrow> wire_speed x = 327.67" "655.35 \<le> x \<Longrightarrow> wire_std x = 655.35" for x
    using py_round_lower [of 32767 "x * 100"] py_round_lower [of 65535 "x * 100"]
    by (simp_all add: wire_speed_def wire_std_def clamp_def fix_centi_def)
  show ?thesis
    using hdg range vel std top fix_e7_error fix_centi_error
    by (simp add: telemetry_on_wire_def wire_e7_def wire_centi_def)
qed


definition sample_telemetry :: telemetry where
  "sample_telemetry =
     \<lparr>te_eui = eui64_none, te_status = 3, te_pos_source = 4, te_lat = 37.5, te_lon = -122.25,
      te_alt = 12.5, te_heading = 725.5, te_battery_pct = 80, te_pos_quality = 200, te_readings = [],
      te_has_kinematics = True, te_vel_n = 400, te_vel_e = 1, te_pos_std = 2.5, te_hdg_std = 1,
      te_ekf_flags = 17, te_seq = 9, te_flags = 0\<rparr>"


text \<open>C30: Decoding is total and forward compatible: it fails only with ValueError (a short
  header, a wrong magic number or a newer version), struct.error or IndexError (a short body);
  and a frame with a good header and an unknown type is no error but gives None.\<close>

theorem decode_errors:
  "(decode_message bs = Inl e \<longrightarrow> e \<in> {ValueError, StructError, IndexError})
   \<and> (length bs < 16 \<longrightarrow> decode_message bs = Inl ValueError)
   \<and> (16 \<le> length bs \<and> (bs ! 0 \<noteq> 0x53 \<or> 1 < bs ! 1) \<longrightarrow> decode_message bs = Inl ValueError)
   \<and> (16 \<le> length bs \<and> bs ! 0 = 0x53 \<and> bs ! 1 \<le> 1 \<and> msg_of_code (uint (bs ! 2)) = None
        \<longrightarrow> decode_message bs = Inr None)"
proof -
  have "header_unpack bs = (if bs ! 0 \<noteq> 0x53 \<or> 1 < bs ! 1 then Inl ValueError
      else Inr \<lparr>hdr_type = uint (bs ! 2), hdr_eui = slice bs 4 12, hdr_seq = le_int (slice bs 12 16),
                hdr_flags = uint (bs ! 3)\<rparr>)" if len: "16 \<le> length bs"
  proof -
    obtain a b c d rest where bs: "bs = a # b # c # d # rest"
      using len by (cases bs; cases "tl bs"; cases "tl (tl bs)"; cases "tl (tl (tl bs))") auto
    have "uint a = 0x53 \<longleftrightarrow> a = 0x53" "1 < uint b \<longleftrightarrow> 1 < b"
      by (simp_all add: word_uint_eq_iff word_less_def)
    with bs len show ?thesis
      by (simp add: header_unpack_def struct_unpack_def hdr_fmt_def slice_def drop_take)
  qed
  then show ?thesis
    using header_unpack_error [of bs] decoder_error
    by (auto simp: decode_message_def header_unpack_def [of bs] rbind_eq_Inl Let_def rmap_def
        split: if_splits option.splits)
qed

lemma decode_errors_witness:
  "decode_message [0x53, 1, 0x11] = Inl ValueError
   \<and> decode_message (replicate 16 0x52) = Inl ValueError
   \<and> decode_message (0x53 # 1 # 0x7F # replicate 13 0) = Inr None"
  using decode_errors [of "[0x53, 1, 0x11]"] decode_errors [of "replicate 16 0x52"]
    decode_errors [of "0x53 # 1 # 0x7F # replicate 13 0"]
  by (simp add: msg_of_code_def all_msg_types_def)

end
