(* ===== verification/Registry.thy ===== *)
theory Registry
  imports Messages
begin

text \<open>
  The live registry of the command station, \<open>olympus_link/model.py\<close>: the state kept per
  module, the updates on HELLO, TELEMETRY and NEIGHBORS, liveness, and the queue of modules the
  service has still to register. The clock (\<open>time.monotonic()\<close>) is an argument, read once per
  event; a reference to a module object is its key. The lemmas: the registry invariant is kept
  by every event, a module that needs registration is queued, and a neighbor table holds only
  links less than 30 seconds old.
\<close>

section \<open>The state of a module\<close>

record position =
  ps_lat :: real
  ps_lon :: real
  ps_alt :: real
  ps_heading :: real
  ps_source :: int
  ps_quality :: int
  ps_fixed_at :: real
  ps_vel_n :: real
  ps_vel_e :: real
  ps_pos_std :: real
  ps_hdg_std :: real
  ps_ekf_flags :: int

definition position0 :: position where
  "position0 =
     \<lparr>ps_lat = 0, ps_lon = 0, ps_alt = 0, ps_heading = 0, ps_source = pos_source_code SRC_NONE,
      ps_quality = 0, ps_fixed_at = 0, ps_vel_n = 0, ps_vel_e = 0, ps_pos_std = 0, ps_hdg_std = 0,
      ps_ekf_flags = 0\<rparr>"

definition position_valid :: "position \<Rightarrow> bool" where
  "position_valid p \<longleftrightarrow> ps_source p \<noteq> pos_source_code SRC_NONE \<and> (ps_lat p \<noteq> 0 \<or> ps_lon p \<noteq> 0)"

definition position_speed :: "position \<Rightarrow> real" where
  "position_speed p = sqrt ((ps_vel_n p)\<^sup>2 + (ps_vel_e p)\<^sup>2)"

record neighbor =
  nb_eui :: string
  nb_rssi :: int
  nb_range_cm :: int
  nb_link_quality :: int
  nb_last_seen :: real

record route_assignment =
  ra_primary :: string
  ra_secondary :: string
  ra_subscriptions :: "string list"
  ra_pushed_hash :: int

definition route0 :: route_assignment where
  "route0 = \<lparr>ra_primary = [], ra_secondary = [], ra_subscriptions = [], ra_pushed_hash = 0\<rparr>"

record module_state =
  md_eui :: string
  md_name :: pystr
  md_role :: int
  md_mount :: int
  md_attached_to :: pystr
  md_sensors :: int
  md_capabilities :: int
  md_fw_version :: int
  md_battery_pct :: int
  md_status :: int
  md_position :: position
  md_readings :: "(int, 32 word) dict"
  md_neighbors :: "(string, neighbor) dict"
  md_route :: route_assignment
  md_first_seen :: real
  md_last_seen :: real
  md_last_seq :: int
  md_online :: bool
  md_registered :: bool

definition module0 :: "string \<Rightarrow> real \<Rightarrow> module_state" where
  "module0 eui now =
     \<lparr>md_eui = eui, md_name = [], md_role = 0, md_mount = mount_code STANDALONE, md_attached_to = [],
      md_sensors = 0, md_capabilities = 0, md_fw_version = 0, md_battery_pct = 100, md_status = status_code ST_IDLE,
      md_position = position0, md_readings = [], md_neighbors = [], md_route = route0,
      md_first_seen = now, md_last_seen = now, md_last_seq = -1, md_online = True,
      md_registered = False\<rparr>"

definition is_provider :: "module_state \<Rightarrow> bool" where
  "is_provider m \<longleftrightarrow> has_bits (md_role m) (role_bit R_PROVIDER)"

definition is_consumer :: "module_state \<Rightarrow> bool" where
  "is_consumer m \<longleftrightarrow> has_bits (md_role m) (role_bit R_CONSUMER)"

definition is_relay :: "module_state \<Rightarrow> bool" where
  "is_relay m \<longleftrightarrow> has_bits (md_role m) (role_bit R_RELAY)"

definition is_anchor :: "module_state \<Rightarrow> bool" where
  "is_anchor m \<longleftrightarrow>
     position_valid (md_position m)
     \<and> ps_source (md_position m) \<in> {pos_source_code SRC_GPS, pos_source_code SRC_FUSED}
     \<and> ps_quality (md_position m) \<ge> 160"

definition has_gps :: "module_state \<Rightarrow> bool" where
  "has_gps m \<longleftrightarrow> has_bits (md_sensors m) (sensor_bit S_GPS)"

definition has_imu :: "module_state \<Rightarrow> bool" where
  "has_imu m \<longleftrightarrow> has_bits (md_sensors m) (sensor_bit S_IMU)"

definition is_overridable :: "module_state \<Rightarrow> bool" where
  "is_overridable m \<longleftrightarrow> has_bits (md_capabilities m) (capability_bit C_OVERRIDABLE)"

definition is_autonomous :: "module_state \<Rightarrow> bool" where
  "is_autonomous m \<longleftrightarrow> has_bits (md_capabilities m) (capability_bit C_AUTONOMOUS)"

definition node_class :: "module_state \<Rightarrow> string" where
  "node_class m =
     (let c = md_capabilities m
      in if has_bits c (capability_bit C_BEACON_TX) then ''beacon''
         else if has_bits c (capability_bit C_AUTONOMOUS OR capability_bit C_OVERRIDABLE) then ''active''
         else if has_bits c (capability_bit C_RELAY_ONLY) then ''relay''
         else ''passive'')"

definition contribution :: "module_state \<Rightarrow> string" where
  "contribution m =
     (if is_provider m \<and> is_consumer m then ''provider+consumer''
      else if is_provider m then ''provider''
      else if is_consumer m then ''consumer''
      else ''passive'')"

section \<open>The registry\<close>

record registry =
  rg_modules :: "(string, module_state) dict"
  rg_gateway_eui :: string
  rg_newly_seen :: "string list"

definition registry0 :: "string \<Rightarrow> registry" where
  "registry0 gateway = \<lparr>rg_modules = [], rg_gateway_eui = gateway, rg_newly_seen = []\<rparr>"

definition put_module :: "module_state \<Rightarrow> registry \<Rightarrow> registry" where
  "put_module m r = r\<lparr>rg_modules := dset (md_eui m) m (rg_modules r)\<rparr>"

definition queue_new :: "string \<Rightarrow> registry \<Rightarrow> registry" where
  "queue_new eui r = r\<lparr>rg_newly_seen := rg_newly_seen r @ [eui]\<rparr>"

text \<open>\<open>_touch\<close>: the module's state after it was heard, and the registry that holds it.\<close>

definition touch :: "real \<Rightarrow> string \<Rightarrow> registry \<Rightarrow> module_state \<times> registry" where
  "touch now eui r =
     (let (m, r) = (case dget (rg_modules r) eui of
                      None \<Rightarrow> (module0 eui now, queue_new eui (put_module (module0 eui now) r))
                    | Some m \<Rightarrow> (m, r));
          m' = m\<lparr>md_last_seen := now\<rparr>
      in if md_online m' then (m', put_module m' r)
         else (m'\<lparr>md_online := True\<rparr>, queue_new eui (put_module (m'\<lparr>md_online := True\<rparr>) r)))"

definition on_hello :: "real \<Rightarrow> hello \<Rightarrow> registry \<Rightarrow> registry" where
  "on_hello now msg r =
     (let eui = eui_str (he_eui msg);
          (m, r) = touch now eui r;
          changed = (md_role m \<noteq> he_role msg \<or> md_mount m \<noteq> he_mount msg
                     \<or> md_sensors m \<noteq> he_sensors msg \<or> md_attached_to m \<noteq> he_attached_to msg
                     \<or> md_capabilities m \<noteq> he_capabilities msg);
          m' = m\<lparr>md_name := (if he_name msg \<noteq> [] then he_name msg else md_name m),
                 md_role := he_role msg, md_mount := he_mount msg,
                 md_attached_to := he_attached_to msg, md_sensors := he_sensors msg,
                 md_capabilities := he_capabilities msg, md_fw_version := he_fw_version msg,
                 md_battery_pct := he_battery_pct msg, md_last_seq := he_seq msg\<rparr>
      in if changed
         then let r = put_module (m'\<lparr>md_registered := False\<rparr>) r
              in if eui \<in> set (rg_newly_seen r) then r else queue_new eui r
         else put_module m' r)"

definition readings_dict :: "reading list \<Rightarrow> (int, 32 word) dict" where
  "readings_dict rs = foldl (\<lambda>d r. dset (rd_channel r) (rd_value r) d) [] rs"

definition on_telemetry :: "real \<Rightarrow> telemetry \<Rightarrow> registry \<Rightarrow> registry" where
  "on_telemetry now msg r =
     (let (m, r) = touch now (eui_str (te_eui msg)) r;
          m1 = m\<lparr>md_status := te_status msg, md_battery_pct := te_battery_pct msg\<rparr>;
          m2 = (if te_pos_source msg \<noteq> pos_source_code SRC_NONE
                then m1\<lparr>md_position :=
                       \<lparr>ps_lat = te_lat msg, ps_lon = te_lon msg, ps_alt = te_alt msg,
                        ps_heading = te_heading msg, ps_source = te_pos_source msg,
                        ps_quality = te_pos_quality msg, ps_fixed_at = now,
                        ps_vel_n = te_vel_n msg, ps_vel_e = te_vel_e msg,
                        ps_pos_std = te_pos_std msg, ps_hdg_std = te_hdg_std msg,
                        ps_ekf_flags = te_ekf_flags msg\<rparr>\<rparr>
                else m1)
      in put_module (m2\<lparr>md_readings := readings_dict (te_readings msg)\<rparr>) r)"

definition neighbor_of :: "real \<Rightarrow> neighbor_link \<Rightarrow> neighbor" where
  "neighbor_of now l =
     \<lparr>nb_eui = eui_str (nl_eui l), nb_rssi = nl_rssi l, nb_range_cm = nl_range_cm l,
      nb_link_quality = nl_link_quality l, nb_last_seen = now\<rparr>"

definition on_neighbors :: "real \<Rightarrow> neighbors \<Rightarrow> registry \<Rightarrow> registry" where
  "on_neighbors now msg r =
     (let (m, r) = touch now (eui_str (ne_eui msg)) r;
          table = foldl (\<lambda>d l. dset (eui_str (nl_eui l)) (neighbor_of now l) d)
                    (md_neighbors m) (ne_links msg)
      in put_module (m\<lparr>md_neighbors := filter (\<lambda>(k, v). now - nb_last_seen v < 30) table\<rparr>) r)"

section \<open>Liveness\<close>

definition stale :: "real \<Rightarrow> real \<Rightarrow> module_state \<Rightarrow> bool" where
  "stale now ttl m \<longleftrightarrow> md_online m \<and> now - md_last_seen m > ttl"

definition set_offline :: "module_state \<Rightarrow> module_state" where
  "set_offline m = m\<lparr>md_online := False, md_status := status_code ST_OFFLINE, md_registered := False\<rparr>"

definition expire :: "real \<Rightarrow> real \<Rightarrow> registry \<Rightarrow> string list \<times> registry" where
  "expire now ttl r =
     (map md_eui (filter (stale now ttl) (dvals (rg_modules r))),
      r\<lparr>rg_modules := dmap (\<lambda>m. if stale now ttl m then set_offline m else m) (rg_modules r)\<rparr>)"

definition online_modules :: "registry \<Rightarrow> module_state list" where
  "online_modules r = filter md_online (dvals (rg_modules r))"

fun drain_loop :: "string list \<Rightarrow> string list \<Rightarrow> registry \<Rightarrow> string list" where
  "drain_loop [] seen r = []"
| "drain_loop (eui # out) seen r =
     (if eui \<notin> set seen \<and> dget (rg_modules r) eui \<noteq> None
      then eui # drain_loop out (eui # seen) r
      else drain_loop out seen r)"

definition drain_newly_seen :: "registry \<Rightarrow> string list \<times> registry" where
  "drain_newly_seen r =
     (let out = rg_newly_seen r; r = r\<lparr>rg_newly_seen := []\<rparr>
      in (drain_loop out [] r, r))"

section \<open>The invariant\<close>

definition module_inv :: "module_state \<Rightarrow> bool" where
  "module_inv m \<longleftrightarrow>
     (\<not> md_online m \<longrightarrow> \<not> md_registered m \<and> md_status m = status_code ST_OFFLINE)
     \<and> distinct (dkeys (md_neighbors m))
     \<and> (\<forall>k n. dget (md_neighbors m) k = Some n \<longrightarrow> nb_eui n = k)"

definition registry_inv :: "registry \<Rightarrow> bool" where
  "registry_inv r \<longleftrightarrow>
     distinct (dkeys (rg_modules r))
     \<and> (\<forall>k m. dget (rg_modules r) k = Some m \<longrightarrow> md_eui m = k \<and> module_inv m)
     \<and> set (rg_newly_seen r) \<subseteq> set (dkeys (rg_modules r))"

text \<open>An online module that is not registered with Olympus waits in the queue.\<close>

definition all_queued :: "registry \<Rightarrow> bool" where
  "all_queued r \<longleftrightarrow>
     (\<forall>k m. dget (rg_modules r) k = Some m \<and> md_online m \<and> \<not> md_registered m
        \<longrightarrow> k \<in> set (rg_newly_seen r))"

lemma registry_inv_init: "registry_inv (registry0 g)" "all_queued (registry0 g)"
  by (simp_all add: registry_inv_def registry0_def all_queued_def)

lemma module_inv_new: "module_inv (module0 eui now)"
  by (simp add: module_inv_def module0_def)

lemma put_module_get:
  "dget (rg_modules (put_module m r)) k = (if k = md_eui m then Some m else dget (rg_modules r) k)"
  by (simp add: put_module_def dict_laws)

lemma put_module_keys:
  "set (dkeys (rg_modules (put_module m r))) = insert (md_eui m) (set (dkeys (rg_modules r)))"
  by (auto simp: put_module_def dict_laws)

lemma registry_fields [simp]:
  "rg_newly_seen (put_module m r) = rg_newly_seen r"
  "rg_gateway_eui (put_module m r) = rg_gateway_eui r"
  "rg_modules (queue_new eui r) = rg_modules r"
  "rg_newly_seen (queue_new eui r) = rg_newly_seen r @ [eui]"
  "rg_gateway_eui (queue_new eui r) = rg_gateway_eui r"
  by (simp_all add: put_module_def queue_new_def)

lemma inv_put_module: "\<lbrakk>registry_inv r; module_inv m\<rbrakk> \<Longrightarrow> registry_inv (put_module m r)"
  unfolding registry_inv_def put_module_get put_module_keys
  by (auto simp: put_module_def intro: pydict.distinct_put)

lemma inv_queue_new:
  "\<lbrakk>registry_inv r; eui \<in> set (dkeys (rg_modules r))\<rbrakk> \<Longrightarrow> registry_inv (queue_new eui r)"
  by (auto simp: registry_inv_def)

lemma queued_put_module:
  "\<lbrakk>all_queued r; md_online m \<Longrightarrow> \<not> md_registered m \<Longrightarrow> md_eui m \<in> set (rg_newly_seen r)\<rbrakk>
     \<Longrightarrow> all_queued (put_module m r)"
  by (auto simp: all_queued_def put_module_get)

lemma queued_queue_new: "all_queued r \<Longrightarrow> all_queued (queue_new eui r)"
  by (auto simp: all_queued_def)

text \<open>What hearing from a module does, on every branch.\<close>

definition heard :: "real \<Rightarrow> string \<Rightarrow> registry \<Rightarrow> module_state" where
  "heard now eui r =
     (case dget (rg_modules r) eui of
        None \<Rightarrow> module0 eui now
      | Some m \<Rightarrow> m\<lparr>md_last_seen := now, md_online := True\<rparr>)"

lemma touch_cases:
  assumes "registry_inv r"
  obtains
    (known) m where "dget (rg_modules r) eui = Some m" "md_online m"
      "touch now eui r = (heard now eui r, put_module (heard now eui r) r)"
  | (queued) "touch now eui r = (heard now eui r, queue_new eui (put_module (heard now eui r) r))"
      "\<not> md_registered (heard now eui r)"
proof (cases "dget (rg_modules r) eui")
  case None
  have "put_module ((module0 eui now)\<lparr>md_last_seen := now\<rparr>) (queue_new eui (put_module (module0 eui now) r))
      = queue_new eui (put_module (module0 eui now) r)"
    using None pydict.keys_get
    by (simp add: put_module_def queue_new_def module0_def dset_def)
  with None queued show ?thesis
    by (simp add: touch_def heard_def module0_def Let_def)
next
  case (Some m)
  with assms have m: "md_eui m = eui" "module_inv m" by (simp_all add: registry_inv_def)
  show ?thesis
  proof (cases "md_online m")
    case True
    then have "m\<lparr>md_last_seen := now, md_online := True\<rparr> = m\<lparr>md_last_seen := now\<rparr>" by simp
    with Some True known show ?thesis
      by (simp add: touch_def heard_def Let_def)
  next
    case False
    with Some m queued show ?thesis
      by (simp add: touch_def heard_def Let_def module_inv_def)
  qed
qed

lemma heard_props:
  assumes "registry_inv r"
  shows "md_eui (heard now eui r) = eui" "md_online (heard now eui r)"
    "md_last_seen (heard now eui r) = now" "module_inv (heard now eui r)"
  using assms by (auto simp: heard_def module0_def registry_inv_def module_inv_def
      split: option.splits)

lemma touch_spec:
  assumes "registry_inv r"
  shows "\<exists>r'. touch now eui r = (heard now eui r, r')
    \<and> registry_inv r' \<and> rg_gateway_eui r' = rg_gateway_eui r
    \<and> (\<forall>k. dget (rg_modules r') k = (if k = eui then Some (heard now eui r) else dget (rg_modules r) k))
    \<and> set (rg_newly_seen r) \<subseteq> set (rg_newly_seen r')
    \<and> set (rg_newly_seen r') \<subseteq> insert eui (set (rg_newly_seen r))
    \<and> (\<not> md_registered (heard now eui r) \<and> all_queued r \<longrightarrow> eui \<in> set (rg_newly_seen r'))
    \<and> (all_queued r \<longrightarrow> all_queued r')"
proof -
  note props = heard_props [OF assms, of now eui]
  show ?thesis
  proof (cases rule: touch_cases [OF assms, where now = now and eui = eui, case_names known queued])
    case (known m)
    with assms have m: "md_eui m = eui" "heard now eui r = m\<lparr>md_last_seen := now, md_online := True\<rparr>"
      by (simp_all add: registry_inv_def heard_def)
    with known have q: "eui \<in> set (rg_newly_seen r)"
      if "\<not> md_registered (heard now eui r)" "all_queued r"
      using that by (simp add: all_queued_def)
    then have "all_queued (put_module (heard now eui r) r)" if "all_queued r"
      using that props by (intro queued_put_module) simp_all
    with known props q assms show ?thesis
      by (auto simp: put_module_get inv_put_module)
  next
    case queued
    have "all_queued (queue_new eui (put_module (heard now eui r) r))" if "all_queued r"
      using that props by (auto simp: all_queued_def put_module_get)
    with queued props assms show ?thesis
      by (auto simp: put_module_get put_module_keys intro!: inv_put_module inv_queue_new)
  qed
qed

text \<open>The three messages: the state they leave for their module, the others untouched.\<close>

definition hello_changed :: "hello \<Rightarrow> module_state \<Rightarrow> bool" where
  "hello_changed msg m \<longleftrightarrow>
     md_role m \<noteq> he_role msg \<or> md_mount m \<noteq> he_mount msg \<or> md_sensors m \<noteq> he_sensors msg
     \<or> md_attached_to m \<noteq> he_attached_to msg \<or> md_capabilities m \<noteq> he_capabilities msg"

definition hello_update :: "hello \<Rightarrow> module_state \<Rightarrow> module_state" where
  "hello_update msg m =
     m\<lparr>md_name := (if he_name msg \<noteq> [] then he_name msg else md_name m),
       md_role := he_role msg, md_mount := he_mount msg,
       md_attached_to := he_attached_to msg, md_sensors := he_sensors msg,
       md_capabilities := he_capabilities msg, md_fw_version := he_fw_version msg,
       md_battery_pct := he_battery_pct msg, md_last_seq := he_seq msg,
       md_registered := (md_registered m \<and> \<not> hello_changed msg m)\<rparr>"

lemma hello_spec:
  assumes "registry_inv r" and "eui = eui_str (he_eui msg)"
  shows "registry_inv (on_hello now msg r) \<and> rg_gateway_eui (on_hello now msg r) = rg_gateway_eui r
    \<and> (\<forall>k. dget (rg_modules (on_hello now msg r)) k =
            (if k = eui then Some (hello_update msg (heard now eui r)) else dget (rg_modules r) k))
    \<and> (all_queued r \<longrightarrow> all_queued (on_hello now msg r))
    \<and> (hello_changed msg (heard now eui r) \<longrightarrow> eui \<in> set (rg_newly_seen (on_hello now msg r)))
    \<and> set (rg_newly_seen r) \<subseteq> set (rg_newly_seen (on_hello now msg r))"
proof -
  let ?m = "heard now eui r"
  let ?u = "hello_update msg ?m"
  obtain r' where t: "touch now eui r = (?m, r')" "registry_inv r'" "rg_gateway_eui r' = rg_gateway_eui r"
    "\<forall>k. dget (rg_modules r') k = (if k = eui then Some ?m else dget (rg_modules r) k)"
    "set (rg_newly_seen r) \<subseteq> set (rg_newly_seen r')"
    "\<not> md_registered ?m \<and> all_queued r \<longrightarrow> eui \<in> set (rg_newly_seen r')"
    "all_queued r \<longrightarrow> all_queued r'"
    using touch_spec [OF assms(1), of now eui] by blast
  note props = heard_props [OF assms(1), of now eui]
  have u: "md_eui ?u = eui" "md_online ?u" "module_inv ?u"
    "md_registered ?u = (md_registered ?m \<and> \<not> hello_changed msg ?m)"
    using props by (simp_all add: hello_update_def module_inv_def)
  show ?thesis
  proof (cases "hello_changed msg ?m")
    case True
    then have r: "on_hello now msg r =
        (if eui \<in> set (rg_newly_seen r') then put_module ?u r' else queue_new eui (put_module ?u r'))"
      using t(1) assms(2) by (simp add: on_hello_def Let_def hello_changed_def hello_update_def)
    have "all_queued (on_hello now msg r)" if "all_queued r"
      using that t u unfolding r by (auto simp: all_queued_def put_module_get)
    moreover have "registry_inv (on_hello now msg r)"
      using t u unfolding r by (auto simp: put_module_keys intro!: inv_put_module inv_queue_new)
    ultimately show ?thesis
      using True t u unfolding r by (auto simp: put_module_get)
  next
    case False
    then have "?u = ?m\<lparr>md_name := (if he_name msg \<noteq> [] then he_name msg else md_name ?m),
       md_role := he_role msg, md_mount := he_mount msg,
       md_attached_to := he_attached_to msg, md_sensors := he_sensors msg,
       md_capabilities := he_capabilities msg, md_fw_version := he_fw_version msg,
       md_battery_pct := he_battery_pct msg, md_last_seq := he_seq msg\<rparr>"
      by (simp add: hello_update_def)
    with False have r: "on_hello now msg r = put_module ?u r'"
      using t(1) assms(2) by (simp add: on_hello_def Let_def hello_changed_def)
    have "all_queued (on_hello now msg r)" if "all_queued r"
      using that t u False unfolding r by (auto simp: all_queued_def put_module_get)
    then show ?thesis
      using False t u unfolding r by (auto simp: put_module_get intro: inv_put_module)
  qed
qed

text \<open>TELEMETRY and NEIGHBORS change their module's own fields only.\<close>

lemma touch_then_put:
  assumes "registry_inv r" and "md_eui (f (heard now eui r)) = eui" and "md_online (f (heard now eui r))"
    and "md_registered (f (heard now eui r)) = md_registered (heard now eui r)"
    and "module_inv (f (heard now eui r))"
    and "r'' = (let (m, r') = touch now eui r in put_module (f m) r')"
  shows "registry_inv r'' \<and> rg_gateway_eui r'' = rg_gateway_eui r
    \<and> (\<forall>k. dget (rg_modules r'') k
            = (if k = eui then Some (f (heard now eui r)) else dget (rg_modules r) k))
    \<and> (all_queued r \<longrightarrow> all_queued r'')
    \<and> set (rg_newly_seen r) \<subseteq> set (rg_newly_seen r'')"
proof -
  obtain r' where t: "touch now eui r = (heard now eui r, r')" "registry_inv r'"
    "rg_gateway_eui r' = rg_gateway_eui r"
    "\<forall>k. dget (rg_modules r') k = (if k = eui then Some (heard now eui r) else dget (rg_modules r) k)"
    "set (rg_newly_seen r) \<subseteq> set (rg_newly_seen r')"
    "\<not> md_registered (heard now eui r) \<and> all_queued r \<longrightarrow> eui \<in> set (rg_newly_seen r')"
    "all_queued r \<longrightarrow> all_queued r'"
    using touch_spec [OF assms(1), of now eui] by blast
  have "all_queued (put_module (f (heard now eui r)) r')" if "all_queued r"
    using that t assms by (intro queued_put_module) simp_all
  with t assms show ?thesis
    by (auto simp: put_module_get intro: inv_put_module)
qed

definition telemetry_update :: "real \<Rightarrow> telemetry \<Rightarrow> module_state \<Rightarrow> module_state" where
  "telemetry_update now msg m =
     m\<lparr>md_status := te_status msg, md_battery_pct := te_battery_pct msg,
       md_position :=
         (if te_pos_source msg \<noteq> pos_source_code SRC_NONE
          then \<lparr>ps_lat = te_lat msg, ps_lon = te_lon msg, ps_alt = te_alt msg,
                ps_heading = te_heading msg, ps_source = te_pos_source msg,
                ps_quality = te_pos_quality msg, ps_fixed_at = now,
                ps_vel_n = te_vel_n msg, ps_vel_e = te_vel_e msg,
                ps_pos_std = te_pos_std msg, ps_hdg_std = te_hdg_std msg,
                ps_ekf_flags = te_ekf_flags msg\<rparr>
          else md_position m),
       md_readings := readings_dict (te_readings msg)\<rparr>"

definition neighbor_table :: "real \<Rightarrow> neighbor_link list \<Rightarrow> (string, neighbor) dict \<Rightarrow> (string, neighbor) dict" where
  "neighbor_table now ls d = foldl (\<lambda>d l. dset (eui_str (nl_eui l)) (neighbor_of now l) d) d ls"

definition neighbors_update :: "real \<Rightarrow> neighbors \<Rightarrow> module_state \<Rightarrow> module_state" where
  "neighbors_update now msg m =
     m\<lparr>md_neighbors := filter (\<lambda>(k, v). now - nb_last_seen v < 30)
         (neighbor_table now (ne_links msg) (md_neighbors m))\<rparr>"

lemma on_telemetry_eq:
  "on_telemetry now msg r =
     (let (m, r') = touch now (eui_str (te_eui msg)) r in put_module (telemetry_update now msg m) r')"
  by (simp add: on_telemetry_def telemetry_update_def Let_def split: prod.splits)

lemma on_neighbors_eq:
  "on_neighbors now msg r =
     (let (m, r') = touch now (eui_str (ne_eui msg)) r in put_module (neighbors_update now msg m) r')"
  by (simp add: on_neighbors_def neighbors_update_def neighbor_table_def Let_def)

lemma dget_filter:
  "distinct (dkeys d) \<Longrightarrow>
     dget (filter (\<lambda>(k, v). P v) d) k
       = (case dget d k of Some v \<Rightarrow> if P v then Some v else None | None \<Rightarrow> None)"
  by (induction d) (auto simp: dkeys_def dget_def map_of_eq_None_iff split: option.splits)

lemma neighbor_table_spec:
  assumes "distinct (dkeys d)"
  shows "distinct (dkeys (neighbor_table now ls d))"
    and "dget (neighbor_table now ls d) k =
           (case map_of (map (\<lambda>l. (eui_str (nl_eui l), neighbor_of now l)) (rev ls)) k of
              Some n \<Rightarrow> Some n | None \<Rightarrow> dget d k)"
proof -
  show "distinct (dkeys (neighbor_table now ls d))"
    unfolding neighbor_table_def using assms
    by (induction ls arbitrary: d) (simp_all add: pydict.distinct_put)
  show "dget (neighbor_table now ls d) k =
           (case map_of (map (\<lambda>l. (eui_str (nl_eui l), neighbor_of now l)) (rev ls)) k of
              Some n \<Rightarrow> Some n | None \<Rightarrow> dget d k)"
    unfolding neighbor_table_def
    by (induction ls arbitrary: d) (auto simp: dict_laws map_add_def split: option.splits)
qed

lemma neighbors_update_get:
  assumes "module_inv m"
  shows "dget (md_neighbors (neighbors_update now msg m)) k =
           (case map_of (map (\<lambda>l. (eui_str (nl_eui l), neighbor_of now l)) (rev (ne_links msg))) k of
              Some n \<Rightarrow> Some n
            | None \<Rightarrow> (case dget (md_neighbors m) k of
                          Some n \<Rightarrow> if now - nb_last_seen n < 30 then Some n else None
                        | None \<Rightarrow> None))"
proof -
  have d: "distinct (dkeys (md_neighbors m))" using assms by (simp add: module_inv_def)
  have fresh: "map_of (map (\<lambda>l. (eui_str (nl_eui l), neighbor_of now l)) ls) k = Some n
      \<Longrightarrow> nb_last_seen n = now" for ls n
    by (induction ls) (auto simp: neighbor_of_def split: if_splits)
  show ?thesis
    by (auto simp: neighbors_update_def dget_filter [OF neighbor_table_spec(1) [OF d]]
        neighbor_table_spec(2) [OF d] fresh split: option.splits)
qed

lemma neighbors_update_inv:
  assumes "module_inv m"
  shows "module_inv (neighbors_update now msg m)"
proof -
  have d: "distinct (dkeys (md_neighbors m))" using assms by (simp add: module_inv_def)
  have "nb_eui n = k"
    if "map_of (map (\<lambda>l. (eui_str (nl_eui l), neighbor_of now l)) ls) k = Some n" for k n ls
    using that by (induction ls) (auto simp: neighbor_of_def split: if_splits)
  then have "dget (md_neighbors (neighbors_update now msg m)) k = Some n \<Longrightarrow> nb_eui n = k" for k n
    using assms by (auto simp: neighbors_update_get module_inv_def split: option.splits if_splits)
  moreover have "distinct (dkeys (md_neighbors (neighbors_update now msg m)))"
    using neighbor_table_spec(1) [OF d, of now "ne_links msg"]
    by (simp add: neighbors_update_def dkeys_def distinct_map_filter)
  ultimately show ?thesis
    using assms by (simp add: module_inv_def neighbors_update_def)
qed

lemma telemetry_update_props:
  assumes "md_online m"
  shows "md_eui (telemetry_update now msg m) = md_eui m" "md_online (telemetry_update now msg m)"
    "md_registered (telemetry_update now msg m) = md_registered m"
    "module_inv m \<Longrightarrow> module_inv (telemetry_update now msg m)"
  using assms by (simp_all add: telemetry_update_def module_inv_def)

lemma telemetry_spec:
  assumes "registry_inv r" and "eui = eui_str (te_eui msg)"
  shows "registry_inv (on_telemetry now msg r) \<and> rg_gateway_eui (on_telemetry now msg r) = rg_gateway_eui r
    \<and> (\<forall>k. dget (rg_modules (on_telemetry now msg r)) k =
            (if k = eui then Some (telemetry_update now msg (heard now eui r)) else dget (rg_modules r) k))
    \<and> (all_queued r \<longrightarrow> all_queued (on_telemetry now msg r))
    \<and> set (rg_newly_seen r) \<subseteq> set (rg_newly_seen (on_telemetry now msg r))"
  using heard_props [OF assms(1)] telemetry_update_props assms(2)
  by (intro touch_then_put [OF assms(1)]) (simp_all add: on_telemetry_eq)

lemma neighbors_spec:
  assumes "registry_inv r" and "eui = eui_str (ne_eui msg)"
  shows "registry_inv (on_neighbors now msg r) \<and> rg_gateway_eui (on_neighbors now msg r) = rg_gateway_eui r
    \<and> (\<forall>k. dget (rg_modules (on_neighbors now msg r)) k =
            (if k = eui then Some (neighbors_update now msg (heard now eui r)) else dget (rg_modules r) k))
    \<and> (all_queued r \<longrightarrow> all_queued (on_neighbors now msg r))
    \<and> set (rg_newly_seen r) \<subseteq> set (rg_newly_seen (on_neighbors now msg r))"
  using heard_props [OF assms(1)] neighbors_update_inv assms(2)
  by (intro touch_then_put [OF assms(1)])
     (simp_all add: on_neighbors_eq, simp_all add: neighbors_update_def)

lemma in_modules_iff:
  assumes "registry_inv r"
  shows "m \<in> set (dvals (rg_modules r)) \<longleftrightarrow> dget (rg_modules r) (md_eui m) = Some m"
proof -
  have dist: "distinct (dkeys (rg_modules r))" using assms by (simp add: registry_inv_def)
  show ?thesis
    using assms dvals_dget [OF dist, of m] by (auto simp: registry_inv_def dest: dget_in_dvals)
qed

text \<open>Liveness and the queue.\<close>

lemma expire_spec:
  assumes "registry_inv r"
  shows "registry_inv (snd (expire now ttl r))"
    and "all_queued r \<Longrightarrow> all_queued (snd (expire now ttl r))"
    and "dget (rg_modules (snd (expire now ttl r))) k =
           map_option (\<lambda>m. if stale now ttl m then set_offline m else m) (dget (rg_modules r) k)"
    and "k \<in> set (fst (expire now ttl r)) \<longleftrightarrow> (\<exists>m. dget (rg_modules r) k = Some m \<and> stale now ttl m)"
    and "rg_gateway_eui (snd (expire now ttl r)) = rg_gateway_eui r"
    and "rg_newly_seen (snd (expire now ttl r)) = rg_newly_seen r"
proof -
  have get: "dget (rg_modules (snd (expire now ttl r))) k =
           map_option (\<lambda>m. if stale now ttl m then set_offline m else m) (dget (rg_modules r) k)" for k
    by (simp add: expire_def)
  then show "dget (rg_modules (snd (expire now ttl r))) k =
           map_option (\<lambda>m. if stale now ttl m then set_offline m else m) (dget (rg_modules r) k)" .
  show "registry_inv (snd (expire now ttl r))"
    using assms unfolding registry_inv_def get
    by (auto simp: expire_def set_offline_def module_inv_def)
  show "all_queued r \<Longrightarrow> all_queued (snd (expire now ttl r))"
    unfolding all_queued_def get by (auto simp: expire_def set_offline_def split: if_splits)
  have eui: "dget (rg_modules r) k = Some m \<Longrightarrow> md_eui m = k" for m
    using assms by (simp add: registry_inv_def)
  show "k \<in> set (fst (expire now ttl r)) \<longleftrightarrow> (\<exists>m. dget (rg_modules r) k = Some m \<and> stale now ttl m)"
  proof
    assume "k \<in> set (fst (expire now ttl r))"
    then obtain m where "m \<in> set (dvals (rg_modules r))" "stale now ttl m" "k = md_eui m"
      by (auto simp: expire_def)
    then show "\<exists>m. dget (rg_modules r) k = Some m \<and> stale now ttl m"
      by (auto simp: in_modules_iff [OF assms])
  next
    assume "\<exists>m. dget (rg_modules r) k = Some m \<and> stale now ttl m"
    then obtain m where "dget (rg_modules r) (md_eui m) = Some m" "stale now ttl m" "k = md_eui m"
      using eui by blast
    then show "k \<in> set (fst (expire now ttl r))"
      by (auto simp: expire_def in_modules_iff [OF assms])
  qed
qed (simp_all add: expire_def)

lemma online_modules_iff:
  assumes "registry_inv r"
  shows "m \<in> set (online_modules r) \<longleftrightarrow> dget (rg_modules r) (md_eui m) = Some m \<and> md_online m"
  using in_modules_iff [OF assms] by (auto simp: online_modules_def)

lemma drain_loop_spec:
  "set (drain_loop out seen r) = {e \<in> set out. e \<notin> set seen \<and> dget (rg_modules r) e \<noteq> None}"
  "distinct (drain_loop out seen r)"
  by (induction out seen r rule: drain_loop.induct) (auto split: if_splits)

lemma drain_spec:
  assumes "registry_inv r"
  shows "set (fst (drain_newly_seen r)) = set (rg_newly_seen r)"
    and "distinct (fst (drain_newly_seen r))"
    and "registry_inv (snd (drain_newly_seen r))"
  using assms drain_loop_spec [of "rg_newly_seen r" "[]" "r\<lparr>rg_newly_seen := []\<rparr>"]
    pydict.keys_get [of _ "rg_modules r"]
  by (auto simp: drain_newly_seen_def Let_def registry_inv_def)

section \<open>The registry as a machine\<close>

datatype registry_event =
    HeardHello real hello | HeardTelemetry real telemetry | HeardNeighbors real neighbors
  | ExpireAt real real

fun registry_step :: "registry \<Rightarrow> registry_event \<Rightarrow> registry" where
  "registry_step r (HeardHello now msg) = on_hello now msg r"
| "registry_step r (HeardTelemetry now msg) = on_telemetry now msg r"
| "registry_step r (HeardNeighbors now msg) = on_neighbors now msg r"
| "registry_step r (ExpireAt now ttl) = snd (expire now ttl r)"

definition registry_ok :: "registry \<Rightarrow> bool" where
  "registry_ok r \<longleftrightarrow> registry_inv r \<and> all_queued r"

interpretation registry_machine: event_machine registry_step registry_ok
proof
  fix r e assume "registry_ok r"
  then show "registry_ok (registry_step r e)"
    using hello_spec telemetry_spec neighbors_spec expire_spec
    by (cases e) (simp_all add: registry_ok_def)
qed

section \<open>The properties of the registry\<close>


text \<open>A HELLO makes its module online and seen now, with the announced role, mount,
  sensors, attachment and capabilities; if any of these differ from before, the registration is
  withdrawn and the module queued; a name is kept when the HELLO has none; and no other module
  changes.\<close>

theorem hello_effect:
  assumes "registry_inv r"
    and "eui = eui_str (he_eui msg)"
  shows "\<exists>m. dget (rg_modules (on_hello now msg r)) eui = Some m
      \<and> md_online m \<and> md_last_seen m = now \<and> md_role m = he_role msg \<and> md_mount m = he_mount msg
      \<and> md_sensors m = he_sensors msg \<and> md_attached_to m = he_attached_to msg
      \<and> md_capabilities m = he_capabilities msg
      \<and> (\<forall>old. dget (rg_modules r) eui = Some old \<longrightarrow>
           md_name m = (if he_name msg = [] then md_name old else he_name msg)
           \<and> md_position m = md_position old \<and> md_neighbors m = md_neighbors old
           \<and> (md_registered m \<longleftrightarrow> md_registered old \<and> \<not> hello_changed msg old)
           \<and> (hello_changed msg old \<longrightarrow> eui \<in> set (rg_newly_seen (on_hello now msg r))))
      \<and> (\<forall>k. k \<noteq> eui \<longrightarrow> dget (rg_modules (on_hello now msg r)) k = dget (rg_modules r) k)"
proof -
  note spec = hello_spec [OF assms, of now]
  note props = heard_props [OF assms(1), of now eui]
  show ?thesis
  proof (intro exI [of _ "hello_update msg (heard now eui r)"] conjI allI impI)
    fix old assume old: "dget (rg_modules r) eui = Some old"
    then have h: "heard now eui r = old\<lparr>md_last_seen := now, md_online := True\<rparr>"
      by (simp add: heard_def)
    show "md_name (hello_update msg (heard now eui r)) = (if he_name msg = [] then md_name old else he_name msg)"
      "md_position (hello_update msg (heard now eui r)) = md_position old"
      "md_neighbors (hello_update msg (heard now eui r)) = md_neighbors old"
      "md_registered (hello_update msg (heard now eui r)) \<longleftrightarrow> md_registered old \<and> \<not> hello_changed msg old"
      by (simp_all add: hello_update_def hello_changed_def h)
    assume "hello_changed msg old"
    then have "hello_changed msg (heard now eui r)" by (simp add: hello_changed_def h)
    with spec show "eui \<in> set (rg_newly_seen (on_hello now msg r))" by blast
  qed (use spec props in \<open>simp_all add: hello_update_def\<close>)
qed

definition sample_hello :: hello where
  "sample_hello =
     \<lparr>he_eui = replicate 8 1, he_role = 1, he_mount = 0, he_sensors = 3, he_fw_version = 1,
      he_battery_pct = 90, he_uptime_s = 5, he_name = [65], he_attached_to = [],
      he_capabilities = 2, he_seq = 1, he_flags = 0\<rparr>"

lemma hello_effect_witness:
  "\<exists>m. dget (rg_modules (on_hello 5 sample_hello (registry0 []))) (eui_str (replicate 8 1)) = Some m
     \<and> md_online m \<and> md_last_seen m = 5 \<and> md_sensors m = 3"
  using hello_effect [OF registry_inv_init(1) [of "[]"] refl, where msg = sample_hello and now = 5]
  by (elim ex_forward) (simp add: sample_hello_def)

text \<open>After a NEIGHBORS report the table of its module holds, for every neighbor the report
  lists, its last entry in the report, and of the others exactly those heard less than 30
  seconds before.\<close>

theorem neighbors_effect:
  assumes "registry_inv r" and "dget (rg_modules r) (eui_str (ne_eui msg)) = Some old"
    and "m = the (dget (rg_modules (on_neighbors now msg r)) (eui_str (ne_eui msg)))"
  shows "dget (md_neighbors m) k =
      (case map_of (map (\<lambda>l. (eui_str (nl_eui l), neighbor_of now l)) (rev (ne_links msg))) k of
         Some n \<Rightarrow> Some n
       | None \<Rightarrow> (case dget (md_neighbors old) k of
                     Some n \<Rightarrow> if now - nb_last_seen n < 30 then Some n else None
                   | None \<Rightarrow> None))"
proof -
  have "m = neighbors_update now msg (heard now (eui_str (ne_eui msg)) r)"
    using neighbors_spec [OF assms(1) refl, of now msg] assms(3) by simp
  moreover have "md_neighbors (heard now (eui_str (ne_eui msg)) r) = md_neighbors old"
    using assms(2) by (simp add: heard_def)
  ultimately show ?thesis
    by (simp only: neighbors_update_get [OF heard_props(4) [OF assms(1)]])
qed

lemma neighbors_effect_witness:
  "dget (md_neighbors (the (dget (rg_modules (on_neighbors 40
        \<lparr>ne_eui = replicate 8 1, ne_links = [], ne_seq = 0, ne_flags = 0\<rparr>
        (on_hello 5 sample_hello (registry0 [])))) (eui_str (replicate 8 1))))) [] = None"
proof -
  let ?r = "on_hello 5 sample_hello (registry0 [])"
  let ?msg = "\<lparr>ne_eui = replicate 8 1, ne_links = [], ne_seq = 0, ne_flags = 0\<rparr>"
  note spec = hello_spec [OF registry_inv_init(1) refl, of 5 sample_hello "[]"]
  have old: "dget (rg_modules ?r) (eui_str (ne_eui ?msg))
      = Some (hello_update sample_hello (heard 5 (eui_str (replicate 8 1)) (registry0 [])))"
    using spec by (simp add: sample_hello_def)
  have inv: "registry_inv ?r" using spec by simp
  show ?thesis
    using neighbors_effect [OF inv old refl, of 40 "[]"]
    by (simp add: hello_update_def heard_def registry0_def module0_def)
qed

text \<open>A liveness check flips exactly the online modules silent for longer than the TTL and
  reports exactly their ids; they end offline, marked OFFLINE and unregistered, every module
  still online was heard within the TTL, and hearing from a flipped module queues it again.\<close>

theorem expire_effect:
  assumes "registry_inv r" and "all_queued r"
  shows "(k \<in> set (fst (expire now ttl r))
            \<longleftrightarrow> (\<exists>m. dget (rg_modules r) k = Some m \<and> md_online m \<and> now - md_last_seen m > ttl))
    \<and> (k \<in> set (fst (expire now ttl r)) \<longrightarrow>
         (\<exists>m. dget (rg_modules (snd (expire now ttl r))) k = Some m
            \<and> \<not> md_online m \<and> \<not> md_registered m \<and> md_status m = status_code ST_OFFLINE
            \<and> k \<in> set (rg_newly_seen (snd (touch later k (snd (expire now ttl r)))))))
    \<and> (\<forall>m \<in> set (online_modules (snd (expire now ttl r))). now - md_last_seen m \<le> ttl)"
proof (intro conjI)
  note spec = expire_spec [OF assms(1), where now = now and ttl = ttl]
  show "k \<in> set (fst (expire now ttl r))
            \<longleftrightarrow> (\<exists>m. dget (rg_modules r) k = Some m \<and> md_online m \<and> now - md_last_seen m > ttl)"
    using spec(4) by (simp add: stale_def)
  show "k \<in> set (fst (expire now ttl r)) \<longrightarrow>
         (\<exists>m. dget (rg_modules (snd (expire now ttl r))) k = Some m
            \<and> \<not> md_online m \<and> \<not> md_registered m \<and> md_status m = status_code ST_OFFLINE
            \<and> k \<in> set (rg_newly_seen (snd (touch later k (snd (expire now ttl r))))))"
  proof
    assume "k \<in> set (fst (expire now ttl r))"
    then obtain m where m: "dget (rg_modules (snd (expire now ttl r))) k = Some (set_offline m)"
      using spec(3, 4) by auto
    then have "k \<in> set (rg_newly_seen (snd (touch later k (snd (expire now ttl r)))))"
      using touch_spec [OF spec(1), of later k] spec(2) [OF assms(2)]
      by (auto simp: heard_def set_offline_def)
    with m show "\<exists>m. dget (rg_modules (snd (expire now ttl r))) k = Some m
            \<and> \<not> md_online m \<and> \<not> md_registered m \<and> md_status m = status_code ST_OFFLINE
            \<and> k \<in> set (rg_newly_seen (snd (touch later k (snd (expire now ttl r)))))"
      by (simp add: set_offline_def)
  qed
  show "\<forall>m \<in> set (online_modules (snd (expire now ttl r))). now - md_last_seen m \<le> ttl"
  proof
    fix m assume "m \<in> set (online_modules (snd (expire now ttl r)))"
    then have "dget (rg_modules (snd (expire now ttl r))) (md_eui m) = Some m" "md_online m"
      by (simp_all add: online_modules_iff [OF spec(1)])
    then have "\<not> stale now ttl m"
      using spec(3) by (auto simp: set_offline_def split: if_splits dest: arg_cong [where f = md_online])
    with \<open>md_online m\<close> show "now - md_last_seen m \<le> ttl"
      by (simp add: stale_def)
  qed
qed

lemma expire_effect_witness:
  "eui_str (replicate 8 1) \<in> set (fst (expire 30 12 (on_hello 5 sample_hello (registry0 []))))"
proof -
  note spec = hello_spec [OF registry_inv_init(1) refl, of 5 sample_hello "[]"]
  have "dget (rg_modules (on_hello 5 sample_hello (registry0 []))) (eui_str (replicate 8 1))
      = Some (hello_update sample_hello (heard 5 (eui_str (replicate 8 1)) (registry0 [])))"
    using spec by (simp add: sample_hello_def)
  moreover have "registry_inv (on_hello 5 sample_hello (registry0 []))"
    "all_queued (on_hello 5 sample_hello (registry0 []))"
    using spec registry_inv_init by auto
  ultimately show ?thesis
    using expire_effect [where r = "on_hello 5 sample_hello (registry0 [])" and ttl = 12 and now = 30
        and k = "eui_str (replicate 8 1)" and later = 40]
    by (simp add: hello_update_def heard_def registry0_def module0_def)
qed

end
