(* ===== verification/Localization.thy ===== *)
theory Localization
  imports Registry
begin

text \<open>
  \<open>olympus_link/localization.py\<close>: the local metric frame, multilateration by damped
  Gauss-Newton, the confidence score of a fit, the ranges gathered from both sides of a link,
  and the pass that gives a position to modules without their own fix. The lemmas: the frame's
  two maps are inverse, the solver always answers when it has three anchors (its determinant
  stays above the damping squared), scores are bounded and monotone, and the pass leaves the
  anchors it started from alone.
\<close>

section \<open>The local frame\<close>

definition m_per_deg_lat :: real where
  "m_per_deg_lat = 111320"

definition mpd_lon :: "real \<Rightarrow> real" where
  "mpd_lon lat0 = 111320 * cos (lat0 * pi / 180)"

definition to_xy :: "real \<Rightarrow> real \<Rightarrow> real \<Rightarrow> real \<Rightarrow> real \<times> real" where
  "to_xy lat lon lat0 lon0 = ((lon - lon0) * mpd_lon lat0, (lat - lat0) * m_per_deg_lat)"

definition to_ll :: "real \<Rightarrow> real \<Rightarrow> real \<Rightarrow> real \<Rightarrow> real \<times> real" where
  "to_ll x y lat0 lon0 = (lat0 + y / m_per_deg_lat, lon0 + x / mpd_lon lat0)"

lemma mpd_lon_pos: "\<bar>lat0\<bar> < 90 \<Longrightarrow> 0 < mpd_lon lat0"
  using mult_strict_right_mono [of lat0 90 pi] mult_strict_right_mono [of "- 90" lat0 pi] pi_gt_zero
  unfolding mpd_lon_def by (intro mult_pos_pos cos_gt_zero_pi) (auto simp: abs_less_iff)

lemma to_ll_to_xy:
  assumes "\<bar>lat0\<bar> < 90" and "to_xy lat lon lat0 lon0 = (x, y)"
  shows "to_ll x y lat0 lon0 = (lat, lon)"
  using assms mpd_lon_pos [OF assms(1)] by (auto simp: to_xy_def to_ll_def m_per_deg_lat_def)

lemma to_xy_to_ll:
  assumes "\<bar>lat0\<bar> < 90" and "to_ll x y lat0 lon0 = (lat, lon)"
  shows "to_xy lat lon lat0 lon0 = (x, y)"
  using assms mpd_lon_pos [OF assms(1)] by (auto simp: to_xy_def to_ll_def m_per_deg_lat_def)

section \<open>Multilateration\<close>

definition hypot :: "real \<Rightarrow> real \<Rightarrow> real" where
  "hypot x y = sqrt (x\<^sup>2 + y\<^sup>2)"

text \<open>The five sums of the normal equations: \<open>jtj00, jtj01, jtj11, jtf0, jtf1\<close>.\<close>

type_synonym normal_sums = "real \<times> real \<times> real \<times> real \<times> real"

fun add_anchor :: "real \<Rightarrow> real \<Rightarrow> normal_sums \<Rightarrow> (real \<times> real) \<times> real \<Rightarrow> normal_sums" where
  "add_anchor px py (s00, s01, s11, f0, f1) ((ax, ay), r) =
     (let dx = px - ax; dy = py - ay;
          d = (if hypot dx dy < 1 / 10 ^ 6 then 1 / 10 ^ 6 else hypot dx dy);
          f = d - r; j0 = dx / d; j1 = dy / d
      in (s00 + j0 * j0, s01 + j0 * j1, s11 + j1 * j1, f0 + j0 * f, f1 + j1 * f))"

definition normal_equations :: "((real \<times> real) \<times> real) list \<Rightarrow> real \<Rightarrow> real \<Rightarrow> normal_sums" where
  "normal_equations obs px py = foldl (add_anchor px py) (0, 0, 0, 0, 0) obs"

text \<open>The loop; None is the early return on a vanishing determinant.\<close>

fun solve_loop :: "nat \<Rightarrow> ((real \<times> real) \<times> real) list \<Rightarrow> real \<times> real \<Rightarrow> (real \<times> real) option" where
  "solve_loop 0 obs p = Some p"
| "solve_loop (Suc n) obs (px, py) =
     (let (s00, s01, s11, f0, f1) = normal_equations obs px py;
          lam = 1 / 10 ^ 3; a = s00 + lam; b = s01; c = s11 + lam;
          det = a * c - b * b
      in if \<bar>det\<bar> < 1 / 10 ^ 9 then None
         else let dpx = - (c * f0 - b * f1) / det; dpy = - (a * f1 - b * f0) / det;
                  p = (px + dpx, py + dpy)
              in if hypot dpx dpy < 1 / 10 ^ 3 then Some p else solve_loop n obs p)"

definition residual_rms :: "((real \<times> real) \<times> real) list \<Rightarrow> real \<times> real \<Rightarrow> real" where
  "residual_rms obs p =
     sqrt (sum_list (map (\<lambda>((ax, ay), r). (hypot (fst p - ax) (snd p - ay) - r)\<^sup>2) obs)
           / real (length obs))"

definition multilaterate ::
  "(real \<times> real) list \<Rightarrow> real list \<Rightarrow> (real \<times> real) option \<Rightarrow> nat \<Rightarrow> (real \<times> real \<times> real) option" where
  "multilaterate anchors ranges guess iters =
     (let n = length anchors
      in if n < 3 \<or> n \<noteq> length ranges then None
         else let start = (case guess of
                             None \<Rightarrow> (sum_list (map fst anchors) / real n, sum_list (map snd anchors) / real n)
                           | Some g \<Rightarrow> g);
                  obs = zip anchors ranges
              in case solve_loop iters obs start of
                   None \<Rightarrow> None
                 | Some p \<Rightarrow> Some (fst p, snd p, residual_rms obs p))"

text \<open>The Gram matrix of the rows: its determinant is not negative, so damping keeps it positive.\<close>

lemma gram_step:
  fixes a b c :: real
  assumes "0 \<le> a" and "0 \<le> c" and "b * b \<le> a * c"
  shows "(b + x * y) * (b + x * y) \<le> (a + x * x) * (c + y * y)"
proof -
  have "2 * b * x * y \<le> a * y * y + c * x * x"
  proof (cases "a = 0")
    case True
    then have "b * b \<le> 0" using assms(3) by simp
    then have "b = 0" by (metis mult_eq_0_iff not_less_iff_gr_or_eq zero_less_mult_iff linorder_not_le)
    with True assms(2) show ?thesis by (simp add: mult.assoc)
  next
    case False
    with assms have "0 < a" by simp
    have "0 \<le> (a * y - b * x) * (a * y - b * x)" by simp
    also have "\<dots> = a * (a * y * y) - a * (2 * b * x * y) + (b * b) * (x * x)"
      by (simp add: algebra_simps)
    also have "\<dots> \<le> a * (a * y * y) - a * (2 * b * x * y) + (a * c) * (x * x)"
      using assms(3) by (simp add: mult_right_mono)
    also have "\<dots> = a * (a * y * y - 2 * b * x * y + c * x * x)"
      by (simp add: algebra_simps)
    finally show ?thesis using \<open>0 < a\<close> by (simp add: zero_le_mult_iff)
  qed
  with assms(3) show ?thesis by (simp add: algebra_simps)
qed

lemma add_anchor_step:
  "\<exists>j0 j1 f. add_anchor px py (a, b, c, g, h) ((ax, ay), r)
     = (a + j0 * j0, b + j0 * j1, c + j1 * j1, g + j0 * f, h + j1 * f)"
  unfolding add_anchor.simps Let_def by (intro exI, rule refl)

lemma normal_equations_gram:
  assumes "normal_equations obs px py = (s00, s01, s11, f0, f1)"
  shows "0 \<le> s00 \<and> 0 \<le> s11 \<and> s01 * s01 \<le> s00 * s11"
proof -
  have "\<lbrakk>foldl (add_anchor px py) (a, b, c, g, h) obs = (s00, s01, s11, f0, f1);
         0 \<le> a; 0 \<le> c; b * b \<le> a * c\<rbrakk>
      \<Longrightarrow> 0 \<le> s00 \<and> 0 \<le> s11 \<and> s01 * s01 \<le> s00 * s11" for a b c g h
  proof (induction obs arbitrary: a b c g h)
    case (Cons ob obs)
    obtain ax ay r where ob: "ob = ((ax, ay), r)" by (metis prod.exhaust)
    obtain j0 j1 f where step:
      "add_anchor px py (a, b, c, g, h) ob = (a + j0 * j0, b + j0 * j1, c + j1 * j1, g + j0 * f, h + j1 * f)"
      using add_anchor_step [of px py a b c g h ax ay r] unfolding ob by blast
    show ?case
      using Cons.prems gram_step [of a c b j0 j1] by (intro Cons.IH [of "a + j0 * j0" "b + j0 * j1" "c + j1 * j1" "g + j0 * f" "h + j1 * f"])
         (simp_all add: step)
  qed simp
  from this [of 0 0 0 0 0] assms show ?thesis by (simp add: normal_equations_def)
qed

lemma damped_det:
  fixes a b c :: real
  assumes "0 \<le> a" and "0 \<le> c" and "b * b \<le> a * c"
  shows "1 / 10 ^ 6 \<le> (a + 1 / 10 ^ 3) * (c + 1 / 10 ^ 3) - b * b"
  using assms by (simp add: algebra_simps)

lemma solve_loop_answers: "\<exists>p. solve_loop n obs p0 = Some p"
proof (induction n arbitrary: p0)
  case (Suc n)
  obtain px py where p0: "p0 = (px, py)" by fastforce
  obtain s00 s01 s11 f0 f1 where ne: "normal_equations obs px py = (s00, s01, s11, f0, f1)"
    by (metis prod.exhaust)
  have "1 / 10 ^ 6 \<le> (s00 + 1 / 10 ^ 3) * (s11 + 1 / 10 ^ 3) - s01 * s01"
    using normal_equations_gram [OF ne] by (intro damped_det) simp_all
  then have "\<not> \<bar>(s00 + 1 / 10 ^ 3) * (s11 + 1 / 10 ^ 3) - s01 * s01\<bar> < 1 / 10 ^ 9"
    by (simp only: not_less) (rule order_trans [OF _ abs_ge_self], simp)
  with ne Suc show ?case by (simp only: p0 solve_loop.simps Let_def prod.case if_False) auto
qed simp

section \<open>Confidence\<close>

definition quality_from_rms :: "real \<Rightarrow> nat \<Rightarrow> int" where
  "quality_from_rms rms n_anchors =
     (let base = 1 / (1 + rms / 5); boost = min 1 (real n_anchors / 5)
      in max 1 (min 255 (py_int (255 * base * (0.6 + 0.4 * boost)))))"

lemma quality_bounds: "1 \<le> quality_from_rms rms n \<and> quality_from_rms rms n \<le> 255"
  by (simp add: quality_from_rms_def Let_def)

lemma py_int_mono: "\<lbrakk>0 \<le> x; x \<le> y\<rbrakk> \<Longrightarrow> py_int x \<le> py_int y"
  by (simp add: py_int_def floor_mono)

lemma quality_mono:
  assumes "0 \<le> rms" and "rms \<le> rms'" and "n' \<le> n"
  shows "quality_from_rms rms' n' \<le> quality_from_rms rms n"
proof -
  have base: "1 / (1 + rms' / 5) \<le> 1 / (1 + rms / 5)" "0 \<le> 1 / (1 + rms' / 5)"
    using assms by (simp_all add: frac_le)
  have "min 1 (real n' / 5) \<le> min 1 (real n / 5)"
    using assms by (intro min.mono) simp_all
  then have "255 * (1 / (1 + rms' / 5)) * (0.6 + 0.4 * min 1 (real n' / 5))
      \<le> 255 * (1 / (1 + rms / 5)) * (0.6 + 0.4 * min 1 (real n / 5))"
    using base assms by (intro mult_mono) simp_all
  moreover have "0 \<le> 255 * (1 / (1 + rms' / 5)) * (0.6 + 0.4 * min 1 (real n' / 5))"
    using base by (intro mult_nonneg_nonneg) simp_all
  ultimately show ?thesis
    unfolding quality_from_rms_def Let_def by (intro max.mono min.mono order_refl py_int_mono)
qed

section \<open>Ranges\<close>

definition consider_range :: "string \<Rightarrow> int \<Rightarrow> (string, real) dict \<Rightarrow> (string, real) dict" where
  "consider_range anchor range_cm out =
     (if range_cm \<le> 0 then out
      else let r = of_int range_cm / 100
           in case dget out anchor of
                None \<Rightarrow> dset anchor r out
              | Some old \<Rightarrow> if r < old then dset anchor r out else out)"

definition gather_ranges :: "registry \<Rightarrow> string \<Rightarrow> (string, real) dict" where
  "gather_ranges reg target =
     (let out1 = (case dget (rg_modules reg) target of
                    None \<Rightarrow> []
                  | Some t \<Rightarrow> foldl (\<lambda>out (k, nb).
                      case dget (rg_modules reg) k of
                        None \<Rightarrow> out
                      | Some a \<Rightarrow> if is_anchor a then consider_range k (nb_range_cm nb) out else out)
                      [] (md_neighbors t))
      in foldl (\<lambda>out m.
           if is_anchor m
           then case dget (md_neighbors m) target of
                  None \<Rightarrow> out
                | Some nb \<Rightarrow> consider_range (md_eui m) (nb_range_cm nb) out
           else out) out1 (dvals (rg_modules reg)))"

section \<open>The pass\<close>

definition with_position :: "module_state \<Rightarrow> real \<Rightarrow> real \<Rightarrow> int \<Rightarrow> int \<Rightarrow> module_state" where
  "with_position m lat lon source quality =
     m\<lparr>md_position := position0\<lparr>ps_lat := lat, ps_lon := lon, ps_alt := ps_alt (md_position m),
        ps_heading := ps_heading (md_position m), ps_source := source, ps_quality := quality,
        ps_fixed_at := ps_fixed_at (md_position m)\<rparr>\<rparr>"

definition fuse_fix :: "module_state \<Rightarrow> real \<Rightarrow> real \<Rightarrow> int \<Rightarrow> module_state" where
  "fuse_fix m lat lon ranged_q =
     (let p = md_position m
      in if ps_source p = pos_source_code SRC_IMU \<and> position_valid p
         then let imu_q = max 1 (ps_quality p); w_r = of_int ranged_q; w_i = of_int imu_q
              in with_position m ((lat * w_r + ps_lat p * w_i) / (w_r + w_i))
                   ((lon * w_r + ps_lon p * w_i) / (w_r + w_i))
                   (pos_source_code SRC_FUSED) (min 255 (ranged_q + imu_q div 4))
         else with_position m lat lon (pos_source_code SRC_RANGED) ranged_q)"

definition localize_module :: "registry \<Rightarrow> real \<Rightarrow> real \<Rightarrow> module_state \<Rightarrow> module_state option" where
  "localize_module reg lat0 lon0 m =
     (if is_anchor m then None
      else let usable = filter (\<lambda>(e, r). case dget (rg_modules reg) e of None \<Rightarrow> False | Some a \<Rightarrow> is_anchor a)
                          (gather_ranges reg (md_eui m))
           in if length usable < 3 then None
              else let anchors_xy = map (\<lambda>(e, r). let ap = md_position (the (dget (rg_modules reg) e))
                                                   in to_xy (ps_lat ap) (ps_lon ap) lat0 lon0) usable;
                       rs = map snd usable;
                       guess = (if position_valid (md_position m)
                                then Some (to_xy (ps_lat (md_position m)) (ps_lon (md_position m)) lat0 lon0)
                                else None)
                   in case multilaterate anchors_xy rs guess 30 of
                        None \<Rightarrow> None
                      | Some (x, y, rms) \<Rightarrow>
                          let (lat, lon) = to_ll x y lat0 lon0
                          in Some (fuse_fix m lat lon (quality_from_rms rms (length usable))))"

fun localize_loop :: "real \<Rightarrow> real \<Rightarrow> string list \<Rightarrow> string list \<times> registry \<Rightarrow> string list \<times> registry" where
  "localize_loop lat0 lon0 [] s = s"
| "localize_loop lat0 lon0 (e # es) (updated, reg) =
     (case localize_module reg lat0 lon0 (the (dget (rg_modules reg) e)) of
        None \<Rightarrow> localize_loop lat0 lon0 es (updated, reg)
      | Some m \<Rightarrow> localize_loop lat0 lon0 es (updated @ [e], put_module m reg))"

definition localize :: "registry \<Rightarrow> string list \<times> registry" where
  "localize reg =
     (let anchors = filter is_anchor (online_modules reg)
      in if length anchors < 3 then ([], reg)
         else let p = md_position (hd anchors)
              in localize_loop (ps_lat p) (ps_lon p) (map md_eui (online_modules reg)) ([], reg))"

section \<open>Lemmas on the ranges\<close>

text \<open>The smaller of two optional ranges.\<close>

definition min_opt :: "real option \<Rightarrow> real option \<Rightarrow> real option" where
  "min_opt a b = (case a of None \<Rightarrow> b
     | Some x \<Rightarrow> (case b of None \<Rightarrow> Some x | Some y \<Rightarrow> Some (min x y)))"

lemma min_opt_simps [simp]:
  "min_opt None b = b" "min_opt a None = a" "min_opt (Some x) (Some y) = Some (min x y)"
  by (simp_all add: min_opt_def split: option.splits)

definition range_m :: "int \<Rightarrow> real option" where
  "range_m range_cm = (if range_cm \<le> 0 then None else Some (of_int range_cm / 100))"

lemma consider_range_get:
  "dget (consider_range a r out) k = (if k = a then min_opt (dget out k) (range_m r) else dget out k)"
  by (auto simp: consider_range_def range_m_def dict_laws Let_def min_def split: option.splits)

text \<open>What module \<open>a\<close>'s table says about \<open>b\<close>.\<close>

definition reported_range :: "registry \<Rightarrow> string \<Rightarrow> string \<Rightarrow> real option" where
  "reported_range reg a b =
     (case dget (rg_modules reg) a of
        None \<Rightarrow> None
      | Some m \<Rightarrow> (case dget (md_neighbors m) b of None \<Rightarrow> None | Some nb \<Rightarrow> range_m (nb_range_cm nb)))"

definition anchor_id :: "registry \<Rightarrow> string \<Rightarrow> bool" where
  "anchor_id reg k \<longleftrightarrow> (case dget (rg_modules reg) k of None \<Rightarrow> False | Some a \<Rightarrow> is_anchor a)"

lemma gather_target:
  assumes "distinct (dkeys d)"
  shows "dget (foldl (\<lambda>out (k, nb).
            case dget (rg_modules reg) k of
              None \<Rightarrow> out
            | Some a \<Rightarrow> if is_anchor a then consider_range k (nb_range_cm nb) out else out) out d) k
       = min_opt (dget out k)
           (if anchor_id reg k then (case dget d k of None \<Rightarrow> None | Some nb \<Rightarrow> range_m (nb_range_cm nb))
            else None)"
  using assms
proof (induction d arbitrary: out)
  case (Cons x d)
  obtain e nb where x: "x = (e, nb)" by fastforce
  then have fresh: "dget d e = None"
    using Cons.prems pydict.keys_get [of e d] by auto
  show ?case
    using Cons x fresh
    by (cases "k = e") (auto simp: consider_range_get anchor_id_def split: option.splits)
qed simp

lemma gather_anchors:
  assumes "distinct (map md_eui ms)"
  shows "dget (foldl (\<lambda>out m.
           if is_anchor m
           then case dget (md_neighbors m) target of
                  None \<Rightarrow> out
                | Some nb \<Rightarrow> consider_range (md_eui m) (nb_range_cm nb) out
           else out) out ms) k
       = min_opt (dget out k)
           (case find (\<lambda>m. md_eui m = k) ms of
              None \<Rightarrow> None
            | Some m \<Rightarrow> if is_anchor m
                then (case dget (md_neighbors m) target of None \<Rightarrow> None | Some nb \<Rightarrow> range_m (nb_range_cm nb))
                else None)"
  using assms
proof (induction ms arbitrary: out)
  case (Cons m ms)
  have "find (\<lambda>m. md_eui m = k) ms = None" if "k = md_eui m"
    using that Cons.prems by (auto simp: find_None_iff image_iff)
  with Cons show ?case
    by (cases "k = md_eui m") (auto simp: consider_range_get split: option.splits)
qed simp

lemma find_module:
  assumes "registry_inv reg"
  shows "find (\<lambda>m. md_eui m = k) (dvals (rg_modules reg)) = dget (rg_modules reg) k"
    and "distinct (map md_eui (dvals (rg_modules reg)))"
proof -
  have eui: "\<forall>k m. dget d k = Some m \<longrightarrow> md_eui m = k \<Longrightarrow> distinct (dkeys d) \<Longrightarrow>
      find (\<lambda>m. md_eui m = k) (dvals d) = dget d k \<and> map md_eui (dvals d) = dkeys d" for d k
  proof (induction d)
    case (Cons x d)
    obtain e m where x: "x = (e, m)" by fastforce
    have m: "md_eui m = e" using Cons.prems(1) x by simp
    have "e \<notin> set (dkeys d)" and dist: "distinct (dkeys d)" using Cons.prems(2) x by simp_all
    then have "dget d e = None" using pydict.keys_get [of e d] by blast
    then have "\<forall>k m. dget d k = Some m \<longrightarrow> md_eui m = k"
      using Cons.prems(1) x by (metis dget_code(2) option.distinct(1))
    from Cons.IH [OF this dist] show ?case by (simp add: x m)
  qed simp
  from eui [of "rg_modules reg" k] assms
  show "find (\<lambda>m. md_eui m = k) (dvals (rg_modules reg)) = dget (rg_modules reg) k"
    and "distinct (map md_eui (dvals (rg_modules reg)))"
    by (simp_all add: registry_inv_def)
qed

section \<open>The properties of localization\<close>

text \<open>The ranges gathered for a module are keyed by anchors, and an anchor's range is the
  smaller of the two positive ranges the ends of the link report, or the only one there is.\<close>

theorem gather_ranges_both_sides:
  assumes "registry_inv reg"
  shows "dget (gather_ranges reg target) k =
           (if anchor_id reg k then min_opt (reported_range reg target k) (reported_range reg k target)
            else None)"
proof -
  note fm = find_module [OF assms]
  have t: "dget (rg_modules reg) target = Some t \<Longrightarrow> distinct (dkeys (md_neighbors t))" for t
    using assms by (simp add: registry_inv_def module_inv_def)
  show ?thesis
    unfolding gather_ranges_def Let_def gather_anchors [OF fm(2)] fm(1)
    using gather_target [OF t]
    by (auto simp: reported_range_def anchor_id_def split: option.splits)
qed

definition sample_link :: "string \<Rightarrow> int \<Rightarrow> neighbor" where
  "sample_link e cm =
     \<lparr>nb_eui = e, nb_rssi = -60, nb_range_cm = cm, nb_link_quality = 200, nb_last_seen = 0\<rparr>"

definition sample_anchor :: "string \<Rightarrow> real \<Rightarrow> real \<Rightarrow> (string, neighbor) dict \<Rightarrow> module_state" where
  "sample_anchor e lat lon nbs =
     (module0 e 0)\<lparr>md_position := position0\<lparr>ps_lat := lat, ps_lon := lon,
        ps_source := pos_source_code SRC_GPS, ps_quality := 200\<rparr>, md_neighbors := nbs\<rparr>"

text \<open>Three anchors around a module T; T reports 50 m to A, which reports 40 m to T.\<close>

definition sample_swarm :: registry where
  "sample_swarm =
     \<lparr>rg_modules =
        [(''A'', sample_anchor ''A'' 1 1 [(''T'', sample_link ''T'' 4000)]),
         (''B'', sample_anchor ''B'' 1 2 []),
         (''C'', sample_anchor ''C'' 2 1 []),
         (''T'', (module0 ''T'' 0)\<lparr>md_neighbors :=
            [(''A'', sample_link ''A'' 5000), (''B'', sample_link ''B'' 7000),
             (''C'', sample_link ''C'' 0)]\<rparr>)],
      rg_gateway_eui = ''G'', rg_newly_seen = []\<rparr>"

lemma sample_swarm_inv: "registry_inv sample_swarm"
  by (auto simp: registry_inv_def sample_swarm_def module_inv_def sample_anchor_def module0_def
      sample_link_def split: if_splits)

lemma gather_ranges_both_sides_witness:
  "dget (gather_ranges sample_swarm ''T'') ''A'' = Some 40
   \<and> dget (gather_ranges sample_swarm ''T'') ''B'' = Some 70
   \<and> dget (gather_ranges sample_swarm ''T'') ''C'' = None"
  by (simp add: gather_ranges_both_sides [OF sample_swarm_inv])
     (simp add: sample_swarm_def anchor_id_def reported_range_def sample_anchor_def sample_link_def
        range_m_def is_anchor_def position_valid_def position0_def module0_def)

text \<open>With three or more anchors and as many ranges the solver always answers, and the
  residual it reports is the root mean square of the misfits at the point it reports; with fewer
  anchors, or a length mismatch, it gives None.\<close>

theorem multilaterate_answers:
  "multilaterate anchors ranges guess iters =
     (if length anchors < 3 \<or> length anchors \<noteq> length ranges then None
      else Some (the (multilaterate anchors ranges guess iters)))
   \<and> (\<forall>x y rms. multilaterate anchors ranges guess iters = Some (x, y, rms) \<longrightarrow>
        rms = residual_rms (zip anchors ranges) (x, y) \<and> 0 \<le> rms)"
proof -
  have "0 \<le> sum_list (map (\<lambda>((ax, ay), r). (hypot (fst p - ax) (snd p - ay) - r)\<^sup>2) obs)" for p obs
    by (induction obs) (auto split: prod.splits)
  then have "0 \<le> residual_rms obs p" for obs p
    by (simp add: residual_rms_def)
  moreover have "solve_loop n obs p = None \<longleftrightarrow> False" for n obs p
    using solve_loop_answers [of n obs p] by auto
  ultimately show ?thesis
    by (auto simp: multilaterate_def Let_def split: option.splits)
qed

lemma multilaterate_answers_witness:
  "multilaterate [(0, 0), (4, 0)] [1, 1] None 30 = None
   \<and> multilaterate [(0, 0), (4, 0), (0, 4)] [1, 1, 1] None 30
       = Some (the (multilaterate [(0, 0), (4, 0), (0, 4)] [1, 1, 1] None 30))"
  using multilaterate_answers [of "[(0, 0), (4, 0)]" "[1, 1]" None 30]
    multilaterate_answers [of "[(0, 0), (4, 0), (0, 4)]" "[1, 1, 1]" None 30]
  by simp

text \<open>A point that fits its ranges exactly is where the solver stays.\<close>

lemma normal_equations_exact:
  assumes "\<forall>((ax, ay), r) \<in> set obs. hypot (px - ax) (py - ay) = r \<and> 1 / 10 ^ 6 \<le> r"
  shows "\<exists>s00 s01 s11. normal_equations obs px py = (s00, s01, s11, 0, 0)"
proof -
  have "\<exists>s00 s01 s11. foldl (add_anchor px py) (a, b, c, 0, 0) obs = (s00, s01, s11, 0, 0)" for a b c
    using assms
  proof (induction obs arbitrary: a b c)
    case (Cons ob obs)
    obtain ax ay r where ob: "ob = ((ax, ay), r)" by (metis prod.exhaust)
    with Cons.prems have "hypot (px - ax) (py - ay) = r" "\<not> r < 1 / 10 ^ 6" by auto
    then have "\<exists>a' b' c'. add_anchor px py (a, b, c, 0, 0) ob = (a', b', c', 0, 0)"
      unfolding ob add_anchor.simps Let_def by simp
    then obtain a' b' c' where "add_anchor px py (a, b, c, 0, 0) ob = (a', b', c', 0, 0)" by blast
    with Cons show ?case by simp
  qed simp
  then show ?thesis by (simp add: normal_equations_def)
qed



text \<open>What a fix changes: the position, and in it not the altitude, heading and time.\<close>

definition fixed_from :: "module_state \<Rightarrow> position \<Rightarrow> bool" where
  "fixed_from m p \<longleftrightarrow>
     (if ps_source (md_position m) = pos_source_code SRC_IMU \<and> position_valid (md_position m)
      then ps_source p = pos_source_code SRC_FUSED else ps_source p = pos_source_code SRC_RANGED)
     \<and> 1 \<le> ps_quality p \<and> ps_quality p \<le> 255
     \<and> ps_alt p = ps_alt (md_position m) \<and> ps_heading p = ps_heading (md_position m)
     \<and> ps_fixed_at p = ps_fixed_at (md_position m)"

lemma fuse_fix_spec:
  assumes "1 \<le> q" and "q \<le> 255"
  shows "\<exists>p. fuse_fix m lat lon q = m\<lparr>md_position := p\<rparr> \<and> fixed_from m p"
proof -
  have "0 \<le> max 1 x div 4" for x :: int by simp
  then have "1 \<le> q + max 1 x div 4" for x :: int using assms(1) by (metis add_increasing2)
  with assms show ?thesis
    by (intro exI [of _ "md_position (fuse_fix m lat lon q)"])
       (simp add: fuse_fix_def with_position_def fixed_from_def Let_def)
qed

lemma localize_module_spec:
  assumes "localize_module reg lat0 lon0 m = Some m'"
  shows "\<not> is_anchor m" and "\<exists>p. m' = m\<lparr>md_position := p\<rparr> \<and> fixed_from m p"
proof -
  show "\<not> is_anchor m" using assms by (auto simp: localize_module_def)
  from assms obtain lat lon rms n where "m' = fuse_fix m lat lon (quality_from_rms rms n)"
    by (auto simp: localize_module_def Let_def split: if_splits option.splits prod.splits)
  then show "\<exists>p. m' = m\<lparr>md_position := p\<rparr> \<and> fixed_from m p"
    using fuse_fix_spec quality_bounds by simp
qed

lemma localize_loop_spec:
  assumes "localize_loop lat0 lon0 es (upd, reg) = (upd', reg')"
    and "registry_inv reg" and "distinct es" and "set es \<subseteq> set (dkeys (rg_modules reg))"
  shows "\<exists>new. upd' = upd @ new \<and> distinct new \<and> set new \<subseteq> set es \<and> registry_inv reg'
    \<and> rg_gateway_eui reg' = rg_gateway_eui reg \<and> rg_newly_seen reg' = rg_newly_seen reg
    \<and> (\<forall>k. k \<notin> set new \<longrightarrow> dget (rg_modules reg') k = dget (rg_modules reg) k)
    \<and> (\<forall>k \<in> set new. \<exists>m p. dget (rg_modules reg) k = Some m \<and> \<not> is_anchor m
          \<and> dget (rg_modules reg') k = Some (m\<lparr>md_position := p\<rparr>) \<and> fixed_from m p)"
  using assms
proof (induction es arbitrary: upd reg)
  case (Cons e es)
  obtain m where m: "dget (rg_modules reg) e = Some m"
    using Cons.prems(4) pydict.keys_get [of e "rg_modules reg"] by auto
  with Cons.prems(2) have em: "md_eui m = e" "module_inv m" by (simp_all add: registry_inv_def)
  show ?case
  proof (cases "localize_module reg lat0 lon0 m")
    case None
    with Cons.prems m Cons.IH [of upd reg] show ?thesis by auto
  next
    case (Some m')
    note lm = localize_module_spec [OF Some]
    then obtain p where p: "m' = m\<lparr>md_position := p\<rparr>" "fixed_from m p" by blast
    with em have m': "md_eui m' = e" "module_inv m'" by (simp_all add: module_inv_def)
    have inv: "registry_inv (put_module m' reg)" using Cons.prems(2) m' by (simp add: inv_put_module)
    have keys: "set es \<subseteq> set (dkeys (rg_modules (put_module m' reg)))"
      using Cons.prems(4) by (auto simp: put_module_keys)
    have loop: "localize_loop lat0 lon0 es (upd @ [e], put_module m' reg) = (upd', reg')"
      using Cons.prems(1) m Some by simp
    have dist: "distinct es" using Cons.prems(3) by simp
    obtain new where new: "upd' = (upd @ [e]) @ new" "distinct new" "set new \<subseteq> set es" "registry_inv reg'"
      "rg_gateway_eui reg' = rg_gateway_eui reg" "rg_newly_seen reg' = rg_newly_seen reg"
      "\<forall>k. k \<notin> set new \<longrightarrow> dget (rg_modules reg') k = dget (rg_modules (put_module m' reg)) k"
      "\<forall>k \<in> set new. \<exists>m p. dget (rg_modules (put_module m' reg)) k = Some m \<and> \<not> is_anchor m
          \<and> dget (rg_modules reg') k = Some (m\<lparr>md_position := p\<rparr>) \<and> fixed_from m p"
      using Cons.IH [OF loop inv dist keys] by auto
    have e: "e \<notin> set new" using new(3) Cons.prems(3) by auto
    show ?thesis
    proof (intro exI [of _ "e # new"] conjI)
      show "\<forall>k \<in> set (e # new). \<exists>m p. dget (rg_modules reg) k = Some m \<and> \<not> is_anchor m
          \<and> dget (rg_modules reg') k = Some (m\<lparr>md_position := p\<rparr>) \<and> fixed_from m p"
      proof
        fix k assume k: "k \<in> set (e # new)"
        show "\<exists>m p. dget (rg_modules reg) k = Some m \<and> \<not> is_anchor m
          \<and> dget (rg_modules reg') k = Some (m\<lparr>md_position := p\<rparr>) \<and> fixed_from m p"
        proof (cases "k = e")
          case True
          with m p lm(1) new(7) e m'(1) show ?thesis by (auto simp: put_module_get)
        next
          case False
          with k bspec [OF new(8), of k] m'(1) show ?thesis by (auto simp: put_module_get)
        qed
      qed
    qed (use new e Cons.prems(3) m'(1) in \<open>auto simp: put_module_get\<close>)
  qed
qed simp

lemma online_ids:
  assumes "registry_inv reg"
  shows "distinct (map md_eui (online_modules reg))"
    and "k \<in> set (map md_eui (online_modules reg))
           \<longleftrightarrow> (\<exists>m. dget (rg_modules reg) k = Some m \<and> md_online m)"
proof -
  show "distinct (map md_eui (online_modules reg))"
    using find_module(2) [OF assms] by (simp add: online_modules_def distinct_map_filter)
  have "dget (rg_modules reg) k = Some m \<Longrightarrow> md_eui m = k" for m
    using assms by (simp add: registry_inv_def)
  then show "k \<in> set (map md_eui (online_modules reg))
           \<longleftrightarrow> (\<exists>m. dget (rg_modules reg) k = Some m \<and> md_online m)"
    using online_modules_iff [OF assms] by (auto simp: image_iff)
qed

text \<open>Localization moves only online modules that are no anchors, reports exactly those it
  moved, and changes nothing in them but the position: source RANGED (FUSED where the module had
  a valid IMU estimate), quality from 1 to 255, altitude, heading and time of fix kept. With
  fewer than three anchors online it changes nothing at all.\<close>

theorem localize_effect:
  assumes "registry_inv reg" and "localize reg = (upd, reg')"
  shows "registry_inv reg' \<and> distinct upd
    \<and> (\<forall>k. k \<notin> set upd \<longrightarrow> dget (rg_modules reg') k = dget (rg_modules reg) k)
    \<and> (\<forall>k \<in> set upd. \<exists>m p. dget (rg_modules reg) k = Some m \<and> md_online m \<and> \<not> is_anchor m
          \<and> dget (rg_modules reg') k = Some (m\<lparr>md_position := p\<rparr>) \<and> fixed_from m p)
    \<and> (length (filter is_anchor (online_modules reg)) < 3 \<longrightarrow> upd = [] \<and> reg' = reg)"
proof (cases "length (filter is_anchor (online_modules reg)) < 3")
  case True
  with assms show ?thesis by (simp add: localize_def)
next
  case False
  let ?p = "md_position (hd (filter is_anchor (online_modules reg)))"
  have loop: "localize_loop (ps_lat ?p) (ps_lon ?p) (map md_eui (online_modules reg)) ([], reg) = (upd, reg')"
    using False assms(2) by (simp add: localize_def Let_def)
  have "set (map md_eui (online_modules reg)) \<subseteq> set (dkeys (rg_modules reg))"
    using online_ids(2) [OF assms(1)] pydict.keys_get [of _ "rg_modules reg"] by blast
  from localize_loop_spec [OF loop assms(1) online_ids(1) [OF assms(1)] this]
  have upd: "distinct upd" "set upd \<subseteq> set (map md_eui (online_modules reg))" "registry_inv reg'"
    "\<forall>k. k \<notin> set upd \<longrightarrow> dget (rg_modules reg') k = dget (rg_modules reg) k"
    and moved: "\<forall>k \<in> set upd. \<exists>m p. dget (rg_modules reg) k = Some m \<and> \<not> is_anchor m
          \<and> dget (rg_modules reg') k = Some (m\<lparr>md_position := p\<rparr>) \<and> fixed_from m p"
    by auto
  have "\<exists>m p. dget (rg_modules reg) k = Some m \<and> md_online m \<and> \<not> is_anchor m
          \<and> dget (rg_modules reg') k = Some (m\<lparr>md_position := p\<rparr>) \<and> fixed_from m p"
    if k: "k \<in> set upd" for k
  proof -
    obtain m p where "dget (rg_modules reg) k = Some m" "\<not> is_anchor m"
        "dget (rg_modules reg') k = Some (m\<lparr>md_position := p\<rparr>)" "fixed_from m p"
      using bspec [OF moved k] by blast
    moreover have "k \<in> set (map md_eui (online_modules reg))" using k upd(2) by blast
    ultimately show ?thesis using online_ids(2) [OF assms(1), of k] by auto
  qed
  with upd False show ?thesis by blast
qed

lemma localize_effect_witness:
  "registry_inv (snd (localize sample_swarm))
   \<and> dget (rg_modules (snd (localize sample_swarm))) ''A'' = dget (rg_modules sample_swarm) ''A''"
proof -
  have "localize sample_swarm = (fst (localize sample_swarm), snd (localize sample_swarm))" by simp
  note eff = localize_effect [OF sample_swarm_inv this]
  have "dget (rg_modules sample_swarm) ''A'' = Some (sample_anchor ''A'' 1 1 [(''T'', sample_link ''T'' 4000)])"
    by (simp add: sample_swarm_def)
  moreover have "is_anchor (sample_anchor ''A'' 1 1 [(''T'', sample_link ''T'' 4000)])"
    by (simp add: is_anchor_def sample_anchor_def position_valid_def position0_def)
  moreover have "\<forall>k \<in> set (fst (localize sample_swarm)). \<exists>m p. dget (rg_modules sample_swarm) k = Some m
      \<and> md_online m \<and> \<not> is_anchor m
      \<and> dget (rg_modules (snd (localize sample_swarm))) k = Some (m\<lparr>md_position := p\<rparr>) \<and> fixed_from m p"
    using eff by blast
  ultimately have "''A'' \<notin> set (fst (localize sample_swarm))" by (metis option.inject)
  with eff show ?thesis by blast
qed

end
