(* ===== verification/Dijkstra.thy ===== *)
theory Dijkstra
  imports Prelude "HOL-Library.Product_Lexorder"
begin

text \<open>
  The shortest-path search of \<open>olympus_link/autorouter.py\<close> (\<open>_dijkstra\<close>): a heap of
  (distance, node) pairs with lazy deletion, over a dictionary of dictionaries of edge weights.
  \<open>float("inf")\<close> is None. The loop runs on fuel, one more than the number of edges; the lemmas
  show that this empties the heap (each node is expanded at most once), that the distances are
  those of the cheapest walks, and that following \<open>prev\<close> walks back along them.
\<close>

section \<open>The search\<close>

type_synonym 'n graph = "('n, ('n, real) dict) dict"
type_synonym 'n search = "('n \<Rightarrow> real option) \<times> ('n \<Rightarrow> 'n option) \<times> (real \<times> 'n) list"

text \<open>\<open>heapq\<close>: pushing adds an entry, popping removes a least one.\<close>

definition heap_push :: "real \<times> 'n \<Rightarrow> (real \<times> 'n) list \<Rightarrow> (real \<times> 'n) list" where
  "heap_push x pq = x # pq"

definition heap_pop :: "(real \<times> 'n :: linorder) list \<Rightarrow> (real \<times> 'n) \<times> (real \<times> 'n) list" where
  "heap_pop pq = (let x = Min (set pq) in (x, remove1 x pq))"

definition improves :: "('n \<Rightarrow> real option) \<Rightarrow> real \<Rightarrow> 'n \<Rightarrow> bool" where
  "improves dst nd v = (case dst v of None \<Rightarrow> True | Some dv \<Rightarrow> nd < dv)"

fun relax :: "real \<Rightarrow> 'n \<Rightarrow> ('n, real) dict \<Rightarrow> 'n search \<Rightarrow> 'n search" where
  "relax d u [] s = s"
| "relax d u ((v, w) # es) (dst, prev, pq) =
     (let nd = d + w
      in if improves dst nd v
         then relax d u es (dst(v \<mapsto> nd), prev(v \<mapsto> u), heap_push (nd, v) pq)
         else relax d u es (dst, prev, pq))"

fun search_loop :: "nat \<Rightarrow> ('n :: linorder) graph \<Rightarrow> 'n search \<Rightarrow> 'n search" where
  "search_loop 0 adj s = s"
| "search_loop (Suc fuel) adj (dst, prev, pq) =
     (if pq = [] then (dst, prev, pq)
      else let ((d, u), pq) = heap_pop pq
           in if (case dst u of None \<Rightarrow> False | Some du \<Rightarrow> d > du)
              then search_loop fuel adj (dst, prev, pq)
              else search_loop fuel adj
                     (relax d u (case dget adj u of None \<Rightarrow> [] | Some es \<Rightarrow> es) (dst, prev, pq)))"

definition search_fuel :: "'n graph \<Rightarrow> nat" where
  "search_fuel adj = Suc (sum_list (map (length \<circ> snd) adj))"

definition dijkstra :: "('n :: linorder) graph \<Rightarrow> 'n \<Rightarrow> ('n \<Rightarrow> real option) \<times> ('n \<Rightarrow> 'n option)" where
  "dijkstra adj rt =
     (if rt \<notin> set (dkeys adj) then (Map.empty, Map.empty)
      else let (dst, prev, pq) = search_loop (search_fuel adj) adj ([rt \<mapsto> 0], Map.empty, [(0, rt)])
           in (dst, prev))"

section \<open>Walks\<close>

definition edge :: "'n graph \<Rightarrow> 'n \<Rightarrow> 'n \<Rightarrow> real \<Rightarrow> bool" where
  "edge adj u v w \<longleftrightarrow> (\<exists>es. dget adj u = Some es \<and> dget es v = Some w)"

inductive walk :: "'n graph \<Rightarrow> 'n \<Rightarrow> real \<Rightarrow> 'n \<Rightarrow> bool" for adj where
  walk_refl: "walk adj u 0 u"
| walk_step: "\<lbrakk>walk adj u c v; edge adj v x w\<rbrakk> \<Longrightarrow> walk adj u (c + w) x"

text \<open>What the search relies on: keys are unique, edges lead to nodes, no weight is negative.\<close>

definition wf_graph :: "'n graph \<Rightarrow> bool" where
  "wf_graph adj \<longleftrightarrow>
     distinct (dkeys adj)
     \<and> (\<forall>u es. dget adj u = Some es \<longrightarrow> distinct (dkeys es))
     \<and> (\<forall>u v w. edge adj u v w \<longrightarrow> 0 \<le> w \<and> v \<in> set (dkeys adj))"

section \<open>The invariant\<close>

text \<open>\<open>expd\<close> is the set of the nodes already expanded.\<close>

definition search_inv :: "'n graph \<Rightarrow> 'n \<Rightarrow> 'n set \<Rightarrow> 'n search \<Rightarrow> bool" where
  "search_inv adj rt expd s \<longleftrightarrow> (case s of (dst, prev, pq) \<Rightarrow>
     dst rt = Some 0 \<and> prev rt = None \<and> distinct pq
     \<and> (\<forall>v dv. dst v = Some dv \<longrightarrow> 0 \<le> dv \<and> walk adj rt dv v \<and> v \<in> set (dkeys adj))
     \<and> (\<forall>d v. (d, v) \<in> set pq \<longrightarrow> (\<exists>dv. dst v = Some dv \<and> dv \<le> d \<and> (v \<in> expd \<longrightarrow> dv < d)))
     \<and> (\<forall>v dv. dst v = Some dv \<and> v \<notin> expd \<longrightarrow> (dv, v) \<in> set pq)
     \<and> (\<forall>x \<in> expd. \<exists>dx. dst x = Some dx \<and> (\<forall>d v. (d, v) \<in> set pq \<longrightarrow> dx \<le> d)
          \<and> (\<forall>v w. edge adj x v w \<longrightarrow> (\<exists>dv. dst v = Some dv \<and> dv \<le> dx + w)))
     \<and> (\<forall>v u. prev v = Some u \<longrightarrow>
          (\<exists>du w. u \<in> expd \<and> dst u = Some du \<and> edge adj u v w \<and> dst v = Some (du + w)))
     \<and> (\<forall>v. dst v \<noteq> None \<longrightarrow> v = rt \<or> prev v \<noteq> None))"

lemma search_inv_init:
  "rt \<in> set (dkeys adj) \<Longrightarrow> search_inv adj rt {} ([rt \<mapsto> 0], Map.empty, [(0, rt)])"
  by (auto simp: search_inv_def intro: walk_refl split: if_splits)

definition relaxed :: "('n \<Rightarrow> real option) \<Rightarrow> ('n, real) dict \<Rightarrow> real \<Rightarrow> 'n \<Rightarrow> bool" where
  "relaxed dst es d v \<longleftrightarrow> (\<exists>w. dget es v = Some w \<and> improves dst (d + w) v)"

lemma relax_spec:
  assumes "relax d u es (dst, prev, pq) = (dst', prev', pq')" and "distinct (dkeys es)"
  shows "dst' v = (if relaxed dst es d v then Some (d + the (dget es v)) else dst v)"
    and "prev' v = (if relaxed dst es d v then Some u else prev v)"
    and "(c, v) \<in> set pq' \<longleftrightarrow> (c, v) \<in> set pq \<or> relaxed dst es d v \<and> c = d + the (dget es v)"
    and "length pq' \<le> length pq + length es"
    and "\<lbrakk>distinct pq; \<And>e x. (e, x) \<in> set pq \<Longrightarrow> \<exists>dx. dst x = Some dx \<and> dx \<le> e\<rbrakk> \<Longrightarrow> distinct pq'"
proof -
  have "dst' v = (if relaxed dst es d v then Some (d + the (dget es v)) else dst v)
    \<and> prev' v = (if relaxed dst es d v then Some u else prev v)
    \<and> ((c, v) \<in> set pq' \<longleftrightarrow> (c, v) \<in> set pq \<or> relaxed dst es d v \<and> c = d + the (dget es v))
    \<and> length pq' \<le> length pq + length es
    \<and> (distinct pq \<and> (\<forall>e x. (e, x) \<in> set pq \<longrightarrow> (\<exists>dx. dst x = Some dx \<and> dx \<le> e)) \<longrightarrow> distinct pq')"
    using assms
  proof (induction es arbitrary: dst prev pq)
    case Nil
    then show ?case by (simp add: relaxed_def)
  next
    case (Cons e es)
    obtain y w where e: "e = (y, w)" by fastforce
    have fresh: "dget es y = None" and des: "distinct (dkeys es)"
      using Cons.prems(2) e pydict.keys_get [of y es] by auto
    show ?case
    proof (cases "improves dst (d + w) y")
      case True
      with Cons.prems e
      have r: "relax d u es (dst(y \<mapsto> d + w), prev(y \<mapsto> u), (d + w, y) # pq) = (dst', prev', pq')"
        by (simp add: heap_push_def Let_def)
      have rel1: "relaxed (dst(y \<mapsto> d + w)) es d x \<longleftrightarrow> relaxed dst es d x" for x
        using fresh by (cases "x = y") (auto simp: relaxed_def improves_def)
      have rel2: "relaxed dst (e # es) d x \<longleftrightarrow> relaxed dst es d x \<or> x = y" for x
        using fresh e True by (auto simp: relaxed_def improves_def)
      note IH = Cons.IH [OF r des, unfolded rel1]
      have "distinct pq'"
        if "distinct pq" "\<forall>e x. (e, x) \<in> set pq \<longrightarrow> (\<exists>dx. dst x = Some dx \<and> dx \<le> e)"
      proof -
        have "(d + w, y) \<notin> set pq"
          using that(2) True by (force simp: improves_def)
        moreover have "\<exists>dx. (dst(y \<mapsto> d + w)) x = Some dx \<and> dx \<le> c"
          if "(c, x) \<in> set ((d + w, y) # pq)" for c x
          using that \<open>\<forall>e x. _\<close> True by (fastforce simp: improves_def)
        ultimately show ?thesis using IH that(1) by simp
      qed
      moreover have "\<not> relaxed dst es d y" using fresh by (simp add: relaxed_def)
      ultimately show ?thesis
        using IH rel2 [of v] e by (cases "v = y") auto
    next
      case False
      with Cons.prems e have r: "relax d u es (dst, prev, pq) = (dst', prev', pq')"
        by (simp add: Let_def)
      have "relaxed dst (e # es) d v \<longleftrightarrow> relaxed dst es d v" "\<not> relaxed dst es d y"
        using fresh e False by (auto simp: relaxed_def)
      with Cons.IH [OF r des] e show ?thesis by (cases "v = y") simp_all
    qed
  qed
  then show "dst' v = (if relaxed dst es d v then Some (d + the (dget es v)) else dst v)"
    and "prev' v = (if relaxed dst es d v then Some u else prev v)"
    and "(c, v) \<in> set pq' \<longleftrightarrow> (c, v) \<in> set pq \<or> relaxed dst es d v \<and> c = d + the (dget es v)"
    and "length pq' \<le> length pq + length es"
    and "\<lbrakk>distinct pq; \<And>e x. (e, x) \<in> set pq \<Longrightarrow> \<exists>dx. dst x = Some dx \<and> dx \<le> e\<rbrakk> \<Longrightarrow> distinct pq'"
    by blast+
qed

lemma heap_pop_props:
  assumes "pq \<noteq> []" and "heap_pop pq = ((d, u), pq')"
  shows "(d, u) \<in> set pq" and "pq' = remove1 (d, u) pq"
    and "(e, v) \<in> set pq \<Longrightarrow> d \<le> e"
proof -
  have x: "(d, u) = Min (set pq)" "pq' = remove1 (d, u) pq"
    using assms(2) by (auto simp: heap_pop_def Let_def)
  then show "(d, u) \<in> set pq" and "pq' = remove1 (d, u) pq"
    using assms(1) Min_in [of "set pq"] by simp_all
  show "d \<le> e" if "(e, v) \<in> set pq"
  proof -
    have "(d, u) \<le> (e, v)" using x(1) that by simp
    then show ?thesis by (auto simp: less_eq_prod_def)
  qed
qed

lemma search_invD:
  assumes "search_inv adj rt expd (dst, prev, pq)"
  shows "distinct pq" and "dst rt = Some 0" and "prev rt = None"
    and "dst v = Some dv \<Longrightarrow> 0 \<le> dv \<and> walk adj rt dv v \<and> v \<in> set (dkeys adj)"
    and "(e, v) \<in> set pq \<Longrightarrow> \<exists>dv. dst v = Some dv \<and> dv \<le> e \<and> (v \<in> expd \<longrightarrow> dv < e)"
    and "\<lbrakk>dst v = Some dv; v \<notin> expd\<rbrakk> \<Longrightarrow> (dv, v) \<in> set pq"
    and "x \<in> expd \<Longrightarrow> \<exists>dx. dst x = Some dx \<and> (\<forall>e v. (e, v) \<in> set pq \<longrightarrow> dx \<le> e)
          \<and> (\<forall>v w. edge adj x v w \<longrightarrow> (\<exists>dv. dst v = Some dv \<and> dv \<le> dx + w))"
    and "prev v = Some x \<Longrightarrow>
          \<exists>dx w. x \<in> expd \<and> dst x = Some dx \<and> edge adj x v w \<and> dst v = Some (dx + w)"
    and "dst v \<noteq> None \<Longrightarrow> v = rt \<or> prev v \<noteq> None"
  using assms unfolding search_inv_def prod.case by (elim conjE, blast)+

lemma shorter: "x \<in> set xs \<Longrightarrow> Suc (length (remove1 x xs)) = length xs"
  by (induction xs) auto

text \<open>An entry that is out of date is dropped.\<close>

lemma search_inv_stale:
  assumes inv: "search_inv adj rt expd (dst, prev, pq)"
    and "(d, u) \<in> set pq" and "dst u = Some du" and "du < d"
  shows "search_inv adj rt expd (dst, prev, remove1 (d, u) pq)"
proof -
  have dq: "distinct pq" using inv by (simp add: search_inv_def)
  have sub: "set (remove1 (d, u) pq) = set pq - {(d, u)}" using dq by simp
  have keep: "(dv, v) \<in> set pq - {(d, u)}" if "dst v = Some dv" "v \<notin> expd" for v dv
    using that inv assms(3, 4) by (auto simp: search_inv_def)
  show ?thesis
    unfolding search_inv_def prod.case sub
  proof (intro conjI ballI allI impI)
    fix x assume "x \<in> expd"
    from search_invD(7) [OF inv this] obtain dx where "dst x = Some dx"
      "\<forall>e v. (e, v) \<in> set pq \<longrightarrow> dx \<le> e"
      "\<forall>v w. edge adj x v w \<longrightarrow> (\<exists>dv. dst v = Some dv \<and> dv \<le> dx + w)"
      by blast
    then show "\<exists>dx. dst x = Some dx \<and> (\<forall>da v. (da, v) \<in> set pq - {(d, u)} \<longrightarrow> dx \<le> da) \<and>
        (\<forall>v w. edge adj x v w \<longrightarrow> (\<exists>dv. dst v = Some dv \<and> dv \<le> dx + w))"
      by blast
  qed (use search_invD [OF inv] keep distinct_remove1 [OF dq, of "(d, u)"] in blast)+
qed

text \<open>A least entry that is up to date is expanded, and stays at its distance for good.\<close>

lemma search_inv_expand:
  assumes inv: "search_inv adj rt expd (dst, prev, pq)" and wf: "wf_graph adj"
    and du: "(d, u) \<in> set pq" "dst u = Some d"
    and least: "\<forall>e v. (e, v) \<in> set pq \<longrightarrow> d \<le> e"
    and es: "es = (case dget adj u of None \<Rightarrow> [] | Some es \<Rightarrow> es)"
    and r: "relax d u es (dst, prev, remove1 (d, u) pq) = (dst', prev', pq')"
  shows "u \<notin> expd" and "search_inv adj rt (insert u expd) (dst', prev', pq')"
    and "length pq' < length pq + length es"
proof -
  let ?pq = "remove1 (d, u) pq"
  have dq: "distinct pq" and root: "dst rt = Some 0" "prev rt = None"
    and fin: "\<And>v dv. dst v = Some dv \<Longrightarrow> 0 \<le> dv \<and> walk adj rt dv v \<and> v \<in> set (dkeys adj)"
    and heap: "\<And>e v. (e, v) \<in> set pq \<Longrightarrow> \<exists>dv. dst v = Some dv \<and> dv \<le> e \<and> (v \<in> expd \<longrightarrow> dv < e)"
    and open_: "\<And>v dv. \<lbrakk>dst v = Some dv; v \<notin> expd\<rbrakk> \<Longrightarrow> (dv, v) \<in> set pq"
    and closed: "\<And>x. x \<in> expd \<Longrightarrow> \<exists>dx. dst x = Some dx \<and> (\<forall>e v. (e, v) \<in> set pq \<longrightarrow> dx \<le> e)
          \<and> (\<forall>v w. edge adj x v w \<longrightarrow> (\<exists>dv. dst v = Some dv \<and> dv \<le> dx + w))"
    and tree: "\<And>v x. prev v = Some x \<Longrightarrow>
          \<exists>dx w. x \<in> expd \<and> dst x = Some dx \<and> edge adj x v w \<and> dst v = Some (dx + w)"
    and reach: "\<And>v. dst v \<noteq> None \<Longrightarrow> v = rt \<or> prev v \<noteq> None"
    by (fact search_invD [OF inv])+
  show u: "u \<notin> expd" using heap [OF du(1)] du(2) by auto
  have des: "distinct (dkeys es)" using wf es by (auto simp: wf_graph_def split: option.splits)
  have edge: "edge adj u v w \<longleftrightarrow> dget es v = Some w" for v w
    using es by (auto simp: edge_def split: option.splits)
  have wpos: "0 \<le> w" "v \<in> set (dkeys adj)" if "edge adj x v w" for x v w
    using wf that by (auto simp: wf_graph_def)
  have pq0: "set ?pq = set pq - {(d, u)}" using dq by simp
  note spec = relax_spec [OF r des]
  note dst' = spec(1) and prev' = spec(2)
  have pq': "(c, v) \<in> set pq' \<longleftrightarrow> (c, v) \<in> set pq \<and> (c, v) \<noteq> (d, u)
        \<or> relaxed dst es d v \<and> c = d + the (dget es v)" for c v
    using spec(3) pq0 by simp
  have rel: "\<exists>w. edge adj u v w \<and> the (dget es v) = w \<and> 0 \<le> w \<and> v \<in> set (dkeys adj)
      \<and> (\<forall>dv. dst v = Some dv \<longrightarrow> d + w < dv)" if rx: "relaxed dst es d v" for v
  proof -
    obtain w where w: "dget es v = Some w" "improves dst (d + w) v"
      using rx by (auto simp: relaxed_def)
    then have "edge adj u v w" by (simp add: edge)
    with wpos [OF this] w show ?thesis by (auto simp: improves_def)
  qed
  have unrel: "\<exists>dv. dst v = Some dv \<and> dv \<le> d + w" if "edge adj u v w" "\<not> relaxed dst es d v" for v w
    using that edge by (auto simp: relaxed_def improves_def not_less split: option.splits)
  have dq': "distinct pq'"
  proof (rule spec(5) [OF distinct_remove1 [OF dq]])
    show "\<exists>dx. dst x = Some dx \<and> dx \<le> e" if "(e, x) \<in> set ?pq" for e x
      using that heap [of e x] pq0 by blast
  qed
  show "length pq' < length pq + length es"
    using spec(4) shorter [OF du(1)] by simp
  \<comment> \<open>nothing expanded, and not \<open>u\<close> itself, gets closer\<close>
  have far: "\<not> relaxed dst es d v" if "v \<in> insert u expd" for v
    using that closed [of v] du rel [of v] by fastforce
  have same: "dst' v = dst v" if "v \<in> insert u expd" for v
    using that far by (simp add: dst')
  have lower: "\<exists>dv'. dst' v = Some dv' \<and> dv' \<le> dv" if "dst v = Some dv" for v dv
    using that rel [of v] by (auto simp: dst')
  have fin': "0 \<le> dv \<and> walk adj rt dv v \<and> v \<in> set (dkeys adj)" if "dst' v = Some dv" for v dv
  proof (cases "relaxed dst es d v")
    case True
    with rel obtain w where w: "edge adj u v w" "the (dget es v) = w" "0 \<le> w" "v \<in> set (dkeys adj)"
      by blast
    with that True fin [OF du(2)] show ?thesis
      by (auto simp: dst' intro: walk_step)
  qed (use that fin in \<open>simp add: dst'\<close>)
  have heap': "\<exists>dv. dst' v = Some dv \<and> dv \<le> e \<and> (v \<in> insert u expd \<longrightarrow> dv < e)"
    if "(e, v) \<in> set pq'" for e v
  proof (cases "relaxed dst es d v \<and> e = d + the (dget es v)")
    case True
    then show ?thesis using far by (auto simp: dst')
  next
    case False
    then have old: "(e, v) \<in> set pq" "(e, v) \<noteq> (d, u)" using that pq' by blast+
    then obtain dv where dv: "dst v = Some dv" "dv \<le> e" "v \<in> expd \<longrightarrow> dv < e"
      using heap by blast
    moreover have "v = u \<longrightarrow> dv < e"
      using old least du(2) dv by auto
    ultimately show ?thesis
      using same [of v] lower [OF dv(1)] by (cases "v \<in> insert u expd") auto
  qed
  have open': "(dv, v) \<in> set pq'" if "dst' v = Some dv" "v \<notin> insert u expd" for v dv
    using that open_ [of v dv] du(2) by (auto simp: dst' pq' split: if_splits)
  have closed': "\<exists>dx. dst' x = Some dx \<and> (\<forall>e v. (e, v) \<in> set pq' \<longrightarrow> dx \<le> e)
          \<and> (\<forall>v w. edge adj x v w \<longrightarrow> (\<exists>dv. dst' v = Some dv \<and> dv \<le> dx + w))"
    if x: "x \<in> insert u expd" for x
  proof -
    obtain dx where dx: "dst x = Some dx" "dx \<le> d"
      and old: "\<forall>e v. (e, v) \<in> set pq \<longrightarrow> dx \<le> e"
      using x closed [of x] du least by (cases "x = u") auto
    have "dx \<le> e" if "(e, v) \<in> set pq'" for e v
      using that old dx(2) rel [of v] by (auto simp: pq')
    moreover have "\<exists>dv. dst' v = Some dv \<and> dv \<le> dx + w" if "edge adj x v w" for v w
    proof (cases "x = u")
      case True
      show ?thesis
      proof (cases "relaxed dst es d v")
        case True
        with rel that \<open>x = u\<close> dx du(2) edge show ?thesis by (auto simp: dst')
      next
        case False
        with unrel that \<open>x = u\<close> dx du(2) show ?thesis by (simp add: dst')
      qed
    next
      case False
      with x that closed [of x] dx have "\<exists>dv. dst v = Some dv \<and> dv \<le> dx + w" by auto
      then show ?thesis using lower [of v] by force
    qed
    ultimately show ?thesis using same [OF x] dx(1) by auto
  qed
  have tree': "\<exists>dx w. x \<in> insert u expd \<and> dst' x = Some dx \<and> edge adj x v w \<and> dst' v = Some (dx + w)"
    if "prev' v = Some x" for v x
  proof (cases "relaxed dst es d v")
    case True
    with that have "x = u" by (simp add: prev')
    with True rel [OF True] du(2) same [of u] show ?thesis by (auto simp: dst')
  next
    case False
    then have "dst' v = dst v" "prev v = Some x"
      using that by (simp_all add: dst' prev')
    with tree [of v x] same [of x] show ?thesis by auto
  qed
  have reach': "v = rt \<or> prev' v \<noteq> None" if "dst' v \<noteq> None" for v
    using that reach [of v] by (auto simp: dst' prev' split: if_splits)
  have "\<not> relaxed dst es d rt"
    using rel [of rt] root fin [OF du(2)] by fastforce
  then have root': "dst' rt = Some 0" "prev' rt = None"
    using root by (simp_all add: dst' prev')
  show "search_inv adj rt (insert u expd) (dst', prev', pq')"
    unfolding search_inv_def prod.case
    using dq' root' fin' heap' open' closed' tree' reach' by blast
qed

section \<open>The loop empties the heap\<close>

definition unexpanded :: "'n graph \<Rightarrow> 'n set \<Rightarrow> nat" where
  "unexpanded adj expd = sum_list (map (\<lambda>(u, es). if u \<in> expd then 0 else length es) adj)"

lemma unexpanded_insert:
  assumes "distinct (dkeys adj)" and "u \<notin> expd"
  shows "unexpanded adj (insert u expd) + length (case dget adj u of None \<Rightarrow> [] | Some es \<Rightarrow> es)
           = unexpanded adj expd"
  using assms(1)
proof (induction adj)
  case (Cons x adj)
  obtain v es where x: "x = (v, es)" by fastforce
  have skip: "unexpanded adj (insert v expd) = unexpanded adj expd" if "v \<notin> set (dkeys adj)"
    using that by (induction adj) (auto simp: unexpanded_def)
  show ?case
  proof (cases "u = v")
    case True
    with Cons.prems x skip assms(2) show ?thesis by (simp add: unexpanded_def)
  next
    case False
    with Cons x show ?thesis by (auto simp: unexpanded_def)
  qed
qed (simp add: unexpanded_def)

lemma search_loop_inv:
  assumes "search_inv adj rt expd (dst, prev, pq)" and "wf_graph adj"
    and "length pq + unexpanded adj expd \<le> fuel"
  shows "\<exists>expd dst' prev'. search_loop fuel adj (dst, prev, pq) = (dst', prev', [])
            \<and> search_inv adj rt expd (dst', prev', [])"
  using assms(1,3)
proof (induction fuel arbitrary: expd dst prev pq)
  case 0
  then show ?case by auto
next
  case (Suc fuel)
  show ?case
  proof (cases "pq = []")
    case True
    with Suc show ?thesis by auto
  next
    case False
    obtain d u pq0 where pop: "heap_pop pq = ((d, u), pq0)" by (metis prod.exhaust)
    note hp = heap_pop_props [OF False pop]
    obtain du where du: "dst u = Some du" "du \<le> d" using search_invD(5) [OF Suc.prems(1) hp(1)] by auto
    show ?thesis
    proof (cases "du < d")
      case True
      from search_inv_stale [OF Suc.prems(1) hp(1) du(1) True]
      have "search_inv adj rt expd (dst, prev, pq0)" by (simp add: hp(2))
      moreover have "length pq0 + unexpanded adj expd \<le> fuel"
        using Suc.prems(2) shorter [OF hp(1)] hp(2) by simp
      ultimately show ?thesis
        using Suc.IH [of expd dst prev pq0] True du(1) pop False by simp
    next
      case same: False
      with du have d: "dst u = Some d" by simp
      define es where "es = (case dget adj u of None \<Rightarrow> [] | Some es \<Rightarrow> es)"
      obtain dst' prev' pq' where r: "relax d u es (dst, prev, remove1 (d, u) pq) = (dst', prev', pq')"
        by (metis prod.exhaust)
      have least: "\<forall>e v. (e, v) \<in> set pq \<longrightarrow> d \<le> e" using hp(3) by blast
      note ex = search_inv_expand [OF Suc.prems(1) assms(2) hp(1) d least es_def r]
      have "length pq' + unexpanded adj (insert u expd) \<le> fuel"
        using ex(3) Suc.prems(2) unexpanded_insert [of adj, OF _ ex(1)] assms(2)
        by (simp add: wf_graph_def flip: es_def)
      from Suc.IH [OF ex(2) this] show ?thesis
        using same du(1) pop False r hp(2) by (simp flip: es_def)
    qed
  qed
qed

section \<open>What the search finds\<close>

lemma walk_dist:
  assumes "search_inv adj rt expd (dst, prev, [])"
  shows "walk adj u c v \<Longrightarrow> dst u = Some du \<Longrightarrow> \<exists>dv. dst v = Some dv \<and> dv \<le> du + c"
proof (induction rule: walk.induct)
  case (walk_refl u)
  then show ?case by simp
next
  case (walk_step u c v x w)
  then obtain dv where dv: "dst v = Some dv" "dv \<le> du + c" by blast
  have "v \<in> expd" using search_invD(6) [OF assms dv(1)] by auto
  with search_invD(7) [OF assms this] walk_step.hyps(2) dv obtain dx
    where "dst x = Some dx" "dx \<le> dv + w" by auto
  with dv show ?case by auto
qed

text \<open>
  The facts the router rests on: distances are those of the cheapest walks from the root, a
  node without a distance cannot be reached, and \<open>prev\<close> is the last step of a cheapest walk.
\<close>

lemma dijkstra_facts:
  assumes "wf_graph adj" and "rt \<in> set (dkeys adj)" and "dijkstra adj rt = (dst, prev)"
  shows "dst rt = Some 0" and "prev rt = None"
    and "dst v = Some d \<Longrightarrow> 0 \<le> d \<and> walk adj rt d v \<and> v \<in> set (dkeys adj)"
    and "walk adj rt c v \<Longrightarrow> \<exists>d. dst v = Some d \<and> d \<le> c"
    and "\<lbrakk>dst u = Some du; edge adj u v w\<rbrakk> \<Longrightarrow> \<exists>dv. dst v = Some dv \<and> dv \<le> du + w"
    and "prev v = Some u \<Longrightarrow> \<exists>du w. dst u = Some du \<and> edge adj u v w \<and> dst v = Some (du + w)"
    and "dst v \<noteq> None \<Longrightarrow> v = rt \<or> prev v \<noteq> None"
proof -
  have "length [(0 :: real, rt)] + unexpanded adj {} \<le> search_fuel adj"
    by (simp add: search_fuel_def unexpanded_def comp_def split_def)
  from search_loop_inv [OF search_inv_init [OF assms(2)] assms(1) this] assms(2, 3)
  obtain expd where inv: "search_inv adj rt expd (dst, prev, [])"
    by (auto simp: dijkstra_def Let_def split: prod.splits)
  note D = search_invD [OF inv]
  show root: "dst rt = Some 0" and "prev rt = None" by (fact D)+
  show "dst v = Some d \<Longrightarrow> 0 \<le> d \<and> walk adj rt d v \<and> v \<in> set (dkeys adj)" by (fact D(4))
  show "walk adj rt c v \<Longrightarrow> \<exists>d. dst v = Some d \<and> d \<le> c"
    using walk_dist [OF inv _ root, of c v] by simp
  show "\<lbrakk>dst u = Some du; edge adj u v w\<rbrakk> \<Longrightarrow> \<exists>dv. dst v = Some dv \<and> dv \<le> du + w"
    using D(6) [of u du] D(7) [of u] by auto
  show "prev v = Some u \<Longrightarrow> \<exists>du w. dst u = Some du \<and> edge adj u v w \<and> dst v = Some (du + w)"
    using D(8) [of v u] by blast
  show "dst v \<noteq> None \<Longrightarrow> v = rt \<or> prev v \<noteq> None" by (fact D(9))
qed

text \<open>More fuel changes nothing: the loop had ended.\<close>

lemma search_loop_empty: "search_loop fuel adj (dst, prev, []) = (dst, prev, [])"
  by (cases fuel) simp_all

end
