(* ===== verification/Autorouter.thy ===== *)
theory Autorouter
  imports Localization Dijkstra "HOL-Library.List_Lexorder" "HOL-Library.Char_ord"
begin

text \<open>
  \<open>olympus_link/autorouter.py\<close> with the settings it reads from \<open>config.py\<close>: the
  cost of a link, the symmetric graph of the online nodes, the choice of the primary parent
  (with the re-parent hysteresis) and of the loop-free secondary, the provider subscriptions,
  the pass that assigns routes, and what is derived from them. Python's \<open>hash\<close> is an
  argument. The lemmas: edges are symmetric and cost at least 0.1, so a parent chosen without
  hysteresis is strictly closer to the gateway and parents lead there; hysteresis bounds the
  detour but can close a loop, of which an example is proved; a second pass changes nothing.
\<close>

section \<open>Settings\<close>

record router_config =
  cf_reparent_margin :: real
  cf_max_subscriptions :: int

definition router_config0 :: router_config where
  "router_config0 = \<lparr>cf_reparent_margin = 0.15, cf_max_subscriptions = 3\<rparr>"

section \<open>The graph\<close>

definition link_cost :: "int \<Rightarrow> int \<Rightarrow> int \<Rightarrow> real" where
  "link_cost rssi range_cm link_quality =
     (let cost = 1;
          cost = cost + max 0 (of_int (- rssi - 50)) / 10;
          cost = cost + (of_int range_cm / 100) / 50;
          cost = cost + of_int (255 - link_quality) / 64
      in max 0.1 cost)"

definition online_ids_of :: "registry \<Rightarrow> string list" where
  "online_ids_of r =
     (let ids = map md_eui (online_modules r)
      in if rg_gateway_eui r \<in> set ids then ids else ids @ [rg_gateway_eui r])"

definition link_edge :: "string \<Rightarrow> string \<Rightarrow> real \<Rightarrow> string graph \<Rightarrow> string graph" where
  "link_edge a b c adj =
     (let es = the (dget adj a);
          w = (case dget es b of None \<Rightarrow> c | Some prev \<Rightarrow> (prev + c) / 2)
      in dset a (dset b w es) adj)"

definition link_both :: "string \<Rightarrow> string \<Rightarrow> real \<Rightarrow> string graph \<Rightarrow> string graph" where
  "link_both a b c adj = link_edge b a c (link_edge a b c adj)"

fun add_links :: "string list \<Rightarrow> string \<Rightarrow> (string, neighbor) dict \<Rightarrow> string graph \<Rightarrow> string graph" where
  "add_links online eui [] adj = adj"
| "add_links online eui ((e, nb) # nbs) adj =
     add_links online eui nbs
       (if e \<notin> set online then adj
        else link_both eui e (link_cost (nb_rssi nb) (nb_range_cm nb) (nb_link_quality nb)) adj)"

fun add_modules :: "string list \<Rightarrow> module_state list \<Rightarrow> string graph \<Rightarrow> string graph" where
  "add_modules online [] adj = adj"
| "add_modules online (m # ms) adj =
     add_modules online ms (add_links online (md_eui m) (md_neighbors m) adj)"

definition adjacency :: "registry \<Rightarrow> string graph" where
  "adjacency r =
     (let online = online_ids_of r
      in add_modules online (online_modules r) (map (\<lambda>n. (n, [])) online))"

section \<open>The choices\<close>

text \<open>\<open>adj.get(eui, {})\<close>.\<close>

definition edges_of :: "string graph \<Rightarrow> string \<Rightarrow> (string, real) dict" where
  "edges_of adj u = (case dget adj u of None \<Rightarrow> [] | Some es \<Rightarrow> es)"

type_synonym distances = "string \<Rightarrow> real option"

definition choose_primary ::
  "real \<Rightarrow> string graph \<Rightarrow> distances \<Rightarrow> (string \<Rightarrow> string option) \<Rightarrow> module_state \<Rightarrow> string option" where
  "choose_primary margin adj dst prev m =
     (let eui = md_eui m; candidate = prev eui
      in if candidate = None \<and> dst eui = None then None
         else let current = ra_primary (md_route m)
              in if current \<noteq> [] \<and> dget (edges_of adj eui) current \<noteq> None \<and> dst current \<noteq> None
                 then let cost_cur = the (dst current) + the (dget (edges_of adj eui) current);
                          cost_new = (case candidate of
                                        None \<Rightarrow> None
                                      | Some c \<Rightarrow> if c = [] then None
                                          else Some (the (dst c) + the (dget (edges_of adj eui) c)))
                      in if (case cost_new of None \<Rightarrow> True
                             | Some cn \<Rightarrow> cn \<ge> cost_cur * (1 - margin))
                         then Some current else candidate
                 else candidate)"

fun secondary_loop ::
  "distances \<Rightarrow> string option \<Rightarrow> real option \<Rightarrow> (string, real) dict
     \<Rightarrow> string option \<times> real option \<Rightarrow> string option" where
  "secondary_loop dst primary my_dist [] (best, best_cost) = best"
| "secondary_loop dst primary my_dist ((nb, w) # es) (best, best_cost) =
     (if Some nb = primary then secondary_loop dst primary my_dist es (best, best_cost)
      else case dst nb of
             None \<Rightarrow> secondary_loop dst primary my_dist es (best, best_cost)
           | Some nd \<Rightarrow>
               if (case my_dist of None \<Rightarrow> False | Some md \<Rightarrow> nd \<ge> md)
               then secondary_loop dst primary my_dist es (best, best_cost)
               else let c = nd + w
                    in if (case best_cost of None \<Rightarrow> True | Some bc \<Rightarrow> c < bc)
                       then secondary_loop dst primary my_dist es (Some nb, Some c)
                       else secondary_loop dst primary my_dist es (best, best_cost))"

definition choose_secondary :: "string graph \<Rightarrow> distances \<Rightarrow> string option \<Rightarrow> module_state \<Rightarrow> string option" where
  "choose_secondary adj dst primary m =
     secondary_loop dst primary (dst (md_eui m)) (edges_of adj (md_eui m)) (None, None)"

section \<open>Subscriptions\<close>

definition proximity :: "module_state \<Rightarrow> module_state \<Rightarrow> real" where
  "proximity a b =
     (let pa = md_position a; pb = md_position b
      in if position_valid pa \<and> position_valid pb
         then let (ax, ay) = to_xy (ps_lat pa) (ps_lon pa) (ps_lat pa) (ps_lon pa);
                  (bx, by') = to_xy (ps_lat pb) (ps_lon pb) (ps_lat pa) (ps_lon pa)
              in sqrt ((ax - bx)\<^sup>2 + (ay - by')\<^sup>2)
         else if dget (md_neighbors a) (md_eui b) \<noteq> None then 0 else 1000000)"

text \<open>\<open>bin(x).count("1")\<close>: the ones in the digits of \<open>|x|\<close>.\<close>

fun ones :: "nat \<Rightarrow> nat" where
  "ones n = (if n = 0 then 0 else n mod 2 + ones (n div 2))"

declare ones.simps [simp del]

definition new_sensors :: "module_state \<Rightarrow> module_state \<Rightarrow> int" where
  "new_sensors consumer p = int (ones (nat \<bar>md_sensors p AND NOT (md_sensors consumer)\<bar>))"

definition provider_rank :: "module_state \<Rightarrow> module_state \<Rightarrow> int \<times> real" where
  "provider_rank consumer p = (- new_sensors consumer p, proximity consumer p)"

text \<open>\<open>xs[:n]\<close>, which counts from the end for a negative \<open>n\<close>.\<close>

definition take_py :: "int \<Rightarrow> 'a list \<Rightarrow> 'a list" where
  "take_py n xs = (if 0 \<le> n then take (nat n) xs else take (length xs - nat (- n)) xs)"

definition subscriptions :: "int \<Rightarrow> registry \<Rightarrow> module_state \<Rightarrow> string list" where
  "subscriptions max_subs r consumer =
     (if \<not> is_consumer consumer then []
      else let providers = filter (\<lambda>m. is_provider m \<and> md_eui m \<noteq> md_eui consumer) (online_modules r)
           in if providers = [] then []
              else map md_eui (take_py max_subs (sort_key (provider_rank consumer) providers)))"

section \<open>The pass\<close>

definition or_empty :: "string option \<Rightarrow> string" where
  "or_empty x = (case x of None \<Rightarrow> [] | Some s \<Rightarrow> s)"

text \<open>\<open>hash\<close> of the triple of primary, secondary and sorted subscriptions.\<close>

type_synonym route_hash = "string \<Rightarrow> string \<Rightarrow> string list \<Rightarrow> int"

definition assign_route ::
  "route_hash \<Rightarrow> router_config \<Rightarrow> registry \<Rightarrow> string graph \<Rightarrow> distances \<Rightarrow> (string \<Rightarrow> string option)
     \<Rightarrow> module_state \<Rightarrow> bool \<times> module_state" where
  "assign_route rhash cfg r adj dst prev m =
     (let primary = choose_primary (cf_reparent_margin cfg) adj dst prev m;
          secondary = choose_secondary adj dst primary m;
          subs = subscriptions (cf_max_subscriptions cfg) r m;
          new = \<lparr>ra_primary = or_empty primary, ra_secondary = or_empty secondary,
                 ra_subscriptions = subs, ra_pushed_hash = 0\<rparr>;
          h = rhash (ra_primary new) (ra_secondary new) (sort (ra_subscriptions new))
      in if h \<noteq> ra_pushed_hash (md_route m)
         then (True, m\<lparr>md_route := new\<lparr>ra_pushed_hash := h\<rparr>\<rparr>)
         else (False, m\<lparr>md_route := (md_route m)\<lparr>ra_primary := ra_primary new,
                 ra_secondary := ra_secondary new, ra_subscriptions := ra_subscriptions new\<rparr>\<rparr>))"

text \<open>The loop over the snapshot of the online modules; the list holds the ids that changed.\<close>

fun compute_loop ::
  "route_hash \<Rightarrow> router_config \<Rightarrow> string graph \<Rightarrow> distances \<Rightarrow> (string \<Rightarrow> string option)
     \<Rightarrow> string list \<Rightarrow> string list \<times> registry \<Rightarrow> string list \<times> registry" where
  "compute_loop rhash cfg adj dst prev [] s = s"
| "compute_loop rhash cfg adj dst prev (e # es) (changed, r) =
     (if e = rg_gateway_eui r then compute_loop rhash cfg adj dst prev es (changed, r)
      else let (ch, m) = assign_route rhash cfg r adj dst prev (the (dget (rg_modules r) e))
           in compute_loop rhash cfg adj dst prev es
                (if ch then changed @ [e] else changed, put_module m r))"

definition compute_routes :: "route_hash \<Rightarrow> router_config \<Rightarrow> registry \<Rightarrow> string list \<times> registry" where
  "compute_routes rhash cfg r =
     (let adj = adjacency r; (dst, prev) = dijkstra adj (rg_gateway_eui r)
      in compute_loop rhash cfg adj dst prev (map md_eui (online_modules r)) ([], r))"

section \<open>Outputs\<close>

definition route_message :: "module_state \<Rightarrow> int \<Rightarrow> route result" where
  "route_message m seq =
     (let ra = md_route m in
      rbind (if ra_primary ra \<noteq> [] then eui_bytes (ra_primary ra) else Inr eui64_none) (\<lambda>primary.
      rbind (if ra_secondary ra \<noteq> [] then eui_bytes (ra_secondary ra) else Inr eui64_none) (\<lambda>secondary.
      rbind (foldr (\<lambda>s acc. rbind (eui_bytes s) (\<lambda>b. rbind acc (\<lambda>bs. Inr (b # bs))))
               (ra_subscriptions ra) (Inr [])) (\<lambda>subs.
      rbind (eui_bytes (md_eui m)) (\<lambda>eui.
      Inr \<lparr>ro_eui = eui, ro_primary_parent = primary, ro_secondary_parent = secondary,
           ro_role_override = 0xFF, ro_subscriptions = subs, ro_seq = seq, ro_flags = 0\<rparr>)))))"

definition orphans :: "registry \<Rightarrow> string list" where
  "orphans r =
     map md_eui (filter (\<lambda>m. md_eui m \<noteq> rg_gateway_eui r \<and> ra_primary (md_route m) = [])
       (online_modules r))"

text \<open>\<open>topology\<close>: the snapshot the dashboard draws. The keys of the links already drawn are the
  sorted pairs of ids.\<close>

record topo_node =
  tn_id :: string
  tn_name :: pystr
  tn_role :: string
  tn_is_provider :: bool
  tn_is_consumer :: bool
  tn_mount :: string
  tn_attached_to :: pystr
  tn_sensors :: "string list"
  tn_position :: position
  tn_battery :: int
  tn_status :: int
  tn_parent :: string
  tn_secondary :: string
  tn_subscriptions :: "string list"

record topo_link =
  tl_a :: string
  tl_b :: string
  tl_rssi :: int
  tl_range_m :: real
  tl_quality :: int

record topology_view =
  tv_gateway :: string
  tv_nodes :: "topo_node list"
  tv_links :: "topo_link list"
  tv_tree :: "(string \<times> string) list"
  tv_orphans :: "string list"

definition topo_node_of :: "module_state \<Rightarrow> topo_node" where
  "topo_node_of m =
     \<lparr>tn_id = md_eui m, tn_name = md_name m, tn_role = contribution m,
      tn_is_provider = is_provider m, tn_is_consumer = is_consumer m,
      tn_mount = (if md_mount m = mount_code VEHICLE then ''vehicle'' else ''standalone''),
      tn_attached_to = md_attached_to m, tn_sensors = sensor_list (md_sensors m),
      tn_position = md_position m, tn_battery = md_battery_pct m, tn_status = md_status m,
      tn_parent = ra_primary (md_route m), tn_secondary = ra_secondary (md_route m),
      tn_subscriptions = ra_subscriptions (md_route m)\<rparr>"

definition pair_key :: "string \<Rightarrow> string \<Rightarrow> string \<times> string" where
  "pair_key a b = (if b < a then (b, a) else (a, b))"

fun topo_links ::
  "string \<Rightarrow> (string, neighbor) dict \<Rightarrow> (string \<times> string) list \<times> topo_link list
     \<Rightarrow> (string \<times> string) list \<times> topo_link list" where
  "topo_links eui [] s = s"
| "topo_links eui ((e, nb) # nbs) (seen, links) =
     (if pair_key eui e \<in> set seen then topo_links eui nbs (seen, links)
      else topo_links eui nbs (pair_key eui e # seen,
             links @ [\<lparr>tl_a = eui, tl_b = e, tl_rssi = nb_rssi nb,
                       tl_range_m = of_int (nb_range_cm nb) / 100, tl_quality = nb_link_quality nb\<rparr>]))"

fun topo_modules ::
  "module_state list \<Rightarrow> (string \<times> string) list \<times> topo_link list \<Rightarrow> (string \<times> string) list \<times> topo_link list" where
  "topo_modules [] s = s"
| "topo_modules (m # ms) s = topo_modules ms (topo_links (md_eui m) (md_neighbors m) s)"

definition topology :: "registry \<Rightarrow> topology_view" where
  "topology r =
     (let ms = filter (\<lambda>m. md_eui m \<noteq> rg_gateway_eui r) (online_modules r)
      in \<lparr>tv_gateway = rg_gateway_eui r, tv_nodes = map topo_node_of ms,
          tv_links = snd (topo_modules ms ([], [])),
          tv_tree = map (\<lambda>m. (md_eui m, ra_primary (md_route m)))
                      (filter (\<lambda>m. ra_primary (md_route m) \<noteq> []) ms),
          tv_orphans = orphans r\<rparr>)"

section \<open>The graph is symmetric and its edges cost something\<close>

lemma link_cost_pos: "0.1 \<le> link_cost rssi range_cm lq"
  by (simp add: link_cost_def Let_def)

definition edge_weight :: "'n graph \<Rightarrow> 'n \<Rightarrow> 'n \<Rightarrow> real option" where
  "edge_weight adj u v = (case dget adj u of None \<Rightarrow> None | Some es \<Rightarrow> dget es v)"

lemma edge_iff: "edge adj u v w \<longleftrightarrow> edge_weight adj u v = Some w"
  by (auto simp: edge_def edge_weight_def split: option.splits)

lemma edges_of_get: "dget (edges_of adj u) v = edge_weight adj u v"
  by (simp add: edges_of_def edge_weight_def split: option.splits)

definition blend :: "real \<Rightarrow> real option \<Rightarrow> real" where
  "blend c prev = (case prev of None \<Rightarrow> c | Some p \<Rightarrow> (p + c) / 2)"

definition graph_ok :: "string list \<Rightarrow> string graph \<Rightarrow> bool" where
  "graph_ok online adj \<longleftrightarrow>
     dkeys adj = online \<and> distinct online
     \<and> (\<forall>u es. dget adj u = Some es \<longrightarrow> distinct (dkeys es))
     \<and> (\<forall>u v w. edge_weight adj u v = Some w \<longrightarrow> 0.1 \<le> w \<and> v \<in> set online)
     \<and> (\<forall>u v. edge_weight adj u v = edge_weight adj v u)"

lemma link_edge_weight:
  assumes "a \<in> set (dkeys adj)"
  shows "edge_weight (link_edge a b c adj) u v =
           (if u = a \<and> v = b then Some (blend c (edge_weight adj a b)) else edge_weight adj u v)"
    and "dkeys (link_edge a b c adj) = dkeys adj"
    and "(\<forall>u es. dget adj u = Some es \<longrightarrow> distinct (dkeys es)) \<Longrightarrow>
         dget (link_edge a b c adj) u = Some es \<Longrightarrow> distinct (dkeys es)"
proof -
  from assms obtain es0 where es0: "dget adj a = Some es0"
    using pydict.keys_get [of a adj] by auto
  then show "edge_weight (link_edge a b c adj) u v =
           (if u = a \<and> v = b then Some (blend c (edge_weight adj a b)) else edge_weight adj u v)"
    by (simp add: edge_weight_def link_edge_def Let_def dict_laws blend_def)
  show "dkeys (link_edge a b c adj) = dkeys adj"
    using assms by (simp add: link_edge_def Let_def pydict.keys_put)
  show "(\<forall>u es. dget adj u = Some es \<longrightarrow> distinct (dkeys es)) \<Longrightarrow>
         dget (link_edge a b c adj) u = Some es \<Longrightarrow> distinct (dkeys es)"
    using es0
    by (auto simp: link_edge_def Let_def dict_laws intro: pydict.distinct_put split: if_splits)
qed

lemma blend_bound: "\<lbrakk>0.1 \<le> c; \<And>p. prev = Some p \<Longrightarrow> 0.1 \<le> p\<rbrakk> \<Longrightarrow> 0.1 \<le> blend c prev"
  by (cases prev) (auto simp: blend_def)

lemma link_both_ok:
  assumes "graph_ok online adj" and "a \<in> set online" and "b \<in> set online" and "0.1 \<le> c"
  shows "graph_ok online (link_both a b c adj)"
    and "edge_weight (link_both a b c adj) u v \<noteq> None
           \<longleftrightarrow> edge_weight adj u v \<noteq> None \<or> {u, v} = {a, b}"
proof -
  have keys: "a \<in> set (dkeys adj)" "b \<in> set (dkeys (link_edge a b c adj))" "dkeys adj = online"
    using assms link_edge_weight(2) [of a adj b c] by (auto simp: graph_ok_def)
  have w: "edge_weight (link_both a b c adj) u v =
      (if u = b \<and> v = a then Some (blend c (edge_weight (link_edge a b c adj) b a))
       else if u = a \<and> v = b then Some (blend c (edge_weight adj a b)) else edge_weight adj u v)" for u v
    unfolding link_both_def
    by (simp add: link_edge_weight(1) [OF keys(2)] link_edge_weight(1) [OF keys(1)])
  have inner: "edge_weight (link_edge a b c adj) b a =
      (if a = b then Some (blend c (edge_weight adj a b)) else edge_weight adj b a)"
    using link_edge_weight(1) [OF keys(1), of b c b a] by auto
  have old: "edge_weight adj u v = Some x \<Longrightarrow> 0.1 \<le> x \<and> v \<in> set online" "edge_weight adj u v = edge_weight adj v u" for u v x
    using assms(1) unfolding graph_ok_def by blast+
  have bound: "0.1 \<le> blend c (edge_weight adj u v)" for u v
    using assms(4) old(1) by (intro blend_bound) blast+
  then have bound2: "0.1 \<le> blend c (Some (blend c (edge_weight adj u v)))" for u v
    using assms(4) by (intro blend_bound) auto
  have "edge_weight (link_both a b c adj) u v = Some x \<Longrightarrow> 0.1 \<le> x \<and> v \<in> set online" for u v x
    using old(1) [of u v x] bound [of a b] bound [of b a] bound2 [of a b] assms(2,3)
    by (auto simp: w inner split: if_splits)
  moreover have "edge_weight (link_both a b c adj) u v = edge_weight (link_both a b c adj) v u" for u v
  proof (cases "{u, v} = {a, b}")
    case True
    then consider "u = a" "v = b" | "u = b" "v = a" by (auto simp: doubleton_eq_iff)
    then show ?thesis
    proof cases
      case 1
      show ?thesis unfolding 1 w inner using old(2) [of a b] by (cases "a = b") simp_all
    next
      case 2
      show ?thesis unfolding 2 w inner using old(2) [of a b] by (cases "a = b") simp_all
    qed
  next
    case False
    then have n: "(u = b \<and> v = a) = False" "(u = a \<and> v = b) = False"
      "(v = b \<and> u = a) = False" "(v = a \<and> u = b) = False" by auto
    show ?thesis unfolding w n if_False by (rule old(2))
  qed
  moreover have "dget (link_both a b c adj) u = Some es \<Longrightarrow> distinct (dkeys es)" for u es
    using link_edge_weight(3) [OF keys(1)] link_edge_weight(3) [OF keys(2)] assms(1)
    unfolding link_both_def graph_ok_def by metis
  moreover have "dkeys (link_both a b c adj) = online"
    using keys link_edge_weight(2) [OF keys(1), of b c] link_edge_weight(2) [OF keys(2), of a c]
    by (simp add: link_both_def)
  ultimately show "graph_ok online (link_both a b c adj)"
    using assms(1) unfolding graph_ok_def by blast
  show "edge_weight (link_both a b c adj) u v \<noteq> None
           \<longleftrightarrow> edge_weight adj u v \<noteq> None \<or> {u, v} = {a, b}"
    by (auto simp: w doubleton_eq_iff)
qed

lemma add_links_ok:
  assumes "graph_ok online adj" and "eui \<in> set online"
  shows "graph_ok online (add_links online eui nbs adj)
    \<and> (edge_weight (add_links online eui nbs adj) u v \<noteq> None
        \<longleftrightarrow> edge_weight adj u v \<noteq> None
          \<or> (\<exists>e \<in> set (dkeys nbs). e \<in> set online \<and> {u, v} = {eui, e}))"
  using assms
proof (induction online eui nbs adj rule: add_links.induct)
  case (2 online eui e nb nbs adj)
  show ?case
  proof (cases "e \<in> set online")
    case True
    note lb = link_both_ok [OF 2(2,3) True link_cost_pos [of "nb_rssi nb" "nb_range_cm nb" "nb_link_quality nb"]]
    from 2(1) True lb(1) 2(3) lb(2) [of u v] show ?thesis by auto
  next
    case False
    with 2 show ?thesis by auto
  qed
qed simp

text \<open>Whether one of the two nodes lists the other.\<close>

definition lists :: "module_state list \<Rightarrow> string \<Rightarrow> string \<Rightarrow> bool" where
  "lists ms u v \<longleftrightarrow> (\<exists>m \<in> set ms. \<exists>e \<in> set (dkeys (md_neighbors m)). {u, v} = {md_eui m, e})"

lemma add_modules_ok:
  assumes "graph_ok online adj" and "md_eui ` set ms \<subseteq> set online"
  shows "graph_ok online (add_modules online ms adj)
    \<and> (edge_weight (add_modules online ms adj) u v \<noteq> None
        \<longleftrightarrow> edge_weight adj u v \<noteq> None \<or> u \<in> set online \<and> v \<in> set online \<and> lists ms u v)"
  using assms
proof (induction online ms adj rule: add_modules.induct)
  case (2 online m ms adj)
  have m: "md_eui m \<in> set online" using 2(3) by simp
  note al = add_links_ok [OF 2(2) m, of "md_neighbors m"]
  have "lists (m # ms) u v \<and> u \<in> set online \<and> v \<in> set online \<longleftrightarrow>
      (\<exists>e \<in> set (dkeys (md_neighbors m)). e \<in> set online \<and> {u, v} = {md_eui m, e})
      \<or> lists ms u v \<and> u \<in> set online \<and> v \<in> set online"
    using m by (auto simp: lists_def doubleton_eq_iff)
  with 2(1) al [of u v] 2(3) show ?case by auto
qed (simp add: lists_def)

lemma adjacency_ok:
  assumes "registry_inv r"
  shows "graph_ok (online_ids_of r) (adjacency r)"
    and "edge_weight (adjacency r) u v \<noteq> None \<longleftrightarrow>
           u \<in> set (online_ids_of r) \<and> v \<in> set (online_ids_of r) \<and> lists (online_modules r) u v"
proof -
  let ?ids = "online_ids_of r"
  have d: "distinct ?ids" using online_ids(1) [OF assms] by (auto simp: online_ids_of_def Let_def)
  have empty: "edge_weight (map (\<lambda>n. (n, [])) ns) u v = None"
    "dkeys (map (\<lambda>n. (n, [])) ns) = ns"
    "dget (map (\<lambda>n. (n, [])) ns) u = Some es \<Longrightarrow> es = []" for ns :: "string list" and u v es
    by (induction ns) (auto simp: edge_weight_def dkeys_def split: if_splits)
  then have "graph_ok ?ids (map (\<lambda>n. (n, [])) ?ids)"
    using d unfolding graph_ok_def by (metis dkeys_code(1) distinct.simps(1) option.distinct(1))
  moreover have "md_eui ` set (online_modules r) \<subseteq> set ?ids"
    by (auto simp: online_ids_of_def Let_def)
  ultimately show "graph_ok ?ids (adjacency r)"
    and "edge_weight (adjacency r) u v \<noteq> None \<longleftrightarrow>
           u \<in> set ?ids \<and> v \<in> set ?ids \<and> lists (online_modules r) u v"
    using add_modules_ok [of ?ids "map (\<lambda>n. (n, [])) ?ids" "online_modules r" u v] empty(1)
    unfolding adjacency_def Let_def by auto
qed

lemma graph_ok_wf: "graph_ok online adj \<Longrightarrow> wf_graph adj"
  unfolding graph_ok_def wf_graph_def edge_iff by fastforce

section \<open>The pass changes routes only\<close>

definition strip :: "module_state \<Rightarrow> module_state" where
  "strip m = m\<lparr>md_route := route0\<rparr>"

lemma strip_fields [simp]:
  "md_eui (strip m) = md_eui m" "md_online (strip m) = md_online m" "md_role (strip m) = md_role m"
  "md_sensors (strip m) = md_sensors m" "md_position (strip m) = md_position m"
  "md_neighbors (strip m) = md_neighbors m" "strip (m\<lparr>md_route := x\<rparr>) = strip m"
  by (simp_all add: strip_def)

text \<open>Two registries that differ in routes at most.\<close>

definition same_but_routes :: "registry \<Rightarrow> registry \<Rightarrow> bool" where
  "same_but_routes r r' \<longleftrightarrow>
     dmap strip (rg_modules r) = dmap strip (rg_modules r')
     \<and> rg_gateway_eui r = rg_gateway_eui r'"

lemma same_refl: "same_but_routes r r"
  by (simp add: same_but_routes_def)

lemma same_trans: "\<lbrakk>same_but_routes a b; same_but_routes b c\<rbrakk> \<Longrightarrow> same_but_routes a c"
  by (simp add: same_but_routes_def)

lemma dset_dmap: "dmap f (dset k v d) = dset k (f v) (dmap f d)"
  by (induction d) (auto simp: dmap_def)

lemma dset_id: "dget d k = Some v \<Longrightarrow> dset k v d = d"
  by (induction d) (auto split: if_splits)

lemma same_put:
  assumes "dget (rg_modules r) (md_eui m) = Some m0" and "strip m = strip m0"
  shows "same_but_routes r (put_module m r)"
  using assms dset_id [of "dmap strip (rg_modules r)" "md_eui m" "strip m"]
  by (simp add: same_but_routes_def put_module_def dset_dmap)

lemma dvals_filter_dmap:
  assumes "\<And>m. P (f m) = P m"
  shows "map f (filter P (dvals d)) = filter P (dvals (dmap f d))"
  by (simp add: filter_map comp_def assms)

lemma same_online:
  assumes "same_but_routes r r'"
  shows "map strip (online_modules r) = map strip (online_modules r')"
proof -
  have f: "map strip (filter md_online (dvals d)) = filter md_online (dvals (dmap strip d))" for d :: "(string, module_state) dict"
    by (rule dvals_filter_dmap) simp
  show ?thesis using assms by (simp only: online_modules_def same_but_routes_def f)
qed

lemma same_ids:
  assumes "same_but_routes r r'"
  shows "map md_eui (online_modules r) = map md_eui (online_modules r')"
    and "online_ids_of r = online_ids_of r'"
proof -
  have "map md_eui ms = map md_eui (map strip ms)" for ms by simp
  with same_online [OF assms] show ids: "map md_eui (online_modules r) = map md_eui (online_modules r')"
    by metis
  then show "online_ids_of r = online_ids_of r'"
    using assms by (simp add: online_ids_of_def same_but_routes_def Let_def del: list.set_map)
qed

lemma add_modules_strip: "add_modules online (map strip ms) adj = add_modules online ms adj"
  by (induction ms arbitrary: adj) simp_all

lemma same_adjacency: "same_but_routes r r' \<Longrightarrow> adjacency r = adjacency r'"
  using same_online [of r r'] same_ids(2) [of r r']
  unfolding adjacency_def Let_def by (metis add_modules_strip)

lemma insort_key_map: "insort_key k (g x) (map g xs) = map g (insort_key (\<lambda>x. k (g x)) x xs)"
  by (induction xs) simp_all

lemma sort_key_map: "sort_key k (map g xs) = map g (sort_key (\<lambda>x. k (g x)) xs)"
  by (induction xs) (simp_all add: sort_key_def insort_key_map)

lemma take_py_map: "take_py n (map f xs) = map f (take_py n xs)"
  by (simp add: take_py_def take_map)

definition subscriptions_over :: "int \<Rightarrow> module_state list \<Rightarrow> module_state \<Rightarrow> string list" where
  "subscriptions_over n ms consumer =
     (if \<not> is_consumer consumer then []
      else map md_eui (take_py n (sort_key (provider_rank consumer)
             (filter (\<lambda>m. is_provider m \<and> md_eui m \<noteq> md_eui consumer) ms))))"

lemma subscriptions_eq: "subscriptions n r c = subscriptions_over n (online_modules r) c"
  by (auto simp: subscriptions_def subscriptions_over_def Let_def take_py_def)

lemma subscriptions_over_strip: "subscriptions_over n (map strip ms) c = subscriptions_over n ms c"
proof -
  let ?P = "\<lambda>m. is_provider m \<and> md_eui m \<noteq> md_eui c"
  have p: "is_provider (strip m) = is_provider m" for m by (simp add: is_provider_def)
  have "filter ?P (map strip ms) = map strip (filter ?P ms)"
    by (induction ms) (simp_all add: p)
  moreover have "(\<lambda>m. provider_rank c (strip m)) = provider_rank c"
    by (auto simp: fun_eq_iff provider_rank_def new_sensors_def proximity_def)
  moreover have "map md_eui (map strip xs) = map md_eui xs" for xs by simp
  ultimately show ?thesis
    unfolding subscriptions_over_def by (simp only: sort_key_map take_py_map)
qed

lemma same_subscriptions: "same_but_routes r r' \<Longrightarrow> subscriptions n r c = subscriptions n r' c"
  using same_online [of r r'] unfolding subscriptions_eq by (metis subscriptions_over_strip)

lemma subscriptions_route: "subscriptions n r (m\<lparr>md_route := x\<rparr>) = subscriptions n r m"
proof -
  have "is_consumer (m\<lparr>md_route := x\<rparr>) = is_consumer m" by (simp add: is_consumer_def)
  moreover have "provider_rank (m\<lparr>md_route := x\<rparr>) = provider_rank m"
    by (auto simp: fun_eq_iff provider_rank_def new_sensors_def proximity_def)
  ultimately show ?thesis by (simp add: subscriptions_def Let_def)
qed

text \<open>The route a module is given, and when it counts as changed.\<close>

definition new_route ::
  "route_hash \<Rightarrow> router_config \<Rightarrow> registry \<Rightarrow> string graph \<Rightarrow> distances \<Rightarrow> (string \<Rightarrow> string option)
     \<Rightarrow> module_state \<Rightarrow> route_assignment" where
  "new_route rhash cfg r adj dst prev m =
     (let primary = choose_primary (cf_reparent_margin cfg) adj dst prev m;
          p = or_empty primary; s = or_empty (choose_secondary adj dst primary m);
          subs = subscriptions (cf_max_subscriptions cfg) r m
      in \<lparr>ra_primary = p, ra_secondary = s, ra_subscriptions = subs,
          ra_pushed_hash = rhash p s (sort subs)\<rparr>)"

lemma assign_route_eq:
  "assign_route rhash cfg r adj dst prev m =
     (let ra = new_route rhash cfg r adj dst prev m
      in (ra_pushed_hash ra \<noteq> ra_pushed_hash (md_route m), m\<lparr>md_route := ra\<rparr>))"
  by (simp add: assign_route_def new_route_def Let_def)

lemma new_route_same:
  "same_but_routes r r' \<Longrightarrow>
     new_route rhash cfg r adj dst prev m = new_route rhash cfg r' adj dst prev m"
  by (simp add: new_route_def same_subscriptions)

lemma compute_loop_spec:
  assumes "compute_loop rhash cfg adj dst prev es (ch, r) = (ch', r')"
    and "registry_inv r" and "distinct es" and "set es \<subseteq> set (dkeys (rg_modules r))"
  shows "registry_inv r' \<and> same_but_routes r r' \<and> rg_newly_seen r' = rg_newly_seen r
    \<and> (\<forall>k. dget (rg_modules r') k =
          (if k \<in> set es \<and> k \<noteq> rg_gateway_eui r
           then map_option (\<lambda>m. m\<lparr>md_route := new_route rhash cfg r adj dst prev m\<rparr>) (dget (rg_modules r) k)
           else dget (rg_modules r) k))
    \<and> ch' = ch @ filter (\<lambda>k. k \<noteq> rg_gateway_eui r \<and>
          (let m = the (dget (rg_modules r) k)
           in ra_pushed_hash (new_route rhash cfg r adj dst prev m) \<noteq> ra_pushed_hash (md_route m))) es"
  using assms
proof (induction es arbitrary: ch r)
  case Nil
  then show ?case by (simp add: same_refl)
next
  case (Cons e es)
  show ?case
  proof (cases "e = rg_gateway_eui r")
    case True
    with Cons.prems Cons.IH [of ch r] show ?thesis by auto
  next
    case False
    obtain m where m: "dget (rg_modules r) e = Some m"
      using Cons.prems(4) pydict.keys_get [of e "rg_modules r"] by auto
    with Cons.prems(2) have em: "md_eui m = e" "module_inv m" by (simp_all add: registry_inv_def)
    let ?ra = "new_route rhash cfg r adj dst prev m"
    let ?c = "ra_pushed_hash ?ra \<noteq> ra_pushed_hash (md_route m)"
    let ?r = "put_module (m\<lparr>md_route := ?ra\<rparr>) r"
    have loop: "compute_loop rhash cfg adj dst prev es (if ?c then ch @ [e] else ch, ?r) = (ch', r')"
      using Cons.prems(1) False m by (simp add: assign_route_eq Let_def)
    have inv: "registry_inv ?r"
      using Cons.prems(2) em by (intro inv_put_module) (simp_all add: module_inv_def)
    have same: "same_but_routes r ?r" using m em by (intro same_put) simp_all
    have keys: "set es \<subseteq> set (dkeys (rg_modules ?r))" using Cons.prems(4) by (auto simp: put_module_keys)
    have dist: "distinct es" "e \<notin> set es" using Cons.prems(3) by simp_all
    have nr: "new_route rhash cfg ?r adj dst prev = new_route rhash cfg r adj dst prev"
      by (rule ext, rule new_route_same [OF same, symmetric])
    note IH = Cons.IH [OF loop inv dist(1) keys, unfolded nr registry_fields]
    have get: "dget (rg_modules ?r) k = (if k = e then Some (m\<lparr>md_route := ?ra\<rparr>) else dget (rg_modules r) k)" for k
      using em by (simp add: put_module_get)
    let ?hit = "\<lambda>r k. k \<noteq> rg_gateway_eui r \<and>
          (let m = the (dget (rg_modules r) k)
           in ra_pushed_hash (new_route rhash cfg r adj dst prev m) \<noteq> ra_pushed_hash (md_route m))"
    have rest: "filter (\<lambda>k. k \<noteq> rg_gateway_eui r \<and>
          (let m = the (dget (rg_modules ?r) k)
           in ra_pushed_hash (new_route rhash cfg r adj dst prev m) \<noteq> ra_pushed_hash (md_route m))) es
        = filter (?hit r) es"
      using dist(2) by (intro filter_cong refl) (auto simp: get)
    have "same_but_routes r r'" using IH same same_trans by blast
    moreover have "dget (rg_modules r') k =
          (if k \<in> set (e # es) \<and> k \<noteq> rg_gateway_eui r
           then map_option (\<lambda>m. m\<lparr>md_route := new_route rhash cfg r adj dst prev m\<rparr>) (dget (rg_modules r) k)
           else dget (rg_modules r) k)" for k
    proof (cases "k = e")
      case True
      with IH dist(2) have "dget (rg_modules r') k = dget (rg_modules ?r) k" by simp
      with True False m show ?thesis by (simp only: get) simp
    next
      case False
      then have "dget (rg_modules ?r) k = dget (rg_modules r) k" by (simp only: get if_False)
      with IH False show ?thesis by simp
    qed
    moreover have "ch' = ch @ filter (?hit r) (e # es)"
      using IH False m unfolding rest by (simp add: Let_def)
    ultimately show ?thesis using IH by blast
  qed
qed

lemma compute_spec:
  assumes "registry_inv r" and "compute_routes rhash cfg r = (ch, r')"
    and "adj = adjacency r" and "dijkstra adj (rg_gateway_eui r) = (dst, prev)"
  shows "registry_inv r'" and "same_but_routes r r'"
    and "dget (rg_modules r') k =
          map_option (\<lambda>m. if md_online m \<and> k \<noteq> rg_gateway_eui r
             then m\<lparr>md_route := new_route rhash cfg r adj dst prev m\<rparr> else m) (dget (rg_modules r) k)"
    and "ch = filter (\<lambda>k. k \<noteq> rg_gateway_eui r \<and>
          (let m = the (dget (rg_modules r) k)
           in ra_pushed_hash (new_route rhash cfg r adj dst prev m) \<noteq> ra_pushed_hash (md_route m)))
          (map md_eui (online_modules r))"
    and "rg_newly_seen r' = rg_newly_seen r"
proof -
  have loop: "compute_loop rhash cfg adj dst prev (map md_eui (online_modules r)) ([], r) = (ch, r')"
    using assms by (simp add: compute_routes_def Let_def)
  have "set (map md_eui (online_modules r)) \<subseteq> set (dkeys (rg_modules r))"
    using online_ids(2) [OF assms(1)] pydict.keys_get [of _ "rg_modules r"] by blast
  note spec = compute_loop_spec [OF loop assms(1) online_ids(1) [OF assms(1)] this]
  then show "registry_inv r'" "same_but_routes r r'" "rg_newly_seen r' = rg_newly_seen r" by blast+
  from spec show "ch = filter (\<lambda>k. k \<noteq> rg_gateway_eui r \<and>
          (let m = the (dget (rg_modules r) k)
           in ra_pushed_hash (new_route rhash cfg r adj dst prev m) \<noteq> ra_pushed_hash (md_route m)))
          (map md_eui (online_modules r))" by simp
  have "k \<in> set (map md_eui (online_modules r)) \<longleftrightarrow> (\<exists>m. dget (rg_modules r) k = Some m \<and> md_online m)"
    by (rule online_ids(2) [OF assms(1)])
  with spec show "dget (rg_modules r') k =
          map_option (\<lambda>m. if md_online m \<and> k \<noteq> rg_gateway_eui r
             then m\<lparr>md_route := new_route rhash cfg r adj dst prev m\<rparr> else m) (dget (rg_modules r) k)"
    by (cases "dget (rg_modules r) k") auto
qed

section \<open>What is chosen\<close>

text \<open>The facts of one pass, in one place: the graph, the distances and the previous hops.\<close>

definition routing :: "registry \<Rightarrow> string graph \<Rightarrow> distances \<Rightarrow> (string \<Rightarrow> string option) \<Rightarrow> bool" where
  "routing r adj dst prev \<longleftrightarrow>
     registry_inv r \<and> rg_gateway_eui r \<noteq> [] \<and> [] \<notin> set (dkeys (rg_modules r))
     \<and> adj = adjacency r \<and> dijkstra adj (rg_gateway_eui r) = (dst, prev)"

lemma routing_facts:
  assumes "routing r adj dst prev"
  shows "graph_ok (online_ids_of r) adj"
    and "edge_weight adj u v = edge_weight adj v u"
    and "edge_weight adj u v = Some w \<Longrightarrow> 0.1 \<le> w \<and> v \<noteq> []"
    and "dst (rg_gateway_eui r) = Some 0"
    and "dst v = Some d \<Longrightarrow> 0 \<le> d \<and> v \<noteq> []"
    and "prev v = Some u \<Longrightarrow>
           u \<noteq> [] \<and> (\<exists>du w. dst u = Some du \<and> edge_weight adj v u = Some w \<and> dst v = Some (du + w))"
    and "dst v \<noteq> None \<Longrightarrow> v = rg_gateway_eui r \<or> prev v \<noteq> None"
    and "\<lbrakk>dst u = Some du; edge_weight adj v u = Some w\<rbrakk> \<Longrightarrow> \<exists>dv. dst v = Some dv \<and> dv \<le> du + w"
    and "dst v = None \<longleftrightarrow> \<not> (\<exists>c. walk adj (rg_gateway_eui r) c v)"
proof -
  have R: "registry_inv r" "rg_gateway_eui r \<noteq> []" "[] \<notin> set (dkeys (rg_modules r))"
    "adj = adjacency r" "dijkstra adj (rg_gateway_eui r) = (dst, prev)"
    using assms unfolding routing_def by blast+
  show ok: "graph_ok (online_ids_of r) adj" using adjacency_ok(1) [OF R(1)] R(4) by simp
  have nil: "[] \<notin> set (online_ids_of r)"
    using R(2, 3) online_ids(2) [OF R(1)] pydict.keys_get [of "[]" "rg_modules r"]
    by (auto simp: online_ids_of_def Let_def simp del: list.set_map)
  have root: "rg_gateway_eui r \<in> set (dkeys adj)"
    using ok by (auto simp: graph_ok_def online_ids_of_def Let_def)
  note df = dijkstra_facts [OF graph_ok_wf [OF ok] root R(5), unfolded edge_iff]
  show sym: "edge_weight adj u v = edge_weight adj v u" for u v
    using ok unfolding graph_ok_def by blast
  show "edge_weight adj u v = Some w \<Longrightarrow> 0.1 \<le> w \<and> v \<noteq> []"
    using ok nil unfolding graph_ok_def by metis
  show "dst (rg_gateway_eui r) = Some 0" by (rule df(1))
  show fin: "dst v = Some d \<Longrightarrow> 0 \<le> d \<and> v \<noteq> []" for v d
    using df(3) [of v d] ok nil unfolding graph_ok_def by metis
  show "prev v = Some u \<Longrightarrow>
           u \<noteq> [] \<and> (\<exists>du w. dst u = Some du \<and> edge_weight adj v u = Some w \<and> dst v = Some (du + w))"
    using df(6) [of v u] fin [of u] sym [of u v] by fastforce
  show "dst v \<noteq> None \<Longrightarrow> v = rg_gateway_eui r \<or> prev v \<noteq> None" by (rule df(7))
  show "\<lbrakk>dst u = Some du; edge_weight adj v u = Some w\<rbrakk> \<Longrightarrow> \<exists>dv. dst v = Some dv \<and> dv \<le> du + w"
    using df(5) [of u du v w] sym [of u v] by simp
  show "dst v = None \<longleftrightarrow> \<not> (\<exists>c. walk adj (rg_gateway_eui r) c v)"
    using df(3) [of v] df(4) [of _ v] by (metis option.distinct(1) not_Some_eq)
qed

text \<open>The parent kept or taken: a live link to a node that reaches the gateway, and a detour
  bounded by the margin.\<close>

lemma choose_primary_spec:
  assumes R: "routing r adj dst prev" and m: "md_eui m \<noteq> rg_gateway_eui r"
    and "0 \<le> margin" and "margin < 1"
  shows "choose_primary margin adj dst prev m = None \<longleftrightarrow> dst (md_eui m) = None"
    and "choose_primary margin adj dst prev m = Some p \<Longrightarrow>
           p \<noteq> [] \<and> (\<exists>dp w d. dst p = Some dp \<and> edge_weight adj (md_eui m) p = Some w
             \<and> dst (md_eui m) = Some d \<and> (dp + w) * (1 - margin) \<le> d
             \<and> (margin = 0 \<or> ra_primary (md_route m) = [] \<longrightarrow> dp + w = d))"
proof -
  let ?e = "md_eui m"
  note F = routing_facts [OF R]
  show "choose_primary margin adj dst prev m = None \<longleftrightarrow> dst ?e = None"
  proof (cases "dst ?e")
    case None
    then have "prev ?e = None" using F(6) [of ?e] by fastforce
    with None show ?thesis by (simp add: choose_primary_def Let_def)
  next
    case (Some d)
    then obtain c where "prev ?e = Some c" using F(7) [of ?e] m by auto
    with Some show ?thesis by (auto simp: choose_primary_def Let_def split: if_splits option.splits)
  qed
  assume ch: "choose_primary margin adj dst prev m = Some p"
  then have "dst ?e \<noteq> None"
    using F(6) [of ?e] by (auto simp: choose_primary_def Let_def split: if_splits)
  then obtain d c where d: "dst ?e = Some d" and c: "prev ?e = Some c"
    using F(7) [of ?e] m by auto
  from F(6) [OF c] d obtain dc wc where dc: "c \<noteq> []" "dst c = Some dc" "edge_weight adj ?e c = Some wc" "d = dc + wc"
    by auto
  let ?cur = "ra_primary (md_route m)"
  let ?keep = "?cur \<noteq> [] \<and> edge_weight adj ?e ?cur \<noteq> None \<and> dst ?cur \<noteq> None
      \<and> d \<ge> (the (dst ?cur) + the (edge_weight adj ?e ?cur)) * (1 - margin)"
  have cost: "the (dst c) + the (edge_weight adj ?e c) = d" using dc by simp
  have "choose_primary margin adj dst prev m = (if ?keep then Some ?cur else Some c)"
    unfolding choose_primary_def Let_def edges_of_get c d option.case option.distinct
    using dc(1) by (simp add: cost)
  then have "p = c \<or> ?keep \<and> p = ?cur" using ch by (simp split: if_splits)
  then consider "p = c" | "p = ?cur" "?keep" by blast
  then show "p \<noteq> [] \<and> (\<exists>dp w d. dst p = Some dp \<and> edge_weight adj ?e p = Some w
             \<and> dst ?e = Some d \<and> (dp + w) * (1 - margin) \<le> d
             \<and> (margin = 0 \<or> ra_primary (md_route m) = [] \<longrightarrow> dp + w = d))"
  proof cases
    case 1
    have "0 \<le> d" using F(5) [OF d] by simp
    then have "d * (1 - margin) \<le> d * 1" using assms(3) by (intro mult_left_mono) simp_all
    with 1 dc d show ?thesis by auto
  next
    case 2
    then obtain dp w where dp: "dst p = Some dp" "edge_weight adj ?e p = Some w" by auto
    from F(8) [OF dp] d have "d \<le> dp + w" by auto
    moreover have "(dp + w) * (1 - margin) \<le> d" using 2 dp by simp
    ultimately show ?thesis using 2 dp d by auto
  qed
qed

text \<open>The neighbors a secondary parent may be taken from, with the cost through each.\<close>

definition alternates ::
  "distances \<Rightarrow> string option \<Rightarrow> real option \<Rightarrow> (string, real) dict \<Rightarrow> (string \<times> real) set" where
  "alternates dst primary my_dist es =
     {(x, nd + w) |x w nd. (x, w) \<in> set es \<and> Some x \<noteq> primary \<and> dst x = Some nd
        \<and> (\<forall>md. my_dist = Some md \<longrightarrow> nd < md)}"

definition best_among :: "(string \<times> real) set \<Rightarrow> string option \<Rightarrow> real option \<Rightarrow> bool" where
  "best_among E best bc \<longleftrightarrow>
     (case best of
        None \<Rightarrow> bc = None \<and> E = {}
      | Some nb \<Rightarrow> \<exists>c. bc = Some c \<and> (nb, c) \<in> E \<and> (\<forall>(x, c') \<in> E. c \<le> c'))"

lemma alternates_Cons:
  "alternates dst primary md ((x, w) # es) =
     (case dst x of
        None \<Rightarrow> {}
      | Some nd \<Rightarrow> if Some x \<noteq> primary \<and> (\<forall>d. md = Some d \<longrightarrow> nd < d) then {(x, nd + w)} else {})
     \<union> alternates dst primary md es"
  by (auto simp: alternates_def split: option.splits)

lemma best_among_insert:
  assumes "best_among E best bc"
  shows "best_among (insert (x, c) E)
           (if (case bc of None \<Rightarrow> True | Some b \<Rightarrow> c < b) then Some x else best)
           (if (case bc of None \<Rightarrow> True | Some b \<Rightarrow> c < b) then Some c else bc)"
  using assms by (fastforce simp: best_among_def split: option.splits)

lemma secondary_loop_best:
  "best_among E best bc \<Longrightarrow>
     \<exists>bc'. best_among (E \<union> alternates dst primary my_dist es)
             (secondary_loop dst primary my_dist es (best, bc)) bc'"
proof (induction es arbitrary: E best bc)
  case Nil
  then show ?case by (auto simp: alternates_def)
next
  case (Cons e es)
  obtain x w where e: "e = (x, w)" by fastforce
  consider "Some x = primary" | "Some x \<noteq> primary" "dst x = None"
    | nd d where "Some x \<noteq> primary" "dst x = Some nd" "my_dist = Some d" "d \<le> nd"
    | nd where "Some x \<noteq> primary" "dst x = Some nd" "\<forall>d. my_dist = Some d \<longrightarrow> nd < d"
    by (cases "dst x"; cases my_dist) force+
  then show ?case
  proof cases
    case (4 nd)
    have "alternates dst primary my_dist (e # es) = insert (x, nd + w) (alternates dst primary my_dist es)"
      using 4 by (simp add: e alternates_Cons)
    moreover have "secondary_loop dst primary my_dist (e # es) (best, bc)
        = secondary_loop dst primary my_dist es
            (if (case bc of None \<Rightarrow> True | Some b \<Rightarrow> nd + w < b) then Some x else best,
             if (case bc of None \<Rightarrow> True | Some b \<Rightarrow> nd + w < b) then Some (nd + w) else bc)"
      using 4 by (cases my_dist) (auto simp: e Let_def)
    moreover note Cons.IH [OF best_among_insert [OF Cons.prems, of x "nd + w"]]
    ultimately show ?thesis by (simp only: Un_insert_left Un_insert_right)
  qed (use Cons in \<open>auto simp: e alternates_Cons split: option.splits\<close>)
qed

lemma choose_secondary_spec:
  assumes "routing r adj dst prev" and "choose_secondary adj dst primary m = Some nb"
  shows "Some nb \<noteq> primary \<and> (\<exists>nd w d. dst nb = Some nd \<and> edge_weight adj (md_eui m) nb = Some w
      \<and> dst (md_eui m) = Some d \<and> nd < d
      \<and> (\<forall>x wx dx. edge_weight adj (md_eui m) x = Some wx \<and> Some x \<noteq> primary \<and> dst x = Some dx \<and> dx < d
           \<longrightarrow> nd + w \<le> dx + wx))"
proof -
  let ?es = "edges_of adj (md_eui m)"
  note F = routing_facts [OF assms(1)]
  have dist: "distinct (dkeys ?es)"
    using F(1) by (auto simp: graph_ok_def edges_of_def split: option.splits)
  have mem: "(x, w) \<in> set ?es \<longleftrightarrow> edge_weight adj (md_eui m) x = Some w" for x w
    using dist by (simp add: dget_def dkeys_def flip: edges_of_get)
  have "best_among {} None None" by (simp add: best_among_def)
  from secondary_loop_best [OF this, of dst primary "dst (md_eui m)" ?es] assms(2) obtain c where
    nb: "(nb, c) \<in> alternates dst primary (dst (md_eui m)) ?es"
    and least: "\<forall>(x, c') \<in> alternates dst primary (dst (md_eui m)) ?es. c \<le> c'"
    by (auto simp: choose_secondary_def best_among_def)
  from nb obtain nd w where w: "edge_weight adj (md_eui m) nb = Some w" "Some nb \<noteq> primary"
    "dst nb = Some nd" "\<forall>d. dst (md_eui m) = Some d \<longrightarrow> nd < d" "c = nd + w"
    by (auto simp: alternates_def mem)
  moreover obtain d where "dst (md_eui m) = Some d" using F(8) [OF w(3,1)] by auto
  moreover have "nd + w \<le> dx + wx"
    if "edge_weight adj (md_eui m) x = Some wx" "Some x \<noteq> primary" "dst x = Some dx" "dx < d" for x wx dx
    using that least w(5) \<open>dst (md_eui m) = Some d\<close> by (fastforce simp: alternates_def mem)
  ultimately show ?thesis by auto
qed

section \<open>The properties of the router\<close>

text \<open>The graph the router works on is symmetric, costs at least 0.1 on every edge, and joins
  exactly the pairs of online nodes one of which lists the other in its neighbor table.\<close>

theorem adjacency_sound:
  assumes "registry_inv r"
  shows "(edge (adjacency r) u v w \<longleftrightarrow> edge (adjacency r) v u w)
    \<and> (edge (adjacency r) u v w \<longrightarrow> 0.1 \<le> w)
    \<and> ((\<exists>w. edge (adjacency r) u v w) \<longleftrightarrow>
           u \<in> set (online_ids_of r) \<and> v \<in> set (online_ids_of r) \<and> lists (online_modules r) u v)"
proof -
  have "edge_weight (adjacency r) u v = edge_weight (adjacency r) v u"
    and "edge_weight (adjacency r) u v = Some w \<Longrightarrow> 0.1 \<le> w"
    using adjacency_ok(1) [OF assms] unfolding graph_ok_def by blast+
  then show ?thesis
    using adjacency_ok(2) [OF assms, of u v] unfolding edge_iff by auto
qed

lemma adjacency_sound_witness:
  "\<exists>w. edge (adjacency sample_swarm) ''A'' ''T'' w"
proof -
  have "''A'' \<in> set (online_ids_of sample_swarm)" "''T'' \<in> set (online_ids_of sample_swarm)"
    "lists (online_modules sample_swarm) ''A'' ''T''"
    by (simp_all add: sample_swarm_def online_ids_of_def online_modules_def sample_anchor_def
        module0_def lists_def)
  with adjacency_sound [OF sample_swarm_inv, of "''A''" "''T''"] show ?thesis by blast
qed

text \<open>C9: On any graph without negative weights the search returns, for every node, the cost of
  a cheapest walk from the gateway, or no distance where there is no walk at all; the previous
  hop is the last step of a cheapest walk.\<close>

theorem dijkstra_shortest:
  assumes "wf_graph adj" and "rt \<in> set (dkeys adj)" and "dijkstra adj rt = (dst, prev)"
  shows "(dst v = None \<longleftrightarrow> \<not> (\<exists>c. walk adj rt c v))
    \<and> (\<forall>d. dst v = Some d \<longrightarrow> walk adj rt d v \<and> (\<forall>c. walk adj rt c v \<longrightarrow> d \<le> c))
    \<and> (\<forall>u. prev v = Some u \<longrightarrow> (\<exists>du w. dst u = Some du \<and> edge adj u v w \<and> dst v = Some (du + w)))
    \<and> (v \<noteq> rt \<and> dst v \<noteq> None \<longrightarrow> prev v \<noteq> None)"
proof -
  note F = dijkstra_facts [OF assms]
  have "walk adj rt d v \<and> (\<forall>c. walk adj rt c v \<longrightarrow> d \<le> c)" if "dst v = Some d" for d
    using F(3) [OF that] F(4) [of _ v] that by fastforce
  moreover have "dst v = None \<longleftrightarrow> \<not> (\<exists>c. walk adj rt c v)"
    using F(3) [of v] F(4) [of _ v] by (metis option.distinct(1) not_Some_eq)
  ultimately show ?thesis using F(6) [of v] F(7) [of v] by blast
qed

definition sample_graph :: "nat graph" where
  "sample_graph = [(0, [(1, 4), (2, 1)]), (1, [(0, 4), (2, 2)]), (2, [(0, 1), (1, 2)]), (3, [])]"

lemma sample_graph_wf: "wf_graph sample_graph"
  by (auto simp: wf_graph_def edge_def sample_graph_def split: if_splits)

lemma dijkstra_shortest_witness:
  "fst (dijkstra sample_graph 0) 3 = None \<longleftrightarrow> \<not> (\<exists>c. walk sample_graph 0 c 3)"
  using dijkstra_shortest [OF sample_graph_wf, of 0 "fst (dijkstra sample_graph 0)" "snd (dijkstra sample_graph 0)" 3]
  by (simp add: sample_graph_def)

lemma routing_intro:
  assumes "registry_inv r" and "rg_gateway_eui r \<noteq> []" and "[] \<notin> set (dkeys (rg_modules r))"
  shows "\<exists>dst prev. routing r (adjacency r) dst prev"
  using assms by (simp add: routing_def)

text \<open>The route the pass leaves with a module.\<close>

lemma computed_route:
  assumes "routing r adj dst prev" and "compute_routes rhash cfg r = (ch, r')"
    and "dget (rg_modules r') e = Some m" and "md_online m" and "e \<noteq> rg_gateway_eui r"
  obtains m0 where "dget (rg_modules r) e = Some m0" "md_online m0" "md_eui m0 = e"
    "m = m0\<lparr>md_route := new_route rhash cfg r adj dst prev m0\<rparr>"
proof -
  have R: "registry_inv r" "adj = adjacency r" "dijkstra adj (rg_gateway_eui r) = (dst, prev)"
    using assms(1) unfolding routing_def by blast+
  from compute_spec(3) [OF R(1) assms(2) R(2,3), of e] assms(3-5) obtain m0
    where m0: "dget (rg_modules r) e = Some m0"
      "m = (if md_online m0 \<and> e \<noteq> rg_gateway_eui r
            then m0\<lparr>md_route := new_route rhash cfg r adj dst prev m0\<rparr> else m0)"
    by (cases "dget (rg_modules r) e") auto
  with assms(4,5) have "md_online m0" by (auto split: if_splits)
  moreover have "md_eui m0 = e" using R(1) m0(1) by (simp add: registry_inv_def)
  ultimately show ?thesis using that m0 assms(5) by simp
qed

lemma route_parent:
  assumes "routing r adj dst prev" and "0 \<le> cf_reparent_margin cfg" and "cf_reparent_margin cfg < 1"
    and "compute_routes rhash cfg r = (ch, r')"
    and "dget (rg_modules r') e = Some m" and "md_online m" and "e \<noteq> rg_gateway_eui r"
  shows "(ra_primary (md_route m) = [] \<longleftrightarrow> \<not> (\<exists>c. walk adj (rg_gateway_eui r) c e))
    \<and> (ra_primary (md_route m) \<noteq> [] \<longrightarrow>
         (\<exists>dp w d. dst (ra_primary (md_route m)) = Some dp \<and> edge adj e (ra_primary (md_route m)) w
            \<and> dst e = Some d \<and> (dp + w) * (1 - cf_reparent_margin cfg) \<le> d
            \<and> (cf_reparent_margin cfg = 0
               \<or> (\<exists>m0. dget (rg_modules r) e = Some m0 \<and> ra_primary (md_route m0) = [])
               \<longrightarrow> dp + w = d)))"
proof -
  from computed_route [OF assms(1,4-7)] obtain m0 where m0: "dget (rg_modules r) e = Some m0"
    "md_eui m0 = e" "m = m0\<lparr>md_route := new_route rhash cfg r adj dst prev m0\<rparr>" by blast
  have ne: "md_eui m0 \<noteq> rg_gateway_eui r" using m0(2) assms(7) by simp
  note cp = choose_primary_spec [OF assms(1) ne assms(2,3)]
  let ?p = "choose_primary (cf_reparent_margin cfg) adj dst prev m0"
  have primary: "ra_primary (md_route m) = or_empty ?p"
    using m0(3) by (simp add: new_route_def Let_def)
  show ?thesis
  proof (cases ?p)
    case None
    with primary cp(1) m0(2) routing_facts(9) [OF assms(1), of e] show ?thesis
      by (simp add: or_empty_def)
  next
    case (Some p)
    with primary have p: "ra_primary (md_route m) = p" by (simp add: or_empty_def)
    from cp(2) [OF Some] m0(2) obtain dp w d where "p \<noteq> []" "dst p = Some dp" "edge_weight adj e p = Some w"
      "dst e = Some d" "(dp + w) * (1 - cf_reparent_margin cfg) \<le> d"
      "cf_reparent_margin cfg = 0 \<or> ra_primary (md_route m0) = [] \<longrightarrow> dp + w = d"
      by auto
    with p m0(1) routing_facts(9) [OF assms(1), of e] show ?thesis
      by (auto simp: edge_iff)
  qed
qed

text \<open>C8: After a pass an online module is without a parent exactly when no walk leads from the
  gateway to it. The parent it has otherwise is a node with a live link, and the way over it is
  at most 1/(1 - margin) times the cheapest: equal to the cheapest when the module had no
  parent before or the margin is zero.\<close>

theorem primary_parents:
  assumes "routing r adj dst prev" and "0 \<le> cf_reparent_margin cfg" and "cf_reparent_margin cfg < 1"
    and "compute_routes rhash cfg r = (ch, r')"
    and "dget (rg_modules r') e = Some m" and "md_online m" and "e \<noteq> rg_gateway_eui r"
  shows "(ra_primary (md_route m) = [] \<longleftrightarrow> \<not> (\<exists>c. walk adj (rg_gateway_eui r) c e))
    \<and> (ra_primary (md_route m) \<noteq> [] \<longrightarrow>
         (\<exists>dp w d. dst (ra_primary (md_route m)) = Some dp \<and> edge adj e (ra_primary (md_route m)) w
            \<and> dst e = Some d \<and> (dp + w) * (1 - cf_reparent_margin cfg) \<le> d
            \<and> (cf_reparent_margin cfg = 0
               \<or> (\<exists>m0. dget (rg_modules r) e = Some m0 \<and> ra_primary (md_route m0) = [])
               \<longrightarrow> dp + w = d)))"
  by (rule route_parent [OF assms])

lemma sample_swarm_routing:
  "\<exists>dst prev. routing sample_swarm (adjacency sample_swarm) dst prev"
  by (rule routing_intro [OF sample_swarm_inv]) (simp_all add: sample_swarm_def)

text \<open>G is not linked to anybody in the sample, so nobody finds a parent.\<close>

lemma primary_parents_witness:
  "\<exists>m. dget (rg_modules (snd (compute_routes (\<lambda>_ _ _. 1) router_config0 sample_swarm))) ''A'' = Some m
     \<and> (ra_primary (md_route m) = [] \<longleftrightarrow> \<not> (\<exists>c. walk (adjacency sample_swarm) ''G'' c ''A''))"
proof -
  let ?res = "compute_routes (\<lambda>_ _ _. 1) router_config0 sample_swarm"
  obtain dst prev where R: "routing sample_swarm (adjacency sample_swarm) dst prev"
    using sample_swarm_routing by blast
  have res: "?res = (fst ?res, snd ?res)" by simp
  have A: "dget (rg_modules sample_swarm) ''A'' = Some (sample_anchor ''A'' 1 1 [(''T'', sample_link ''T'' 4000)])"
    by (simp add: sample_swarm_def)
  have dj: "dijkstra (adjacency sample_swarm) (rg_gateway_eui sample_swarm) = (dst, prev)"
    using R unfolding routing_def by blast
  obtain m where m: "dget (rg_modules (snd ?res)) ''A'' = Some m" "md_online m"
    using compute_spec(3) [OF sample_swarm_inv res refl dj, of "''A''"] A
    by (auto simp: sample_anchor_def module0_def)
  have g: "rg_gateway_eui sample_swarm = ''G''" by (simp add: sample_swarm_def)
  from primary_parents [OF R _ _ res m] m show ?thesis
    by (simp add: router_config0_def g)
qed

text \<open>The secondary parent is never the primary one and is loop-free: it is a linked node
  strictly closer to the gateway than the module itself, and among those nodes one over which
  the way to the gateway is cheapest.\<close>

theorem secondary_parents:
  assumes "routing r adj dst prev" and "compute_routes rhash cfg r = (ch, r')"
    and "dget (rg_modules r') e = Some m" and "md_online m" and "e \<noteq> rg_gateway_eui r"
    and "ra_secondary (md_route m) \<noteq> []"
  shows "ra_secondary (md_route m) \<noteq> ra_primary (md_route m)
    \<and> (\<exists>ds w d. dst (ra_secondary (md_route m)) = Some ds \<and> edge adj e (ra_secondary (md_route m)) w
         \<and> dst e = Some d \<and> ds < d
         \<and> (\<forall>x wx dx. edge adj e x wx \<and> x \<noteq> ra_primary (md_route m) \<and> dst x = Some dx \<and> dx < d
              \<longrightarrow> ds + w \<le> dx + wx))"
proof -
  from computed_route [OF assms(1-5)] obtain m0 where m0: "dget (rg_modules r) e = Some m0"
    "md_eui m0 = e" "m = m0\<lparr>md_route := new_route rhash cfg r adj dst prev m0\<rparr>" by blast
  let ?p = "choose_primary (cf_reparent_margin cfg) adj dst prev m0"
  let ?s = "choose_secondary adj dst ?p m0"
  have ra: "ra_primary (md_route m) = or_empty ?p" "ra_secondary (md_route m) = or_empty ?s"
    using m0(3) by (simp_all add: new_route_def Let_def)
  then obtain nb where nb: "?s = Some nb" using assms(6) by (cases ?s) (auto simp: or_empty_def)
  note cs = choose_secondary_spec [OF assms(1) nb]
  have sec: "ra_secondary (md_route m) = nb" using ra nb by (simp add: or_empty_def)
  have "nb \<noteq> []" using assms(6) sec by simp
  with cs have "nb \<noteq> or_empty ?p" by (auto simp: or_empty_def split: option.splits)
  moreover have "?p \<noteq> Some x" if "x \<noteq> or_empty ?p" for x
    using that by (cases ?p) (auto simp: or_empty_def)
  moreover obtain nd w d where s: "dst nb = Some nd" "edge_weight adj e nb = Some w" "dst e = Some d" "nd < d"
    and least: "\<And>x wx dx. \<lbrakk>edge_weight adj e x = Some wx; Some x \<noteq> ?p; dst x = Some dx; dx < d\<rbrakk> \<Longrightarrow> nd + w \<le> dx + wx"
    using cs m0(2) by blast
  ultimately have "\<forall>x wx dx. edge adj e x wx \<and> x \<noteq> or_empty ?p \<and> dst x = Some dx \<and> dx < d \<longrightarrow> nd + w \<le> dx + wx"
    unfolding edge_iff by metis
  with s \<open>nb \<noteq> or_empty ?p\<close> show ?thesis unfolding sec ra(1) edge_iff by blast
qed

text \<open>A swarm where A reaches the gateway both directly and over B.\<close>

definition relay_swarm :: registry where
  "relay_swarm = \<lparr>rg_modules =
     [(''G'', sample_anchor ''G'' 1 1 []),
      (''A'', sample_anchor ''A'' 1 1 [(''G'', sample_link ''G'' 4000), (''B'', sample_link ''B'' 1000)]),
      (''B'', sample_anchor ''B'' 1 2 [(''G'', sample_link ''G'' 1000)])],
     rg_gateway_eui = ''G'', rg_newly_seen = []\<rparr>"

section \<open>Parents lead to the gateway, or do not\<close>

inductive leads_home :: "registry \<Rightarrow> string \<Rightarrow> bool" for r where
  home_gateway: "leads_home r (rg_gateway_eui r)"
| home_parent: "\<lbrakk>dget (rg_modules r) e = Some m; leads_home r (ra_primary (md_route m))\<rbrakk> \<Longrightarrow> leads_home r e"

inductive_cases leads_homeE: "leads_home r e"

text \<open>C7: Without hysteresis the primary parents form a tree: when the margin is zero, or no
  module had a parent before the pass, following the parents from any online module that has one
  leads to the gateway.\<close>

theorem parents_lead_home:
  assumes "routing r adj dst prev" and "0 \<le> cf_reparent_margin cfg" and "cf_reparent_margin cfg < 1"
    and "cf_reparent_margin cfg = 0 \<or> (\<forall>k m. dget (rg_modules r) k = Some m \<longrightarrow> ra_primary (md_route m) = [])"
    and "compute_routes rhash cfg r = (ch, r')"
    and "dget (rg_modules r') e = Some m" and "md_online m" and "ra_primary (md_route m) \<noteq> []"
  shows "leads_home r' e"
proof -
  have R: "registry_inv r" "adj = adjacency r" "dijkstra adj (rg_gateway_eui r) = (dst, prev)"
    using assms(1) unfolding routing_def by blast+
  note cs = compute_spec [OF R(1) assms(5) R(2,3)]
  note F = routing_facts [OF assms(1)]
  have gw: "rg_gateway_eui r' = rg_gateway_eui r" using cs(2) by (simp add: same_but_routes_def)
  have step: "\<exists>dp w d. dst (ra_primary (md_route m)) = Some dp \<and> edge_weight adj e (ra_primary (md_route m)) = Some w
      \<and> dst e = Some d \<and> dp + w = d"
    if "dget (rg_modules r') e = Some m" "md_online m" "ra_primary (md_route m) \<noteq> []" "e \<noteq> rg_gateway_eui r" for e m
    using route_parent [OF assms(1-3,5) that(1,2,4)] that(3) assms(4)
      computed_route [OF assms(1,5) that(1,2,4)]
    by (metis edge_iff)
  from assms(6-8) show ?thesis
  proof (induction "nat \<lfloor>10 * the (dst e)\<rfloor>" arbitrary: e m rule: less_induct)
    case less
    show ?case
    proof (cases "e = rg_gateway_eui r")
      case True
      then show ?thesis using home_gateway [of r'] gw by simp
    next
      case False
      let ?p = "ra_primary (md_route m)"
      from step [OF less.prems False] obtain dp w d where
        p: "dst ?p = Some dp" "edge_weight adj e ?p = Some w" "dst e = Some d" "dp + w = d" by blast
      have bounds: "0.1 \<le> w" "0 \<le> dp" using F(3) [OF p(2)] F(5) [OF p(1)] by simp_all
      have "leads_home r' ?p"
      proof (cases "?p = rg_gateway_eui r")
        case True
        then show ?thesis using home_gateway [of r'] gw by simp
      next
        case ne: False
        have "?p \<in> set (online_ids_of r)" using p(2) F(1) unfolding graph_ok_def by blast
        with ne have "?p \<in> set (map md_eui (online_modules r))"
          by (auto simp: online_ids_of_def Let_def split: if_splits)
        then obtain mp0 where mp0: "dget (rg_modules r) ?p = Some mp0" "md_online mp0"
          using online_ids(2) [OF R(1)] by auto
        then obtain mp where mp: "dget (rg_modules r') ?p = Some mp" "md_online mp"
          using cs(3) [of ?p] by auto
        have "ra_primary (md_route mp) \<noteq> []"
          using route_parent [OF assms(1-3,5) mp ne] F(9) [of ?p] p(1) by auto
        moreover have "nat \<lfloor>10 * the (dst ?p)\<rfloor> < nat \<lfloor>10 * the (dst e)\<rfloor>"
        proof -
          have "10 * dp + 1 \<le> 10 * d" using p(4) bounds(1) by simp
          then have "\<lfloor>10 * dp\<rfloor> + 1 \<le> \<lfloor>10 * d\<rfloor>" by linarith
          moreover have "0 \<le> \<lfloor>10 * dp\<rfloor>" using bounds(2) by simp
          ultimately have "nat \<lfloor>10 * dp\<rfloor> < nat \<lfloor>10 * d\<rfloor>" by linarith
          then show ?thesis using p by simp
        qed
        ultimately show ?thesis using less.hyps mp by blast
      qed
      with less.prems(1) show ?thesis by (rule home_parent)
    qed
  qed
qed

lemma relay_swarm_inv: "registry_inv relay_swarm"
  by (auto simp: registry_inv_def relay_swarm_def module_inv_def sample_anchor_def module0_def
      sample_link_def split: if_splits)

lemma relay_swarm_route:
  obtains dst prev ch r' m where "routing relay_swarm (adjacency relay_swarm) dst prev"
    "compute_routes rhash router_config0 relay_swarm = (ch, r')"
    "dget (rg_modules r') ''A'' = Some m" "md_online m"
    "ra_primary (md_route m) = ''G''" "ra_secondary (md_route m) = ''B''"
proof -
  obtain ch r' where run: "compute_routes rhash router_config0 relay_swarm = (ch, r')"
    by (cases "compute_routes rhash router_config0 relay_swarm")
  obtain dst prev where dj: "dijkstra (adjacency relay_swarm) ''G'' = (dst, prev)"
    by (cases "dijkstra (adjacency relay_swarm) ''G''")
  have g: "rg_gateway_eui relay_swarm = ''G''" by (simp add: relay_swarm_def)
  have R: "routing relay_swarm (adjacency relay_swarm) dst prev"
    using relay_swarm_inv dj by (simp add: routing_def relay_swarm_def)
  have dp: "dst = fst (dijkstra (adjacency relay_swarm) ''G'')" "prev = snd (dijkstra (adjacency relay_swarm) ''G'')"
    using dj by simp_all
  let ?a = "the (dget (rg_modules relay_swarm) ''A'')"
  have p: "choose_primary (cf_reparent_margin router_config0) (adjacency relay_swarm) dst prev ?a = Some ''G''"
    and s: "choose_secondary (adjacency relay_swarm) dst (Some ''G'') ?a = Some ''B''"
    unfolding dp by code_simp+
  have a: "dget (rg_modules relay_swarm) ''A'' = Some ?a" and on: "md_online ?a"
    by (simp_all add: relay_swarm_def sample_anchor_def module0_def)
  have "dget (rg_modules r') ''A'' = Some (?a\<lparr>md_route :=
      new_route rhash router_config0 relay_swarm (adjacency relay_swarm) dst prev ?a\<rparr>)"
    unfolding compute_spec(3) [OF relay_swarm_inv run refl, unfolded g, OF dj, of "''A''"]
    by (subst a) (simp add: on)
  from that [OF R run this] show ?thesis
    by (simp add: on p s new_route_def Let_def or_empty_def)
qed

lemma secondary_parents_witness:
  "\<exists>dst. dst ''B'' < (dst ''A'' :: real) \<and> (\<exists>w. edge (adjacency relay_swarm) ''A'' ''B'' w)"
proof -
  obtain dst prev ch r' m where h: "routing relay_swarm (adjacency relay_swarm) dst prev"
    "compute_routes (\<lambda>_ _ _. 1) router_config0 relay_swarm = (ch, r')"
    "dget (rg_modules r') ''A'' = Some m" "md_online m"
    "ra_primary (md_route m) = ''G''" "ra_secondary (md_route m) = ''B''"
    by (rule relay_swarm_route)
  have g: "''A'' \<noteq> rg_gateway_eui relay_swarm" by (simp add: relay_swarm_def)
  have s: "ra_secondary (md_route m) \<noteq> []" using h(6) by simp
  from secondary_parents [OF h(1-4) g s] h(6) obtain ds w d where
    "dst ''B'' = Some ds" "edge (adjacency relay_swarm) ''A'' ''B'' w" "dst ''A'' = Some d" "ds < d"
    by auto
  then show ?thesis by (intro exI [of _ "\<lambda>x. the (dst x)"]) auto
qed

lemma parents_lead_home_witness:
  "leads_home (snd (compute_routes (\<lambda>_ _ _. 1) router_config0 relay_swarm)) ''A''"
proof -
  obtain dst prev ch r' m where h: "routing relay_swarm (adjacency relay_swarm) dst prev"
    "compute_routes (\<lambda>_ _ _. 1) router_config0 relay_swarm = (ch, r')"
    "dget (rg_modules r') ''A'' = Some m" "md_online m"
    "ra_primary (md_route m) = ''G''" "ra_secondary (md_route m) = ''B''"
    by (rule relay_swarm_route)
  have none: "\<forall>k m. dget (rg_modules relay_swarm) k = Some m \<longrightarrow> ra_primary (md_route m) = []"
    by (simp add: relay_swarm_def sample_anchor_def module0_def route0_def)
  have mg: "0 \<le> cf_reparent_margin router_config0" "cf_reparent_margin router_config0 < 1"
    by (simp_all add: router_config0_def)
  have p: "ra_primary (md_route m) \<noteq> []" using h(5) by simp
  from parents_lead_home [OF h(1) mg disjI2 [OF none] h(2-4) p] h(2) show ?thesis by simp
qed

lemma choose_primary_again:
  assumes R: "routing r adj dst prev" and m: "md_eui m \<noteq> rg_gateway_eui r"
    and mg: "0 \<le> margin" "margin < 1" and p: "choose_primary margin adj dst prev m = p"
    and m': "md_eui m' = md_eui m" "ra_primary (md_route m') = or_empty p"
  shows "choose_primary margin adj dst prev m' = p"
proof (cases p)
  case None
  with choose_primary_spec(1) [OF R m mg] p have "dst (md_eui m) = None" by simp
  with None show ?thesis using choose_primary_spec(1) [OF R _ mg, of m'] m m' by simp
next
  case (Some x)
  from choose_primary_spec(2) [OF R m mg, of x] p Some obtain dp w d where
    x: "x \<noteq> []" "dst x = Some dp" "edge_weight adj (md_eui m) x = Some w" "dst (md_eui m) = Some d"
    by blast
  have x': "ra_primary (md_route m') = x" using m'(2) Some by (simp add: or_empty_def)
  have cost: "(dp + w) * (1 - margin) \<le> dp + w"
    using routing_facts(5) [OF R x(2)] routing_facts(3) [OF R x(3)] mg
    by (intro mult_left_le) auto
  show ?thesis
  proof (cases "prev (md_eui m) = Some x")
    case True
    with x x' m'(1) Some cost show ?thesis
      unfolding choose_primary_def Let_def edges_of_get by auto
  next
    case False
    with p Some have "current \<noteq> [] \<and> current = x" if "current = ra_primary (md_route m)" for current
      using that unfolding choose_primary_def Let_def by (auto split: if_splits)
    then have "ra_primary (md_route m) = ra_primary (md_route m')" using x' by blast
    then have "choose_primary margin adj dst prev m' = choose_primary margin adj dst prev m"
      using m'(1) by (simp add: choose_primary_def Let_def)
    with p show ?thesis by simp
  qed
qed


lemma same_keys: "same_but_routes r r' \<Longrightarrow> dkeys (rg_modules r) = dkeys (rg_modules r')"
  unfolding same_but_routes_def by (metis dkeys_dmap)

text \<open>The pass is idempotent: run again on its own result it reports no change and leaves the
  registry as it is, so nothing is pushed until the swarm changes.\<close>

theorem compute_idempotent:
  assumes "routing r adj dst prev" and "0 \<le> cf_reparent_margin cfg" and "cf_reparent_margin cfg < 1"
    and "compute_routes rhash cfg r = (ch, r')"
  shows "compute_routes rhash cfg r' = ([], r')"
proof -
  have R: "registry_inv r" "adj = adjacency r" "dijkstra adj (rg_gateway_eui r) = (dst, prev)"
    using assms(1) unfolding routing_def by blast+
  note cs = compute_spec [OF R(1) assms(4) R(2,3)]
  have gw: "rg_gateway_eui r' = rg_gateway_eui r" using cs(2) by (simp add: same_but_routes_def)
  obtain ch2 r2 where run: "compute_routes rhash cfg r' = (ch2, r2)" by (cases "compute_routes rhash cfg r'")
  have adj': "adj = adjacency r'" using R(2) same_adjacency [OF cs(2)] by simp
  have dj': "dijkstra adj (rg_gateway_eui r') = (dst, prev)" using R(3) gw by simp
  note cs2 = compute_spec [OF cs(1) run adj' dj']
  have stable: "new_route rhash cfg r' adj dst prev m' = md_route m'"
    if m': "dget (rg_modules r') k = Some m'" and on: "md_online m'" and k: "k \<noteq> rg_gateway_eui r'" for k m'
  proof -
    from computed_route [OF assms(1,4) m' on] k gw obtain m0 where m0:
      "md_eui m0 = k" "m' = m0\<lparr>md_route := new_route rhash cfg r adj dst prev m0\<rparr>" by auto
    have ne: "md_eui m0 \<noteq> rg_gateway_eui r" using m0(1) k gw by simp
    have "choose_primary (cf_reparent_margin cfg) adj dst prev m'
        = choose_primary (cf_reparent_margin cfg) adj dst prev m0"
      using m0 by (intro choose_primary_again [OF assms(1) ne assms(2,3) refl])
        (simp_all add: new_route_def Let_def)
    moreover have "subscriptions n r' m' = subscriptions n r m0" for n
      using m0(2) same_subscriptions [OF cs(2)] by (simp add: subscriptions_route)
    moreover have "choose_secondary adj dst p m' = choose_secondary adj dst p m0" for p
      using m0(2) by (simp add: choose_secondary_def)
    ultimately have "new_route rhash cfg r' adj dst prev m' = new_route rhash cfg r adj dst prev m0"
      by (simp add: new_route_def)
    with m0(2) show ?thesis by simp
  qed
  have get: "dget (rg_modules r2) k = dget (rg_modules r') k" for k
    using cs2(3) [of k] stable [of k] by (cases "dget (rg_modules r') k") auto
  have "rg_modules r' = rg_modules r2"
    using same_keys [OF cs2(2)] cs(1) get by (intro dict_eqI) (auto simp: registry_inv_def)
  moreover have "rg_gateway_eui r' = rg_gateway_eui r2" using cs2(2) by (simp add: same_but_routes_def)
  ultimately have "r2 = r'" using cs2(5) by simp
  have "\<exists>m. dget (rg_modules r') k = Some m \<and> md_online m" if "k \<in> set (map md_eui (online_modules r'))" for k
    using that online_ids(2) [OF cs(1)] by auto
  then have "ch2 = []"
    unfolding cs2(4) filter_empty_conv Let_def using stable by force
  with run \<open>r2 = r'\<close> show ?thesis by simp
qed


lemma compute_idempotent_witness:
  "let r' = snd (compute_routes (\<lambda>_ _ _. 1) router_config0 relay_swarm)
   in compute_routes (\<lambda>_ _ _. 1) router_config0 r' = ([], r')"
proof -
  obtain dst prev ch r' m where h: "routing relay_swarm (adjacency relay_swarm) dst prev"
    "compute_routes (\<lambda>_ _ _. 1) router_config0 relay_swarm = (ch, r')"
    by (rule relay_swarm_route)
  have mg: "0 \<le> cf_reparent_margin router_config0" "cf_reparent_margin router_config0 < 1"
    by (simp_all add: router_config0_def)
  from compute_idempotent [OF h(1) mg h(2)] h(2) show ?thesis by (simp add: Let_def)
qed

definition loop_swarm :: registry where
  "loop_swarm = \<lparr>rg_modules =
     [(''M'', (sample_anchor ''M'' 1 1
         [(''G'', \<lparr>nb_eui = ''G'', nb_rssi = -50, nb_range_cm = 60000, nb_link_quality = 255, nb_last_seen = 0\<rparr>),
          (''C'', \<lparr>nb_eui = ''C'', nb_rssi = -50, nb_range_cm = 0, nb_link_quality = 255, nb_last_seen = 0\<rparr>)])
         \<lparr>md_route := route0\<lparr>ra_primary := ''C''\<rparr>\<rparr>),
      (''C'', (sample_anchor ''C'' 1 2 [])\<lparr>md_route := route0\<lparr>ra_primary := ''G''\<rparr>\<rparr>)],
     rg_gateway_eui = ''G'', rg_newly_seen = []\<rparr>"

lemma loop_swarm_inv: "registry_inv loop_swarm"
  by (auto simp: registry_inv_def loop_swarm_def module_inv_def sample_anchor_def module0_def
      route0_def split: if_splits)

lemma loop_swarm_choices:
  "dijkstra (adjacency loop_swarm) ''G'' = (dst, prev) \<Longrightarrow>
     choose_primary 0.15 (adjacency loop_swarm) dst prev (the (dget (rg_modules loop_swarm) ''M'')) = Some ''C''
   \<and> choose_primary 0.15 (adjacency loop_swarm) dst prev (the (dget (rg_modules loop_swarm) ''C'')) = Some ''M''"
proof -
  assume d: "dijkstra (adjacency loop_swarm) ''G'' = (dst, prev)"
  have dp: "dst = fst (dijkstra (adjacency loop_swarm) ''G'')" "prev = snd (dijkstra (adjacency loop_swarm) ''G'')"
    using d by simp_all
  show ?thesis unfolding dp by code_simp
qed

text \<open>With the default re-parent margin of 15% the pass can close a loop. M hears the gateway G
  directly over a poor link and keeps its old parent C, through which it once reached G more
  cheaply; C has lost its own link to G and now reaches it over M. Each is made the other's
  parent, neither leads to the gateway, and both count as connected.\<close>

theorem router_can_loop:
  "\<exists>r r' ch. registry_inv r \<and> compute_routes rhash router_config0 r = (ch, r')
     \<and> (\<exists>c. walk (adjacency r) (rg_gateway_eui r) c ''M'')
     \<and> (\<exists>m c. dget (rg_modules r') ''M'' = Some m \<and> dget (rg_modules r') ''C'' = Some c
          \<and> ra_primary (md_route m) = ''C'' \<and> ra_primary (md_route c) = ''M'')
     \<and> orphans r' = [] \<and> \<not> leads_home r' ''M''"
proof -
  obtain ch r' where run: "compute_routes rhash router_config0 loop_swarm = (ch, r')"
    by (cases "compute_routes rhash router_config0 loop_swarm")
  obtain dst prev where dj: "dijkstra (adjacency loop_swarm) ''G'' = (dst, prev)"
    by (cases "dijkstra (adjacency loop_swarm) ''G''")
  have g: "rg_gateway_eui loop_swarm = ''G''" by (simp add: loop_swarm_def)
  have R: "routing loop_swarm (adjacency loop_swarm) dst prev"
    using loop_swarm_inv dj by (simp add: routing_def loop_swarm_def)
  note cs = compute_spec [OF loop_swarm_inv run refl, unfolded g, OF dj]
  note ch = loop_swarm_choices [OF dj]
  have mg: "cf_reparent_margin router_config0 = 0.15" by (simp add: router_config0_def)
  obtain m c where mc: "dget (rg_modules loop_swarm) ''M'' = Some m" "dget (rg_modules loop_swarm) ''C'' = Some c"
    and on: "md_online m" "md_online c"
    by (simp add: loop_swarm_def sample_anchor_def module0_def)
  let ?n = "\<lambda>m. m\<lparr>md_route := new_route rhash router_config0 loop_swarm (adjacency loop_swarm) dst prev m\<rparr>"
  have got: "dget (rg_modules r') ''M'' = Some (?n m)" "dget (rg_modules r') ''C'' = Some (?n c)"
    using cs(3) [of "''M''"] cs(3) [of "''C''"] mc on by simp_all
  have par: "ra_primary (md_route (?n m)) = ''C''" "ra_primary (md_route (?n c)) = ''M''"
    using ch mc by (simp_all add: new_route_def Let_def mg or_empty_def)
  have gw: "rg_gateway_eui r' = ''G''" using cs(2) g by (simp add: same_but_routes_def)
  have no: "\<not> leads_home r' e" if "e \<in> {''M'', ''C''}" for e
  proof
    assume "leads_home r' e"
    then show False using that
      by (induction rule: leads_home.induct) (use got par gw in auto)
  qed
  have "dst ''M'' \<noteq> None"
    using choose_primary_spec(1) [OF R, of m "0.15"] ch mc g
      loop_swarm_inv by (auto simp: registry_inv_def)
  then have w: "\<exists>c. walk (adjacency loop_swarm) (rg_gateway_eui loop_swarm) c ''M''"
    using routing_facts(9) [OF R, of "''M''"] by simp
  have "map md_eui (online_modules r') = [''M'', ''C'']"
    using same_ids(1) [OF cs(2)] by (simp add: loop_swarm_def online_modules_def sample_anchor_def module0_def)
  then have "md_eui x \<in> {''M'', ''C''}" if "x \<in> set (online_modules r')" for x
    using that by (metis empty_iff image_eqI insert_iff list.set(1) list.set_map list.simps(15))
  moreover have "dget (rg_modules r') (md_eui x) = Some x" if "x \<in> set (online_modules r')" for x
    using that dvals_dget [of "rg_modules r'" x] cs(1)
    by (auto simp: online_modules_def registry_inv_def)
  ultimately have "x = ?n m \<or> x = ?n c" if "x \<in> set (online_modules r')" for x
    using that got by (metis empty_iff insert_iff option.inject)
  then have "ra_primary (md_route x) \<noteq> []" if "x \<in> set (online_modules r')" for x
    using that par by fastforce
  then have "orphans r' = []" unfolding orphans_def by simp
  with loop_swarm_inv run w got par no show ?thesis by blast
qed


text \<open>After a pass the orphans are exactly the online modules, the gateway aside, to which no
  walk over live links leads from the gateway; the dashboard's tree holds a parent for exactly
  the other ones.\<close>

theorem orphans_unreachable:
  assumes "routing r adj dst prev" and "0 \<le> cf_reparent_margin cfg" and "cf_reparent_margin cfg < 1"
    and "compute_routes rhash cfg r = (ch, r')"
  shows "(e \<in> set (orphans r') \<longleftrightarrow>
           e \<in> set (map md_eui (online_modules r)) \<and> e \<noteq> rg_gateway_eui r
           \<and> \<not> (\<exists>c. walk adj (rg_gateway_eui r) c e))
    \<and> (e \<in> fst ` set (tv_tree (topology r')) \<longleftrightarrow>
           e \<in> set (map md_eui (online_modules r)) \<and> e \<noteq> rg_gateway_eui r \<and> e \<notin> set (orphans r'))"
proof -
  have R: "registry_inv r" "adj = adjacency r" "dijkstra adj (rg_gateway_eui r) = (dst, prev)"
    using assms(1) unfolding routing_def by blast+
  note cs = compute_spec [OF R(1) assms(4) R(2,3)]
  have gw: "rg_gateway_eui r' = rg_gateway_eui r" using cs(2) by (simp add: same_but_routes_def)
  have ids: "map md_eui (online_modules r') = map md_eui (online_modules r)"
    using same_ids(1) [OF cs(2)] by simp
  have at: "dget (rg_modules r') (md_eui x) = Some x \<and> md_online x" if "x \<in> set (online_modules r')" for x
    using that dvals_dget [of "rg_modules r'" x] cs(1)
    by (auto simp: online_modules_def registry_inv_def)
  have par: "ra_primary (md_route x) = [] \<longleftrightarrow> \<not> (\<exists>c. walk adj (rg_gateway_eui r) c (md_eui x))"
    if "x \<in> set (online_modules r')" "md_eui x \<noteq> rg_gateway_eui r" for x
    using route_parent [OF assms(1-4)] at [OF that(1)] that(2) by blast
  have mem: "e \<in> set (map md_eui (online_modules r)) \<longleftrightarrow> (\<exists>x \<in> set (online_modules r'). md_eui x = e)"
    unfolding ids [symmetric] by auto
  have one: "x = y" if "x \<in> set (online_modules r')" "y \<in> set (online_modules r')" "md_eui x = md_eui y" for x y
    using at that by (metis option.inject)
  have orph: "e \<in> set (orphans r') \<longleftrightarrow>
           e \<in> set (map md_eui (online_modules r)) \<and> e \<noteq> rg_gateway_eui r
           \<and> \<not> (\<exists>c. walk adj (rg_gateway_eui r) c e)"
    unfolding orphans_def gw mem using par by auto
  have tree: "e \<in> fst ` set (tv_tree (topology r')) \<longleftrightarrow>
      (\<exists>x \<in> set (online_modules r'). md_eui x = e \<and> e \<noteq> rg_gateway_eui r \<and> ra_primary (md_route x) \<noteq> [])"
    by (auto simp: topology_def Let_def gw image_def)
  have "e \<in> fst ` set (tv_tree (topology r')) \<longleftrightarrow>
           e \<in> set (map md_eui (online_modules r)) \<and> e \<noteq> rg_gateway_eui r \<and> e \<notin> set (orphans r')"
    unfolding tree orph mem using par by auto
  with orph show ?thesis by blast
qed

lemma orphans_unreachable_witness:
  "''A'' \<in> set (orphans (snd (compute_routes (\<lambda>_ _ _. 1) router_config0 sample_swarm)))
     \<longleftrightarrow> \<not> (\<exists>c. walk (adjacency sample_swarm) ''G'' c ''A'')"
proof -
  obtain dst prev where R: "routing sample_swarm (adjacency sample_swarm) dst prev"
    using sample_swarm_routing by blast
  obtain ch r' where run: "compute_routes (\<lambda>_ _ _. 1) router_config0 sample_swarm = (ch, r')"
    by (cases "compute_routes (\<lambda>_ _ _. 1) router_config0 sample_swarm")
  have mg: "0 \<le> cf_reparent_margin router_config0" "cf_reparent_margin router_config0 < 1"
    by (simp_all add: router_config0_def)
  have A: "''A'' \<in> set (map md_eui (online_modules sample_swarm))" "''A'' \<noteq> rg_gateway_eui sample_swarm"
    "rg_gateway_eui sample_swarm = ''G''"
    by (simp_all add: sample_swarm_def online_modules_def sample_anchor_def module0_def)
  show ?thesis
    using orphans_unreachable [OF R mg run, of "''A''"] A run by simp
qed

end
