(* ===== verification/BrainProtocol.thy ===== *)
theory BrainProtocol
  imports Utf8
begin

text \<open>
  The data model of the drone brain, \<open>olympus/brain/olympus_brain/protocol.py\<close>: its string
  enumerations with their values, positions with distance and bearing on the sphere, telemetry,
  detections, tasks, escalations, commands and the Zenoh keys. The ids \<open>uuid4\<close> draws and the
  times the clock gives are arguments of the constructors. The validation the models declare
  (\<open>Field(ge=..., le=...)\<close>) is done by the constructors here, which raise \<open>ValueError\<close> (pydantic's
  \<open>ValidationError\<close> is one). The lemmas show that distances are defined, symmetric and bounded and
  that bearings are in range.
\<close>

section \<open>Enumerations\<close>

datatype drone_role = SCOUT | EXECUTOR

fun drone_role_value :: "drone_role \<Rightarrow> string" where
  "drone_role_value SCOUT = ''scout''"
| "drone_role_value EXECUTOR = ''executor''"

datatype drone_status =
    IDLE | SCANNING | TRANSITING | EXECUTING | RETURNING | CHARGING | DRONE_EMERGENCY | OFFLINE

fun drone_status_value :: "drone_status \<Rightarrow> string" where
  "drone_status_value IDLE = ''idle''"
| "drone_status_value SCANNING = ''scanning''"
| "drone_status_value TRANSITING = ''transiting''"
| "drone_status_value EXECUTING = ''executing''"
| "drone_status_value RETURNING = ''returning''"
| "drone_status_value CHARGING = ''charging''"
| "drone_status_value DRONE_EMERGENCY = ''emergency''"
| "drone_status_value OFFLINE = ''offline''"

datatype detection_type =
    WEED | PEST | DISEASE | NUTRIENT_DEFICIENCY | IRRIGATION_LEAK | CROP_STRESS | OBSTACLE
  | HOSTILE_ACTIVITY | VEHICLE_DETECTED | PERSON_DETECTED | IED_SUSPECTED | STRUCTURAL_CHANGE
  | STRUCTURAL_CRACK | CORROSION | THERMAL_ANOMALY | LEAK_DETECTED | VEGETATION_ENCROACHMENT
  | SURFACE_DEFORMATION | THERMAL_SIGNATURE | DEBRIS_FIELD | VEHICLE_WRECKAGE | SIGNAL_DETECTED

fun detection_type_value :: "detection_type \<Rightarrow> string" where
  "detection_type_value WEED = ''weed''"
| "detection_type_value PEST = ''pest''"
| "detection_type_value DISEASE = ''disease''"
| "detection_type_value NUTRIENT_DEFICIENCY = ''nutrient_deficiency''"
| "detection_type_value IRRIGATION_LEAK = ''irrigation_leak''"
| "detection_type_value CROP_STRESS = ''crop_stress''"
| "detection_type_value OBSTACLE = ''obstacle''"
| "detection_type_value HOSTILE_ACTIVITY = ''hostile_activity''"
| "detection_type_value VEHICLE_DETECTED = ''vehicle_detected''"
| "detection_type_value PERSON_DETECTED = ''person_detected''"
| "detection_type_value IED_SUSPECTED = ''ied_suspected''"
| "detection_type_value STRUCTURAL_CHANGE = ''structural_change''"
| "detection_type_value STRUCTURAL_CRACK = ''structural_crack''"
| "detection_type_value CORROSION = ''corrosion''"
| "detection_type_value THERMAL_ANOMALY = ''thermal_anomaly''"
| "detection_type_value LEAK_DETECTED = ''leak_detected''"
| "detection_type_value VEGETATION_ENCROACHMENT = ''vegetation_encroachment''"
| "detection_type_value SURFACE_DEFORMATION = ''surface_deformation''"
| "detection_type_value THERMAL_SIGNATURE = ''thermal_signature''"
| "detection_type_value DEBRIS_FIELD = ''debris_field''"
| "detection_type_value VEHICLE_WRECKAGE = ''vehicle_wreckage''"
| "detection_type_value SIGNAL_DETECTED = ''signal_detected''"

datatype task_type =
    SPRAY | SEED | FERTILIZE | INSPECT | SAMPLE | INVESTIGATE | MARK | PHOTOGRAPH | RELAY
  | THERMAL_SCAN | MEASURE | DROP_SUPPLIES | MARK_LOCATION | RELAY_COMMS

fun task_type_value :: "task_type \<Rightarrow> string" where
  "task_type_value SPRAY = ''spray''"
| "task_type_value SEED = ''seed''"
| "task_type_value FERTILIZE = ''fertilize''"
| "task_type_value INSPECT = ''inspect''"
| "task_type_value SAMPLE = ''sample''"
| "task_type_value INVESTIGATE = ''investigate''"
| "task_type_value MARK = ''mark''"
| "task_type_value PHOTOGRAPH = ''photograph''"
| "task_type_value RELAY = ''relay''"
| "task_type_value THERMAL_SCAN = ''thermal_scan''"
| "task_type_value MEASURE = ''measure''"
| "task_type_value DROP_SUPPLIES = ''drop_supplies''"
| "task_type_value MARK_LOCATION = ''mark_location''"
| "task_type_value RELAY_COMMS = ''relay_comms''"

datatype task_state =
    TASK_PENDING | AUCTIONED | ASSIGNED | AWAITING_APPROVAL | IN_PROGRESS | COMPLETED | FAILED
  | CANCELLED

fun task_state_value :: "task_state \<Rightarrow> string" where
  "task_state_value TASK_PENDING = ''pending''"
| "task_state_value AUCTIONED = ''auctioned''"
| "task_state_value ASSIGNED = ''assigned''"
| "task_state_value AWAITING_APPROVAL = ''awaiting_approval''"
| "task_state_value IN_PROGRESS = ''in_progress''"
| "task_state_value COMPLETED = ''completed''"
| "task_state_value FAILED = ''failed''"
| "task_state_value CANCELLED = ''cancelled''"

datatype escalation_level = AUTO | NOTIFY | APPROVE_REQUIRED | EMERGENCY

fun escalation_level_value :: "escalation_level \<Rightarrow> string" where
  "escalation_level_value AUTO = ''auto''"
| "escalation_level_value NOTIFY = ''notify''"
| "escalation_level_value APPROVE_REQUIRED = ''approve_required''"
| "escalation_level_value EMERGENCY = ''emergency''"

datatype trust_tier = TRUSTED | PARTNER | OBSERVER

fun trust_tier_value :: "trust_tier \<Rightarrow> string" where
  "trust_tier_value TRUSTED = ''trusted''"
| "trust_tier_value PARTNER = ''partner''"
| "trust_tier_value OBSERVER = ''observer''"

datatype command_authority = BINDING | ADVISORY | NO_AUTHORITY

fun command_authority_value :: "command_authority \<Rightarrow> string" where
  "command_authority_value BINDING = ''binding''"
| "command_authority_value ADVISORY = ''advisory''"
| "command_authority_value NO_AUTHORITY = ''none''"

datatype registration_status = PENDING | APPROVED | REJECTED | REVOKED

fun registration_status_value :: "registration_status \<Rightarrow> string" where
  "registration_status_value PENDING = ''pending''"
| "registration_status_value APPROVED = ''approved''"
| "registration_status_value REJECTED = ''rejected''"
| "registration_status_value REVOKED = ''revoked''"

datatype command_type =
    EMERGENCY_STOP | RETURN_TO_LAUNCH | GO_TO | START_SCAN | PAUSE | RESUME | EXECUTE_TASK
  | SET_ALTITUDE | ACK | RECALL_FOR_UPDATE | REDEPLOY | UPDATE_MODEL | MODEL_ACK

fun command_type_value :: "command_type \<Rightarrow> string" where
  "command_type_value EMERGENCY_STOP = ''emergency_stop''"
| "command_type_value RETURN_TO_LAUNCH = ''return_to_launch''"
| "command_type_value GO_TO = ''go_to''"
| "command_type_value START_SCAN = ''start_scan''"
| "command_type_value PAUSE = ''pause''"
| "command_type_value RESUME = ''resume''"
| "command_type_value EXECUTE_TASK = ''execute_task''"
| "command_type_value SET_ALTITUDE = ''set_altitude''"
| "command_type_value ACK = ''ack''"
| "command_type_value RECALL_FOR_UPDATE = ''recall_for_update''"
| "command_type_value REDEPLOY = ''redeploy''"
| "command_type_value UPDATE_MODEL = ''update_model''"
| "command_type_value MODEL_ACK = ''model_ack''"

record capability_manifest =
  cm_provides_telemetry :: bool
  cm_provides_detections :: bool
  cm_provides_features :: bool
  cm_accepted_commands :: "string list"
  cm_command_authority :: command_authority
  cm_participates_in_cbba :: bool
  cm_ttl_seconds :: int
  cm_data_encryption_required :: bool

definition capability_manifest0 :: capability_manifest where
  "capability_manifest0 =
     \<lparr>cm_provides_telemetry = True, cm_provides_detections = False, cm_provides_features = False,
      cm_accepted_commands = [], cm_command_authority = NO_AUTHORITY,
      cm_participates_in_cbba = False, cm_ttl_seconds = 3600,
      cm_data_encryption_required = False\<rparr>"

section \<open>Positions\<close>

record geo_position =
  gp_latitude :: real
  gp_longitude :: real
  gp_altitude :: real
  gp_heading :: real

definition geo_position0 :: geo_position where
  "geo_position0 = \<lparr>gp_latitude = 0, gp_longitude = 0, gp_altitude = 0, gp_heading = 0\<rparr>"

definition radians :: "real \<Rightarrow> real" where
  "radians d = d * pi / 180"

definition degrees :: "real \<Rightarrow> real" where
  "degrees r = r * 180 / pi"

text \<open>The argument \<open>a\<close> of the arc sine in \<open>distance_to\<close>.\<close>

definition haversine :: "geo_position \<Rightarrow> geo_position \<Rightarrow> real" where
  "haversine p q =
     (let lat1 = radians (gp_latitude p); lat2 = radians (gp_latitude q);
          delta_lat = radians (gp_latitude q - gp_latitude p);
          delta_lon = radians (gp_longitude q - gp_longitude p)
      in (sin (delta_lat / 2))\<^sup>2 + cos lat1 * cos lat2 * (sin (delta_lon / 2))\<^sup>2)"

definition distance_to :: "geo_position \<Rightarrow> geo_position \<Rightarrow> real" where
  "distance_to p q = 6371000 * (2 * arcsin (sqrt (haversine p q)))"

text \<open>\<open>math.atan2(x, y)\<close> is the argument of the point with abscissa \<open>y\<close> and ordinate \<open>x\<close>.\<close>

definition bearing_to :: "geo_position \<Rightarrow> geo_position \<Rightarrow> real" where
  "bearing_to p q =
     (let lat1 = radians (gp_latitude p); lat2 = radians (gp_latitude q);
          delta_lon = radians (gp_longitude q - gp_longitude p);
          x = sin delta_lon * cos lat2;
          y = cos lat1 * sin lat2 - sin lat1 * cos lat2 * cos delta_lon
      in py_fmod (degrees (Arg (Complex y x)) + 360) 360)"

definition to_tuple :: "geo_position \<Rightarrow> real \<times> real" where
  "to_tuple p = (gp_latitude p, gp_longitude p)"

definition from_tuple :: "real \<times> real \<Rightarrow> real \<Rightarrow> geo_position" where
  "from_tuple c alt = geo_position0\<lparr>gp_latitude := fst c, gp_longitude := snd c, gp_altitude := alt\<rparr>"

section \<open>Telemetry, detections, tasks\<close>

record battery_state =
  bs_voltage :: real
  bs_current :: real
  bs_percentage :: int
  bs_remaining_time :: int
  bs_cell_count :: int
  bs_temperature :: real

definition battery_state0 :: battery_state where
  "battery_state0 =
     \<lparr>bs_voltage = 0, bs_current = 0, bs_percentage = 100, bs_remaining_time = 0,
      bs_cell_count = 6, bs_temperature = 25\<rparr>"

record drone_telemetry =
  dt_drone_id :: string
  dt_role :: drone_role
  dt_status :: drone_status
  dt_position :: geo_position
  dt_battery :: battery_state
  dt_timestamp :: real
  dt_mesh_rssi :: int
  dt_wifi_connected :: bool
  dt_current_task_id :: "string option"

definition is_available :: "drone_telemetry \<Rightarrow> bool" where
  "is_available t \<longleftrightarrow>
     dt_status t \<in> {IDLE, SCANNING} \<and> 20 < bs_percentage (dt_battery t) \<and> dt_current_task_id t = None"

record detection =
  de_id :: string
  de_detection_type :: detection_type
  de_position :: geo_position
  de_confidence :: real
  de_severity :: int
  de_detected_by :: pystr
  de_timestamp :: real

definition detection_create ::
  "string \<Rightarrow> real \<Rightarrow> detection_type \<Rightarrow> geo_position \<Rightarrow> real \<Rightarrow> pystr \<Rightarrow> int \<Rightarrow> detection result" where
  "detection_create uid now ty pos confidence by' severity =
     (if 0 \<le> confidence \<and> confidence \<le> 1 \<and> 1 \<le> severity \<and> severity \<le> 10
      then Inr \<lparr>de_id = uid, de_detection_type = ty, de_position = pos, de_confidence = confidence,
                de_severity = severity, de_detected_by = by', de_timestamp = now\<rparr>
      else Inl ValueError)"

record task =
  tk_id :: string
  tk_task_type :: task_type
  tk_target_position :: geo_position
  tk_priority :: int
  tk_state :: task_state
  tk_created_by :: pystr
  tk_assigned_to :: "string option"
  tk_detection_id :: string
  tk_created_at :: real
  tk_deadline :: "real option"
  tk_payload_required :: "string option"
  tk_escalation_level :: escalation_level

definition task_from_detection :: "string \<Rightarrow> real \<Rightarrow> detection \<Rightarrow> task_type \<Rightarrow> task result" where
  "task_from_detection uid now d ty =
     (if 1 \<le> de_severity d \<and> de_severity d \<le> 10
      then Inr \<lparr>tk_id = uid, tk_task_type = ty, tk_target_position = de_position d,
                tk_priority = de_severity d, tk_state = TASK_PENDING, tk_created_by = de_detected_by d,
                tk_assigned_to = None, tk_detection_id = de_id d, tk_created_at = now,
                tk_deadline = None, tk_payload_required = None, tk_escalation_level = AUTO\<rparr>
      else Inl ValueError)"

record escalation_request =
  er_id :: string
  er_task_id :: string
  er_drone_id :: string
  er_escalation_level :: escalation_level
  er_reason :: string
  er_recommended_action :: string
  er_timeout_action :: string
  er_timeout_seconds :: int
  er_created_at :: real
  er_resolved :: bool
  er_resolution :: "string option"

record escalation_response =
  ep_escalation_id :: string
  ep_approved :: bool
  ep_modified_action :: "string option"
  ep_responded_by :: string
  ep_responded_at :: real

record task_bid =
  tb_task_id :: string
  tb_bidder_id :: string
  tb_cost :: real
  tb_eta_seconds :: int
  tb_battery_after :: int
  tb_timestamp :: real

record 'p drone_command =
  dc_type :: command_type
  dc_payload :: "'p option"

record 'p command_message =
  cg_id :: string
  cg_target_drone :: string
  cg_command :: "'p drone_command"
  cg_issued_by :: string
  cg_issued_at :: real
  cg_priority :: int

definition emergency_stop_all :: "string \<Rightarrow> real \<Rightarrow> string \<Rightarrow> 'p command_message" where
  "emergency_stop_all uid now issued_by =
     \<lparr>cg_id = uid, cg_target_drone = ''*'', cg_command = \<lparr>dc_type = EMERGENCY_STOP, dc_payload = None\<rparr>,
      cg_issued_by = issued_by, cg_issued_at = now, cg_priority = 10\<rparr>"

section \<open>Keys of the shared store\<close>

definition zenoh_prefix :: string where
  "zenoh_prefix = ''olympus''"

definition zk_telemetry :: "string \<Rightarrow> string" where
  "zk_telemetry d = zenoh_prefix @ ''/swarm/'' @ d @ ''/telemetry''"

definition zk_heartbeat :: "string \<Rightarrow> string" where
  "zk_heartbeat d = zenoh_prefix @ ''/swarm/'' @ d @ ''/heartbeat''"

definition zk_detection :: "string \<Rightarrow> string" where
  "zk_detection d = zenoh_prefix @ ''/detection/'' @ d"

definition zk_task_auction :: string where
  "zk_task_auction = zenoh_prefix @ ''/task/auction''"

definition zk_task_bid :: "string \<Rightarrow> string" where
  "zk_task_bid t = zenoh_prefix @ ''/task/'' @ t @ ''/bid''"

definition zk_task_award :: "string \<Rightarrow> string" where
  "zk_task_award t = zenoh_prefix @ ''/task/'' @ t @ ''/award''"

definition zk_command :: "string \<Rightarrow> string" where
  "zk_command d = zenoh_prefix @ ''/command/'' @ d"

definition zk_features :: "string \<Rightarrow> string" where
  "zk_features d = zenoh_prefix @ ''/swarm/'' @ d @ ''/features''"

definition zk_cbba_bundle :: "string \<Rightarrow> string" where
  "zk_cbba_bundle e = zenoh_prefix @ ''/cbba/'' @ e @ ''/bundle''"

definition zk_escalation :: "string \<Rightarrow> string" where
  "zk_escalation d = zenoh_prefix @ ''/escalation/'' @ d"

definition zk_escalation_response :: string where
  "zk_escalation_response = zenoh_prefix @ ''/escalation/response''"

definition zk_telemetry_wildcard :: string where
  "zk_telemetry_wildcard = zenoh_prefix @ ''/swarm/*/telemetry''"

definition zk_detection_all :: string where
  "zk_detection_all = zenoh_prefix @ ''/detection/**''"

definition zk_command_broadcast :: string where
  "zk_command_broadcast = zenoh_prefix @ ''/command/*''"

definition zk_zone_assignment :: "string \<Rightarrow> string" where
  "zk_zone_assignment d = zenoh_prefix @ ''/zone/'' @ d"

definition zk_features_wildcard :: string where
  "zk_features_wildcard = zenoh_prefix @ ''/swarm/*/features''"

definition zk_model_metadata :: "string \<Rightarrow> string" where
  "zk_model_metadata d = zenoh_prefix @ ''/swarm/'' @ d @ ''/model/metadata''"

definition zk_model_metadata_wildcard :: string where
  "zk_model_metadata_wildcard = zenoh_prefix @ ''/swarm/*/model/metadata''"

definition zk_swarmnet_global_model :: string where
  "zk_swarmnet_global_model = zenoh_prefix @ ''/swarmnet/model/global''"

definition zk_swarmnet_status :: string where
  "zk_swarmnet_status = zenoh_prefix @ ''/swarmnet/status''"

definition zk_elrs_rx :: "string \<Rightarrow> string" where
  "zk_elrs_rx d = zenoh_prefix @ ''/elrs/'' @ d @ ''/rx''"

definition zk_elrs_link :: "string \<Rightarrow> string" where
  "zk_elrs_link d = zenoh_prefix @ ''/swarm/'' @ d @ ''/elrs/link''"

definition zk_elrs_link_wildcard :: string where
  "zk_elrs_link_wildcard = zenoh_prefix @ ''/swarm/*/elrs/link''"

definition zk_escalation_wildcard :: string where
  "zk_escalation_wildcard = zenoh_prefix @ ''/escalation/*''"

definition zk_comms_status :: "string \<Rightarrow> string" where
  "zk_comms_status d = zenoh_prefix @ ''/swarm/'' @ d @ ''/comms''"

definition zk_registry :: "string \<Rightarrow> string" where
  "zk_registry v = zenoh_prefix @ ''/registry/'' @ v"

definition zk_registry_wildcard :: string where
  "zk_registry_wildcard = zenoh_prefix @ ''/registry/*''"

record model_metadata =
  mm_drone_id :: string
  mm_model_version :: int
  mm_accuracy :: real
  mm_label_distribution :: "(string, int) dict"
  mm_timestamp :: real

record swarm_net_status =
  sns_active_drones :: int
  sns_model_versions :: "(string, int) dict"
  sns_accuracies :: "(string, real) dict"
  sns_contributions :: "(pystr, int) dict"
  sns_timestamp :: real

section \<open>Distances and bearings\<close>

lemma haversine_dot:
  "haversine p q =
     (1 - (sin (radians (gp_latitude p)) * sin (radians (gp_latitude q))
           + cos (radians (gp_latitude p)) * cos (radians (gp_latitude q))
             * cos (radians (gp_longitude q - gp_longitude p)))) / 2"
proof -
  have half: "(sin (x / 2))\<^sup>2 = (1 - cos x) / 2" for x :: real
    using cos_double_sin [of "x / 2"] by simp
  have "radians (gp_latitude q - gp_latitude p) = radians (gp_latitude q) - radians (gp_latitude p)"
    by (simp add: radians_def algebra_simps diff_divide_distrib)
  then have lat: "cos (radians (gp_latitude q - gp_latitude p)) =
      cos (radians (gp_latitude p)) * cos (radians (gp_latitude q))
      + sin (radians (gp_latitude p)) * sin (radians (gp_latitude q))"
    by (simp only: cos_diff) simp
  show ?thesis
    by (simp add: haversine_def Let_def half lat field_simps)
qed

lemma scaled_abs: "\<lbrakk>0 \<le> k; \<bar>x\<bar> \<le> 1\<rbrakk> \<Longrightarrow> \<bar>k * x\<bar> \<le> (k :: real)"
  by (simp add: abs_mult mult_left_le)

lemma haversine_bounds: "0 \<le> haversine p q \<and> haversine p q \<le> 1"
proof -
  let ?a = "radians (gp_latitude p)" and ?b = "radians (gp_latitude q)"
  let ?t = "cos (radians (gp_longitude q - gp_longitude p))"
  define s c where "s = sin ?a * sin ?b" and "c = cos ?a * cos ?b"
  have plus: "\<bar>s + c\<bar> \<le> 1" and minus: "\<bar>s - c\<bar> \<le> 1"
    using cos_diff [of ?a ?b] cos_add [of ?a ?b] abs_cos_le_one [of "?a - ?b"] abs_cos_le_one [of "?a + ?b"]
    by (simp_all add: s_def c_def abs_le_iff)
  have k: "0 \<le> (1 + ?t) / 2" "0 \<le> (1 - ?t) / 2"
    using cos_ge_minus_one [of "radians (gp_longitude q - gp_longitude p)"]
      cos_le_one [of "radians (gp_longitude q - gp_longitude p)"] by (simp_all only: field_simps)
  have "s + c * ?t = (1 + ?t) / 2 * (s + c) + (1 - ?t) / 2 * (s - c)" by (simp add: field_simps)
  moreover have "\<bar>(1 + ?t) / 2 * (s + c)\<bar> \<le> (1 + ?t) / 2" "\<bar>(1 - ?t) / 2 * (s - c)\<bar> \<le> (1 - ?t) / 2"
    using scaled_abs [OF k(1) plus] scaled_abs [OF k(2) minus] by blast+
  ultimately have "\<bar>s + c * ?t\<bar> \<le> (1 + ?t) / 2 + (1 - ?t) / 2" by linarith
  then have "\<bar>s + c * ?t\<bar> \<le> 1" by (simp add: field_simps)
  then show ?thesis
    unfolding haversine_dot s_def c_def abs_le_iff by (simp add: algebra_simps)
qed

lemma haversine_sym: "haversine p q = haversine q p"
proof -
  have "radians (gp_longitude q - gp_longitude p) = - radians (gp_longitude p - gp_longitude q)"
    by (simp add: radians_def field_simps)
  then show ?thesis unfolding haversine_dot by (simp add: mult.commute)
qed

text \<open>The distance between any two positions is defined (the argument of the arc sine is in its
  domain whatever the coordinates), does not depend on the direction, is zero from a position to
  itself, and never exceeds half the circumference of the Earth; a bearing is in [0, 360).\<close>

theorem distance_bounds:
  "0 \<le> sqrt (haversine p q) \<and> sqrt (haversine p q) \<le> 1
   \<and> 0 \<le> distance_to p q \<and> distance_to p q \<le> 6371000 * pi
   \<and> distance_to p q = distance_to q p \<and> distance_to p p = 0
   \<and> 0 \<le> bearing_to p q \<and> bearing_to p q < 360"
proof -
  have s: "0 \<le> sqrt (haversine p q)" "sqrt (haversine p q) \<le> 1"
    using haversine_bounds [of p q] by simp_all
  then have "-1 \<le> sqrt (haversine p q)" by linarith
  with s have "0 \<le> arcsin (sqrt (haversine p q))" "arcsin (sqrt (haversine p q)) \<le> pi / 2"
    using arcsin_le_mono [of 0 "sqrt (haversine p q)"] arcsin_bounded [of "sqrt (haversine p q)"]
    by (simp, blast)
  moreover have "haversine p p = 0" by (simp add: haversine_def Let_def radians_def)
  moreover have "0 \<le> bearing_to p q \<and> bearing_to p q < 360"
    by (simp add: bearing_to_def Let_def py_fmod_bounds)
  ultimately show ?thesis
    using s haversine_sym [of p q] by (simp add: distance_to_def)
qed

end
