(* ===== verification/Escalation.thy ===== *)
theory Escalation
  imports BrainProtocol
begin

text \<open>
  The escalation engine, \<open>olympus/brain/olympus_brain/escalation.py\<close>: the thresholds and their
  presets per vertical, the score of a task as the worst of its risk factors, and the request for
  human review. The levels are ordered as \<open>level_order\<close> orders them, which makes them an instance
  of \<open>linorder\<close>; the score is then the maximum of the factors' levels.
\<close>

section \<open>The order of the levels\<close>

fun level_order :: "escalation_level \<Rightarrow> nat" where
  "level_order AUTO = 0"
| "level_order NOTIFY = 1"
| "level_order APPROVE_REQUIRED = 2"
| "level_order EMERGENCY = 3"

lemma level_order_inj: "level_order a = level_order b \<longleftrightarrow> a = b"
  by (cases a; cases b) simp_all

instantiation escalation_level :: linorder
begin

definition less_eq_escalation_level :: "escalation_level \<Rightarrow> escalation_level \<Rightarrow> bool" where
  "less_eq_escalation_level a b \<longleftrightarrow> level_order a \<le> level_order b"

definition less_escalation_level :: "escalation_level \<Rightarrow> escalation_level \<Rightarrow> bool" where
  "less_escalation_level a b \<longleftrightarrow> level_order a < level_order b"

instance
  by standard (auto simp: less_eq_escalation_level_def less_escalation_level_def level_order_inj)

end

lemma level_order_le: "level_order a \<le> level_order b \<longleftrightarrow> a \<le> b"
  by (simp add: less_eq_escalation_level_def)

lemma level_bounds [simp]: "AUTO \<le> l" "l \<le> EMERGENCY"
  by (cases l; simp add: less_eq_escalation_level_def)+

section \<open>Thresholds\<close>

record escalation_thresholds =
  th_min_confidence_auto :: real
  th_min_confidence_notify :: real
  th_high_priority_threshold :: int
  th_max_swarm_commitment :: real
  th_geofence_proximity_m :: real
  th_always_approve :: "string list"
  th_always_auto :: "string list"
  th_approval_timeout_s :: int
  th_timeout_action :: string

definition escalation_thresholds0 :: escalation_thresholds where
  "escalation_thresholds0 =
     \<lparr>th_min_confidence_auto = 0.7, th_min_confidence_notify = 0.5,
      th_high_priority_threshold = 8, th_max_swarm_commitment = 0.5,
      th_geofence_proximity_m = 100, th_always_approve = [''drop_supplies''],
      th_always_auto = [''photograph'', ''inspect'', ''relay''],
      th_approval_timeout_s = 30, th_timeout_action = ''proceed''\<rparr>"

definition vertical_thresholds :: "(string, escalation_thresholds) dict" where
  "vertical_thresholds =
     [(''CERES'', escalation_thresholds0
         \<lparr>th_min_confidence_auto := 0.6, th_max_swarm_commitment := 0.7,
          th_timeout_action := ''proceed''\<rparr>),
      (''ATHENA'', escalation_thresholds0
         \<lparr>th_min_confidence_auto := 0.85, th_high_priority_threshold := 6,
          th_max_swarm_commitment := 0.3,
          th_always_approve := [''drop_supplies'', ''mark_location'', ''investigate''],
          th_timeout_action := ''abort'', th_approval_timeout_s := 60\<rparr>),
      (''VULCAN'', escalation_thresholds0
         \<lparr>th_min_confidence_auto := 0.7, th_timeout_action := ''proceed''\<rparr>),
      (''HERMES'', escalation_thresholds0
         \<lparr>th_min_confidence_auto := 0.5, th_max_swarm_commitment := 0.8,
          th_timeout_action := ''proceed'', th_approval_timeout_s := 15\<rparr>)]"

record swarm_context =
  cx_total_drones :: int
  cx_committed_drones :: int
  cx_geofence_boundaries :: "geo_position list"
  cx_recent_detection_types :: "string list"

definition swarm_context0 :: swarm_context where
  "swarm_context0 =
     \<lparr>cx_total_drones = 1, cx_committed_drones = 0, cx_geofence_boundaries = [],
      cx_recent_detection_types = []\<rparr>"

section \<open>The engine\<close>

record escalation_engine =
  ee_vertical :: string
  ee_thresholds :: escalation_thresholds
  ee_seen_detection_types :: "string list"

definition engine_init :: "string \<Rightarrow> escalation_thresholds option \<Rightarrow> escalation_engine" where
  "engine_init vertical thresholds =
     \<lparr>ee_vertical = vertical,
      ee_thresholds = (case thresholds of Some t \<Rightarrow> t
        | None \<Rightarrow> (case dget vertical_thresholds vertical of Some t \<Rightarrow> t
                   | None \<Rightarrow> escalation_thresholds0)),
      ee_seen_detection_types = []\<rparr>"

type_synonym factor = "string \<times> escalation_level"

definition confidence_factors :: "escalation_thresholds \<Rightarrow> detection \<Rightarrow> factor list" where
  "confidence_factors th d =
     (if de_confidence d < th_min_confidence_notify th then [(''low_confidence'', APPROVE_REQUIRED)]
      else if de_confidence d < th_min_confidence_auto th then [(''moderate_confidence'', NOTIFY)]
      else [])"

definition novelty_factors :: "string list \<Rightarrow> detection \<Rightarrow> factor list" where
  "novelty_factors seen d =
     (if detection_type_value (de_detection_type d) \<notin> set seen then [(''novel_detection'', NOTIFY)]
      else [])"

definition priority_factors :: "escalation_thresholds \<Rightarrow> int \<Rightarrow> factor list" where
  "priority_factors th p =
     (if th_high_priority_threshold th \<le> p then [(''high_priority'', NOTIFY)] else [])
     @ (if 10 \<le> p then [(''critical_priority'', EMERGENCY)] else [])"

definition commitment_factors :: "escalation_thresholds \<Rightarrow> swarm_context \<Rightarrow> factor list" where
  "commitment_factors th cx =
     (if 0 < cx_total_drones cx
         \<and> th_max_swarm_commitment th \<le> of_int (cx_committed_drones cx) / of_int (cx_total_drones cx)
      then [(''high_commitment'', APPROVE_REQUIRED)] else [])"

definition geofence_factors :: "escalation_thresholds \<Rightarrow> swarm_context \<Rightarrow> geo_position \<Rightarrow> factor list" where
  "geofence_factors th cx pos =
     (case map (distance_to pos) (cx_geofence_boundaries cx) of
        [] \<Rightarrow> []
      | d # ds \<Rightarrow> if fold min ds d < th_geofence_proximity_m th
                  then [(''near_geofence'', APPROVE_REQUIRED)] else [])"

text \<open>\<open>max(factors, key=...)\<close>: the first factor of the highest level.\<close>

fun max_factor :: "factor \<Rightarrow> factor list \<Rightarrow> factor" where
  "max_factor best [] = best"
| "max_factor best (f # fs) =
     max_factor (if level_order (snd best) < level_order (snd f) then f else best) fs"

definition risk_factors ::
  "escalation_thresholds \<Rightarrow> string list \<Rightarrow> task \<Rightarrow> detection option \<Rightarrow> swarm_context \<Rightarrow> factor list" where
  "risk_factors th seen t det cx =
     (case det of None \<Rightarrow> [] | Some d \<Rightarrow> confidence_factors th d @ novelty_factors seen d)
     @ priority_factors th (tk_priority t) @ commitment_factors th cx
     @ geofence_factors th cx (tk_target_position t)"

definition score ::
  "task \<Rightarrow> detection option \<Rightarrow> swarm_context option \<Rightarrow> escalation_engine
     \<Rightarrow> escalation_level \<times> escalation_engine" where
  "score t det context e =
     (let cx = (case context of None \<Rightarrow> swarm_context0 | Some c \<Rightarrow> c);
          th = ee_thresholds e; ty = task_type_value (tk_task_type t)
      in if ty \<in> set (th_always_approve th) then (APPROVE_REQUIRED, e)
         else if ty \<in> set (th_always_auto th) then (AUTO, e)
         else let factors = risk_factors th (ee_seen_detection_types e) t det cx;
                  e' = (case det of None \<Rightarrow> e
                        | Some d \<Rightarrow> e\<lparr>ee_seen_detection_types :=
                            List.insert (detection_type_value (de_detection_type d))
                              (ee_seen_detection_types e)\<rparr>)
              in (case factors of [] \<Rightarrow> AUTO | f # fs \<Rightarrow> snd (max_factor f fs), e'))"

definition create_request ::
  "escalation_engine \<Rightarrow> string \<Rightarrow> real \<Rightarrow> task \<Rightarrow> string \<Rightarrow> escalation_level \<Rightarrow> string
     \<Rightarrow> escalation_request" where
  "create_request e uid now t drone_id level reason =
     \<lparr>er_id = uid, er_task_id = tk_id t, er_drone_id = drone_id, er_escalation_level = level,
      er_reason = reason, er_recommended_action = ''proceed'',
      er_timeout_action = th_timeout_action (ee_thresholds e),
      er_timeout_seconds = th_approval_timeout_s (ee_thresholds e), er_created_at = now,
      er_resolved = False, er_resolution = None\<rparr>"

section \<open>The score is the maximum of the factors\<close>

lemma max_factor_max: "snd (max_factor b fs) = Max (insert (snd b) (snd ` set fs))"
proof (induction fs arbitrary: b)
  case (Cons f fs)
  have "snd (max_factor b (f # fs)) = Max (insert (max (snd b) (snd f)) (snd ` set fs))"
    using Cons [of f] Cons [of b] by (auto simp: max_def less_escalation_level_def less_eq_escalation_level_def
        level_order_inj)
  also have "\<dots> = Max (insert (snd b) (insert (snd f) (snd ` set fs)))"
    by (cases "snd ` set fs = {}") (simp_all add: max.assoc)
  finally show ?case by simp
qed simp

lemma fold_min_set: "fold min ds d < (x :: real) \<longleftrightarrow> (\<exists>y \<in> set (d # ds). y < x)"
  by (induction ds arbitrary: d) auto

lemma geofence_mem:
  "f \<in> set (geofence_factors th cx pos) \<longleftrightarrow>
     f = (''near_geofence'', APPROVE_REQUIRED)
     \<and> (\<exists>b \<in> set (cx_geofence_boundaries cx). distance_to pos b < th_geofence_proximity_m th)"
  by (cases "cx_geofence_boundaries cx") (auto simp: geofence_factors_def fold_min_set simp del: fold_simps)

lemma score_max:
  "fst (score t det context e) =
     (if task_type_value (tk_task_type t) \<in> set (th_always_approve (ee_thresholds e)) then APPROVE_REQUIRED
      else if task_type_value (tk_task_type t) \<in> set (th_always_auto (ee_thresholds e)) then AUTO
      else Max (insert AUTO (snd ` set (risk_factors (ee_thresholds e) (ee_seen_detection_types e) t det
             (case context of None \<Rightarrow> swarm_context0 | Some c \<Rightarrow> c)))))"
  by (auto simp: score_def Let_def max_factor_max split: list.split)

lemma max_level_ge: "finite S \<Longrightarrow> l \<le> Max (insert AUTO S) \<longleftrightarrow> l = AUTO \<or> (\<exists>x \<in> S. l \<le> x)"
  by (subst Max_ge_iff) (auto dest: antisym [OF _ level_bounds(1)])

text \<open>The conditions under which a task needs a human's approval, and an alert, as the policy reads.\<close>

definition needs_approval :: "escalation_thresholds \<Rightarrow> task \<Rightarrow> detection option \<Rightarrow> swarm_context \<Rightarrow> bool" where
  "needs_approval th t det cx \<longleftrightarrow>
     (\<exists>d. det = Some d \<and> de_confidence d < th_min_confidence_notify th)
     \<or> 0 < cx_total_drones cx
        \<and> th_max_swarm_commitment th \<le> of_int (cx_committed_drones cx) / of_int (cx_total_drones cx)
     \<or> (\<exists>b \<in> set (cx_geofence_boundaries cx).
          distance_to (tk_target_position t) b < th_geofence_proximity_m th)"

lemmas factor_defs = confidence_factors_def novelty_factors_def priority_factors_def
  commitment_factors_def

lemma level_le_iff [simp]:
  "EMERGENCY \<le> l \<longleftrightarrow> l = EMERGENCY" "l \<le> AUTO \<longleftrightarrow> l = AUTO"
  "APPROVE_REQUIRED \<le> l \<longleftrightarrow> l = APPROVE_REQUIRED \<or> l = EMERGENCY"
  "NOTIFY \<le> l \<longleftrightarrow> l \<noteq> AUTO"
  by (cases l; simp add: less_eq_escalation_level_def)+

definition reaches :: "escalation_level \<Rightarrow> factor list \<Rightarrow> bool" where
  "reaches l fs \<longleftrightarrow> (\<exists>f \<in> set fs. l \<le> snd f)"

lemma reaches_append [simp]: "reaches l (fs @ gs) \<longleftrightarrow> reaches l fs \<or> reaches l gs"
  by (auto simp: reaches_def)

lemma reaches_emergency:
  "\<not> reaches EMERGENCY (confidence_factors th d)" "\<not> reaches EMERGENCY (novelty_factors seen d)"
  "reaches EMERGENCY (priority_factors th p) \<longleftrightarrow> 10 \<le> p"
  "\<not> reaches EMERGENCY (commitment_factors th cx)" "\<not> reaches EMERGENCY (geofence_factors th cx pos)"
  by (simp_all add: reaches_def factor_defs geofence_mem Bex_def)

lemma reaches_approval:
  "reaches APPROVE_REQUIRED (confidence_factors th d) \<longleftrightarrow> de_confidence d < th_min_confidence_notify th"
  "\<not> reaches APPROVE_REQUIRED (novelty_factors seen d)"
  "reaches APPROVE_REQUIRED (priority_factors th p) \<longleftrightarrow> 10 \<le> p"
  "reaches APPROVE_REQUIRED (commitment_factors th cx) \<longleftrightarrow> 0 < cx_total_drones cx
     \<and> th_max_swarm_commitment th \<le> of_int (cx_committed_drones cx) / of_int (cx_total_drones cx)"
  "reaches APPROVE_REQUIRED (geofence_factors th cx pos) \<longleftrightarrow>
     (\<exists>b \<in> set (cx_geofence_boundaries cx). distance_to pos b < th_geofence_proximity_m th)"
  by (auto simp add: reaches_def factor_defs geofence_mem Bex_def)

lemma risk_levels:
  "reaches EMERGENCY (risk_factors th seen t det cx) \<longleftrightarrow> 10 \<le> tk_priority t"
  "reaches APPROVE_REQUIRED (risk_factors th seen t det cx) \<longleftrightarrow>
     10 \<le> tk_priority t \<or> needs_approval th t det cx"
  unfolding risk_factors_def needs_approval_def reaches_append reaches_emergency reaches_approval
  by (cases det; simp add: reaches_emergency reaches_approval reaches_def [of _ "[]"]; blast)+

lemma max_reaches: "l \<noteq> AUTO \<Longrightarrow> l \<le> Max (insert AUTO (snd ` set fs)) \<longleftrightarrow> reaches l fs"
  by (subst max_level_ge) (auto simp: reaches_def)

text \<open>For a task type that is neither always approved nor always automatic the score is an
  emergency exactly for priority 10, and asks for approval or more exactly when in addition the
  confidence is low, the swarm is committed beyond its share or the target is near a boundary. A
  type listed as always to be approved is never automatic, whatever its risk.\<close>

theorem score_levels:
  assumes "score t det context e = (level, e')"
    and "cx = (case context of None \<Rightarrow> swarm_context0 | Some c \<Rightarrow> c)" and "th = ee_thresholds e"
  shows "(task_type_value (tk_task_type t) \<in> set (th_always_approve th) \<longrightarrow> level = APPROVE_REQUIRED)
    \<and> (task_type_value (tk_task_type t) \<notin> set (th_always_approve th) \<union> set (th_always_auto th) \<longrightarrow>
        (level = EMERGENCY \<longleftrightarrow> 10 \<le> tk_priority t)
        \<and> (APPROVE_REQUIRED \<le> level \<longleftrightarrow> 10 \<le> tk_priority t \<or> needs_approval th t det cx))"
proof -
  let ?fs = "risk_factors th (ee_seen_detection_types e) t det cx"
  have level: "level = fst (score t det context e)" using assms(1) by simp
  have "EMERGENCY \<le> Max (insert AUTO (snd ` set ?fs)) \<longleftrightarrow> 10 \<le> tk_priority t"
    "APPROVE_REQUIRED \<le> Max (insert AUTO (snd ` set ?fs))
       \<longleftrightarrow> 10 \<le> tk_priority t \<or> needs_approval th t det cx"
    by (simp_all only: max_reaches risk_levels escalation_level.distinct not_False_eq_True)
  then show ?thesis
    unfolding level score_max assms(2,3) [symmetric] by auto
qed

definition sample_task :: task where
  "sample_task =
     \<lparr>tk_id = ''t1'', tk_task_type = SPRAY, tk_target_position = geo_position0, tk_priority = 10,
      tk_state = TASK_PENDING, tk_created_by = [100, 49], tk_assigned_to = None, tk_detection_id = ''x'',
      tk_created_at = 0, tk_deadline = None, tk_payload_required = None, tk_escalation_level = AUTO\<rparr>"

lemma score_levels_witness:
  "fst (score sample_task None None (engine_init ''CERES'' None)) = EMERGENCY"
  using score_levels [of sample_task None None "engine_init ''CERES'' None", OF prod.collapse [symmetric] refl refl]
  by (simp add: sample_task_def engine_init_def vertical_thresholds_def escalation_thresholds0_def)

end
