(* ===== verification/Consensus.thy ===== *)
theory Consensus
  imports BrainProtocol
begin

text \<open>
  The leader election for partitions without base station,
  \<open>olympus/brain/olympus_brain/swarm_consensus.py\<close>. A method of \<open>SwarmConsensus\<close> is a function
  on the record of its object; the reading of the clock and the draw of \<open>random.uniform\<close> are
  arguments. The second half puts the nodes of a swarm together: messages may be lost, repeated,
  delayed and reordered, and only a vote response has to be one that was really given. The lemmas
  show the rules of engagement kept by every run, and that no term has two winners.
\<close>

section \<open>A node\<close>

datatype raft_role = FOLLOWER | CANDIDATE | LEADER

record raft_state =
  rs_role :: raft_role
  rs_term :: int
  rs_voted_for :: "string option"
  rs_leader_id :: "string option"
  rs_last_heartbeat :: real
  rs_votes_received :: "string set"

record autonomous_decision =
  ad_escalation_id :: string
  ad_task_id :: string
  ad_decision :: string
  ad_decided_by :: string
  ad_term :: int
  ad_timestamp :: real
  ad_reason :: string

record rules_of_engagement =
  ro_max_tasks_autonomous :: int
  ro_allowed_task_types :: "string list"
  ro_max_resource_commitment :: real
  ro_require_rtl_on_timeout :: bool
  ro_autonomous_timeout_s :: int

definition roe0 :: rules_of_engagement where
  "roe0 =
     \<lparr>ro_max_tasks_autonomous = 10,
      ro_allowed_task_types = [''inspect'', ''photograph'', ''relay'', ''relay_comms'', ''thermal_scan''],
      ro_max_resource_commitment = 0.5, ro_require_rtl_on_timeout = True,
      ro_autonomous_timeout_s = 600\<rparr>"

record consensus =
  sc_drone_id :: string
  sc_known_peers :: "string list"
  sc_roe :: rules_of_engagement
  sc_comms_timeout_s :: real
  sc_state :: raft_state
  sc_decisions :: "autonomous_decision list"
  sc_tasks_approved :: int
  sc_autonomous_start :: "real option"
  sc_base_last_seen :: real
  sc_base_connected :: bool
  sc_running :: bool

definition consensus_init ::
  "string \<Rightarrow> string list \<Rightarrow> rules_of_engagement option \<Rightarrow> real \<Rightarrow> real \<Rightarrow> consensus" where
  "consensus_init drone_id known_peers roe comms_timeout now =
     \<lparr>sc_drone_id = drone_id, sc_known_peers = known_peers,
      sc_roe = (case roe of None \<Rightarrow> roe0 | Some r \<Rightarrow> r), sc_comms_timeout_s = comms_timeout,
      sc_state = \<lparr>rs_role = FOLLOWER, rs_term = 0, rs_voted_for = None, rs_leader_id = None,
                  rs_last_heartbeat = now, rs_votes_received = {}\<rparr>,
      sc_decisions = [], sc_tasks_approved = 0, sc_autonomous_start = None,
      sc_base_last_seen = now, sc_base_connected = True, sc_running = False\<rparr>"

definition is_leader :: "consensus \<Rightarrow> bool" where
  "is_leader s \<longleftrightarrow> rs_role (sc_state s) = LEADER"

definition on_base_heartbeat :: "real \<Rightarrow> consensus \<Rightarrow> consensus" where
  "on_base_heartbeat now s =
     (let s1 = s\<lparr>sc_base_last_seen := now\<rparr>
      in if \<not> sc_base_connected s
         then s1\<lparr>sc_base_connected := True,
                sc_state := (sc_state s)\<lparr>rs_role := FOLLOWER, rs_leader_id := None\<rparr>,
                sc_autonomous_start := None\<rparr>
         else s1)"

definition start_election :: "real \<Rightarrow> consensus \<Rightarrow> consensus" where
  "start_election now s =
     s\<lparr>sc_state := (sc_state s)
         \<lparr>rs_term := rs_term (sc_state s) + 1, rs_role := CANDIDATE,
          rs_voted_for := Some (sc_drone_id s), rs_votes_received := {sc_drone_id s},
          rs_last_heartbeat := now\<rparr>\<rparr>"

definition votes_needed :: "consensus \<Rightarrow> int" where
  "votes_needed s = (int (length (sc_known_peers s)) + 1) div 2 + 1"

definition has_majority :: "consensus \<Rightarrow> bool" where
  "has_majority s \<longleftrightarrow> votes_needed s \<le> int (card (rs_votes_received (sc_state s)))"

definition consensus_tick :: "real \<Rightarrow> real \<Rightarrow> consensus \<Rightarrow> consensus" where
  "consensus_tick now timeout s =
     (case rs_role (sc_state s) of
        FOLLOWER \<Rightarrow>
          if timeout < now - rs_last_heartbeat (sc_state s) then start_election now s else s
      | CANDIDATE \<Rightarrow>
          let s1 = (if has_majority s
                    then s\<lparr>sc_state := (sc_state s)
                             \<lparr>rs_role := LEADER, rs_leader_id := Some (sc_drone_id s)\<rparr>\<rparr>
                    else s)
          in if timeout * 2 < now - rs_last_heartbeat (sc_state s1)
             then s1\<lparr>sc_state := (sc_state s1)\<lparr>rs_role := FOLLOWER\<rparr>\<rparr> else s1
      | LEADER \<Rightarrow> s)"

text \<open>The body of the loop in \<open>run\<close>; the loop goes on while \<open>sc_running\<close>.\<close>

definition run_body :: "real \<Rightarrow> real \<Rightarrow> consensus \<Rightarrow> consensus" where
  "run_body now timeout s =
     (let s1 = (if sc_comms_timeout_s s < now - sc_base_last_seen s \<and> sc_base_connected s
                then s\<lparr>sc_base_connected := False, sc_autonomous_start := Some now\<rparr> else s)
      in if \<not> sc_base_connected s1
         then let s2 = consensus_tick now timeout s1
              in if ro_require_rtl_on_timeout (sc_roe s2)
                    \<and> (case sc_autonomous_start s2 of None \<Rightarrow> False
                       | Some st \<Rightarrow> st \<noteq> 0 \<and> of_int (ro_autonomous_timeout_s (sc_roe s2)) < now - st)
                 then s2\<lparr>sc_running := False\<rparr> else s2
         else s1)"

definition on_vote_request :: "real \<Rightarrow> string \<Rightarrow> int \<Rightarrow> consensus \<Rightarrow> bool \<times> consensus" where
  "on_vote_request now candidate_id tm s =
     (let s1 = (if rs_term (sc_state s) < tm
                then s\<lparr>sc_state := (sc_state s)\<lparr>rs_term := tm, rs_role := FOLLOWER, rs_voted_for := None\<rparr>\<rparr>
                else s)
      in if tm = rs_term (sc_state s1) \<and> rs_voted_for (sc_state s1) \<in> {None, Some candidate_id}
         then (True, s1\<lparr>sc_state := (sc_state s1)
                          \<lparr>rs_voted_for := Some candidate_id, rs_last_heartbeat := now\<rparr>\<rparr>)
         else (False, s1))"

definition on_vote_response :: "string \<Rightarrow> int \<Rightarrow> bool \<Rightarrow> consensus \<Rightarrow> consensus" where
  "on_vote_response voter_id tm granted s =
     (if tm = rs_term (sc_state s) \<and> granted
      then s\<lparr>sc_state := (sc_state s)
               \<lparr>rs_votes_received := insert voter_id (rs_votes_received (sc_state s))\<rparr>\<rparr>
      else s)"

definition on_leader_heartbeat :: "real \<Rightarrow> string \<Rightarrow> int \<Rightarrow> consensus \<Rightarrow> consensus" where
  "on_leader_heartbeat now leader_id tm s =
     (if rs_term (sc_state s) \<le> tm
      then s\<lparr>sc_state := (sc_state s)
               \<lparr>rs_term := tm, rs_role := FOLLOWER, rs_leader_id := Some leader_id,
                rs_last_heartbeat := now\<rparr>\<rparr>
      else s)"

definition record_decision ::
  "real \<Rightarrow> escalation_request \<Rightarrow> string \<Rightarrow> string \<Rightarrow> consensus \<Rightarrow> consensus" where
  "record_decision now req decision reason s =
     s\<lparr>sc_decisions := sc_decisions s @
         [\<lparr>ad_escalation_id = er_id req, ad_task_id = er_task_id req, ad_decision = decision,
           ad_decided_by = sc_drone_id s, ad_term = rs_term (sc_state s), ad_timestamp = now,
           ad_reason = reason\<rparr>]\<rparr>"

definition autonomous_response :: "real \<Rightarrow> escalation_request \<Rightarrow> bool \<Rightarrow> consensus \<Rightarrow> escalation_response" where
  "autonomous_response now req approved s =
     \<lparr>ep_escalation_id = er_id req, ep_approved = approved, ep_modified_action = None,
      ep_responded_by = ''autonomous:'' @ sc_drone_id s, ep_responded_at = now\<rparr>"

definition decide_escalation ::
  "real \<Rightarrow> escalation_request \<Rightarrow> consensus \<Rightarrow> escalation_response option \<times> consensus" where
  "decide_escalation now req s =
     (if \<not> is_leader s then (None, s)
      else if ro_max_tasks_autonomous (sc_roe s) \<le> sc_tasks_approved s
      then (Some (autonomous_response now req False s),
            record_decision now req ''denied'' ''max_tasks_reached'' s)
      else if er_escalation_level req = EMERGENCY
      then (Some (autonomous_response now req False s),
            record_decision now req ''denied'' ''emergency_requires_human'' s)
      else (Some (autonomous_response now req True s),
            record_decision now req ''approved'' ''roe_compliant''
              (s\<lparr>sc_tasks_approved := sc_tasks_approved s + 1\<rparr>)))"

definition stop_consensus :: "consensus \<Rightarrow> consensus" where
  "stop_consensus s = s\<lparr>sc_running := False\<rparr>"

lemmas node_defs = on_base_heartbeat_def start_election_def consensus_tick_def run_body_def
  on_vote_request_def on_vote_response_def on_leader_heartbeat_def record_decision_def
  decide_escalation_def stop_consensus_def Let_def

section \<open>The rules of engagement\<close>

datatype node_event =
    EBase real | ERun real real | EVoteRequest real string int | EVoteResponse string int bool
  | EHeartbeat real string int | EDecide real escalation_request | EStop

fun node_step :: "consensus \<Rightarrow> node_event \<Rightarrow> consensus" where
  "node_step s (EBase now) = on_base_heartbeat now s"
| "node_step s (ERun now to) = run_body now to s"
| "node_step s (EVoteRequest now c t) = snd (on_vote_request now c t s)"
| "node_step s (EVoteResponse v t g) = on_vote_response v t g s"
| "node_step s (EHeartbeat now l t) = on_leader_heartbeat now l t s"
| "node_step s (EDecide now req) = snd (decide_escalation now req s)"
| "node_step s EStop = stop_consensus s"

text \<open>The log is complete and within the rules: the counter is the number of approvals logged, at
  most the number allowed, and every record carries the id of this drone.\<close>

definition approvals :: "consensus \<Rightarrow> autonomous_decision list" where
  "approvals s = filter (\<lambda>d. ad_decision d = ''approved'') (sc_decisions s)"

definition roe_inv :: "consensus \<Rightarrow> bool" where
  "roe_inv s \<longleftrightarrow>
     sc_tasks_approved s = int (length (approvals s))
     \<and> sc_tasks_approved s \<le> max 0 (ro_max_tasks_autonomous (sc_roe s))
     \<and> (\<forall>d \<in> set (sc_decisions s). ad_decided_by d = sc_drone_id s \<and> ad_decision d \<in> {''approved'', ''denied''})"

lemma step_frame:
  "sc_roe (node_step s e) = sc_roe s" "sc_drone_id (node_step s e) = sc_drone_id s"
  "(\<nexists>now req. e = EDecide now req) \<Longrightarrow>
     sc_decisions (node_step s e) = sc_decisions s \<and> sc_tasks_approved (node_step s e) = sc_tasks_approved s"
  by (cases e; simp add: node_defs split: raft_role.splits)+

lemma roe_decide: "roe_inv s \<Longrightarrow> roe_inv (snd (decide_escalation now req s))"
  by (auto simp: decide_escalation_def record_decision_def roe_inv_def approvals_def)

interpretation roe_machine: event_machine node_step roe_inv
proof unfold_locales
  fix s e assume inv: "roe_inv s"
  show "roe_inv (node_step s e)"
  proof (cases "\<exists>now req. e = EDecide now req")
    case True
    with inv roe_decide show ?thesis by auto
  next
    case False
    with inv step_frame(1,2) [of s e] step_frame(3) [of e s] show ?thesis by (simp add: roe_inv_def approvals_def)
  qed
qed

lemma run_roe: "sc_roe (foldl node_step s es) = sc_roe s"
  by (induction es rule: rev_induct) (simp_all add: step_frame)



section \<open>The swarm\<close>

text \<open>
  A swarm of the members \<open>ms\<close>. \<open>cl_grants\<close> is the history of the votes given (voter, candidate,
  term), a candidate's own included, and \<open>cl_wins\<close> the history of the elections won. Any vote
  request and any heartbeat may arrive at any time, sent by whomever; a granted response arrives
  only where the vote was given.
\<close>

record cluster =
  cl_nodes :: "string \<Rightarrow> consensus"
  cl_grants :: "(string \<times> string \<times> int) set"
  cl_wins :: "(int \<times> string) set"

definition starts_election :: "consensus \<Rightarrow> consensus \<Rightarrow> bool" where
  "starts_election s s' \<longleftrightarrow> rs_term (sc_state s) < rs_term (sc_state s')"

definition wins_election :: "consensus \<Rightarrow> bool" where
  "wins_election s \<longleftrightarrow> rs_role (sc_state s) = CANDIDATE \<and> has_majority s"

definition after_tick :: "string \<Rightarrow> consensus \<Rightarrow> cluster \<Rightarrow> cluster" where
  "after_tick i s' c =
     (let s = cl_nodes c i
      in \<lparr>cl_nodes = (cl_nodes c)(i := s'),
          cl_grants = (if starts_election s s' then insert (i, i, rs_term (sc_state s')) (cl_grants c)
                       else cl_grants c),
          cl_wins = (if wins_election s then insert (rs_term (sc_state s), i) (cl_wins c) else cl_wins c)\<rparr>)"

inductive cluster_step :: "string list \<Rightarrow> cluster \<Rightarrow> cluster \<Rightarrow> bool" for ms where
  tick: "i \<in> set ms \<Longrightarrow> cluster_step ms c (after_tick i (consensus_tick now to (cl_nodes c i)) c)"
| vote_request: "\<lbrakk>i \<in> set ms; on_vote_request now cand tm (cl_nodes c i) = (granted, s')\<rbrakk> \<Longrightarrow>
    cluster_step ms c (c\<lparr>cl_nodes := (cl_nodes c)(i := s'),
      cl_grants := if granted then insert (i, cand, tm) (cl_grants c) else cl_grants c\<rparr>)"
| vote_response: "\<lbrakk>i \<in> set ms; granted \<longrightarrow> (v, i, tm) \<in> cl_grants c\<rbrakk> \<Longrightarrow>
    cluster_step ms c (c\<lparr>cl_nodes := (cl_nodes c)(i := on_vote_response v tm granted (cl_nodes c i))\<rparr>)"
| heartbeat: "i \<in> set ms \<Longrightarrow>
    cluster_step ms c (c\<lparr>cl_nodes := (cl_nodes c)(i := on_leader_heartbeat now l tm (cl_nodes c i))\<rparr>)"
| base: "i \<in> set ms \<Longrightarrow>
    cluster_step ms c (c\<lparr>cl_nodes := (cl_nodes c)(i := on_base_heartbeat now (cl_nodes c i))\<rparr>)"
| decide: "i \<in> set ms \<Longrightarrow>
    cluster_step ms c (c\<lparr>cl_nodes := (cl_nodes c)(i := snd (decide_escalation now req (cl_nodes c i)))\<rparr>)"

definition cluster_init :: "string list \<Rightarrow> cluster \<Rightarrow> bool" where
  "cluster_init ms c \<longleftrightarrow>
     cl_grants c = {} \<and> cl_wins c = {}
     \<and> (\<forall>i \<in> set ms. \<exists>roe ct t0. cl_nodes c i = consensus_init i (remove1 i ms) roe ct t0)"

inductive cluster_reach :: "string list \<Rightarrow> cluster \<Rightarrow> bool" for ms where
  reach_init: "cluster_init ms c \<Longrightarrow> cluster_reach ms c"
| reach_step: "\<lbrakk>cluster_reach ms c; cluster_step ms c c'\<rbrakk> \<Longrightarrow> cluster_reach ms c'"

inductive_cases cluster_stepE: "cluster_step ms c c'"

text \<open>The part of the invariant that speaks of one node and the history.\<close>

definition node_ok :: "string list \<Rightarrow> string \<Rightarrow> consensus \<Rightarrow> (string \<times> string \<times> int) set \<Rightarrow> (int \<times> string) set \<Rightarrow> bool" where
  "node_ok ms i s grants won \<longleftrightarrow>
     sc_drone_id s = i \<and> sc_known_peers s = remove1 i ms
     \<and> (\<forall>c t. (i, c, t) \<in> grants \<longrightarrow> t \<le> rs_term (sc_state s))
     \<and> (\<forall>c. (i, c, rs_term (sc_state s)) \<in> grants \<longrightarrow> rs_voted_for (sc_state s) = Some c)
     \<and> (rs_role (sc_state s) = CANDIDATE \<longrightarrow>
          (\<forall>v \<in> rs_votes_received (sc_state s). (v, i, rs_term (sc_state s)) \<in> grants))
     \<and> (rs_role (sc_state s) = LEADER \<longrightarrow> (rs_term (sc_state s), i) \<in> won)"

definition one_vote :: "(string \<times> string \<times> int) set \<Rightarrow> bool" where
  "one_vote grants \<longleftrightarrow> (\<forall>v c c' t. (v, c, t) \<in> grants \<longrightarrow> (v, c', t) \<in> grants \<longrightarrow> c = c')"

definition majority_of :: "string list \<Rightarrow> string set \<Rightarrow> bool" where
  "majority_of ms V \<longleftrightarrow> V \<subseteq> set ms \<and> length ms < 2 * card V"

definition cluster_inv :: "string list \<Rightarrow> cluster \<Rightarrow> bool" where
  "cluster_inv ms c \<longleftrightarrow>
     one_vote (cl_grants c) \<and> (\<forall>v x t. (v, x, t) \<in> cl_grants c \<longrightarrow> v \<in> set ms)
     \<and> (\<forall>i \<in> set ms. node_ok ms i (cl_nodes c i) (cl_grants c) (cl_wins c))
     \<and> (\<forall>t i. (t, i) \<in> cl_wins c \<longrightarrow> (\<exists>V. majority_of ms V \<and> (\<forall>v \<in> V. (v, i, t) \<in> cl_grants c)))"

lemma majorities_meet:
  assumes "majority_of ms V" and "majority_of ms V'"
  obtains v where "v \<in> V" "v \<in> V'"
proof -
  have fin: "finite V" "finite V'" "card (V \<union> V') \<le> length ms"
    using assms card_mono [of "set ms" "V \<union> V'"] card_length [of ms]
    by (auto simp: majority_of_def intro: finite_subset)
  have "card (V \<inter> V') \<noteq> 0"
    using card_Un_Int [OF fin(1,2)] fin(3) assms by (simp add: majority_of_def)
  then show ?thesis using that by (metis IntE card.empty equals0I)
qed

lemma node_ok_mono:
  "\<lbrakk>node_ok ms j s G W; G \<subseteq> G'; W \<subseteq> W'; \<And>c t. (j, c, t) \<in> G' \<Longrightarrow> (j, c, t) \<in> G\<rbrakk> \<Longrightarrow> node_ok ms j s G' W'"
  unfolding node_ok_def by blast

lemma node_okD:
  assumes "node_ok ms i s G W"
  shows "sc_drone_id s = i" "sc_known_peers s = remove1 i ms"
    "(i, x, t) \<in> G \<Longrightarrow> t < rs_term (sc_state s) + 1"
    "(i, x, rs_term (sc_state s)) \<in> G \<Longrightarrow> rs_voted_for (sc_state s) = Some x"
    "rs_role (sc_state s) = CANDIDATE \<Longrightarrow> v \<in> rs_votes_received (sc_state s) \<Longrightarrow>
       (v, i, rs_term (sc_state s)) \<in> G"
    "rs_role (sc_state s) = LEADER \<Longrightarrow> (rs_term (sc_state s), i) \<in> W"
  using assms unfolding node_ok_def by fastforce+

lemma node_okI:
  assumes "sc_drone_id s = i" "sc_known_peers s = remove1 i ms"
    "\<And>x t. (i, x, t) \<in> G \<Longrightarrow> t < rs_term (sc_state s) + 1"
    "\<And>x. (i, x, rs_term (sc_state s)) \<in> G \<Longrightarrow> rs_voted_for (sc_state s) = Some x"
    "\<And>v. rs_role (sc_state s) = CANDIDATE \<Longrightarrow> v \<in> rs_votes_received (sc_state s) \<Longrightarrow>
       (v, i, rs_term (sc_state s)) \<in> G"
    "rs_role (sc_state s) = LEADER \<Longrightarrow> (rs_term (sc_state s), i) \<in> W"
  shows "node_ok ms i s G W"
  using assms unfolding node_ok_def by auto

lemma start_ok:
  assumes "node_ok ms i s G W"
  shows "node_ok ms i (start_election now s) (insert (i, i, rs_term (sc_state s) + 1) G) W"
  by (rule node_okI) (auto simp: start_election_def node_okD(1,2) [OF assms] dest!: node_okD(3) [OF assms])

lemma tick_ok:
  assumes "node_ok ms i s G W" and "s' = consensus_tick now to s"
  shows "node_ok ms i s' (if starts_election s s' then insert (i, i, rs_term (sc_state s')) G else G)
           (if wins_election s then insert (rs_term (sc_state s), i) W else W)"
    and "starts_election s s' \<Longrightarrow> rs_term (sc_state s') = rs_term (sc_state s) + 1"
proof -
  note D = node_okD [OF assms(1)]
  have "node_ok ms i s' (if starts_election s s' then insert (i, i, rs_term (sc_state s')) G else G)
           (if wins_election s then insert (rs_term (sc_state s), i) W else W)
      \<and> (starts_election s s' \<longrightarrow> rs_term (sc_state s') = rs_term (sc_state s) + 1)"
  proof (cases "rs_role (sc_state s)")
    case FOLLOWER
    show ?thesis
    proof (cases "to < now - rs_last_heartbeat (sc_state s)")
      case True
      then have s': "s' = start_election now s" using FOLLOWER assms(2) by (simp add: consensus_tick_def)
      have t: "rs_term (sc_state s') = rs_term (sc_state s) + 1" by (simp add: s' start_election_def)
      with FOLLOWER start_ok [OF assms(1), of now] show ?thesis
        unfolding starts_election_def wins_election_def t by (simp add: s')
    next
      case False
      with FOLLOWER assms show ?thesis
        by (simp add: consensus_tick_def starts_election_def wins_election_def)
    qed
  next
    case CANDIDATE
    with assms(2) have same: "rs_term (sc_state s') = rs_term (sc_state s)"
      and s': "rs_voted_for (sc_state s') = rs_voted_for (sc_state s)"
        "rs_votes_received (sc_state s') = rs_votes_received (sc_state s)"
        "sc_drone_id s' = sc_drone_id s" "sc_known_peers s' = sc_known_peers s"
        "rs_role (sc_state s') = LEADER \<Longrightarrow> has_majority s"
      by (auto simp: consensus_tick_def Let_def split: if_splits)
    have "node_ok ms i s' G (if wins_election s then insert (rs_term (sc_state s), i) W else W)"
      by (rule node_okI) (use D CANDIDATE same s' in \<open>auto simp: wins_election_def\<close>)
    with same show ?thesis by (simp add: starts_election_def)
  next
    case LEADER
    with assms show ?thesis by (simp add: consensus_tick_def starts_election_def wins_election_def)
  qed
  then show "node_ok ms i s' (if starts_election s s' then insert (i, i, rs_term (sc_state s')) G else G)
           (if wins_election s then insert (rs_term (sc_state s), i) W else W)"
    and "starts_election s s' \<Longrightarrow> rs_term (sc_state s') = rs_term (sc_state s) + 1" by blast+
qed

lemma vote_ok:
  assumes "node_ok ms i s G W" and "on_vote_request now x tm s = (granted, s')"
  shows "node_ok ms i s' (if granted then insert (i, x, tm) G else G) W"
    and "\<lbrakk>granted; (i, y, tm) \<in> G\<rbrakk> \<Longrightarrow> y = x"
proof -
  note D = node_okD [OF assms(1)]
  have raised: "t < tm" if "rs_term (sc_state s) < tm" "(i, y, t) \<in> G" for y t
    using D(3) [OF that(2)] that(1) by simp
  show "node_ok ms i s' (if granted then insert (i, x, tm) G else G) W"
  proof (cases granted)
    case True
    with assms(2) have s': "rs_term (sc_state s') = tm" "rs_voted_for (sc_state s') = Some x"
      "sc_drone_id s' = sc_drone_id s" "sc_known_peers s' = sc_known_peers s"
      "rs_term (sc_state s) < tm \<and> rs_role (sc_state s') = FOLLOWER
       \<or> rs_term (sc_state s) = tm \<and> rs_voted_for (sc_state s) \<in> {None, Some x}
         \<and> rs_role (sc_state s') = rs_role (sc_state s)
         \<and> rs_votes_received (sc_state s') = rs_votes_received (sc_state s)"
      by (auto simp: on_vote_request_def Let_def split: if_splits)
    have "node_ok ms i s' (insert (i, x, tm) G) W"
    proof (rule node_okI)
      show "t < rs_term (sc_state s') + 1" if "(i, y, t) \<in> insert (i, x, tm) G" for y t
        using that s'(1,5) raised [of y t] D(3) [of y t] by auto
      show "rs_voted_for (sc_state s') = Some y" if "(i, y, rs_term (sc_state s')) \<in> insert (i, x, tm) G" for y
        using that s'(1,2,5) raised [of y tm] D(4) [of y] by auto
    qed (use D s' in auto)
    with True show ?thesis by simp
  next
    case False
    with assms(2) have "s' = s" by (auto simp: on_vote_request_def Let_def split: if_splits)
    with False assms(1) show ?thesis by simp
  qed
  show "\<lbrakk>granted; (i, y, tm) \<in> G\<rbrakk> \<Longrightarrow> y = x"
    using assms(2) D(3) [of y tm] D(4) [of y] by (auto simp: on_vote_request_def Let_def split: if_splits)
qed

lemma response_ok:
  "\<lbrakk>node_ok ms i s G W; granted \<longrightarrow> (v, i, tm) \<in> G\<rbrakk> \<Longrightarrow> node_ok ms i (on_vote_response v tm granted s) G W"
  by (auto simp: node_ok_def on_vote_response_def)

lemma others_ok:
  "node_ok ms i s G W \<Longrightarrow> node_ok ms i (on_leader_heartbeat now l tm s) G W"
  "node_ok ms i s G W \<Longrightarrow> node_ok ms i (on_base_heartbeat now s) G W"
  "node_ok ms i s G W \<Longrightarrow> node_ok ms i (snd (decide_escalation now req s)) G W"
proof -
  assume ok: "node_ok ms i s G W"
  note D = node_okD [OF ok]
  show "node_ok ms i (on_leader_heartbeat now l tm s) G W"
  proof (cases "rs_term (sc_state s) \<le> tm")
    case True
    then have h: "rs_term (sc_state (on_leader_heartbeat now l tm s)) = tm"
      "rs_role (sc_state (on_leader_heartbeat now l tm s)) = FOLLOWER"
      "rs_voted_for (sc_state (on_leader_heartbeat now l tm s)) = rs_voted_for (sc_state s)"
      "sc_drone_id (on_leader_heartbeat now l tm s) = sc_drone_id s"
      "sc_known_peers (on_leader_heartbeat now l tm s) = sc_known_peers s"
      by (simp_all add: on_leader_heartbeat_def)
    show ?thesis
    proof (rule node_okI)
      show "t < rs_term (sc_state (on_leader_heartbeat now l tm s)) + 1" if "(i, x, t) \<in> G" for x t
        unfolding h using D(3) [OF that] True by simp
      show "rs_voted_for (sc_state (on_leader_heartbeat now l tm s)) = Some x"
        if "(i, x, rs_term (sc_state (on_leader_heartbeat now l tm s))) \<in> G" for x
      proof -
        have "(i, x, tm) \<in> G" using that unfolding h .
        moreover from D(3) [OF this] True have "tm = rs_term (sc_state s)" by simp
        ultimately show ?thesis unfolding h using D(4) [of x] by simp
      qed
    qed (simp_all add: h D(1,2))
  qed (use ok in \<open>simp add: on_leader_heartbeat_def\<close>)
  show "node_ok ms i (on_base_heartbeat now s) G W"
    by (rule node_okI) (use D in \<open>auto simp: on_base_heartbeat_def Let_def\<close>)
  have "sc_state (snd (decide_escalation now req s)) = sc_state s
      \<and> sc_drone_id (snd (decide_escalation now req s)) = sc_drone_id s
      \<and> sc_known_peers (snd (decide_escalation now req s)) = sc_known_peers s"
    by (simp add: decide_escalation_def record_decision_def)
  with ok show "node_ok ms i (snd (decide_escalation now req s)) G W" by (simp add: node_ok_def)
qed

lemma one_vote_insert:
  "\<lbrakk>one_vote G; \<And>y. (v, y, t) \<in> G \<Longrightarrow> y = x\<rbrakk> \<Longrightarrow> one_vote (insert (v, x, t) G)"
  unfolding one_vote_def by blast

lemma win_majority:
  assumes "node_ok ms i s G W" and "wins_election s" and "i \<in> set ms" and "\<forall>v x t. (v, x, t) \<in> G \<longrightarrow> v \<in> set ms"
  shows "majority_of ms (rs_votes_received (sc_state s))
    \<and> (\<forall>v \<in> rs_votes_received (sc_state s). (v, i, rs_term (sc_state s)) \<in> G)"
proof -
  have v: "\<forall>v \<in> rs_votes_received (sc_state s). (v, i, rs_term (sc_state s)) \<in> G"
    using assms(1,2) by (simp add: node_ok_def wins_election_def)
  have "length ms = length (sc_known_peers s) + 1"
    using assms(1,3) length_pos_if_in_set [of i ms] by (simp add: node_ok_def length_remove1)
  then have "length ms < 2 * card (rs_votes_received (sc_state s))"
    using assms(2) by (simp add: wins_election_def has_majority_def votes_needed_def) linarith
  with v assms(4) show ?thesis unfolding majority_of_def by blast
qed

text \<open>A step at node \<open>i\<close> that adds at most votes of \<open>i\<close>.\<close>

lemma cluster_inv_update:
  assumes "cluster_inv ms c" and "i \<in> set ms" and "node_ok ms i s' G' W'"
    and "cl_grants c \<subseteq> G'" and "\<And>v x t. (v, x, t) \<in> G' - cl_grants c \<Longrightarrow> v = i" and "one_vote G'"
    and "cl_wins c \<subseteq> W'"
    and "\<And>t j. (t, j) \<in> W' - cl_wins c \<Longrightarrow> \<exists>V. majority_of ms V \<and> (\<forall>v \<in> V. (v, j, t) \<in> G')"
  shows "cluster_inv ms \<lparr>cl_nodes = (cl_nodes c)(i := s'), cl_grants = G', cl_wins = W'\<rparr>"
proof -
  have "node_ok ms j (((cl_nodes c)(i := s')) j) G' W'" if "j \<in> set ms" for j
  proof (cases "j = i")
    case False
    have "node_ok ms j (cl_nodes c j) G' W'"
    proof (rule node_ok_mono [OF _ assms(4,7)])
      show "node_ok ms j (cl_nodes c j) (cl_grants c) (cl_wins c)"
        using assms(1) that by (simp add: cluster_inv_def)
      show "(j, x, t) \<in> G' \<Longrightarrow> (j, x, t) \<in> cl_grants c" for x t
        using assms(5) [of j x t] False by blast
    qed
    with False show ?thesis by simp
  qed (use assms(3) in simp)
  moreover have "v \<in> set ms" if "(v, x, t) \<in> G'" for v x t
    using that assms(1,2,5) unfolding cluster_inv_def by (metis Diff_iff)
  moreover have "\<exists>V. majority_of ms V \<and> (\<forall>v \<in> V. (v, j, t) \<in> G')" if "(t, j) \<in> W'" for t j
    using that assms(1,4,8) unfolding cluster_inv_def by (cases "(t, j) \<in> cl_wins c") blast+
  ultimately show ?thesis using assms(6) by (simp add: cluster_inv_def)
qed

lemma cluster_inv_node:
  assumes "cluster_inv ms c" and "i \<in> set ms" and "node_ok ms i s' (cl_grants c) (cl_wins c)"
  shows "cluster_inv ms (c\<lparr>cl_nodes := (cl_nodes c)(i := s')\<rparr>)"
  using cluster_inv_update [OF assms] assms(1) by (cases c) (simp add: cluster_inv_def)

lemma cluster_step_inv:
  assumes "cluster_step ms c c'" and "cluster_inv ms c"
  shows "cluster_inv ms c'"
proof -
  have ok: "node_ok ms i (cl_nodes c i) (cl_grants c) (cl_wins c)" if "i \<in> set ms" for i
    using assms(2) that by (simp add: cluster_inv_def)
  have one: "one_vote (cl_grants c)" and mem: "\<forall>v x t. (v, x, t) \<in> cl_grants c \<longrightarrow> v \<in> set ms"
    using assms(2) unfolding cluster_inv_def by blast+
  from assms(1) show ?thesis
  proof cases
    case (tick i now to)
    let ?s = "cl_nodes c i" and ?s' = "consensus_tick now to (cl_nodes c i)"
    note t = tick_ok [OF ok [OF tick(2)] refl, of now to]
    let ?G = "if starts_election ?s ?s' then insert (i, i, rs_term (sc_state ?s')) (cl_grants c) else cl_grants c"
    let ?W = "if wins_election ?s then insert (rs_term (sc_state ?s), i) (cl_wins c) else cl_wins c"
    have "y = i" if "starts_election ?s ?s'" "(i, y, rs_term (sc_state ?s')) \<in> cl_grants c" for y
      using ok [OF tick(2)] that by (force simp: node_ok_def starts_election_def)
    then have one': "one_vote ?G" using one_vote_insert [OF one] one by simp
    have sub: "cl_grants c \<subseteq> ?G" "cl_wins c \<subseteq> ?W" by auto
    have new: "v = i" if "(v, x, tm) \<in> ?G - cl_grants c" for v x tm using that by (auto split: if_splits)
    have win0: "\<exists>V. majority_of ms V \<and> (\<forall>v \<in> V. (v, j, tm) \<in> cl_grants c)" if "(tm, j) \<in> ?W - cl_wins c" for tm j
    proof -
      have "wins_election ?s" "tm = rs_term (sc_state ?s)" "j = i" using that by (auto split: if_splits)
      with win_majority [OF ok [OF tick(2)] _ tick(2) mem] show ?thesis by blast
    qed
    have win: "\<exists>V. majority_of ms V \<and> (\<forall>v \<in> V. (v, j, tm) \<in> ?G)" if "(tm, j) \<in> ?W - cl_wins c" for tm j
    proof -
      from win0 [OF that] obtain V where
        "majority_of ms V" "\<forall>v \<in> V. (v, j, tm) \<in> cl_grants c" by blast
      then show ?thesis using sub(1) by (intro exI [of _ V] conjI ballI) (simp_all add: subset_iff)
    qed
    show ?thesis
      unfolding tick(1) after_tick_def Let_def
      by (rule cluster_inv_update [OF assms(2) tick(2) t(1) sub(1) new one' sub(2) win])
  next
    case (vote_request i now x tm granted s')
    note v = vote_ok [OF ok [OF vote_request(2)] vote_request(3)]
    let ?G = "if granted then insert (i, x, tm) (cl_grants c) else cl_grants c"
    have one': "one_vote ?G" using one_vote_insert [OF one] one v(2) by simp
    have sub: "cl_grants c \<subseteq> ?G" by auto
    have new: "y = i" if "(y, z, t) \<in> ?G - cl_grants c" for y z t using that by (auto split: if_splits)
    have win: "\<exists>V. majority_of ms V \<and> (\<forall>v \<in> V. (v, j, t) \<in> ?G)" if "(t, j) \<in> cl_wins c - cl_wins c" for t j
      using that by simp
    have "cluster_inv ms \<lparr>cl_nodes = (cl_nodes c)(i := s'), cl_grants = ?G, cl_wins = cl_wins c\<rparr>"
      by (rule cluster_inv_update [OF assms(2) vote_request(2) v(1) sub new one' order_refl win])
    then show ?thesis unfolding vote_request(1) by (cases c) simp
  next
    case (vote_response i granted v tm)
    show ?thesis unfolding vote_response(1)
      by (rule cluster_inv_node [OF assms(2) vote_response(2) response_ok [OF ok [OF vote_response(2)] vote_response(3)]])
  next
    case (heartbeat i now l tm)
    show ?thesis unfolding heartbeat(1)
      by (rule cluster_inv_node [OF assms(2) heartbeat(2) others_ok(1) [OF ok [OF heartbeat(2)]]])
  next
    case (base i now)
    show ?thesis unfolding base(1)
      by (rule cluster_inv_node [OF assms(2) base(2) others_ok(2) [OF ok [OF base(2)]]])
  next
    case (decide i now req)
    show ?thesis unfolding decide(1)
      by (rule cluster_inv_node [OF assms(2) decide(2) others_ok(3) [OF ok [OF decide(2)]]])
  qed
qed

lemma cluster_reach_inv: "cluster_reach ms c \<Longrightarrow> cluster_inv ms c"
proof (induction rule: cluster_reach.induct)
  case (reach_init c)
  then show ?case
    by (force simp: cluster_init_def cluster_inv_def one_vote_def node_ok_def consensus_init_def)
qed (rule cluster_step_inv)

text \<open>C5: Election safety: in every reachable state of the swarm, whatever messages were lost,
  repeated, delayed, reordered or made up (vote responses aside), no term was won by two nodes,
  and two nodes that lead in the same term are one.\<close>

theorem election_safety:
  assumes "cluster_reach ms c"
  shows "((t, i) \<in> cl_wins c \<longrightarrow> (t, j) \<in> cl_wins c \<longrightarrow> i = j)
    \<and> (i \<in> set ms \<longrightarrow> j \<in> set ms \<longrightarrow> is_leader (cl_nodes c i) \<longrightarrow> is_leader (cl_nodes c j)
        \<longrightarrow> rs_term (sc_state (cl_nodes c i)) = rs_term (sc_state (cl_nodes c j)) \<longrightarrow> i = j)"
proof -
  have inv: "cluster_inv ms c" using assms by (rule cluster_reach_inv)
  have wins: "i = j" if "(t, i) \<in> cl_wins c" "(t, j) \<in> cl_wins c" for t i j
  proof -
    from inv that obtain V V' where V: "majority_of ms V" "\<forall>v \<in> V. (v, i, t) \<in> cl_grants c"
      and V': "majority_of ms V'" "\<forall>v \<in> V'. (v, j, t) \<in> cl_grants c"
      unfolding cluster_inv_def by meson
    from majorities_meet [OF V(1) V'(1)] V(2) V'(2) obtain v where
      "(v, i, t) \<in> cl_grants c" "(v, j, t) \<in> cl_grants c" by blast
    with inv show ?thesis unfolding cluster_inv_def one_vote_def by blast
  qed
  have "(rs_term (sc_state (cl_nodes c i)), i) \<in> cl_wins c" if "i \<in> set ms" "is_leader (cl_nodes c i)" for i
    using inv that by (simp add: cluster_inv_def node_ok_def is_leader_def)
  with wins show ?thesis by metis
qed

text \<open>A swarm of three in which A wins the first term.\<close>

definition trio0 :: cluster where
  "trio0 = \<lparr>cl_nodes = (\<lambda>i. consensus_init i (remove1 i [''A'', ''B'', ''C'']) None 60 0),
            cl_grants = {}, cl_wins = {}\<rparr>"

definition trio_events :: "(cluster \<Rightarrow> cluster) list" where
  "trio_events =
     [\<lambda>c. after_tick ''A'' (consensus_tick 5 2 (cl_nodes c ''A'')) c,
      \<lambda>c. c\<lparr>cl_nodes := (cl_nodes c)(''B'' := snd (on_vote_request 6 ''A'' 1 (cl_nodes c ''B''))),
            cl_grants := insert (''B'', ''A'', 1) (cl_grants c)\<rparr>,
      \<lambda>c. c\<lparr>cl_nodes := (cl_nodes c)(''A'' := on_vote_response ''B'' 1 True (cl_nodes c ''A''))\<rparr>,
      \<lambda>c. after_tick ''A'' (consensus_tick 7 2 (cl_nodes c ''A'')) c]"

definition trio :: cluster where
  "trio = fold (\<lambda>f. f) trio_events trio0"

lemma trio_reach: "cluster_reach [''A'', ''B'', ''C''] trio"
proof -
  let ?ms = "[''A'', ''B'', ''C'']"
  have c0: "cluster_reach ?ms trio0"
    by (rule reach_init) (auto simp: cluster_init_def trio0_def)
  define c1 where "c1 = after_tick ''A'' (consensus_tick 5 2 (cl_nodes trio0 ''A'')) trio0"
  have c1: "cluster_reach ?ms c1"
    unfolding c1_def by (rule reach_step [OF c0 cluster_step.tick]) simp
  have g: "on_vote_request 6 ''A'' 1 (cl_nodes c1 ''B'') = (True, snd (on_vote_request 6 ''A'' 1 (cl_nodes c1 ''B'')))"
    unfolding c1_def by code_simp
  define c2 where "c2 = c1\<lparr>cl_nodes := (cl_nodes c1)(''B'' := snd (on_vote_request 6 ''A'' 1 (cl_nodes c1 ''B''))),
            cl_grants := insert (''B'', ''A'', 1) (cl_grants c1)\<rparr>"
  have c2: "cluster_reach ?ms c2"
    using reach_step [OF c1 cluster_step.vote_request [OF _ g]] unfolding c2_def by simp
  define c3 where "c3 = c2\<lparr>cl_nodes := (cl_nodes c2)(''A'' := on_vote_response ''B'' 1 True (cl_nodes c2 ''A''))\<rparr>"
  have c3: "cluster_reach ?ms c3"
    unfolding c3_def by (rule reach_step [OF c2 cluster_step.vote_response]) (simp_all add: c2_def)
  have "cluster_reach ?ms (after_tick ''A'' (consensus_tick 7 2 (cl_nodes c3 ''A'')) c3)"
    by (rule reach_step [OF c3 cluster_step.tick]) simp
  then show ?thesis
    unfolding c3_def c2_def c1_def by (simp add: trio_def trio_events_def)
qed

lemma election_safety_witness:
  "is_leader (cl_nodes trio ''A'') \<and> \<not> (is_leader (cl_nodes trio ''B'')
     \<and> rs_term (sc_state (cl_nodes trio ''A'')) = rs_term (sc_state (cl_nodes trio ''B'')))"
proof -
  have "is_leader (cl_nodes trio ''A'')" by code_simp
  with election_safety [OF trio_reach, of _ "''A''" "''B''"] show ?thesis by simp
qed

section \<open>What an election cannot do\<close>

text \<open>The majority is one of all known nodes, not of the connected partition: a candidate that hears
  from no more than half of them never leads.\<close>

lemma minority_never_elects:
  assumes "rs_role (sc_state s) = CANDIDATE" and "rs_votes_received (sc_state s) \<subseteq> P"
    and "finite P" and "2 * card P \<le> length (sc_known_peers s) + 1"
  shows "\<not> is_leader (consensus_tick now to s)"
proof -
  have "card (rs_votes_received (sc_state s)) \<le> card P" using assms(2,3) by (rule card_mono [rotated])
  then have "\<not> has_majority s"
    using assms(4) unfolding has_majority_def votes_needed_def by linarith
  with assms(1) show ?thesis by (simp add: consensus_tick_def is_leader_def Let_def)
qed

text \<open>A candidate that wins later than twice the timeout after it stood is a follower again at the
  end of the same tick, and takes itself for the leader.\<close>

lemma won_and_lost_at_once:
  assumes "rs_role (sc_state s) = CANDIDATE" and "has_majority s"
    and "timeout * 2 < now - rs_last_heartbeat (sc_state s)"
  shows "\<not> is_leader (consensus_tick now timeout s)
    \<and> rs_leader_id (sc_state (consensus_tick now timeout s)) = Some (sc_drone_id s)"
  using assms by (simp add: consensus_tick_def is_leader_def Let_def)

text \<open>A heartbeat of a later term does not clear the vote of the earlier one: the node then
  refuses its vote to every other candidate of the new term, in which it has not voted. With a
  cleared vote it would have granted it.\<close>

theorem heartbeat_keeps_stale_vote:
  assumes "rs_voted_for (sc_state s) = Some c" and "rs_term (sc_state s) < tm" and "c' \<noteq> c"
  shows "\<not> fst (on_vote_request now' c' tm (on_leader_heartbeat now l tm s))
    \<and> fst (on_vote_request now' c' tm s)"
  using assms by (simp add: on_vote_request_def on_leader_heartbeat_def Let_def)

lemma heartbeat_keeps_stale_vote_witness:
  "\<not> fst (on_vote_request 9 ''C'' 2 (on_leader_heartbeat 8 ''L'' 2 (cl_nodes trio ''B'')))"
proof -
  have "rs_voted_for (sc_state (cl_nodes trio ''B'')) = Some ''A''" "rs_term (sc_state (cl_nodes trio ''B'')) < 2"
    by code_simp+
  with heartbeat_keeps_stale_vote [of "cl_nodes trio ''B''" "''A''" 2 "''C''" 9 8 "''L''"] show ?thesis by simp
qed

end
