(* ===== verification/CommsMonitor.thy ===== *)
theory CommsMonitor
  imports Prelude
begin

text \<open>
  The monitor of the communication links, \<open>olympus/brain/olympus_brain/comms_monitor.py\<close>: the three
  links with their timeouts, the operating mode with its hysteresis and the policy of each mode.
  The body of the loop in \<open>run\<close> is a function of the clock and the state that also returns the
  change it reports to \<open>on_mode_change\<close>. The lemmas show that a mode changes exactly when three
  consecutive checks agree on the new one.
\<close>

datatype comms_mode = FULL_COMMS | DEGRADED | MINIMAL | DENIED

record link_state =
  ls_name :: string
  ls_connected :: bool
  ls_quality :: real
  ls_rssi_dbm :: int
  ls_last_rx :: real
  ls_timeout_s :: real

definition link0 :: "string \<Rightarrow> real \<Rightarrow> link_state" where
  "link0 name timeout =
     \<lparr>ls_name = name, ls_connected = False, ls_quality = 0, ls_rssi_dbm = -120, ls_last_rx = 0,
      ls_timeout_s = timeout\<rparr>"

record comms_state =
  co_mode :: comms_mode
  co_wifi :: link_state
  co_elrs :: link_state
  co_lora :: link_state
  co_mode_since :: real

definition comms_state0 :: "real \<Rightarrow> comms_state" where
  "comms_state0 now =
     \<lparr>co_mode = FULL_COMMS, co_wifi = link0 ''wifi'' 10, co_elrs = link0 ''elrs'' 5,
      co_lora = link0 ''lora'' 15, co_mode_since = now\<rparr>"

definition any_link_up :: "comms_state \<Rightarrow> bool" where
  "any_link_up s \<longleftrightarrow> ls_connected (co_wifi s) \<or> ls_connected (co_elrs s) \<or> ls_connected (co_lora s)"

definition active_links :: "comms_state \<Rightarrow> string list" where
  "active_links s =
     (if ls_connected (co_wifi s) then [''wifi''] else [])
     @ (if ls_connected (co_elrs s) then [''elrs''] else [])
     @ (if ls_connected (co_lora s) then [''lora''] else [])"

record comms_mode_policy =
  cp_telemetry_rate_hz :: real
  cp_detection_batch_interval_s :: real
  cp_model_updates_enabled :: bool
  cp_text_commands_only :: bool

fun for_mode :: "comms_mode \<Rightarrow> comms_mode_policy" where
  "for_mode FULL_COMMS =
     \<lparr>cp_telemetry_rate_hz = 5, cp_detection_batch_interval_s = 0,
      cp_model_updates_enabled = True, cp_text_commands_only = False\<rparr>"
| "for_mode DEGRADED =
     \<lparr>cp_telemetry_rate_hz = 1, cp_detection_batch_interval_s = 5,
      cp_model_updates_enabled = False, cp_text_commands_only = True\<rparr>"
| "for_mode MINIMAL =
     \<lparr>cp_telemetry_rate_hz = 0.2, cp_detection_batch_interval_s = 30,
      cp_model_updates_enabled = False, cp_text_commands_only = True\<rparr>"
| "for_mode DENIED =
     \<lparr>cp_telemetry_rate_hz = 0, cp_detection_batch_interval_s = 0,
      cp_model_updates_enabled = False, cp_text_commands_only = True\<rparr>"

record comms_monitor =
  cn_drone_id :: string
  cn_state :: comms_state
  cn_pending_mode :: "comms_mode option"
  cn_pending_count :: nat
  cn_running :: bool

definition hysteresis_count :: nat where
  "hysteresis_count = 3"

definition comms_monitor_init :: "string \<Rightarrow> real \<Rightarrow> comms_monitor" where
  "comms_monitor_init d now =
     \<lparr>cn_drone_id = d, cn_state = comms_state0 now, cn_pending_mode = None, cn_pending_count = 0,
      cn_running = False\<rparr>"

definition policy :: "comms_monitor \<Rightarrow> comms_mode_policy" where
  "policy m = for_mode (co_mode (cn_state m))"

text \<open>\<open>getattr(self.state, link_name, None)\<close> for the names of the three links; any other name is
  answered like an attribute that does not exist.\<close>

definition on_link :: "string \<Rightarrow> (link_state \<Rightarrow> link_state) \<Rightarrow> comms_monitor \<Rightarrow> comms_monitor" where
  "on_link name f m =
     (let s = cn_state m in
      if name = ''wifi'' then m\<lparr>cn_state := s\<lparr>co_wifi := f (co_wifi s)\<rparr>\<rparr>
      else if name = ''elrs'' then m\<lparr>cn_state := s\<lparr>co_elrs := f (co_elrs s)\<rparr>\<rparr>
      else if name = ''lora'' then m\<lparr>cn_state := s\<lparr>co_lora := f (co_lora s)\<rparr>\<rparr>
      else m)"

definition update_link :: "real \<Rightarrow> string \<Rightarrow> int \<Rightarrow> real \<Rightarrow> comms_monitor \<Rightarrow> comms_monitor" where
  "update_link now name rssi quality =
     on_link name (\<lambda>l. l\<lparr>ls_connected := True, ls_rssi_dbm := rssi, ls_quality := quality,
                         ls_last_rx := now\<rparr>)"

definition mark_disconnected :: "string \<Rightarrow> comms_monitor \<Rightarrow> comms_monitor" where
  "mark_disconnected name = on_link name (\<lambda>l. l\<lparr>ls_connected := False\<rparr>)"

definition expire_link :: "real \<Rightarrow> link_state \<Rightarrow> link_state" where
  "expire_link now l =
     (if ls_connected l \<and> ls_timeout_s l < now - ls_last_rx l then l\<lparr>ls_connected := False\<rparr> else l)"

definition evaluate_mode :: "comms_state \<Rightarrow> comms_mode" where
  "evaluate_mode s =
     (let wifi = ls_connected (co_wifi s); elrs = ls_connected (co_elrs s);
          lora = ls_connected (co_lora s)
      in if wifi \<and> (elrs \<or> lora) then FULL_COMMS
         else if wifi \<or> elrs then (if \<not> wifi then DEGRADED else FULL_COMMS)
         else if lora then MINIMAL
         else DENIED)"

definition check_timeouts :: "real \<Rightarrow> comms_state \<Rightarrow> comms_state" where
  "check_timeouts now s =
     s\<lparr>co_wifi := expire_link now (co_wifi s), co_elrs := expire_link now (co_elrs s),
       co_lora := expire_link now (co_lora s)\<rparr>"

definition apply_target ::
  "real \<Rightarrow> comms_mode \<Rightarrow> comms_monitor \<Rightarrow> comms_monitor \<times> (comms_mode \<times> comms_mode) option" where
  "apply_target now target m =
     (if target \<noteq> co_mode (cn_state m)
      then let m1 = (if cn_pending_mode m = Some target
                     then m\<lparr>cn_pending_count := cn_pending_count m + 1\<rparr>
                     else m\<lparr>cn_pending_mode := Some target, cn_pending_count := 1\<rparr>)
           in if hysteresis_count \<le> cn_pending_count m1
              then (m1\<lparr>cn_state := (cn_state m1)\<lparr>co_mode := target, co_mode_since := now\<rparr>,
                       cn_pending_mode := None, cn_pending_count := 0\<rparr>,
                    Some (co_mode (cn_state m), target))
              else (m1, None)
      else (m\<lparr>cn_pending_mode := None, cn_pending_count := 0\<rparr>, None))"

definition monitor_tick :: "real \<Rightarrow> comms_monitor \<Rightarrow> comms_monitor \<times> (comms_mode \<times> comms_mode) option" where
  "monitor_tick now m =
     (let s = check_timeouts now (cn_state m)
      in apply_target now (evaluate_mode s) (m\<lparr>cn_state := s\<rparr>))"

definition stop_monitor :: "comms_monitor \<Rightarrow> comms_monitor" where
  "stop_monitor m = m\<lparr>cn_running := False\<rparr>"

section \<open>Modes\<close>

lemma evaluate_mode_cases:
  "evaluate_mode s =
     (if ls_connected (co_wifi s) then FULL_COMMS
      else if ls_connected (co_elrs s) then DEGRADED
      else if ls_connected (co_lora s) then MINIMAL else DENIED)"
  by (simp add: evaluate_mode_def Let_def)

text \<open>The mode does not ask for all channels: WiFi alone is full communication.\<close>

lemma wifi_alone_is_full:
  "active_links s = [''wifi''] \<Longrightarrow> evaluate_mode s = FULL_COMMS"
  by (auto simp: active_links_def evaluate_mode_cases split: if_splits)

section \<open>Hysteresis\<close>

datatype monitor_event =
    LinkUp real string int real | LinkDown string | Check real | StopMonitor

text \<open>The target a check at \<open>now\<close> computes, and the machine with the targets so far, newest first.\<close>

definition target_at :: "real \<Rightarrow> comms_monitor \<Rightarrow> comms_mode" where
  "target_at now m = evaluate_mode (check_timeouts now (cn_state m))"

fun monitor_step :: "comms_mode list \<times> comms_monitor \<Rightarrow> monitor_event \<Rightarrow> comms_mode list \<times> comms_monitor" where
  "monitor_step (ts, m) (LinkUp now name rssi q) = (ts, update_link now name rssi q m)"
| "monitor_step (ts, m) (LinkDown name) = (ts, mark_disconnected name m)"
| "monitor_step (ts, m) (Check now) = (target_at now m # ts, fst (monitor_tick now m))"
| "monitor_step (ts, m) StopMonitor = (ts, stop_monitor m)"

text \<open>The newest \<open>n\<close> targets are all \<open>p\<close>.\<close>

fun newest :: "comms_mode \<Rightarrow> nat \<Rightarrow> comms_mode list \<Rightarrow> bool" where
  "newest p 0 ts \<longleftrightarrow> True"
| "newest p (Suc n) [] \<longleftrightarrow> False"
| "newest p (Suc n) (t # ts) \<longleftrightarrow> t = p \<and> newest p n ts"

definition pending_ok :: "comms_mode list \<Rightarrow> comms_mode \<Rightarrow> comms_mode option \<Rightarrow> nat \<Rightarrow> bool" where
  "pending_ok ts mode pend n \<longleftrightarrow>
     (case pend of None \<Rightarrow> n = 0 | Some p \<Rightarrow> p \<noteq> mode \<and> (n = 1 \<or> n = 2) \<and> newest p n ts)
     \<and> (\<forall>p. newest p 1 ts \<longrightarrow> mode = p \<or> pend = Some p)
     \<and> (\<forall>p. newest p 2 ts \<longrightarrow> mode = p \<or> pend = Some p \<and> n = 2)"

definition pending_inv :: "comms_mode list \<times> comms_monitor \<Rightarrow> bool" where
  "pending_inv tm \<longleftrightarrow>
     pending_ok (fst tm) (co_mode (cn_state (snd tm))) (cn_pending_mode (snd tm)) (cn_pending_count (snd tm))"

lemma on_link_frame:
  "cn_pending_mode (on_link name f m) = cn_pending_mode m"
  "cn_pending_count (on_link name f m) = cn_pending_count m"
  "co_mode (cn_state (on_link name f m)) = co_mode (cn_state m)"
  by (simp_all add: on_link_def Let_def)

lemma tick_fields:
  fixes now m
  defines "m' \<equiv> fst (monitor_tick now m)" and "t \<equiv> target_at now m"
  shows "cn_pending_mode m' =
      (if t = co_mode (cn_state m) \<or> cn_pending_mode m = Some t \<and> 2 \<le> cn_pending_count m then None else Some t)"
    and "cn_pending_count m' =
      (if t = co_mode (cn_state m) then 0
       else if cn_pending_mode m = Some t
            then (if 2 \<le> cn_pending_count m then 0 else cn_pending_count m + 1) else 1)"
    and "co_mode (cn_state m') =
      (if cn_pending_mode m = Some t \<and> 2 \<le> cn_pending_count m then t else co_mode (cn_state m))"
    and "snd (monitor_tick now m) =
      (if t \<noteq> co_mode (cn_state m) \<and> cn_pending_mode m = Some t \<and> 2 \<le> cn_pending_count m
       then Some (co_mode (cn_state m), t) else None)"
  unfolding m'_def t_def
  by (auto simp: monitor_tick_def target_at_def apply_target_def hysteresis_count_def check_timeouts_def Let_def)

lemma pending_inv_check:
  assumes "pending_inv (ts, m)"
  shows "pending_inv (target_at now m # ts, fst (monitor_tick now m))"
  using assms
  unfolding pending_inv_def fst_conv snd_conv tick_fields
  by (cases "cn_pending_mode m") (auto simp: pending_ok_def numeral_2_eq_2)

interpretation monitor_machine: event_machine monitor_step pending_inv
proof unfold_locales
  fix tm e assume inv: "pending_inv tm"
  obtain ts m where tm: "tm = (ts, m)" by (cases tm)
  show "pending_inv (monitor_step tm e)"
  proof (cases e)
    case (Check now)
    with inv tm show ?thesis by (simp add: pending_inv_check)
  qed (use inv tm in \<open>simp_all add: pending_inv_def update_link_def mark_disconnected_def
      stop_monitor_def on_link_frame\<close>)
qed

lemma monitor_run_inv: "pending_inv (foldl monitor_step ([], comms_monitor_init d t0) es)"
  by (rule monitor_machine.run_inv) (simp add: pending_inv_def pending_ok_def comms_monitor_init_def numeral_2_eq_2)

text \<open>C21: The mode changes exactly when the last three checks agree on another one: after any run of
  packets, losses and checks, the next check reports a change to \<open>p\<close> if and only if it and the two
  checks before it computed \<open>p\<close> and \<open>p\<close> is not the mode yet. A single bad or good second never
  changes the mode, and three always do.\<close>

theorem mode_hysteresis:
  assumes "(ts, m) = foldl monitor_step ([], comms_monitor_init d t0) es"
  shows "(snd (monitor_tick now m) = Some (co_mode (cn_state m), p) \<longleftrightarrow>
           p \<noteq> co_mode (cn_state m) \<and> target_at now m = p \<and> 2 \<le> length ts \<and> ts ! 0 = p \<and> ts ! 1 = p)
    \<and> co_mode (cn_state (fst (monitor_tick now m))) =
           (case snd (monitor_tick now m) of None \<Rightarrow> co_mode (cn_state m) | Some (old, new) \<Rightarrow> new)"
proof -
  have inv: "pending_inv (ts, m)" using monitor_run_inv [of d t0 es] assms by simp
  have two: "newest p 2 ts \<longleftrightarrow> 2 \<le> length ts \<and> ts ! 0 = p \<and> ts ! 1 = p" for p
    by (cases ts; cases "tl ts") (auto simp: numeral_2_eq_2)
  have "cn_pending_mode m = Some p \<and> 2 \<le> cn_pending_count m \<longleftrightarrow>
      p \<noteq> co_mode (cn_state m) \<and> newest p 2 ts" for p
  proof (cases "cn_pending_mode m = Some p")
    case True
    with inv have n: "p \<noteq> co_mode (cn_state m)" "cn_pending_count m = 1 \<or> cn_pending_count m = 2"
      "newest p (cn_pending_count m) ts"
      unfolding pending_inv_def pending_ok_def by simp_all
    have "newest p 2 ts \<Longrightarrow> co_mode (cn_state m) = p \<or> cn_pending_count m = 2"
      using inv True unfolding pending_inv_def pending_ok_def snd_conv fst_conv by blast
    with True n show ?thesis by (elim disjE) auto
  next
    case False
    with inv show ?thesis unfolding pending_inv_def pending_ok_def snd_conv fst_conv by metis
  qed
  then have key: "cn_pending_mode m = Some p \<and> 2 \<le> cn_pending_count m \<longleftrightarrow>
      p \<noteq> co_mode (cn_state m) \<and> 2 \<le> length ts \<and> ts ! 0 = p \<and> ts ! 1 = p" for p
    unfolding two .
  have "snd (monitor_tick now m) = Some (co_mode (cn_state m), p) \<longleftrightarrow>
      target_at now m = p \<and> p \<noteq> co_mode (cn_state m) \<and> (cn_pending_mode m = Some p \<and> 2 \<le> cn_pending_count m)"
    unfolding tick_fields(4) by (simp split: if_split) blast
  then have "snd (monitor_tick now m) = Some (co_mode (cn_state m), p) \<longleftrightarrow>
           p \<noteq> co_mode (cn_state m) \<and> target_at now m = p \<and> 2 \<le> length ts \<and> ts ! 0 = p \<and> ts ! 1 = p"
    unfolding key by blast
  moreover have "co_mode (cn_state (fst (monitor_tick now m))) =
           (case snd (monitor_tick now m) of None \<Rightarrow> co_mode (cn_state m) | Some (old, new) \<Rightarrow> new)"
    using inv unfolding tick_fields by (auto simp: pending_inv_def pending_ok_def)
  ultimately show ?thesis by blast
qed

lemma mode_hysteresis_witness:
  "let (ts, m) = foldl monitor_step ([], comms_monitor_init ''d'' 0) [Check 1, LinkUp 2 ''lora'' (-90) 1, Check 3, Check 4]
   in snd (monitor_tick 5 m) = Some (FULL_COMMS, MINIMAL)"
proof -
  let ?es = "[Check 1, LinkUp 2 ''lora'' (-90) 1, Check 3, Check 4]"
  obtain ts m where r: "(ts, m) = foldl monitor_step ([], comms_monitor_init ''d'' 0) ?es"
    by (metis surj_pair)
  have eq: "ts = fst (foldl monitor_step ([], comms_monitor_init ''d'' 0) ?es)"
    "m = snd (foldl monitor_step ([], comms_monitor_init ''d'' 0) ?es)"
    unfolding r [symmetric] by simp_all
  have facts: "target_at 5 m = MINIMAL" "ts = [MINIMAL, MINIMAL, DENIED]" "co_mode (cn_state m) = FULL_COMMS"
    unfolding eq by code_simp+
  show ?thesis
    unfolding r [symmetric] using mode_hysteresis [OF r, of 5 MINIMAL] facts by simp
qed

end
