(* ===== verification/Navigation.thy ===== *)
theory Navigation
  imports BrainProtocol
begin

text \<open>
  The position sources of a drone, \<open>olympus/brain/olympus_brain/navigation.py\<close>: GPS health, the
  visual-inertial fallback and the switch between the sources. The calls of \<open>on_source_change\<close> are
  returned as a list. The lemmas characterise the source after every operation and the position
  that is integrated from the last GPS fix.
\<close>

datatype position_source = GPS | VIO | GPS_VIO_FUSED | DEAD_RECKONING

record gps_health =
  gh_satellites :: int
  gh_hdop :: real
  gh_fix_type :: int
  gh_last_fix :: real

definition gps_health0 :: gps_health where
  "gps_health0 = \<lparr>gh_satellites = 0, gh_hdop = 99, gh_fix_type = 0, gh_last_fix = 0\<rparr>"

definition gps_is_good :: "gps_health \<Rightarrow> bool" where
  "gps_is_good g \<longleftrightarrow> 6 \<le> gh_satellites g \<and> gh_hdop g < 4 \<and> 3 \<le> gh_fix_type g"

definition gps_is_usable :: "gps_health \<Rightarrow> bool" where
  "gps_is_usable g \<longleftrightarrow> 4 \<le> gh_satellites g \<and> gh_hdop g < 8 \<and> 2 \<le> gh_fix_type g"

record vio_state =
  vs_enabled :: bool
  vs_tracking_quality :: real
  vs_position_drift_m :: real
  vs_last_update :: real

definition vio_state0 :: vio_state where
  "vio_state0 =
     \<lparr>vs_enabled = False, vs_tracking_quality = 0, vs_position_drift_m = 0, vs_last_update = 0\<rparr>"

definition vio_is_tracking :: "vio_state \<Rightarrow> bool" where
  "vio_is_tracking v \<longleftrightarrow> vs_enabled v \<and> 0.3 < vs_tracking_quality v"

record navigation_state =
  nv_position :: geo_position
  nv_source :: position_source
  nv_gps :: gps_health
  nv_vio :: vio_state
  nv_last_known_gps :: "geo_position option"
  nv_gps_denied_since :: "real option"

definition navigation_state0 :: navigation_state where
  "navigation_state0 =
     \<lparr>nv_position = geo_position0, nv_source = GPS, nv_gps = gps_health0, nv_vio = vio_state0,
      nv_last_known_gps = None, nv_gps_denied_since = None\<rparr>"

type_synonym source_changes = "(position_source \<times> position_source) list"

definition set_source :: "position_source \<Rightarrow> navigation_state \<Rightarrow> source_changes \<times> navigation_state" where
  "set_source new s =
     (if new \<noteq> nv_source s then ([(nv_source s, new)], s\<lparr>nv_source := new\<rparr>) else ([], s))"

definition update_gps ::
  "real \<Rightarrow> geo_position \<Rightarrow> int \<Rightarrow> real \<Rightarrow> int \<Rightarrow> navigation_state \<Rightarrow> source_changes \<times> navigation_state" where
  "update_gps now pos sats hdop fix_type s =
     (let g = \<lparr>gh_satellites = sats, gh_hdop = hdop, gh_fix_type = fix_type, gh_last_fix = now\<rparr>;
          s1 = s\<lparr>nv_gps := g\<rparr>
      in if gps_is_usable g
         then let s2 = s1\<lparr>nv_last_known_gps := Some pos\<rparr>
              in if gps_is_good g
                 then let (ch, s3) = set_source GPS s2
                      in (ch, s3\<lparr>nv_position := pos, nv_gps_denied_since := None\<rparr>)
                 else if vio_is_tracking (nv_vio s2)
                 then let (ch, s3) = set_source GPS_VIO_FUSED s2 in (ch, s3\<lparr>nv_position := pos\<rparr>)
                 else ([], s2)
         else ([], s1))"

definition update_vio ::
  "real \<Rightarrow> real \<Rightarrow> real \<Rightarrow> real \<Rightarrow> real \<Rightarrow> navigation_state \<Rightarrow> navigation_state" where
  "update_vio now delta_x delta_y delta_z quality s =
     (let s1 = s\<lparr>nv_vio := (nv_vio s)\<lparr>vs_enabled := True, vs_tracking_quality := quality,
                                       vs_last_update := now\<rparr>\<rparr>
      in if nv_source s1 \<in> {VIO, DEAD_RECKONING}
         then case nv_last_known_gps s1 of
                None \<Rightarrow> s1
              | Some k \<Rightarrow> s1\<lparr>nv_position :=
                  \<lparr>gp_latitude = gp_latitude k + delta_y / 111320,
                   gp_longitude = gp_longitude k + delta_x / (111320 * cos (radians (gp_latitude k))),
                   gp_altitude = gp_altitude k + delta_z,
                   gp_heading = gp_heading (nv_position s1)\<rparr>\<rparr>
         else s1)"

definition gps_stale :: "real \<Rightarrow> gps_health \<Rightarrow> bool" where
  "gps_stale now g \<longleftrightarrow> (if 0 < gh_last_fix g then 5 < now - gh_last_fix g else True)"

definition check_gps_health :: "real \<Rightarrow> navigation_state \<Rightarrow> source_changes \<times> navigation_state" where
  "check_gps_health now s =
     (if \<not> gps_is_usable (nv_gps s) \<or> gps_stale now (nv_gps s)
      then let s1 = (if nv_gps_denied_since s = None then s\<lparr>nv_gps_denied_since := Some now\<rparr> else s)
           in if vio_is_tracking (nv_vio s1) then set_source VIO s1 else set_source DEAD_RECKONING s1
      else ([], s))"

lemmas nav_defs = set_source_def update_gps_def update_vio_def check_gps_health_def Let_def

section \<open>The source after each operation\<close>

lemma good_is_usable: "gps_is_good g \<Longrightarrow> gps_is_usable g"
  by (simp add: gps_is_good_def gps_is_usable_def)

text \<open>After a GPS report and after a health check the source is what the health of GPS and of the
  visual odometry call for: GPS on a good fix, which also ends the denial and sets the position;
  the fused source on a usable one while the odometry tracks; and, once the fix is unusable or
  older than five seconds, odometry or dead reckoning, with the denial dated from its first
  check. Every change of source, and nothing else, is reported.\<close>

theorem source_follows_health:
  assumes "update_gps now pos sats hdop ft s = (ch, s')" and "check_gps_health now2 s = (ch2, s2)"
  shows "(gps_is_good (nv_gps s') \<longrightarrow> nv_source s' = GPS \<and> nv_position s' = pos \<and> nv_gps_denied_since s' = None)
    \<and> (\<not> gps_is_good (nv_gps s') \<and> gps_is_usable (nv_gps s') \<and> vio_is_tracking (nv_vio s) \<longrightarrow>
         nv_source s' = GPS_VIO_FUSED \<and> nv_position s' = pos)
    \<and> (\<not> gps_is_usable (nv_gps s') \<longrightarrow> nv_source s' = nv_source s \<and> nv_position s' = nv_position s
         \<and> nv_last_known_gps s' = nv_last_known_gps s)
    \<and> (\<not> gps_is_usable (nv_gps s) \<or> gps_stale now2 (nv_gps s) \<longrightarrow>
         nv_source s2 = (if vio_is_tracking (nv_vio s) then VIO else DEAD_RECKONING)
         \<and> nv_gps_denied_since s2 = (case nv_gps_denied_since s of None \<Rightarrow> Some now2 | Some t \<Rightarrow> Some t))
    \<and> (gps_is_usable (nv_gps s) \<and> \<not> gps_stale now2 (nv_gps s) \<longrightarrow> s2 = s)
    \<and> ch = (if nv_source s' = nv_source s then [] else [(nv_source s, nv_source s')])
    \<and> ch2 = (if nv_source s2 = nv_source s then [] else [(nv_source s, nv_source s2)])"
proof -
  have "nv_gps s' = \<lparr>gh_satellites = sats, gh_hdop = hdop, gh_fix_type = ft, gh_last_fix = now\<rparr>"
    using assms(1) by (auto simp: nav_defs split: if_splits)
  moreover have "(\<not> gps_is_usable (nv_gps s) \<or> gps_stale now2 (nv_gps s) \<longrightarrow>
         nv_source s2 = (if vio_is_tracking (nv_vio s) then VIO else DEAD_RECKONING)
         \<and> nv_gps_denied_since s2 = (case nv_gps_denied_since s of None \<Rightarrow> Some now2 | Some t \<Rightarrow> Some t))
    \<and> (gps_is_usable (nv_gps s) \<and> \<not> gps_stale now2 (nv_gps s) \<longrightarrow> s2 = s)
    \<and> ch2 = (if nv_source s2 = nv_source s then [] else [(nv_source s, nv_source s2)])"
    using assms(2) by (auto simp: nav_defs split: if_splits option.splits)
  ultimately show ?thesis
    using assms(1) good_is_usable by (auto simp: nav_defs split: if_splits)
qed

lemma source_follows_health_witness:
  "nv_source (snd (update_gps 10 geo_position0 8 1.2 3 navigation_state0)) = GPS
   \<and> nv_source (snd (check_gps_health 20 navigation_state0)) = DEAD_RECKONING"
proof -
  have "gps_is_good (nv_gps (snd (update_gps 10 geo_position0 8 1.2 3 navigation_state0)))"
    "\<not> gps_is_usable (nv_gps navigation_state0)" "\<not> vio_is_tracking (nv_vio navigation_state0)"
    by code_simp+
  with source_follows_health [of 10 geo_position0 8 "1.2" 3 navigation_state0
      "fst (update_gps 10 geo_position0 8 1.2 3 navigation_state0)"
      "snd (update_gps 10 geo_position0 8 1.2 3 navigation_state0)" 20
      "fst (check_gps_health 20 navigation_state0)" "snd (check_gps_health 20 navigation_state0)"]
  show ?thesis by simp
qed

text \<open>A drone that lost GPS and does not track odometry stays where it was: a GPS fix that is
  usable again but not good neither ends the denial nor moves the position, however many such
  fixes arrive, although the position of the fix is kept as the last known one.\<close>

theorem usable_fix_is_ignored:
  assumes "\<not> vio_is_tracking (nv_vio s)"
    and "\<And>now pos sats hdop ft. (now, pos, sats, hdop, ft) \<in> set reports \<Longrightarrow>
           gps_is_usable \<lparr>gh_satellites = sats, gh_hdop = hdop, gh_fix_type = ft, gh_last_fix = now\<rparr>
           \<and> \<not> gps_is_good \<lparr>gh_satellites = sats, gh_hdop = hdop, gh_fix_type = ft, gh_last_fix = now\<rparr>"
    and "s' = fold (\<lambda>(now, pos, sats, hdop, ft) s. snd (update_gps now pos sats hdop ft s)) reports s"
  shows "nv_position s' = nv_position s \<and> nv_source s' = nv_source s
    \<and> nv_gps_denied_since s' = nv_gps_denied_since s
    \<and> (reports \<noteq> [] \<longrightarrow> nv_last_known_gps s' = Some (fst (snd (last reports))))"
  using assms
proof (induction reports arbitrary: s)
  case (Cons x xs)
  obtain now pos sats hdop ft where x: "x = (now, pos, sats, hdop, ft)" by (cases x)
  let ?s = "snd (update_gps now pos sats hdop ft s)"
  have s: "nv_position ?s = nv_position s \<and> nv_source ?s = nv_source s \<and> nv_vio ?s = nv_vio s
      \<and> nv_gps_denied_since ?s = nv_gps_denied_since s \<and> nv_last_known_gps ?s = Some pos"
    using Cons.prems(1) Cons.prems(2) [of now pos sats hdop ft] x by (simp add: nav_defs)
  then have "\<not> vio_is_tracking (nv_vio ?s)" using Cons.prems(1) by simp
  moreover have "gps_is_usable \<lparr>gh_satellites = n, gh_hdop = h, gh_fix_type = f, gh_last_fix = t\<rparr>
      \<and> \<not> gps_is_good \<lparr>gh_satellites = n, gh_hdop = h, gh_fix_type = f, gh_last_fix = t\<rparr>"
    if "(t, p, n, h, f) \<in> set xs" for t p n h f
    using Cons.prems(2) [of t p n h f] that by simp
  moreover have "s' = fold (\<lambda>(now, pos, sats, hdop, ft) s. snd (update_gps now pos sats hdop ft s)) xs ?s"
    using Cons.prems(3) x by simp
  ultimately have ih: "nv_position s' = nv_position ?s \<and> nv_source s' = nv_source ?s
      \<and> nv_gps_denied_since s' = nv_gps_denied_since ?s
      \<and> (xs \<noteq> [] \<longrightarrow> nv_last_known_gps s' = Some (fst (snd (last xs))))"
    by (rule Cons.IH)
  show ?case
  proof (cases "xs = []")
    case True
    with Cons.prems(3) x s show ?thesis by simp
  qed (use ih s x in simp)
qed simp

lemma usable_fix_is_ignored_witness:
  "nv_position (snd (update_gps 9 (geo_position0\<lparr>gp_latitude := 1\<rparr>) 5 6 2
       (navigation_state0\<lparr>nv_source := DEAD_RECKONING\<rparr>))) = geo_position0"
  using usable_fix_is_ignored [of "navigation_state0\<lparr>nv_source := DEAD_RECKONING\<rparr>"
      "[(9, geo_position0\<lparr>gp_latitude := 1\<rparr>, 5, 6, 2)]", OF _ _ refl]
  by (auto simp: navigation_state0_def vio_is_tracking_def vio_state0_def gps_is_usable_def gps_is_good_def)

end
