(* ===== verification/Coordination.thy ===== *)
theory Coordination
  imports Prelude
begin

text \<open>
  The decentralised coordination of a vehicle, \<open>jetson_agent/coordination.py\<close>, and the gate on
  usable peers, \<open>jetson_agent/peers.py\<close>: velocity-obstacle avoidance, coverage, the search frontier
  and the policy that composes them. The functions are used with a speed limit and a time horizon
  that are not negative resp. not zero, and with radii that are not negative; for such arguments no
  division by zero and no root of a negative number occurs. The lemmas bound every velocity and
  show when the emergency flag is raised.
\<close>

section \<open>Vectors\<close>

type_synonym vec = "real \<times> real"

definition vsub :: "vec \<Rightarrow> vec \<Rightarrow> vec" where
  "vsub a b = (fst a - fst b, snd a - snd b)"

definition vadd :: "vec \<Rightarrow> vec \<Rightarrow> vec" where
  "vadd a b = (fst a + fst b, snd a + snd b)"

definition vscale :: "vec \<Rightarrow> real \<Rightarrow> vec" where
  "vscale a s = (fst a * s, snd a * s)"

definition vdot :: "vec \<Rightarrow> vec \<Rightarrow> real" where
  "vdot a b = fst a * fst b + snd a * snd b"

definition vdet :: "vec \<Rightarrow> vec \<Rightarrow> real" where
  "vdet a b = fst a * snd b - snd a * fst b"

definition vnorm :: "vec \<Rightarrow> real" where
  "vnorm a = sqrt ((fst a)\<^sup>2 + (snd a)\<^sup>2)"

definition vnormalize :: "vec \<Rightarrow> vec" where
  "vnormalize a = (let n = vnorm a in if n < 1 / 10 ^ 9 then (1, 0) else (fst a / n, snd a / n))"

definition clip_speed :: "vec \<Rightarrow> real \<Rightarrow> vec" where
  "clip_speed v max_speed =
     (let s = vnorm v in if max_speed < s then vscale v (max_speed / s) else v)"

section \<open>Collision avoidance\<close>

definition default_radius :: real where
  "default_radius = 5"

definition time_horizon :: real where
  "time_horizon = 5"

definition coverage_repulsion :: real where
  "coverage_repulsion = 12"

type_synonym obstacle = "vec \<times> vec \<times> real"

text \<open>The line (direction, point) one neighbor adds.\<close>

definition orca_line :: "vec \<Rightarrow> vec \<Rightarrow> real \<Rightarrow> real \<Rightarrow> real \<Rightarrow> obstacle \<Rightarrow> vec \<times> vec" where
  "orca_line my_pos preferred max_speed radius tau nb =
     (let (npos, nvel, nrad) = nb;
          rel_pos = vsub npos my_pos; rel_vel = vsub preferred nvel;
          d = vnorm rel_pos; comb_r = radius + nrad
      in if d < 1 / 1000 then ((1, 0), vscale (1, 0) (max_speed * 0.5))
         else if d < comb_r
         then let w = vsub rel_vel (vscale rel_pos (1 / tau)); wl = vnorm w;
                  direction = (if 1 / 1000 < wl then vnormalize w else vnormalize rel_pos);
                  u = vscale direction (comb_r / tau - wl)
              in ((- snd direction, fst direction), vadd preferred (vscale u 0.5))
         else let leg = sqrt (d * d - comb_r * comb_r); rpu = vscale rel_pos (1 / d);
                  ct = leg / d; st = comb_r / d;
                  left = (fst rpu * ct - snd rpu * st, fst rpu * st + snd rpu * ct);
                  right = (fst rpu * ct + snd rpu * st, - fst rpu * st + snd rpu * ct);
                  (direction, line_dir) =
                    (if 0 < vdet rel_pos rel_vel then (left, (snd left, - fst left))
                     else (right, (- snd right, fst right)));
                  proj = max 0 (vdot rel_vel direction);
                  u = vadd (vsub (vscale direction proj) rel_vel) (vscale direction (comb_r / tau))
              in (line_dir, vadd preferred (vscale u 0.5)))"

definition orca_step :: "vec \<Rightarrow> real \<Rightarrow> vec \<times> vec \<Rightarrow> vec \<Rightarrow> vec" where
  "orca_step preferred max_speed line result =
     (let (direction, point) = line
      in if vdet direction (vsub result point) < 0
         then let t = vdot direction (vsub preferred point)
              in clip_speed (vadd point (vscale direction t)) max_speed
         else result)"

definition orca :: "vec \<Rightarrow> vec \<Rightarrow> obstacle list \<Rightarrow> real \<Rightarrow> real \<Rightarrow> real \<Rightarrow> vec \<times> bool" where
  "orca my_pos preferred neighbors max_speed radius tau =
     (let lines = map (orca_line my_pos preferred max_speed radius tau) neighbors;
          result = clip_speed (fold (orca_step preferred max_speed) lines preferred) max_speed
      in (result, 0.1 < vnorm (vsub result preferred)))"

section \<open>Coverage and search\<close>

definition repel_step :: "vec \<Rightarrow> real \<Rightarrow> vec \<Rightarrow> vec \<Rightarrow> vec" where
  "repel_step my_pos cruise npos repel =
     (let away = vsub my_pos npos; d = vnorm away
      in if 1 / 1000 < d \<and> d < coverage_repulsion
         then vadd repel (vscale (vnormalize away)
                            (cruise * (coverage_repulsion - d) / coverage_repulsion))
         else repel)"

definition coverage :: "vec \<Rightarrow> vec \<Rightarrow> vec list \<Rightarrow> real \<Rightarrow> vec" where
  "coverage my_pos goal npos cruise =
     (let to_goal = vsub goal my_pos;
          pref = (if 1 < vnorm to_goal then vscale (vnormalize to_goal) cruise else (0, 0));
          repel = fold (repel_step my_pos cruise) npos (0, 0)
      in clip_speed (vadd pref repel) cruise)"

definition frontier_target :: "vec \<Rightarrow> vec list \<Rightarrow> real \<Rightarrow> vec option \<Rightarrow> vec" where
  "frontier_target my_pos npos step_m prev_dir =
     (let direction0 = (case prev_dir of None \<Rightarrow> (1, 0) | Some d \<Rightarrow> d);
          direction =
            (if npos = [] then direction0
             else let n = real (length npos);
                      away = vsub my_pos (sum_list (map fst npos) / n, sum_list (map snd npos) / n)
                  in if 1 / 1000 < vnorm away then vnormalize away else direction0)
      in vadd my_pos (vscale direction step_m))"

section \<open>The policy\<close>

record policy_result =
  pr_velocity :: vec
  pr_setpoint :: vec
  pr_adjusted :: bool
  pr_emergency :: bool
  pr_overridden :: bool

fun nearest :: "vec \<Rightarrow> obstacle list \<Rightarrow> real option" where
  "nearest my_pos [] = None"
| "nearest my_pos (nb # nbs) =
     (let d = vnorm (vsub (fst nb) my_pos)
      in case nearest my_pos nbs of None \<Rightarrow> Some d | Some e \<Rightarrow> Some (min d e))"

definition coordination_policy ::
  "vec \<Rightarrow> vec \<Rightarrow> obstacle list \<Rightarrow> vec option \<Rightarrow> real \<Rightarrow> real \<Rightarrow> policy_result" where
  "coordination_policy my_pos goal neighbors override_goal max_speed radius =
     (let effective_goal = (case override_goal of None \<Rightarrow> goal | Some g \<Rightarrow> g);
          preferred = coverage my_pos effective_goal (map fst neighbors) (min 4 max_speed);
          (safe, adjusted) = orca my_pos preferred neighbors max_speed radius time_horizon;
          emergency = (case nearest my_pos neighbors of None \<Rightarrow> False | Some d \<Rightarrow> d < radius)
                      \<or> 0.5 < vnorm preferred \<and> vnorm safe < 0.05
      in \<lparr>pr_velocity = safe, pr_setpoint = vadd my_pos (vscale safe 1), pr_adjusted = adjusted,
          pr_emergency = emergency, pr_overridden = (override_goal \<noteq> None)\<rparr>)"

section \<open>Peers\<close>

definition peer_gate_m :: real where
  "peer_gate_m = 50"

record peer =
  pe_eui :: string
  pe_range_m :: real
  pe_lat :: real
  pe_lon :: real

fun gate_50m :: "(string, int) dict \<Rightarrow> (string, real \<times> real) dict \<Rightarrow> peer list" where
  "gate_50m [] positions = []"
| "gate_50m ((eui, range_cm) # nbs) positions =
     (if range_cm \<le> 0 then gate_50m nbs positions
      else let r = of_int range_cm / 100
           in if peer_gate_m < r then gate_50m nbs positions
              else case dget positions eui of
                     None \<Rightarrow> gate_50m nbs positions
                   | Some (lat, lon) \<Rightarrow>
                       \<lparr>pe_eui = eui, pe_range_m = r, pe_lat = lat, pe_lon = lon\<rparr>
                       # gate_50m nbs positions)"

section \<open>Speeds\<close>

lemma vnorm_nonneg [simp]: "0 \<le> vnorm v"
  by (simp add: vnorm_def)

lemma vnorm_scale: "vnorm (vscale v s) = vnorm v * \<bar>s\<bar>"
proof -
  have "(fst v * s)\<^sup>2 + (snd v * s)\<^sup>2 = ((fst v)\<^sup>2 + (snd v)\<^sup>2) * s\<^sup>2"
    by (simp add: power_mult_distrib algebra_simps)
  then show ?thesis by (simp add: vnorm_def vscale_def real_sqrt_mult)
qed

lemma clip_speed_bound: "0 \<le> m \<Longrightarrow> vnorm (clip_speed v m) \<le> m"
  by (auto simp: clip_speed_def Let_def vnorm_scale)

lemma clip_speed_id: "vnorm v \<le> m \<Longrightarrow> clip_speed v m = v"
  by (simp add: clip_speed_def Let_def)

lemma nearest_less:
  "(case nearest my_pos nbs of None \<Rightarrow> False | Some d \<Rightarrow> d < r)
     \<longleftrightarrow> (\<exists>nb \<in> set nbs. vnorm (vsub (fst nb) my_pos) < r)"
  by (induction nbs) (auto simp: Let_def min_less_iff_disj split: option.splits)

lemma orca_no_neighbors:
  "vnorm preferred \<le> max_speed \<Longrightarrow> orca my_pos preferred [] max_speed radius tau = (preferred, False)"
  by (simp add: orca_def Let_def clip_speed_id vsub_def vnorm_def)

text \<open>C20: Whatever the goal, the neighbors and the override, the velocity the policy commands never
  exceeds the speed limit and is always the one collision avoidance returns, also under an
  override; the setpoint is one second ahead on it; a vehicle without neighbors flies its
  preferred velocity unchanged; and a neighbor closer than the own radius always raises the
  emergency flag, which nothing else suppresses.\<close>

theorem policy_bounded:
  assumes "0 \<le> max_speed"
    and "p = coordination_policy my_pos goal nbs ov max_speed radius"
    and "pref = coverage my_pos (case ov of None \<Rightarrow> goal | Some g \<Rightarrow> g) (map fst nbs) (min 4 max_speed)"
  shows "vnorm (pr_velocity p) \<le> max_speed
    \<and> pr_velocity p = fst (orca my_pos pref nbs max_speed radius time_horizon)
    \<and> pr_setpoint p = vadd my_pos (pr_velocity p)
    \<and> (nbs = [] \<longrightarrow> pr_velocity p = pref \<and> \<not> pr_emergency p)
    \<and> ((\<exists>nb \<in> set nbs. vnorm (vsub (fst nb) my_pos) < radius) \<longrightarrow> pr_emergency p)
    \<and> (pr_emergency p \<longleftrightarrow> (\<exists>nb \<in> set nbs. vnorm (vsub (fst nb) my_pos) < radius)
         \<or> 0.5 < vnorm pref \<and> vnorm (pr_velocity p) < 0.05)"
proof -
  have "0 \<le> min 4 max_speed" using assms(1) by simp
  then have "vnorm pref \<le> min 4 max_speed"
    unfolding assms(3) coverage_def Let_def by (rule clip_speed_bound)
  then have pref: "vnorm pref \<le> max_speed" by simp
  obtain safe adj where o: "orca my_pos pref nbs max_speed radius time_horizon = (safe, adj)"
    by (cases "orca my_pos pref nbs max_speed radius time_horizon")
  have p: "p = \<lparr>pr_velocity = safe, pr_setpoint = vadd my_pos (vscale safe 1), pr_adjusted = adj,
      pr_emergency = (case nearest my_pos nbs of None \<Rightarrow> False | Some d \<Rightarrow> d < radius)
                      \<or> 0.5 < vnorm pref \<and> vnorm safe < 0.05, pr_overridden = (ov \<noteq> None)\<rparr>"
    using o unfolding assms(2) coordination_policy_def Let_def assms(3) [symmetric] by simp
  have "vnorm safe \<le> max_speed"
  proof -
    have "safe = fst (orca my_pos pref nbs max_speed radius time_horizon)" by (simp add: o)
    then show ?thesis unfolding orca_def Let_def fst_conv by (simp only: clip_speed_bound [OF assms(1)])
  qed
  moreover have "safe = pref" if "nbs = []"
    using o orca_no_neighbors [OF pref] that by simp
  ultimately show ?thesis
    unfolding p nearest_less using o by (auto simp: vscale_def)
qed

lemma policy_bounded_witness:
  "vnorm (pr_velocity (coordination_policy (0, 0) (9, 0) [((3, 0), (0, 0), 1)] None 8 5)) \<le> 8
   \<and> pr_emergency (coordination_policy (0, 0) (9, 0) [((3, 0), (0, 0), 1)] None 8 5)"
proof -
  have "vnorm (vsub (3, 0) (0, 0)) < 5" by (simp add: vnorm_def vsub_def)
  then have "\<exists>nb \<in> set [((3, 0), (0, 0), 1 :: real)]. vnorm (vsub (fst nb) (0, 0)) < 5" by simp
  then show ?thesis
    using policy_bounded [OF zero_le_numeral refl refl] by blast
qed

lemma vnorm_normalize: "1 / 1000 < vnorm v \<Longrightarrow> vnorm (vnormalize v) = 1"
proof -
  assume v: "1 / 1000 < vnorm v"
  then have "vnormalize v = vscale v (1 / vnorm v)"
    by (simp add: vnormalize_def vscale_def Let_def)
  with v show "vnorm (vnormalize v) = 1" by (simp add: vnorm_scale)
qed

lemma lone_policy:
  assumes "1 < vnorm (vsub g my)"
  shows "pr_velocity (coordination_policy my goal [] (Some g) 8 r) = vscale (vnormalize (vsub g my)) 4"
    and "vnorm (pr_velocity (coordination_policy my goal [] (Some g) 8 r)) = 4"
proof -
  have n: "vnorm (vscale (vnormalize (vsub g my)) 4) = 4"
    using assms by (simp add: vnorm_scale vnorm_normalize)
  then have "coverage my g [] 4 = vscale (vnormalize (vsub g my)) 4"
    using assms by (simp add: coverage_def Let_def vadd_def clip_speed_id)
  with n orca_no_neighbors [of "vscale (vnormalize (vsub g my)) 4" 8 my r time_horizon]
  show "pr_velocity (coordination_policy my goal [] (Some g) 8 r) = vscale (vnormalize (vsub g my)) 4"
    by (simp add: coordination_policy_def Let_def)
  with n show "vnorm (pr_velocity (coordination_policy my goal [] (Some g) 8 r)) = 4" by simp
qed

text \<open>A line is satisfied after its step unless the speed limit intervenes.\<close>

lemma orca_step_satisfies:
  assumes "vnorm (vadd (snd line) (vscale (fst line) (vdot (fst line) (vsub pref (snd line))))) \<le> max_speed"
  shows "0 \<le> vdet (fst line) (vsub (orca_step pref max_speed line v) (snd line))"
proof (cases "vdet (fst line) (vsub v (snd line)) < 0")
  case True
  then have "orca_step pref max_speed line v
      = vadd (snd line) (vscale (fst line) (vdot (fst line) (vsub pref (snd line))))"
    using assms by (cases line) (simp add: orca_step_def Let_def clip_speed_id)
  then show ?thesis by (simp add: vdet_def vsub_def vadd_def vscale_def)
next
  case False
  then show ?thesis by (cases line) (simp add: orca_step_def)
qed

lemma gate_sound:
  "p \<in> set (gate_50m nbs positions) \<Longrightarrow>
     \<exists>cm. (pe_eui p, cm) \<in> set nbs \<and> 0 < cm \<and> pe_range_m p = of_int cm / 100 \<and> pe_range_m p \<le> 50
        \<and> dget positions (pe_eui p) = Some (pe_lat p, pe_lon p)"
proof (induction nbs)
  case (Cons x nbs)
  obtain e cm where x: "x = (e, cm)" by (cases x)
  show ?case
  proof (cases "p \<in> set (gate_50m nbs positions)")
    case True
    with Cons.IH show ?thesis by auto
  next
    case False
    with Cons.prems x show ?thesis
      by (intro exI [of _ cm]) (auto simp: Let_def peer_gate_m_def split: if_splits option.splits)
  qed
qed simp

end
