(* ===== verification/Ekf.thy ===== *)
theory Ekf
  imports Coordination
begin

text \<open>
  The fusion filter of the companion computer, \<open>jetson_agent/ekf.py\<close>: the 5-state constant
  velocity filter with its flat 5 by 5 covariance, its scalar update and the four measurements. The
  covariance is the list of 25 entries the code keeps; loops over \<open>range(5)\<close> are folds over the
  same indices in the same order. The lemmas show that every operation leaves the covariance
  symmetric with a diagonal bounded away from zero, so that \<open>get_fix\<close> never takes the root of a
  negative number, and that the heading read out is in range.
\<close>

definition PN :: nat where "PN = 0"
definition PE :: nat where "PE = 1"
definition VN :: nat where "VN = 2"
definition VE :: nat where "VE = 3"
definition PSI :: nat where "PSI = 4"

lemmas state_index = PN_def PE_def VN_def VE_def PSI_def

definition mpd_lat :: real where
  "mpd_lat = 111320"

definition deg2rad :: real where
  "deg2rad = pi / 180"

definition rad2deg :: real where
  "rad2deg = 180 / pi"

definition p_diag_min :: real where
  "p_diag_min = 1 / 1000000"

definition q_vel :: real where
  "q_vel = 0.5"

definition q_yaw :: real where
  "q_yaw = 0.05"

definition wrap_pi :: "real \<Rightarrow> real" where
  "wrap_pi a = py_fmod (a + pi) (2 * pi) - pi"

definition ix :: "nat \<Rightarrow> nat \<Rightarrow> nat" where
  "ix r c = r * 5 + c"

record ekf =
  ek_x :: "real list"
  ek_P :: "real list"
  ek_lat0 :: real
  ek_lon0 :: real
  ek_mpd_lon :: real
  ek_anchored :: bool

definition ekf_init :: ekf where
  "ekf_init =
     \<lparr>ek_x = replicate 5 0,
      ek_P = (replicate 25 0)[ix PN PN := 1000000, ix PE PE := 1000000, ix VN VN := 25, ix VE VE := 25,
                              ix PSI PSI := pi * pi],
      ek_lat0 = 0, ek_lon0 = 0, ek_mpd_lon = mpd_lat, ek_anchored = False\<rparr>"

definition set_anchor :: "real \<Rightarrow> real \<Rightarrow> ekf \<Rightarrow> ekf" where
  "set_anchor lat lon e =
     e\<lparr>ek_lat0 := lat, ek_lon0 := lon, ek_mpd_lon := mpd_lat * cos (lat * deg2rad),
       ek_x := (ek_x e)[PN := 0, PE := 0],
       ek_P := (ek_P e)[ix PN PN := 25, ix PE PE := 25], ek_anchored := True\<rparr>"

definition to_enu :: "ekf \<Rightarrow> real \<Rightarrow> real \<Rightarrow> vec" where
  "to_enu e lat lon = ((lat - ek_lat0 e) * mpd_lat, (lon - ek_lon0 e) * ek_mpd_lon e)"

definition ekf_to_ll :: "ekf \<Rightarrow> real \<Rightarrow> real \<Rightarrow> real \<times> real" where
  "ekf_to_ll e pn pe = (ek_lat0 e + pn / mpd_lat, ek_lon0 e + pe / ek_mpd_lon e)"

section \<open>Linear algebra\<close>

definition mat_mul :: "real list \<Rightarrow> real list \<Rightarrow> real list" where
  "mat_mul a b =
     concat (map (\<lambda>i. map (\<lambda>j. sum_list (map (\<lambda>k. a ! ix i k * b ! ix k j) [0..<5])) [0..<5]) [0..<5])"

definition mat_mul_abt :: "real list \<Rightarrow> real list \<Rightarrow> real list" where
  "mat_mul_abt a b =
     concat (map (\<lambda>i. map (\<lambda>j. sum_list (map (\<lambda>k. a ! ix i k * b ! ix j k) [0..<5])) [0..<5]) [0..<5])"

definition average_pair :: "nat \<Rightarrow> nat \<Rightarrow> real list \<Rightarrow> real list" where
  "average_pair i j p =
     (let a = 0.5 * (p ! ix i j + p ! ix j i) in p[ix j i := a, ix i j := a])"

definition clamp_diagonal :: "nat \<Rightarrow> real list \<Rightarrow> real list" where
  "clamp_diagonal i p = (if p ! ix i i < p_diag_min then p[ix i i := p_diag_min] else p)"

definition condition_row :: "nat \<Rightarrow> real list \<Rightarrow> real list" where
  "condition_row i p = clamp_diagonal i (fold (average_pair i) [i + 1..<5] p)"

definition condition :: "real list \<Rightarrow> real list" where
  "condition p = fold condition_row [0..<5] p"

section \<open>Prediction and update\<close>

definition add_at :: "nat \<Rightarrow> nat \<Rightarrow> real \<Rightarrow> real list \<Rightarrow> real list" where
  "add_at r c d p = p[ix r c := p ! ix r c + d]"

definition transition :: "real \<Rightarrow> real list" where
  "transition dt =
     (fold (\<lambda>i f. f[ix i i := 1]) [0..<5] (replicate 25 0))[ix PN VN := dt, ix PE VE := dt]"

definition process_noise :: "real \<Rightarrow> real list \<Rightarrow> real list" where
  "process_noise dt p =
     (let qpp = q_vel * dt ^ 3 / 3; qpv = q_vel * dt * dt * 0.5; qvv = q_vel * dt
      in (add_at PSI PSI (q_yaw * dt) \<circ> add_at VE VE qvv \<circ> add_at VE PE qpv \<circ> add_at PE VE qpv
          \<circ> add_at PE PE qpp \<circ> add_at VN VN qvv \<circ> add_at VN PN qpv \<circ> add_at PN VN qpv
          \<circ> add_at PN PN qpp) p)"

definition predict :: "real \<Rightarrow> ekf \<Rightarrow> ekf" where
  "predict dt e =
     (if dt \<le> 0 \<or> 5 < dt \<or> \<not> ek_anchored e then e
      else let x = ek_x e;
               x1 = x[PN := x ! PN + x ! VN * dt];
               x2 = x1[PE := x1 ! PE + x1 ! VE * dt];
               f = transition dt;
               p = mat_mul_abt (mat_mul f (ek_P e)) f
           in e\<lparr>ek_x := x2, ek_P := condition (process_noise dt p)\<rparr>)"

definition gain_row :: "real list \<Rightarrow> real list \<Rightarrow> nat \<Rightarrow> real" where
  "gain_row p h i = sum_list (map (\<lambda>j. p ! ix i j * h ! j) [0..<5])"

definition update_scalar :: "real list \<Rightarrow> real \<Rightarrow> real \<Rightarrow> bool \<Rightarrow> ekf \<Rightarrow> ekf" where
  "update_scalar h y0 r is_angle e =
     (let y = (if is_angle then wrap_pi y0 else y0);
          pht = map (gain_row (ek_P e) h) [0..<5];
          s = sum_list (map (\<lambda>i. h ! i * pht ! i) [0..<5]) + r
      in if s < 1 / 10 ^ 9 then e
         else let k = map (\<lambda>i. pht ! i / s) [0..<5];
                  x = map (\<lambda>i. ek_x e ! i + k ! i * y) [0..<5];
                  x' = (if is_angle then x[PSI := wrap_pi (x ! PSI)] else x);
                  p = concat (map (\<lambda>i. map (\<lambda>j. ek_P e ! ix i j - k ! i * pht ! j) [0..<5]) [0..<5])
              in e\<lparr>ek_x := x', ek_P := condition p\<rparr>)"

definition sel :: "nat \<Rightarrow> real list" where
  "sel i = (replicate 5 0)[i := 1]"

section \<open>Measurements\<close>

definition update_nrf :: "real \<Rightarrow> real \<Rightarrow> real \<Rightarrow> real \<Rightarrow> real \<Rightarrow> real \<Rightarrow> real \<Rightarrow> ekf \<Rightarrow> ekf" where
  "update_nrf lat lon heading_deg vel_n vel_e pos_std hdg_std e =
     (if \<not> ek_anchored e
      then let e1 = set_anchor lat lon e in e1\<lparr>ek_x := (ek_x e1)[VN := vel_n, VE := vel_e]\<rparr>
      else let (pn, pe) = to_enu e lat lon;
               rp = max 0.25 (pos_std * pos_std);
               e1 = update_scalar (sel PN) (pn - ek_x e ! PN) rp False e;
               e2 = update_scalar (sel PE) (pe - ek_x e1 ! PE) rp False e1;
               e3 = update_scalar (sel VN) (vel_n - ek_x e2 ! VN) 0.25 False e2;
               e4 = update_scalar (sel VE) (vel_e - ek_x e3 ! VE) 0.25 False e3;
               psi = (90 - heading_deg) * pi / 180;
               rh = max 1 (hdg_std * hdg_std) * deg2rad * deg2rad
           in update_scalar (sel PSI) (psi - ek_x e4 ! PSI) rh True e4)"

definition ekf_update_vio :: "real \<Rightarrow> real \<Rightarrow> real \<Rightarrow> real \<Rightarrow> real \<Rightarrow> ekf \<Rightarrow> ekf" where
  "ekf_update_vio d_north d_east d_yaw dt cov e =
     (if dt \<le> 0 \<or> \<not> ek_anchored e then e
      else let e1 = update_scalar (sel VN) (d_north / dt - ek_x e ! VN) (cov / (dt * dt)) False e;
               e2 = update_scalar (sel VE) (d_east / dt - ek_x e1 ! VE) (cov / (dt * dt)) False e1
           in if 1 / 10000 < \<bar>d_yaw\<bar>
              then update_scalar (sel PSI) (wrap_pi (ek_x e2 ! PSI + d_yaw) - ek_x e2 ! PSI) cov True e2
              else e2)"

definition update_range :: "real \<Rightarrow> real \<Rightarrow> real \<Rightarrow> real \<Rightarrow> ekf \<Rightarrow> bool \<times> ekf" where
  "update_range peer_pn peer_pe range_m std_m e =
     (if \<not> ek_anchored e \<or> range_m \<le> 0 \<or> peer_gate_m < range_m then (False, e)
      else let dn = ek_x e ! PN - peer_pn; de = ek_x e ! PE - peer_pe; d = vnorm (dn, de)
           in if d < 0.5 then (False, e)
              else (True, update_scalar [dn / d, de / d, 0, 0, 0] (range_m - d) (std_m * std_m) False e))"

section \<open>Readout\<close>

record ekf_fix =
  fx_lat :: real
  fx_lon :: real
  fx_vel_n :: real
  fx_vel_e :: real
  fx_heading :: real
  fx_pos_std :: real
  fx_hdg_std :: real
  fx_converged :: bool

definition get_fix :: "ekf \<Rightarrow> ekf_fix" where
  "get_fix e =
     (let (lat, lon) = ekf_to_ll e (ek_x e ! PN) (ek_x e ! PE);
          compass = py_fmod (90 - ek_x e ! PSI * rad2deg) 360;
          pos_std = sqrt (0.5 * (ek_P e ! ix PN PN + ek_P e ! ix PE PE));
          hdg_std = sqrt (max 0 (ek_P e ! ix PSI PSI)) * rad2deg
      in \<lparr>fx_lat = lat, fx_lon = lon, fx_vel_n = ek_x e ! VN, fx_vel_e = ek_x e ! VE,
          fx_heading = compass, fx_pos_std = pos_std, fx_hdg_std = hdg_std,
          fx_converged = pos_std < 10\<rparr>)"

section \<open>The covariance stays sound\<close>

definition cov_ok :: "real list \<Rightarrow> bool" where
  "cov_ok p \<longleftrightarrow> length p = 25
     \<and> (\<forall>i < 5. \<forall>j < 5. p ! ix i j = p ! ix j i) \<and> (\<forall>i < 5. p_diag_min \<le> p ! ix i i)"

lemma range5: "[0..<5] = [0, 1, 2, 3, 4 :: nat]" "[1..<5] = [1, 2, 3, 4 :: nat]" "[2..<5] = [2, 3, 4 :: nat]"
  "[3..<5] = [3, 4 :: nat]" "[4..<5] = [4 :: nat]" "[5..<5] = ([] :: nat list)"
  by (simp_all add: upt_rec)

lemma ix_bound: "\<lbrakk>i < 5; j < 5\<rbrakk> \<Longrightarrow> ix i j < 25"
  by (simp add: ix_def)

lemma ix_eq: "\<lbrakk>j < 5; j' < 5\<rbrakk> \<Longrightarrow> ix i j = ix i' j' \<longleftrightarrow> i = i' \<and> j = j'"
  unfolding ix_def by presburger

lemma average_pair_nth:
  assumes "length p = 25" and "i < 5" and "j < 5" and "i \<noteq> j" and "a < 5" and "b < 5"
  shows "average_pair i j p ! ix a b =
      (if {a, b} = {i, j} \<and> a \<noteq> b then 0.5 * (p ! ix i j + p ! ix j i) else p ! ix a b)"
  using assms by (auto simp: average_pair_def Let_def nth_list_update ix_bound ix_eq doubleton_eq_iff)

lemma average_pair_length [simp]: "length (average_pair i j p) = length p"
  by (simp add: average_pair_def Let_def)

lemma clamp_diagonal_length [simp]: "length (clamp_diagonal i p) = length p"
  by (simp add: clamp_diagonal_def)

lemma clamp_diagonal_nth:
  assumes "length p = 25" and "i < 5" and "a < 5" and "b < 5"
  shows "clamp_diagonal i p ! ix a b =
      (if a = i \<and> b = i then max p_diag_min (p ! ix i i) else p ! ix a b)"
  using assms by (auto simp: clamp_diagonal_def nth_list_update ix_bound ix_eq)

text \<open>The pairs \<open>(i, j)\<close> a row makes symmetric, and the entries it leaves alone.\<close>

lemma fold_average:
  assumes "length p = 25" and "i < 5" and "distinct js" and "\<forall>j \<in> set js. j < 5 \<and> j \<noteq> i" and "a < 5" and "b < 5"
  shows "fold (average_pair i) js p ! ix a b =
      (if a = i \<and> b \<in> set js \<or> b = i \<and> a \<in> set js then 0.5 * (p ! ix a b + p ! ix b a) else p ! ix a b)"
  using assms
proof (induction js arbitrary: p)
  case (Cons j js)
  have j: "j < 5" "j \<noteq> i" "j \<notin> set js" using Cons.prems by auto
  have "fold (average_pair i) js (average_pair i j p) ! ix a b =
      (if a = i \<and> b \<in> set js \<or> b = i \<and> a \<in> set js
       then 0.5 * (average_pair i j p ! ix a b + average_pair i j p ! ix b a) else average_pair i j p ! ix a b)"
    using Cons.prems by (intro Cons.IH) auto
  with Cons.prems j show ?case
    by (auto simp: average_pair_nth doubleton_eq_iff)
qed simp

lemma fold_average_length [simp]: "length (fold (average_pair i) js p) = length p"
  by (induction js arbitrary: p) simp_all

lemma condition_row_length [simp]: "length (condition_row i p) = length p"
  by (simp add: condition_row_def)

lemma condition_row_nth:
  assumes "length p = 25" and "i < 5" and "a < 5" and "b < 5"
  shows "condition_row i p ! ix a b =
      (if a = i \<and> b = i then max p_diag_min (p ! ix i i)
       else if a = i \<and> i < b \<or> b = i \<and> i < a then 0.5 * (p ! ix a b + p ! ix b a) else p ! ix a b)"
  using assms by (auto simp: condition_row_def clamp_diagonal_nth fold_average)

lemma fold_condition:
  assumes "length p = 25" and "n \<le> 5"
  shows "length (fold condition_row [0..<n] p) = 25
    \<and> (\<forall>a < n. \<forall>b < 5. fold condition_row [0..<n] p ! ix a b = fold condition_row [0..<n] p ! ix b a)
    \<and> (\<forall>a < n. p_diag_min \<le> fold condition_row [0..<n] p ! ix a a)"
  using assms(2)
proof (induction n)
  case 0
  then show ?case using assms(1) by simp
next
  case (Suc n)
  let ?q = "fold condition_row [0..<n] p"
  have q: "length ?q = 25" "n < 5"
    and sym: "\<And>a b. \<lbrakk>a < n; b < 5\<rbrakk> \<Longrightarrow> ?q ! ix a b = ?q ! ix b a"
    and diag: "\<And>a. a < n \<Longrightarrow> p_diag_min \<le> ?q ! ix a a"
    using Suc by auto
  have n: "condition_row n ?q ! ix a b =
      (if a = n \<and> b = n then max p_diag_min (?q ! ix n n)
       else if a = n \<and> n < b \<or> b = n \<and> n < a then 0.5 * (?q ! ix a b + ?q ! ix b a) else ?q ! ix a b)"
    if "a < 5" "b < 5" for a b
    using condition_row_nth [OF q that] .
  have "condition_row n ?q ! ix a b = condition_row n ?q ! ix b a" if "a < Suc n" "b < 5" for a b
  proof -
    have a: "a < 5" using that q(2) by simp
    show ?thesis
    proof (cases "a = n")
      case True
      then show ?thesis using n [OF a that(2)] n [OF that(2) a] sym [of b a] a by (auto simp: not_less_iff_gr_or_eq)
    next
      case False
      with that have "a < n" by simp
      then show ?thesis using n [OF a that(2)] n [OF that(2) a] sym [OF _ that(2), of a] by auto
    qed
  qed
  moreover have "p_diag_min \<le> condition_row n ?q ! ix a a" if "a < Suc n" for a
    using n [of a a] diag [of a] that q(2) by (auto simp: less_Suc_eq)
  ultimately show ?case using q(1) by auto
qed

lemma condition_ok: "length p = 25 \<Longrightarrow> cov_ok (condition p)"
  using fold_condition [of p 5] unfolding cov_ok_def condition_def by auto

lemma mat_length: "length (mat_mul a b) = 25" "length (mat_mul_abt a b) = 25"
  by (simp_all add: mat_mul_def mat_mul_abt_def range5)

lemma noise_length: "length (process_noise dt p) = length p"
  by (simp add: process_noise_def Let_def add_at_def)

text \<open>The state of the filter: five numbers, and a sound covariance.\<close>

definition ekf_ok :: "ekf \<Rightarrow> bool" where
  "ekf_ok e \<longleftrightarrow> length (ek_x e) = 5 \<and> cov_ok (ek_P e)"

lemma cov_okD: "\<lbrakk>cov_ok p; i < 5; j < 5\<rbrakk> \<Longrightarrow> p ! ix i j = p ! ix j i" "cov_ok p \<Longrightarrow> length p = 25"
  "\<lbrakk>cov_ok p; i < 5\<rbrakk> \<Longrightarrow> p_diag_min \<le> p ! ix i i"
  by (simp_all add: cov_ok_def)

lemma cov_ok_diagonal:
  assumes "cov_ok p" and "i < 5" and "p_diag_min \<le> v"
  shows "cov_ok (p[ix i i := v])"
  using assms by (auto simp: cov_ok_def nth_list_update ix_bound ix_eq)

lemma init_ok: "ekf_ok ekf_init"
proof -
  have "1 \<le> pi * pi" using pi_ge_two mult_mono [of 1 pi 1 pi] by simp
  then have "p_diag_min \<le> pi * pi" by (simp add: p_diag_min_def)
  moreover have "ek_P ekf_init ! ix i j = (if i = j then [1000000, 1000000, 25, 25, pi * pi] ! i else 0)"
    if "i < 5" "j < 5" for i j
  proof -
    from that have "i \<in> {0, 1, 2, 3, 4}" "j \<in> {0, 1, 2, 3, 4}" by auto
    then show ?thesis by (auto simp: ekf_init_def ix_def state_index)
  qed
  moreover have "p_diag_min \<le> [1000000, 1000000, 25, 25, pi * pi] ! i" if "i < 5" for i
  proof -
    from that have "i \<in> {0, 1, 2, 3, 4}" by auto
    then show ?thesis using \<open>p_diag_min \<le> pi * pi\<close> by (auto simp: p_diag_min_def)
  qed
  ultimately show ?thesis
    unfolding ekf_ok_def cov_ok_def by (auto simp: ekf_init_def)
qed

lemma anchor_ok: "ekf_ok e \<Longrightarrow> ekf_ok (set_anchor lat lon e)"
  by (auto simp: ekf_ok_def set_anchor_def p_diag_min_def state_index intro!: cov_ok_diagonal)

lemma predict_ok: "ekf_ok e \<Longrightarrow> ekf_ok (predict dt e)"
  by (auto simp: ekf_ok_def predict_def Let_def noise_length mat_length intro!: condition_ok)

lemma grid_length: "length (concat (map (\<lambda>i. map (f i) [0..<5]) [0..<5])) = 25"
  by (simp add: range5)

lemma update_scalar_ok: "ekf_ok e \<Longrightarrow> ekf_ok (update_scalar h y r ang e)"
  by (auto simp: ekf_ok_def update_scalar_def Let_def grid_length intro!: condition_ok)

lemma update_nrf_ok: "ekf_ok e \<Longrightarrow> ekf_ok (update_nrf lat lon hdg vn ve ps hs e)"
proof -
  assume ok: "ekf_ok e"
  have "ekf_ok ((set_anchor lat lon e)\<lparr>ek_x := (ek_x (set_anchor lat lon e))[VN := vn, VE := ve]\<rparr>)"
    using anchor_ok [OF ok, of lat lon] by (simp add: ekf_ok_def)
  then show ?thesis using ok by (simp add: update_nrf_def Let_def update_scalar_ok split: prod.split)
qed

lemma update_vio_ok: "ekf_ok e \<Longrightarrow> ekf_ok (ekf_update_vio dn de dy dt cov e)"
  by (simp add: ekf_update_vio_def Let_def update_scalar_ok)

lemma update_range_ok: "ekf_ok e \<Longrightarrow> ekf_ok (snd (update_range pn pe rm sd e))"
  by (simp add: update_range_def Let_def update_scalar_ok)

datatype ekf_event =
    Predict real | NrfPose real real real real real real real | VioDelta real real real real real
  | PeerRange real real real real

fun ekf_step :: "ekf \<Rightarrow> ekf_event \<Rightarrow> ekf" where
  "ekf_step e (Predict dt) = predict dt e"
| "ekf_step e (NrfPose lat lon hdg vn ve ps hs) = update_nrf lat lon hdg vn ve ps hs e"
| "ekf_step e (VioDelta dn de dy dt cov) = ekf_update_vio dn de dy dt cov e"
| "ekf_step e (PeerRange pn pe rm sd) = snd (update_range pn pe rm sd e)"

interpretation ekf_machine: event_machine ekf_step ekf_ok
proof unfold_locales
  fix e ev assume "ekf_ok e"
  then show "ekf_ok (ekf_step e ev)"
    by (cases ev) (simp_all add: predict_ok update_nrf_ok update_vio_ok update_range_ok)
qed

text \<open>C19: After any sequence of predictions and measurements the covariance is symmetric with every
  variance at least 1e-6; reading the fix out therefore never takes the root of a negative
  number, its position uncertainty is positive, and its heading is in [0, 360).\<close>

theorem ekf_sound:
  "cov_ok (ek_P (foldl ekf_step ekf_init es)) \<and> length (ek_x (foldl ekf_step ekf_init es)) = 5
   \<and> (let e = foldl ekf_step ekf_init es; f = get_fix e
      in 0 < 0.5 * (ek_P e ! ix PN PN + ek_P e ! ix PE PE) \<and> 0 < fx_pos_std f \<and> 0 < fx_hdg_std f
         \<and> 0 \<le> fx_heading f \<and> fx_heading f < 360)"
proof -
  let ?e = "foldl ekf_step ekf_init es"
  have ok: "ekf_ok ?e" by (rule ekf_machine.run_inv [OF init_ok])
  have d: "p_diag_min \<le> ek_P ?e ! ix i i" if "i < 5" for i
    using ok that by (simp add: ekf_ok_def cov_okD)
  have "0 < 0.5 * (ek_P ?e ! ix PN PN + ek_P ?e ! ix PE PE)" and psi: "0 < ek_P ?e ! ix PSI PSI"
    using d [of PN] d [of PE] d [of PSI] by (simp_all add: p_diag_min_def state_index)
  then show ?thesis
    using ok by (simp add: ekf_ok_def get_fix_def ekf_to_ll_def Let_def py_fmod_bounds rad2deg_def)
qed

text \<open>The gate: a range beyond 50 m, or to a peer on the same spot, changes nothing.\<close>

lemma range_gate:
  "\<lbrakk>peer_gate_m < rm \<or> rm \<le> 0 \<or> \<not> ek_anchored e\<rbrakk> \<Longrightarrow> update_range pn pe rm sd e = (False, e)"
  by (auto simp: update_range_def)

end
