(* ===== verification/JetsonAgent.thy ===== *)
theory JetsonAgent
  imports Messages Registry BrainProtocol Coordination Ekf
begin

text \<open>
  The companion of one vehicle (\<open>src/jetson_agent/override.py\<close>, \<open>mission.py\<close>,
  \<open>agent.py\<close>): the override state a base station sets, the mission planner it preempts, and
  the agent that decodes the frames of its own radio module, fuses its pose, injects the result
  back, plans and publishes.

  What the agent calls outside is an argument or a recorded effect: the clock (one reading per
  call), the GPS fix, the camera delta and the number of detections of a tick are inputs; a
  frame written to the serial line, a registration and a telemetry push are appended to
  \<open>ag_effects\<close> in the order the code makes them. An operation that can raise returns the state
  it leaves behind together with the exception.
\<close>

section \<open>The override\<close>

type_synonym latlon = "real \<times> real"

record override =
  ov_goal :: "latlon option"
  ov_kind :: "int option"
  ov_set_at :: real
  ov_ttl :: int
  ov_sticky :: bool

definition override_init :: override where
  "override_init = \<lparr>ov_goal = None, ov_kind = None, ov_set_at = 0, ov_ttl = 0, ov_sticky = False\<rparr>"

definition override_clear :: "override \<Rightarrow> override" where
  "override_clear o' = o'\<lparr>ov_goal := None, ov_kind := None, ov_sticky := False\<rparr>"

definition apply_cmd :: "real \<Rightarrow> int \<Rightarrow> bytes \<Rightarrow> override \<Rightarrow> (bool \<times> override) result" where
  "apply_cmd now op params o' =
     (if op \<in> {cmd_code SET_WAYPOINT, cmd_code OVERRIDE}
      then rbind (unpack_waypoint params) (\<lambda>wp.
           Inr (True, \<lparr>ov_goal = Some (wp_lat wp, wp_lon wp), ov_kind = Some (wp_mission_type wp),
                       ov_set_at = now, ov_ttl = wp_ttl_s wp,
                       ov_sticky = (op = cmd_code OVERRIDE \<or> wp_ttl_s wp = 0)\<rparr>))
      else if op = cmd_code SET_MISSION
      then rbind (unpack_mission params) (\<lambda>(mt, ttl).
           Inr (True, o'\<lparr>ov_kind := Some mt, ov_set_at := now, ov_ttl := ttl, ov_sticky := (ttl = 0)\<rparr>))
      else if op = cmd_code CLEAR_OVERRIDE then Inr (True, override_clear o')
      else Inr (False, o'))"

definition override_active :: "real \<Rightarrow> override \<Rightarrow> bool" where
  "override_active now o' \<longleftrightarrow>
     (if ov_goal o' = None \<and> ov_kind o' = None then False
      else if ov_sticky o' then True
      else now - ov_set_at o' < of_int (ov_ttl o'))"

definition override_goal_ll :: "real \<Rightarrow> override \<Rightarrow> latlon option" where
  "override_goal_ll now o' = (if override_active now o' then ov_goal o' else None)"

definition override_mission :: "real \<Rightarrow> override \<Rightarrow> int option" where
  "override_mission now o' = (if override_active now o' then ov_kind o' else None)"

section \<open>The mission planner\<close>

definition mission_mode :: "int \<Rightarrow> mission_type result" where
  "mission_mode k =
     (case filter (\<lambda>m. mission_code m = k) [EXPLORE, SEARCH, COVERAGE, PATROL, GOTO, LOITER, RTL] of
        [] \<Rightarrow> Inl ValueError
      | m # _ \<Rightarrow> Inr m)"

record mission_planner =
  mp_home :: latlon
  mp_mode :: mission_type
  mp_goal_ll :: latlon
  mp_status :: int

definition mission_planner_init :: "latlon \<Rightarrow> mission_planner" where
  "mission_planner_init home =
     \<lparr>mp_home = home, mp_mode = COVERAGE, mp_goal_ll = home, mp_status = status_code ST_IDLE\<rparr>"

definition set_goal :: "real \<Rightarrow> real \<Rightarrow> mission_planner \<Rightarrow> mission_planner" where
  "set_goal lat lon p = p\<lparr>mp_goal_ll := (lat, lon)\<rparr>"

definition mission_status :: "mission_type \<Rightarrow> vec \<Rightarrow> vec \<Rightarrow> policy_result \<Rightarrow> int" where
  "mission_status mode my goal out =
     (if pr_emergency out then status_code ST_EMERGENCY
      else if mode = RTL then status_code ST_RETURNING
      else if 5 < vnorm (vsub goal my) then status_code ST_TRANSITING
      else if mode \<in> {EXPLORE, SEARCH, COVERAGE, PATROL} then status_code ST_SCANNING
      else if mode = LOITER then status_code ST_IDLE
      else status_code ST_EXECUTING)"

record mission_output =
  mo_policy :: policy_result
  mo_mode :: int
  mo_status :: int
  mo_goal_ll :: latlon
  mo_detections :: "int option"

text \<open>The mode under the override, for \<open>step\<close> and for the frontier of the agent.\<close>

definition effective_mode :: "real \<Rightarrow> override \<Rightarrow> mission_type \<Rightarrow> mission_type result" where
  "effective_mode now o' mode =
     (case override_mission now o' of None \<Rightarrow> Inr mode | Some k \<Rightarrow> mission_mode k)"

definition mission_goal ::
  "real \<Rightarrow> override \<Rightarrow> mission_type \<Rightarrow> latlon option \<Rightarrow> mission_planner \<Rightarrow> latlon" where
  "mission_goal now o' mode frontier p =
     (let g = (case override_goal_ll now o' of None \<Rightarrow> mp_goal_ll p | Some g \<Rightarrow> g)
      in if mode = RTL then mp_home p
         else case frontier of
                None \<Rightarrow> g
              | Some f \<Rightarrow> if mode \<in> {EXPLORE, SEARCH} then f else g)"

definition mission_step ::
  "real \<Rightarrow> ekf \<Rightarrow> obstacle list \<Rightarrow> override \<Rightarrow> latlon option \<Rightarrow> mission_planner
     \<Rightarrow> (mission_output \<times> mission_planner) result" where
  "mission_step now e neighbors o' frontier p =
     rbind (effective_mode now o' (mp_mode p)) (\<lambda>mode.
     let goal_ll = mission_goal now o' mode frontier p;
         fix1 = get_fix e;
         my = to_enu e (fx_lat fix1) (fx_lon fix1);
         goal = to_enu e (fst goal_ll) (snd goal_ll);
         ov_goal = map_option (\<lambda>(lat, lon). to_enu e lat lon) (override_goal_ll now o');
         out = coordination_policy my goal neighbors ov_goal 8 default_radius;
         st = mission_status mode my goal out
     in Inr (\<lparr>mo_policy = out, mo_mode = mission_code mode, mo_status = st, mo_goal_ll = goal_ll,
              mo_detections = None\<rparr>, p\<lparr>mp_status := st\<rparr>))"

section \<open>The agent\<close>

record vio_delta =
  vd_forward :: real
  vd_right :: real
  vd_yaw :: real
  vd_dt :: real
  vd_cov :: real
  vd_tracking_ok :: bool

datatype agent_effect = SerialWrite bytes | RegisterModule module_state | PublishTelemetry module_state

record jetson_agent =
  ag_reg :: registry
  ag_ekf :: ekf
  ag_ekf_last :: "real option"
  ag_override :: override
  ag_mission :: "mission_planner option"
  ag_frontier_dir :: vec
  ag_last_mission :: "mission_output option"
  ag_own_eui :: "string option"
  ag_serial :: bool
  ag_seq :: int
  ag_effects :: "agent_effect list"

definition jetson_agent_init :: jetson_agent where
  "jetson_agent_init =
     \<lparr>ag_reg = registry0 [], ag_ekf = ekf_init, ag_ekf_last = None, ag_override = override_init,
      ag_mission = None, ag_frontier_dir = (1, 0), ag_last_mission = None, ag_own_eui = None,
      ag_serial = False, ag_seq = 0, ag_effects = []\<rparr>"

type_synonym outcome = "jetson_agent \<times> py_error option"

text \<open>\<open>_on_payload\<close>: the exception of an undecodable payload is swallowed, one that
  \<open>apply_cmd\<close> raises on its parameters is not.\<close>

definition learn_eui :: "message \<Rightarrow> jetson_agent \<Rightarrow> jetson_agent" where
  "learn_eui msg a =
     (if ag_own_eui a = None
         \<and> \<not> has_bits (message_flags msg) (flag_bit F_GATEWAY OR flag_bit F_RELAYED)
      then a\<lparr>ag_own_eui := Some (eui_str (message_eui msg))\<rparr> else a)"

definition take_command :: "real \<Rightarrow> int \<Rightarrow> bytes \<Rightarrow> jetson_agent \<Rightarrow> outcome" where
  "take_command now op params a =
     (case apply_cmd now op params (ag_override a) of
        Inl e \<Rightarrow> (a, Some e)
      | Inr (used, o') \<Rightarrow> (a\<lparr>ag_override := o'\<rparr>, None))"

definition agent_on_payload :: "real \<Rightarrow> bytes \<Rightarrow> jetson_agent \<Rightarrow> outcome" where
  "agent_on_payload now payload a =
     (case decode_message payload of
        Inl e \<Rightarrow> (a, None)
      | Inr None \<Rightarrow> (a, None)
      | Inr (Some msg) \<Rightarrow>
          let a1 = learn_eui msg a
          in case msg of
               MHello m \<Rightarrow> (a1\<lparr>ag_reg := on_hello now m (ag_reg a1)\<rparr>, None)
             | MTelemetry m \<Rightarrow> (a1\<lparr>ag_reg := on_telemetry now m (ag_reg a1)\<rparr>, None)
             | MNeighbors m \<Rightarrow> (a1\<lparr>ag_reg := on_neighbors now m (ag_reg a1)\<rparr>, None)
             | MCmd m \<Rightarrow> take_command now (cm_op m) (cm_params m) a1
             | MBroadcast m \<Rightarrow> take_command now (bc_op m) (bc_params m) a1
             | _ \<Rightarrow> (a1, None))"

definition fuse_jetson_gps :: "(real \<times> real \<times> real \<times> int) option \<Rightarrow> module_state \<Rightarrow> module_state" where
  "fuse_jetson_gps gps m =
     (case gps of
        None \<Rightarrow> m
      | Some (lat, lon, alt, quality) \<Rightarrow>
          if \<not> has_gps m \<or> ps_source (md_position m) \<noteq> pos_source_code SRC_GPS
          then m\<lparr>md_sensors := md_sensors m OR sensor_bit S_GPS,
                 md_position := position0\<lparr>ps_lat := lat, ps_lon := lon, ps_alt := alt,
                    ps_heading := ps_heading (md_position m), ps_source := pos_source_code SRC_GPS,
                    ps_quality := quality\<rparr>\<rparr>
          else m)"

text \<open>The four parts of \<open>_fuse_jetson_ekf\<close>: the guard against its own echo, the camera, the peers,
  the fused position.\<close>

definition own_nrf :: "position \<Rightarrow> bool" where
  "own_nrf pos \<longleftrightarrow> \<not> has_bits (ps_ekf_flags pos) (ekf_bit E_VIO_USED OR ekf_bit E_PEER_USED)"

definition fold_nrf :: "position \<Rightarrow> ekf \<Rightarrow> ekf" where
  "fold_nrf pos e =
     (if own_nrf pos
      then update_nrf (ps_lat pos) (ps_lon pos) (ps_heading pos) (ps_vel_n pos) (ps_vel_e pos)
             (if ps_pos_std pos = 0 then 5 else ps_pos_std pos)
             (if ps_hdg_std pos = 0 then 10 else ps_hdg_std pos) e
      else e)"

definition fold_vio :: "vio_delta option \<Rightarrow> ekf \<Rightarrow> bool \<times> ekf" where
  "fold_vio vio e =
     (case vio of
        None \<Rightarrow> (False, e)
      | Some d \<Rightarrow>
          if vd_tracking_ok d \<and> 0 < vd_dt d
          then let psi = radians (90 - fx_heading (get_fix e));
                   left = - vd_right d;
                   dn = vd_forward d * sin psi + left * cos psi;
                   de = vd_forward d * cos psi - left * sin psi
               in (True, ekf_update_vio dn de (vd_yaw d) (vd_dt d) (vd_cov d) e)
          else (False, e))"

definition fold_peer :: "peer \<Rightarrow> bool \<times> ekf \<Rightarrow> bool \<times> ekf" where
  "fold_peer p ue =
     (let (used, e) = ue;
          (pn, pe) = to_enu e (pe_lat p) (pe_lon p);
          (ok, e1) = update_range pn pe (pe_range_m p) 3 e
      in (used \<or> ok, e1))"

definition peer_positions :: "string option \<Rightarrow> registry \<Rightarrow> (string, latlon) dict" where
  "peer_positions own r =
     map (\<lambda>(e, mm). (e, (ps_lat (md_position mm), ps_lon (md_position mm))))
       (filter (\<lambda>(e, mm). Some e \<noteq> own \<and> position_valid (md_position mm)) (rg_modules r))"

definition fix_quality :: "ekf_fix \<Rightarrow> int" where
  "fix_quality f = max 1 (min 255 (py_int (255 / (1 + fx_pos_std f / 5))))"

definition fused_position :: "real \<Rightarrow> position \<Rightarrow> ekf_fix \<Rightarrow> int \<Rightarrow> position" where
  "fused_position now pos f flags =
     \<lparr>ps_lat = fx_lat f, ps_lon = fx_lon f, ps_alt = ps_alt pos, ps_heading = fx_heading f,
      ps_source = pos_source_code SRC_FUSED, ps_quality = fix_quality f, ps_fixed_at = now,
      ps_vel_n = fx_vel_n f, ps_vel_e = fx_vel_e f, ps_pos_std = fx_pos_std f,
      ps_hdg_std = fx_hdg_std f, ps_ekf_flags = flags\<rparr>"

definition write_effect :: "agent_effect \<Rightarrow> jetson_agent \<Rightarrow> jetson_agent" where
  "write_effect x a = a\<lparr>ag_effects := ag_effects a @ [x]\<rparr>"

definition inject_pose :: "real \<Rightarrow> real \<Rightarrow> ekf_fix \<Rightarrow> int \<Rightarrow> jetson_agent \<Rightarrow> outcome" where
  "inject_pose now alt f flags a =
     (case ag_own_eui a of
        None \<Rightarrow> (a, None)
      | Some own \<Rightarrow>
          if \<not> ag_serial a then (a, None)
          else let a1 = a\<lparr>ag_seq := ag_seq a + 1\<rparr>;
                   frame = rbind (eui_bytes own) (\<lambda>eui.
                     pose_encode \<lparr>pj_eui = eui, pj_lat = fx_lat f, pj_lon = fx_lon f, pj_alt = alt,
                       pj_heading = fx_heading f, pj_vel_n = fx_vel_n f, pj_vel_e = fx_vel_e f,
                       pj_pos_std = fx_pos_std f, pj_hdg_std = fx_hdg_std f,
                       pj_src_flags = flags AND 0xFF, pj_ts_ms = py_int (now * 1000) AND 0xFFFFFFFF,
                       pj_seq = ag_seq a1, pj_flags = 0\<rparr>)
               in case frame of
                    Inl e \<Rightarrow> (a1, Some e)
                  | Inr b \<Rightarrow> (write_effect (SerialWrite b) a1, None))"

definition store_module :: "module_state \<Rightarrow> jetson_agent \<Rightarrow> jetson_agent" where
  "store_module m a = a\<lparr>ag_reg := put_module m (ag_reg a)\<rparr>"

text \<open>The filter after the prediction, the own pose, the camera and the peers, with what was used; and
  the flags of the fix.\<close>

definition fused :: "real \<Rightarrow> vio_delta option \<Rightarrow> module_state \<Rightarrow> jetson_agent \<Rightarrow> bool \<times> bool \<times> ekf" where
  "fused now vio m a =
     (let e0 = (case ag_ekf_last a of None \<Rightarrow> ag_ekf a | Some t \<Rightarrow> predict (now - t) (ag_ekf a));
          (vio_used, e2) = fold_vio vio (fold_nrf (md_position m) e0);
          (peer_used, e3) = fold fold_peer
             (gate_50m (dmap nb_range_cm (md_neighbors m)) (peer_positions (ag_own_eui a) (ag_reg a)))
             (False, e2)
      in (vio_used, peer_used, e3))"

definition fused_flags :: "bool \<Rightarrow> bool \<Rightarrow> bool \<Rightarrow> int" where
  "fused_flags vio_used peer_used converged =
     (let flags0 = ekf_bit E_GPS_USED OR ekf_bit E_IMU_USED;
          flags1 = (if vio_used then flags0 OR ekf_bit E_VIO_USED else flags0);
          flags2 = (if peer_used then flags1 OR ekf_bit E_PEER_USED else flags1)
      in if converged then flags2 OR ekf_bit E_CONVERGED else flags2)"

definition fuse_jetson_ekf ::
  "real \<Rightarrow> vio_delta option \<Rightarrow> module_state \<Rightarrow> jetson_agent \<Rightarrow> module_state \<times> outcome" where
  "fuse_jetson_ekf now vio m a =
     (let pos = md_position m
      in if \<not> position_valid pos then (m, a, None)
         else let (v, p, e) = fused now vio m a;
                  f = get_fix e;
                  flags = fused_flags v p (fx_converged f);
                  m1 = m\<lparr>md_sensors := (if v then md_sensors m OR sensor_bit S_VIO else md_sensors m),
                         md_position := fused_position now pos f flags\<rparr>
              in (m1, inject_pose now (ps_alt pos) f flags
                        (store_module m1 (a\<lparr>ag_ekf := e, ag_ekf_last := Some now\<rparr>))))"

definition mission_neighbors :: "jetson_agent \<Rightarrow> obstacle list" where
  "mission_neighbors a =
     map (\<lambda>(e, mm). let pos = md_position mm
                    in (to_enu (ag_ekf a) (ps_lat pos) (ps_lon pos), (ps_vel_n pos, ps_vel_e pos),
                        default_radius))
       (filter (\<lambda>(e, mm). \<not> (Some e = ag_own_eui a \<or> \<not> position_valid (md_position mm)))
          (rg_modules (ag_reg a)))"

definition choose_frontier ::
  "mission_type \<Rightarrow> obstacle list \<Rightarrow> jetson_agent \<Rightarrow> latlon option \<times> jetson_agent" where
  "choose_frontier mode neigh a =
     (if mode \<in> {EXPLORE, SEARCH}
      then let f = get_fix (ag_ekf a);
               my = to_enu (ag_ekf a) (fx_lat f) (fx_lon f);
               tgt = frontier_target my (map fst neigh) 30 (Some (ag_frontier_dir a));
               d = vsub tgt my; n = vnorm d;
               a1 = (if 1 / 1000 < n then a\<lparr>ag_frontier_dir := (fst d / n, snd d / n)\<rparr> else a)
           in (Some (ekf_to_ll (ag_ekf a) (fst tgt) (snd tgt)), a1)
      else (None, a))"

definition run_mission ::
  "real \<Rightarrow> int option \<Rightarrow> module_state \<Rightarrow> jetson_agent \<Rightarrow> module_state \<times> outcome" where
  "run_mission now dets m a =
     (if \<not> position_valid (md_position m) then (m, a, None)
      else let f = get_fix (ag_ekf a);
               p = (case ag_mission a of
                      None \<Rightarrow> mission_planner_init (fx_lat f, fx_lon f)
                    | Some p \<Rightarrow> p);
               a1 = a\<lparr>ag_mission := Some p\<rparr>;
               neigh = mission_neighbors a1
           in case effective_mode now (ag_override a1) (mp_mode p) of
                Inl e \<Rightarrow> (m, a1, Some e)
              | Inr mode \<Rightarrow>
                  let (frontier, a2) = choose_frontier mode neigh a1
                  in case mission_step now (ag_ekf a2) neigh (ag_override a2) frontier p of
                       Inl e \<Rightarrow> (m, a2, Some e)
                     | Inr (out, p1) \<Rightarrow>
                         let m1 = m\<lparr>md_status := mo_status out\<rparr>
                         in (m1, store_module m1 (a2\<lparr>ag_mission := Some p1,
                               ag_last_mission := Some (out\<lparr>mo_detections := dets\<rparr>)\<rparr>), None))"

record tick_input =
  ti_gps :: "(real \<times> real \<times> real \<times> int) option"
  ti_vio :: "vio_delta option"
  ti_detections :: "int option"

definition publish_module :: "module_state \<Rightarrow> jetson_agent \<Rightarrow> jetson_agent" where
  "publish_module m a =
     (if \<not> md_registered m
      then let m1 = m\<lparr>md_registered := True\<rparr>
           in write_effect (PublishTelemetry m1) (store_module m1 (write_effect (RegisterModule m) a))
      else write_effect (PublishTelemetry m) a)"

definition agent_tick :: "real \<Rightarrow> tick_input \<Rightarrow> jetson_agent \<Rightarrow> outcome" where
  "agent_tick now inp a =
     (case ag_own_eui a of
        None \<Rightarrow> (a, None)
      | Some own \<Rightarrow>
          case dget (rg_modules (ag_reg a)) own of
            None \<Rightarrow> (a, None)
          | Some m0 \<Rightarrow>
              let m1 = fuse_jetson_gps (ti_gps inp) m0;
                  (m2, a2, err2) = fuse_jetson_ekf now (ti_vio inp) m1 (store_module m1 a)
              in if err2 \<noteq> None then (a2, err2)
                 else let (m3, a3, err3) = run_mission now (ti_detections inp) m2 a2
                      in if err3 \<noteq> None then (a3, err3)
                         else (publish_module m3 a3, None))"

definition agent_send_command :: "int \<Rightarrow> bytes \<Rightarrow> jetson_agent \<Rightarrow> outcome" where
  "agent_send_command op params a =
     (case ag_own_eui a of
        None \<Rightarrow> (a, None)
      | Some own \<Rightarrow>
          if \<not> ag_serial a then (a, None)
          else let a1 = a\<lparr>ag_seq := ag_seq a + 1\<rparr>;
                   frame = rbind (eui_bytes own) (\<lambda>eui.
                     cmd_encode \<lparr>cm_eui = eui, cm_op = op, cm_params = params, cm_seq = ag_seq a1,
                                 cm_flags = 0\<rparr>)
               in case frame of
                    Inl e \<Rightarrow> (a1, Some e)
                  | Inr b \<Rightarrow> (write_effect (SerialWrite b) a1, None))"

definition open_serial :: "real \<Rightarrow> jetson_agent \<Rightarrow> jetson_agent" where
  "open_serial now a = a\<lparr>ag_serial := True, ag_ekf_last := Some now\<rparr>"

section \<open>Frames on the serial line\<close>

fun sent_seqs :: "agent_effect list \<Rightarrow> int list" where
  "sent_seqs [] = []"
| "sent_seqs (SerialWrite b # xs) = frame_seq b # sent_seqs xs"
| "sent_seqs (x # xs) = sent_seqs xs"

lemma sent_seqs_append [simp]: "sent_seqs (xs @ ys) = sent_seqs xs @ sent_seqs ys"
  by (induction xs rule: sent_seqs.induct) simp_all

section \<open>The invariant of the agent\<close>

definition agent_inv :: "jetson_agent \<Rightarrow> bool" where
  "agent_inv a \<longleftrightarrow>
     registry_inv (ag_reg a) \<and> (\<forall>k m. dget (rg_modules (ag_reg a)) k = Some m \<longrightarrow> md_online m)
     \<and> ekf_ok (ag_ekf a) \<and> 0 \<le> ag_seq a
     \<and> sorted_wrt (<) (sent_seqs (ag_effects a)) \<and> (\<forall>n \<in> set (sent_seqs (ag_effects a)). 0 < n \<and> n \<le> ag_seq a)"

text \<open>What every operation leaves alone: an id once learnt, and what was already sent.\<close>

definition agent_grows :: "jetson_agent \<Rightarrow> jetson_agent \<Rightarrow> bool" where
  "agent_grows a b \<longleftrightarrow> (ag_own_eui a \<noteq> None \<longrightarrow> ag_own_eui b = ag_own_eui a)
     \<and> ag_serial b = ag_serial a \<and> (\<exists>xs. ag_effects b = ag_effects a @ xs)"

lemma grows_refl: "agent_grows a a"
  by (simp add: agent_grows_def)

lemma grows_trans: "\<lbrakk>agent_grows a b; agent_grows b c\<rbrakk> \<Longrightarrow> agent_grows a c"
  by (auto simp: agent_grows_def)

text \<open>A frame numbered with the next sequence number keeps the invariant.\<close>

lemma inv_write:
  assumes "agent_inv a" and "frame_seq b = ag_seq a + 1"
  shows "agent_inv (write_effect (SerialWrite b) (a\<lparr>ag_seq := ag_seq a + 1\<rparr>))"
  using assms by (fastforce simp: agent_inv_def write_effect_def sorted_wrt_append)

lemma inv_seq: "agent_inv a \<Longrightarrow> agent_inv (a\<lparr>ag_seq := ag_seq a + 1\<rparr>)"
  by (fastforce simp: agent_inv_def)

lemma inv_publish:
  "\<lbrakk>agent_inv a; x \<in> {RegisterModule m, PublishTelemetry m}\<rbrakk> \<Longrightarrow> agent_inv (write_effect x a)"
  by (auto simp: agent_inv_def write_effect_def)

lemma inv_store:
  "\<lbrakk>agent_inv a; module_inv m; md_online m\<rbrakk> \<Longrightarrow> agent_inv (store_module m a)"
  by (auto simp: agent_inv_def store_module_def inv_put_module put_module_get)

lemmas agent_inv_frame = agent_inv_def agent_grows_def write_effect_def store_module_def

lemma inv_module:
  assumes "agent_inv a" and "dget (rg_modules (ag_reg a)) k = Some m"
  shows "module_inv m" and "md_online m"
  using assms by (auto simp: agent_inv_def registry_inv_def)

lemma module_inv_frame:
  "\<lbrakk>module_inv m; md_online m'; md_neighbors m' = md_neighbors m\<rbrakk> \<Longrightarrow> module_inv m'"
  by (simp add: module_inv_def)

section \<open>Each operation keeps it\<close>

lemma learn_ok:
  assumes "agent_inv a"
  shows "agent_inv (learn_eui msg a) \<and> agent_grows a (learn_eui msg a)"
  using assms by (simp add: learn_eui_def agent_inv_def agent_grows_def)

lemma inv_reg:
  assumes "agent_inv a" and "registry_inv r"
    and "\<And>k m. dget (rg_modules r) k = Some m \<Longrightarrow> md_online m"
  shows "agent_inv (a\<lparr>ag_reg := r\<rparr>)"
  using assms by (simp add: agent_inv_def)

lemma take_command_ok:
  "agent_inv a \<Longrightarrow> agent_inv (fst (take_command now op ps a)) \<and> agent_grows a (fst (take_command now op ps a))"
  by (simp add: take_command_def agent_inv_def agent_grows_def split: sum.split prod.split)

lemma heard_online:
  assumes "\<forall>k. dget (rg_modules r') k = (if k = eui then Some m' else dget (rg_modules r) k)"
    and "md_online m'" and "\<And>k m. dget (rg_modules r) k = Some m \<Longrightarrow> md_online m"
  shows "dget (rg_modules r') k = Some m \<Longrightarrow> md_online m"
  using assms by (auto split: if_splits)

lemma payload_ok:
  assumes "agent_inv a"
  shows "agent_inv (fst (agent_on_payload now payload a)) \<and> agent_grows a (fst (agent_on_payload now payload a))"
proof (cases "decode_message payload")
  case (Inr om)
  show ?thesis
  proof (cases om)
    case (Some msg)
    let ?a = "learn_eui msg a"
    have ok: "agent_inv ?a" and g: "agent_grows a ?a" using learn_ok [OF assms] by simp_all
    then have reg: "registry_inv (ag_reg ?a)"
      and online: "\<And>k m. dget (rg_modules (ag_reg ?a)) k = Some m \<Longrightarrow> md_online m"
      by (auto simp: agent_inv_def)
    have upd: "agent_inv (?a\<lparr>ag_reg := r\<rparr>) \<and> agent_grows a (?a\<lparr>ag_reg := r\<rparr>)"
      if "registry_inv r" and "\<forall>k. dget (rg_modules r) k = (if k = eui then Some m' else dget (rg_modules (ag_reg ?a)) k)"
        and "md_online m'" for r eui m'
      using inv_reg [OF ok that(1) heard_online [OF that(2,3) online]] g by (simp add: agent_grows_def)
    have cmd: "agent_inv (fst (take_command now op ps ?a)) \<and> agent_grows a (fst (take_command now op ps ?a))" for op ps
      using take_command_ok [OF ok] g grows_trans by blast
    show ?thesis
    proof (cases msg)
      case (MHello m)
      have "agent_inv (?a\<lparr>ag_reg := on_hello now m (ag_reg ?a)\<rparr>) \<and> agent_grows a (?a\<lparr>ag_reg := on_hello now m (ag_reg ?a)\<rparr>)"
        by (rule upd [where eui = "eui_str (he_eui m)"
              and m' = "hello_update m (heard now (eui_str (he_eui m)) (ag_reg ?a))"])
           (use hello_spec [OF reg refl, of now m] heard_props(2) [OF reg] in \<open>simp_all add: hello_update_def\<close>)
      then show ?thesis using Inr Some MHello by (simp add: agent_on_payload_def Let_def)
    next
      case (MTelemetry m)
      have "agent_inv (?a\<lparr>ag_reg := on_telemetry now m (ag_reg ?a)\<rparr>) \<and> agent_grows a (?a\<lparr>ag_reg := on_telemetry now m (ag_reg ?a)\<rparr>)"
        by (rule upd [where eui = "eui_str (te_eui m)"
              and m' = "telemetry_update now m (heard now (eui_str (te_eui m)) (ag_reg ?a))"])
           (use telemetry_spec [OF reg refl, of now m] heard_props(2) [OF reg] in \<open>simp_all add: telemetry_update_def\<close>)
      then show ?thesis using Inr Some MTelemetry by (simp add: agent_on_payload_def Let_def)
    next
      case (MNeighbors m)
      have "agent_inv (?a\<lparr>ag_reg := on_neighbors now m (ag_reg ?a)\<rparr>) \<and> agent_grows a (?a\<lparr>ag_reg := on_neighbors now m (ag_reg ?a)\<rparr>)"
        by (rule upd [where eui = "eui_str (ne_eui m)"
              and m' = "neighbors_update now m (heard now (eui_str (ne_eui m)) (ag_reg ?a))"])
           (use neighbors_spec [OF reg refl, of now m] heard_props(2) [OF reg] in \<open>simp_all add: neighbors_update_def\<close>)
      then show ?thesis using Inr Some MNeighbors by (simp add: agent_on_payload_def Let_def)
    qed (use Inr Some ok g cmd in \<open>simp_all add: agent_on_payload_def Let_def\<close>)
  qed (use Inr assms grows_refl in \<open>simp_all add: agent_on_payload_def\<close>)
qed (use assms grows_refl in \<open>simp_all add: agent_on_payload_def\<close>)

lemma agent_send_ok:
  assumes "agent_inv a"
  shows "agent_inv (fst (agent_send_command op ps a)) \<and> agent_grows a (fst (agent_send_command op ps a))"
proof -
  have "frame_seq b = ag_seq a + 1"
    if "rbind (eui_bytes own) (\<lambda>eui. cmd_encode \<lparr>cm_eui = eui, cm_op = op, cm_params = ps,
          cm_seq = ag_seq a + 1, cm_flags = 0\<rparr>) = Inr b" for own b
    using that by (auto simp: rbind_eq_Inr cmd_encode_def intro: frame_seq_encoded eui_bytes_length)
  with assms show ?thesis
    by (auto simp: agent_send_command_def Let_def inv_write inv_seq grows_refl
        split: option.split sum.split) (simp_all add: agent_grows_def write_effect_def)
qed

lemma inject_ok:
  assumes "agent_inv a"
  shows "agent_inv (fst (inject_pose now alt f flags a)) \<and> agent_grows a (fst (inject_pose now alt f flags a))
    \<and> ag_reg (fst (inject_pose now alt f flags a)) = ag_reg a
    \<and> ag_ekf (fst (inject_pose now alt f flags a)) = ag_ekf a
    \<and> ag_own_eui (fst (inject_pose now alt f flags a)) = ag_own_eui a"
proof -
  have "frame_seq b = ag_seq a + 1"
    if "rbind (eui_bytes own) (\<lambda>eui. pose_encode (p\<lparr>pj_eui := eui, pj_seq := ag_seq a + 1\<rparr>)) = Inr b" for own b p
    using that by (auto simp: rbind_eq_Inr pose_encode_def intro: frame_seq_encoded eui_bytes_length)
  note seq = this [of _ "\<lparr>pj_eui = [], pj_lat = fx_lat f, pj_lon = fx_lon f, pj_alt = alt,
     pj_heading = fx_heading f, pj_vel_n = fx_vel_n f, pj_vel_e = fx_vel_e f,
     pj_pos_std = fx_pos_std f, pj_hdg_std = fx_hdg_std f,
     pj_src_flags = flags AND 0xFF, pj_ts_ms = py_int (now * 1000) AND 0xFFFFFFFF,
     pj_seq = 0, pj_flags = 0\<rparr>", simplified]
  with assms show ?thesis
    by (auto simp: inject_pose_def Let_def inv_write inv_seq grows_refl
        split: option.split sum.split) (simp_all add: agent_grows_def write_effect_def)
qed

lemma gps_frame:
  "md_eui (fuse_jetson_gps gps m) = md_eui m" "md_online (fuse_jetson_gps gps m) = md_online m"
  "md_neighbors (fuse_jetson_gps gps m) = md_neighbors m"
  by (auto simp: fuse_jetson_gps_def split: option.split)

lemma fold_nrf_ok: "ekf_ok e \<Longrightarrow> ekf_ok (fold_nrf pos e)"
  by (simp add: fold_nrf_def update_nrf_ok)

lemma fold_vio_ok: "ekf_ok e \<Longrightarrow> ekf_ok (snd (fold_vio vio e))"
  by (auto simp: fold_vio_def Let_def update_vio_ok split: option.split)

lemma fold_peer_ok: "ekf_ok (snd ue) \<Longrightarrow> ekf_ok (snd (fold_peer p ue))"
  using update_range_ok [of "snd ue"] by (simp add: fold_peer_def split: prod.split) (metis snd_conv)

lemma fold_peers_ok: "ekf_ok (snd ue) \<Longrightarrow> ekf_ok (snd (fold fold_peer ps ue))"
  by (induction ps arbitrary: ue) (simp_all add: fold_peer_ok)

lemma fused_ok: "ekf_ok (ag_ekf a) \<Longrightarrow> ekf_ok (snd (snd (fused now vio m a)))"
proof -
  assume ok: "ekf_ok (ag_ekf a)"
  let ?e0 = "case ag_ekf_last a of None \<Rightarrow> ag_ekf a | Some t \<Rightarrow> predict (now - t) (ag_ekf a)"
  have "ekf_ok ?e0" using ok by (simp add: predict_ok split: option.split)
  then have "ekf_ok (snd (fold_vio vio (fold_nrf (md_position m) ?e0)))"
    by (intro fold_vio_ok fold_nrf_ok)
  then have "ekf_ok (snd (fold fold_peer ps (False, snd (fold_vio vio (fold_nrf (md_position m) ?e0)))))" for ps
    by (intro fold_peers_ok) simp
  then show ?thesis by (simp add: fused_def Let_def split_beta)
qed

text \<open>With a valid position the fusion is: this pose, stored, then injected.\<close>

lemma fuse_jetson_ekf_eq:
  assumes "position_valid (md_position m)" and "fused now vio m a = (v, p, e)"
  shows "fuse_jetson_ekf now vio m a =
     (let f = get_fix e; flags = fused_flags v p (fx_converged f);
          m1 = m\<lparr>md_sensors := (if v then md_sensors m OR sensor_bit S_VIO else md_sensors m),
                 md_position := fused_position now (md_position m) f flags\<rparr>
      in (m1, inject_pose now (ps_alt (md_position m)) f flags
                (store_module m1 (a\<lparr>ag_ekf := e, ag_ekf_last := Some now\<rparr>))))"
  using assms by (simp add: fuse_jetson_ekf_def Let_def)

lemma fuse_ok:
  assumes "agent_inv a" and "module_inv m" and "md_online m"
    and "fuse_jetson_ekf now vio m a = (m', a', err)"
  shows "agent_inv a' \<and> agent_grows a a' \<and> ag_own_eui a' = ag_own_eui a \<and> module_inv m' \<and> md_online m'
    \<and> md_eui m' = md_eui m"
proof (cases "position_valid (md_position m)")
  case True
  obtain v p e where f: "fused now vio m a = (v, p, e)" by (cases "fused now vio m a")
  have "ekf_ok e" using fused_ok [of a now vio m] assms(1) f by (simp add: agent_inv_def)
  let ?flags = "fused_flags v p (fx_converged (get_fix e))"
  let ?m = "m\<lparr>md_sensors := (if v then md_sensors m OR sensor_bit S_VIO else md_sensors m),
                 md_position := fused_position now (md_position m) (get_fix e) ?flags\<rparr>"
  let ?a = "store_module ?m (a\<lparr>ag_ekf := e, ag_ekf_last := Some now\<rparr>)"
  have m: "module_inv ?m" by (rule module_inv_frame [OF assms(2)]) (simp_all add: assms(3))
  have "agent_inv (a\<lparr>ag_ekf := e, ag_ekf_last := Some now\<rparr>)"
    using assms(1) \<open>ekf_ok e\<close> by (simp add: agent_inv_def)
  then have a: "agent_inv ?a" by (rule inv_store) (use m assms(3) in simp_all)
  have "agent_grows a ?a" "ag_own_eui ?a = ag_own_eui a" by (simp_all add: agent_grows_def store_module_def)
  moreover have m': "m' = ?m"
    and i: "inject_pose now (ps_alt (md_position m)) (get_fix e) ?flags ?a = (a', err)"
    using assms(4) unfolding fuse_jetson_ekf_eq [OF True f] Let_def prod.inject by (blast, metis)
  moreover note inject_ok [OF a, of now "ps_alt (md_position m)" "get_fix e" ?flags, unfolded i fst_conv]
  moreover have "md_online m'" "md_eui m' = md_eui m" using assms(3) unfolding m' by simp_all
  ultimately show ?thesis using m grows_trans by metis
qed (use assms grows_refl in \<open>auto simp: fuse_jetson_ekf_def Let_def\<close>)

lemma inv_planner:
  "agent_inv a \<Longrightarrow> agent_inv (a\<lparr>ag_mission := p\<rparr>)"
  "agent_inv a \<Longrightarrow> agent_inv (a\<lparr>ag_mission := p, ag_last_mission := q\<rparr>)"
  "agent_inv a \<Longrightarrow> agent_inv (a\<lparr>ag_frontier_dir := d\<rparr>)"
  by (simp_all add: agent_inv_def)

lemma frontier_ok:
  assumes "agent_inv a" and "choose_frontier mode neigh a = (fr, a')"
  shows "agent_inv a' \<and> agent_grows a a' \<and> ag_own_eui a' = ag_own_eui a \<and> ag_ekf a' = ag_ekf a
    \<and> ag_override a' = ag_override a"
  using assms by (auto simp: choose_frontier_def Let_def inv_planner agent_grows_def split: if_splits)

lemma mission_ok:
  assumes "agent_inv a" and "module_inv m" and "md_online m"
    and "run_mission now dets m a = (m', a', err)"
  shows "agent_inv a' \<and> agent_grows a a' \<and> ag_own_eui a' = ag_own_eui a \<and> module_inv m' \<and> md_online m'
    \<and> md_eui m' = md_eui m"
proof (cases "position_valid (md_position m)")
  case True
  let ?p = "case ag_mission a of None \<Rightarrow> mission_planner_init (fx_lat (get_fix (ag_ekf a)), fx_lon (get_fix (ag_ekf a)))
     | Some p \<Rightarrow> p"
  let ?a1 = "a\<lparr>ag_mission := Some ?p\<rparr>"
  have a1: "agent_inv ?a1" "agent_grows a ?a1" using assms(1) by (simp_all add: inv_planner agent_grows_def)
  show ?thesis
  proof (cases "effective_mode now (ag_override ?a1) (mp_mode ?p)")
    case (Inl e)
    then show ?thesis using assms True a1 by (auto simp: run_mission_def Let_def)
  next
    case (Inr mode)
    obtain fr a2 where fr: "choose_frontier mode (mission_neighbors ?a1) ?a1 = (fr, a2)"
      by (cases "choose_frontier mode (mission_neighbors ?a1) ?a1")
    note a2 = frontier_ok [OF a1(1) fr]
    have g: "agent_grows a a2" using a1(2) a2 grows_trans by blast
    show ?thesis
    proof (cases "mission_step now (ag_ekf a2) (mission_neighbors ?a1) (ag_override a2) fr ?p")
      case (Inl e)
      then show ?thesis using assms True a2 g fr Inr by (auto simp: run_mission_def Let_def)
    next
      case (Inr op)
      obtain out p1 where op: "op = (out, p1)" by (cases op)
      let ?m = "m\<lparr>md_status := mo_status out\<rparr>"
      have m: "module_inv ?m" by (rule module_inv_frame [OF assms(2)]) (simp_all add: assms(3))
      have r: "run_mission now dets m a = (?m, store_module ?m (a2\<lparr>ag_mission := Some p1,
                 ag_last_mission := Some (out\<lparr>mo_detections := dets\<rparr>)\<rparr>), None)"
        using True fr \<open>effective_mode _ _ _ = Inr mode\<close> Inr op
        unfolding run_mission_def by (simp add: Let_def)
      have "agent_inv (store_module ?m (a2\<lparr>ag_mission := Some p1,
                 ag_last_mission := Some (out\<lparr>mo_detections := dets\<rparr>)\<rparr>))"
        by (rule inv_store) (use a2 m assms(3) in \<open>simp_all add: inv_planner\<close>)
      then show ?thesis
        using assms(3,4) m g a2 unfolding r by (auto simp: agent_grows_def store_module_def)
    qed
  qed
qed (use assms grows_refl in \<open>auto simp: run_mission_def\<close>)

lemma publish_ok:
  assumes "agent_inv a" and "module_inv m" and "md_online m"
  shows "agent_inv (publish_module m a) \<and> agent_grows a (publish_module m a)"
proof -
  have "module_inv (m\<lparr>md_registered := True\<rparr>)"
    by (rule module_inv_frame [OF assms(2)]) (simp_all add: assms(3))
  with assms show ?thesis
    by (auto simp: publish_module_def Let_def inv_publish inv_store)
       (auto simp: agent_grows_def write_effect_def store_module_def)
qed

lemma agent_tick_ok:
  assumes "agent_inv a"
  shows "agent_inv (fst (agent_tick now inp a)) \<and> agent_grows a (fst (agent_tick now inp a))"
proof (cases "\<exists>own m. ag_own_eui a = Some own \<and> dget (rg_modules (ag_reg a)) own = Some m")
  case True
  then obtain own m0 where own: "ag_own_eui a = Some own" "dget (rg_modules (ag_reg a)) own = Some m0" by blast
  let ?m1 = "fuse_jetson_gps (ti_gps inp) m0"
  have m1: "module_inv ?m1" "md_online ?m1"
    using inv_module [OF assms own(2)] by (auto simp: gps_frame intro: module_inv_frame)
  have a1: "agent_inv (store_module ?m1 a)" "agent_grows a (store_module ?m1 a)"
    using inv_store [OF assms m1] by (simp_all add: agent_grows_def store_module_def)
  obtain m2 a2 err2 where f: "fuse_jetson_ekf now (ti_vio inp) ?m1 (store_module ?m1 a) = (m2, a2, err2)"
    by (cases "fuse_jetson_ekf now (ti_vio inp) ?m1 (store_module ?m1 a)")
  have f2: "agent_inv a2" "agent_grows a a2" "module_inv m2" "md_online m2"
    using fuse_ok [OF a1(1) m1 f] a1(2) grows_trans by blast+
  obtain m3 a3 err3 where r: "run_mission now (ti_detections inp) m2 a2 = (m3, a3, err3)"
    by (cases "run_mission now (ti_detections inp) m2 a2")
  have r3: "agent_inv a3" "agent_grows a a3" "module_inv m3" "md_online m3"
    using mission_ok [OF f2(1,3,4) r] f2(2) grows_trans by blast+
  have "agent_inv (publish_module m3 a3) \<and> agent_grows a (publish_module m3 a3)"
    using publish_ok [OF r3(1,3,4)] r3(2) grows_trans by blast
  then show ?thesis using own f r f2 r3 by (simp add: agent_tick_def Let_def)
qed (use assms grows_refl in \<open>auto simp: agent_tick_def split: option.split\<close>)

datatype agent_event =
    SerialPayload real bytes | TickAt real tick_input | SendCommand int bytes | OpenSerial real

fun agent_step :: "jetson_agent \<Rightarrow> agent_event \<Rightarrow> jetson_agent" where
  "agent_step a (SerialPayload now payload) = fst (agent_on_payload now payload a)"
| "agent_step a (TickAt now inp) = fst (agent_tick now inp a)"
| "agent_step a (SendCommand op params) = fst (agent_send_command op params a)"
| "agent_step a (OpenSerial now) = open_serial now a"

interpretation agent_machine: event_machine agent_step agent_inv
proof unfold_locales
  fix a e assume "agent_inv a"
  then show "agent_inv (agent_step a e)"
    by (cases e) (simp_all add: payload_ok agent_tick_ok agent_send_ok, simp add: open_serial_def agent_inv_def)
qed

lemma own_eui_kept:
  "\<lbrakk>agent_inv a; ag_own_eui a = Some own\<rbrakk> \<Longrightarrow> ag_own_eui (agent_step a e) = Some own"
  using payload_ok agent_tick_ok agent_send_ok
  by (cases e) (fastforce simp: agent_grows_def, fastforce simp: agent_grows_def,
      fastforce simp: agent_grows_def, simp add: open_serial_def)

lemma own_eui_run:
  "\<lbrakk>agent_inv a; ag_own_eui a = Some own\<rbrakk> \<Longrightarrow> ag_own_eui (foldl agent_step a es) = Some own"
  by (induction es arbitrary: a) (simp_all add: own_eui_kept agent_machine.step_inv)

lemma agent_inv_init: "agent_inv jetson_agent_init"
  by (simp add: agent_inv_def jetson_agent_init_def registry_inv_init init_ok) (simp add: registry0_def)

section \<open>The properties of the agent\<close>

text \<open>C16: However payloads, ticks and operator commands are interleaved, and whichever of them
  fail, the agent stays sound: its registry and its filter keep their invariants, the frames it
  writes to its radio carry strictly increasing sequence numbers from 1 on, and the id it takes
  for its own module never changes once it has one.\<close>

theorem agent_run_sound:
  "let a = foldl agent_step jetson_agent_init es
   in registry_inv (ag_reg a) \<and> cov_ok (ek_P (ag_ekf a))
      \<and> sorted_wrt (<) (0 # sent_seqs (ag_effects a))
      \<and> (\<forall>es' own. ag_own_eui a = Some own \<longrightarrow> ag_own_eui (foldl agent_step a es') = Some own)"
  using agent_machine.run_inv [OF agent_inv_init, of es] own_eui_run
  by (auto simp: Let_def agent_inv_def ekf_ok_def)

lemma agent_run_sound_witness:
  "\<exists>f own. ag_own_eui (foldl agent_step (foldl agent_step jetson_agent_init [SerialPayload 0 f])
                      [OpenSerial 1, SerialPayload 2 f]) = Some own"
proof -
  let ?m = "\<lparr>bc_eui = replicate 8 7, bc_op = cmd_code IDENTIFY, bc_params = [], bc_seq = 1, bc_flags = 0\<rparr>"
  have "wf_message (MBroadcast ?m)" by (simp add: wf_broadcast_def wf_hdr_fields_def wf_cmd_body_def)
  from decodes_itself [OF this] obtain f where "decode_message f = Inr (Some (MBroadcast ?m))" by auto
  then have "ag_own_eui (foldl agent_step jetson_agent_init [SerialPayload 0 f]) = Some (eui_str (replicate 8 7))"
    by (simp add: agent_on_payload_def learn_eui_def take_command_def has_bits_def jetson_agent_init_def
        Let_def split: sum.split)
  with agent_run_sound [of "[SerialPayload 0 f]"] show ?thesis unfolding Let_def by blast
qed

text \<open>The override commands a base station sent, oldest first; a malformed one changes nothing.\<close>

definition override_event :: "override \<Rightarrow> real \<times> int \<times> bytes \<Rightarrow> override" where
  "override_event o' ev =
     (let (now, op, params) = ev
      in case apply_cmd now op params o' of Inl e \<Rightarrow> o' | Inr (used, o'') \<Rightarrow> o'')"

definition sets_goal :: "latlon \<Rightarrow> real \<times> int \<times> bytes \<Rightarrow> bool" where
  "sets_goal g ev \<longleftrightarrow>
     (let (now, op, params) = ev
      in op \<in> {cmd_code SET_WAYPOINT, cmd_code OVERRIDE}
         \<and> (case unpack_waypoint params of Inl e \<Rightarrow> False | Inr wp \<Rightarrow> g = (wp_lat wp, wp_lon wp)))"

definition clears :: "real \<times> int \<times> bytes \<Rightarrow> bool" where
  "clears ev \<longleftrightarrow> fst (snd ev) = cmd_code CLEAR_OVERRIDE"

lemma goal_step:
  assumes "ov_goal (override_event o' ev) = Some g"
  shows "sets_goal g ev \<or> ov_goal o' = Some g \<and> \<not> clears ev"
proof -
  obtain now op params where ev: "ev = (now, op, params)" by (cases ev)
  consider "op \<in> {cmd_code SET_WAYPOINT, cmd_code OVERRIDE}" | "op = cmd_code SET_MISSION"
    | "op = cmd_code CLEAR_OVERRIDE"
    | "op \<notin> {cmd_code SET_WAYPOINT, cmd_code OVERRIDE, cmd_code SET_MISSION, cmd_code CLEAR_OVERRIDE}"
    by blast
  then show ?thesis
  proof cases
    case 1
    with assms ev show ?thesis
      by (cases "unpack_waypoint params")
        (auto simp: override_event_def apply_cmd_def sets_goal_def clears_def)
  next
    case 2
    with assms ev show ?thesis
      by (cases "unpack_mission params") (auto simp: override_event_def apply_cmd_def clears_def)
  next
    case 3
    with assms ev show ?thesis
      by (auto simp: override_event_def apply_cmd_def override_clear_def)
  next
    case 4
    with assms ev show ?thesis
      by (auto simp: override_event_def apply_cmd_def clears_def)
  qed
qed

lemma goal_provenance:
  assumes "ov_goal (foldl override_event override_init evs) = Some g"
  shows "\<exists>pre ev post. evs = pre @ ev # post \<and> sets_goal g ev \<and> (\<forall>x \<in> set post. \<not> clears x)"
  using assms
proof (induction evs rule: rev_induct)
  case (snoc ev evs)
  from snoc.prems have "ov_goal (override_event (foldl override_event override_init evs) ev) = Some g" by simp
  from goal_step [OF this] show ?case
  proof
    assume "sets_goal g ev"
    then show ?thesis by (intro exI [of _ evs] exI [of _ ev] exI [of _ "[]"]) simp
  next
    assume *: "ov_goal (foldl override_event override_init evs) = Some g \<and> \<not> clears ev"
    with snoc.IH obtain pre x post where "evs = pre @ x # post" "sets_goal g x" "\<forall>y \<in> set post. \<not> clears y"
      by blast
    with * show ?thesis by (intro exI [of _ pre] exI [of _ x] exI [of _ "post @ [ev]"]) auto
  qed
qed (simp add: override_init_def)

text \<open>A vehicle is never sent to a goal nobody asked for: whatever commands arrived, an override
  goal is one that a SET_WAYPOINT or OVERRIDE command carried, with no CLEAR_OVERRIDE after it;
  while one is active, and unless it is sticky, less than its ttl has passed since it was set;
  and a cleared override is inactive.\<close>

theorem override_goal_commanded:
  assumes "o' = foldl override_event override_init evs" and "override_goal_ll now o' = Some g"
  shows "(\<exists>pre ev post. evs = pre @ ev # post \<and> sets_goal g ev \<and> (\<forall>x \<in> set post. \<not> clears x))
    \<and> (ov_sticky o' \<or> now - ov_set_at o' < of_int (ov_ttl o'))
    \<and> \<not> override_active now (override_clear o')"
proof -
  have a: "override_active now o'" and g: "ov_goal o' = Some g"
    using assms(2) by (simp_all add: override_goal_ll_def split: if_splits)
  have "\<not> override_active now (override_clear o')" by (simp add: override_active_def override_clear_def)
  moreover have "ov_sticky o' \<or> now - ov_set_at o' < of_int (ov_ttl o')"
    using a by (simp add: override_active_def split: if_splits)
  ultimately show ?thesis using goal_provenance [of evs g] g assms(1) by simp
qed

definition waypoint_bytes :: bytes where
  "waypoint_bytes = [0, 0, 0, 0, 128, 150, 152, 0, 0, 0, 0, 0, 4, 0, 10, 0]"

definition rtl_bytes :: bytes where
  "rtl_bytes = [6, 0, 0]"

lemma waypoint_bytes_eq:
  "unpack_waypoint waypoint_bytes = Inr \<lparr>wp_lat = 0, wp_lon = 1, wp_alt = 0, wp_mission_type = 4,
     wp_priority = 0, wp_ttl_s = 10\<rparr>"
  by code_simp

lemma rtl_bytes_eq: "unpack_mission rtl_bytes = Inr (6, 0)"
  by code_simp

lemma sample_override:
  "override_event override_init (0, 7, waypoint_bytes) =
     \<lparr>ov_goal = Some (0, 1), ov_kind = Some 4, ov_set_at = 0, ov_ttl = 10, ov_sticky = False\<rparr>"
  "override_event \<lparr>ov_goal = Some (0, 1), ov_kind = Some 4, ov_set_at = 0, ov_ttl = 10, ov_sticky = False\<rparr>
      (20, 8, rtl_bytes) =
     \<lparr>ov_goal = Some (0, 1), ov_kind = Some 6, ov_set_at = 20, ov_ttl = 0, ov_sticky = True\<rparr>"
  by (simp_all add: override_event_def apply_cmd_def waypoint_bytes_eq rtl_bytes_eq)

lemma override_goal_commanded_witness:
  "\<exists>pre ev post. [(0, 7, waypoint_bytes)] = pre @ ev # post \<and> sets_goal (0, 1) ev"
proof -
  have "override_goal_ll 5 (foldl override_event override_init [(0, 7, waypoint_bytes)]) = Some (0, 1)"
    by (simp add: sample_override override_goal_ll_def override_active_def)
  from override_goal_commanded [OF refl this] show ?thesis by blast
qed

text \<open>An expired waypoint comes back to life: once its ttl has passed, a SET_MISSION command for
  return-to-launch (sticky, without a goal of its own) makes the old waypoint the override goal
  again. The planner then reports RTL, the status RETURNING (or EMERGENCY) and the home position
  as the goal, but the velocity and the setpoint it commands are those towards the expired
  waypoint, and do not depend on the home position at all.\<close>

theorem stale_waypoint_beats_rtl:
  assumes "unpack_waypoint wbytes = Inr wp" and "wp_ttl_s wp \<noteq> 0" and "of_int (wp_ttl_s wp) \<le> t1 - t0"
    and "unpack_mission mbytes = Inr (mission_code RTL, 0)"
    and "o1 = override_event o0 (t0, cmd_code SET_WAYPOINT, wbytes)"
    and "o2 = override_event o1 (t1, cmd_code SET_MISSION, mbytes)"
    and "mission_step t e nbs o2 fr p = Inr (out, p')"
  shows "\<not> override_active t1 o1
    \<and> mo_mode out = mission_code RTL \<and> mo_goal_ll out = mp_home p
    \<and> mo_status out \<in> {status_code ST_RETURNING, status_code ST_EMERGENCY}
    \<and> mo_policy out = coordination_policy (to_enu e (fx_lat (get_fix e)) (fx_lon (get_fix e)))
          (to_enu e (wp_lat wp) (wp_lon wp)) nbs (Some (to_enu e (wp_lat wp) (wp_lon wp))) 8 default_radius"
proof -
  have o1: "o1 = \<lparr>ov_goal = Some (wp_lat wp, wp_lon wp), ov_kind = Some (wp_mission_type wp),
      ov_set_at = t0, ov_ttl = wp_ttl_s wp, ov_sticky = False\<rparr>"
    using assms(1,2,5) by (simp add: override_event_def apply_cmd_def)
  have o2: "o2 = o1\<lparr>ov_kind := Some (mission_code RTL), ov_set_at := t1, ov_ttl := 0, ov_sticky := True\<rparr>"
    using assms(4,6) by (simp add: override_event_def apply_cmd_def)
  have "\<not> override_active t1 o1" using assms(3) by (simp add: o1 override_active_def)
  moreover have act: "override_active t o2" by (simp add: o2 o1 override_active_def)
  then have mode: "effective_mode t o2 (mp_mode p) = Inr RTL" and goal: "override_goal_ll t o2 = Some (wp_lat wp, wp_lon wp)"
    by (simp_all add: effective_mode_def override_mission_def override_goal_ll_def o2 o1 mission_mode_def)
  let ?my = "to_enu e (fx_lat (get_fix e)) (fx_lon (get_fix e))"
  let ?home = "to_enu e (fst (mp_home p)) (snd (mp_home p))"
  let ?wp = "to_enu e (wp_lat wp) (wp_lon wp)"
  have "mission_goal t o2 RTL fr p = mp_home p" by (simp add: mission_goal_def)
  with mode goal assms(7) have "mo_mode out = mission_code RTL" "mo_goal_ll out = mp_home p"
    and pol: "mo_policy out = coordination_policy ?my ?home nbs (Some ?wp) 8 default_radius"
    and st: "mo_status out = mission_status RTL ?my ?home (mo_policy out)"
    by (auto simp: mission_step_def Let_def)
  moreover have "coordination_policy ?my ?home nbs (Some ?wp) 8 default_radius
      = coordination_policy ?my ?wp nbs (Some ?wp) 8 default_radius"
    by (simp add: coordination_policy_def)
  moreover have "mo_status out \<in> {status_code ST_RETURNING, status_code ST_EMERGENCY}"
    unfolding st by (simp add: mission_status_def)
  ultimately show ?thesis by simp
qed

lemma stale_waypoint_beats_rtl_witness:
  "\<exists>out p'. mission_step 20 ekf_init []
       (override_event (override_event override_init (0, cmd_code SET_WAYPOINT, waypoint_bytes))
          (20, cmd_code SET_MISSION, rtl_bytes)) None (mission_planner_init (0, 0)) = Inr (out, p')
     \<and> mo_goal_ll out = (0, 0)
     \<and> mo_policy out = coordination_policy (to_enu ekf_init (fx_lat (get_fix ekf_init)) (fx_lon (get_fix ekf_init)))
          (to_enu ekf_init 0 1) [] (Some (to_enu ekf_init 0 1)) 8 default_radius"
proof -
  let ?o = "override_event (override_event override_init (0, cmd_code SET_WAYPOINT, waypoint_bytes))
          (20, cmd_code SET_MISSION, rtl_bytes)"
  have "effective_mode 20 ?o COVERAGE = Inr RTL"
    by (simp add: sample_override effective_mode_def override_mission_def override_active_def mission_mode_def)
  then obtain out p' where
    s: "mission_step 20 ekf_init [] ?o None (mission_planner_init (0, 0)) = Inr (out, p')"
    by (auto simp: mission_step_def Let_def mission_planner_init_def)
  have "mp_home (mission_planner_init (0, 0)) = (0, 0)" by (simp add: mission_planner_init_def)
  with s stale_waypoint_beats_rtl [OF waypoint_bytes_eq _ _ _ refl refl s] rtl_bytes_eq
  show ?thesis by auto
qed

text \<open>The override a vehicle ends up with.\<close>

lemma agent_takes_command:
  assumes "decode_message b = Inr (Some (MCmd m))"
  shows "ag_override (fst (agent_on_payload now b a)) = override_event (ag_override a) (now, cm_op m, cm_params m)"
  using assms
  by (auto simp: agent_on_payload_def take_command_def override_event_def learn_eui_def Let_def
      split: sum.split)

lemma agent_takes_broadcast:
  assumes "decode_message b = Inr (Some (MBroadcast m))"
  shows "ag_override (fst (agent_on_payload now b a)) = override_event (ag_override a) (now, bc_op m, bc_params m)"
  using assms
  by (auto simp: agent_on_payload_def take_command_def override_event_def learn_eui_def Let_def
      split: sum.split)

definition hold_after_go_to :: "real \<Rightarrow> real \<Rightarrow> real \<Rightarrow> override" where
  "hold_after_go_to lat lon t =
     \<lparr>ov_goal = Some (lat, lon), ov_kind = Some (mission_code LOITER), ov_set_at = t, ov_ttl = 0,
      ov_sticky = True\<rparr>"

lemma go_to_then_hold:
  assumes "unpack_waypoint b1 = Inr w" and "unpack_mission b2 = Inr (mission_code LOITER, 0)"
  shows "override_event (override_event o' (t1, cmd_code SET_WAYPOINT, b1)) (t2, cmd_code SET_MISSION, b2)
     = hold_after_go_to (wp_lat w) (wp_lon w) t2"
  using assms by (simp add: override_event_def apply_cmd_def hold_after_go_to_def)

lemma hold_step:
  assumes "mission_step t e nbs (hold_after_go_to lat lon t2) fr p = Inr (out, p')"
  shows "mo_mode out = mission_code LOITER
    \<and> mo_policy out = coordination_policy (to_enu e (fx_lat (get_fix e)) (fx_lon (get_fix e)))
         (to_enu e lat lon) nbs (Some (to_enu e lat lon)) 8 default_radius"
proof -
  have act: "override_active t (hold_after_go_to lat lon t2)"
    by (simp add: override_active_def hold_after_go_to_def)
  then have mode: "effective_mode t (hold_after_go_to lat lon t2) (mp_mode p) = Inr LOITER"
    and goal: "override_goal_ll t (hold_after_go_to lat lon t2) = Some (lat, lon)"
    by (simp_all add: effective_mode_def override_mission_def override_goal_ll_def hold_after_go_to_def
        mission_mode_def)
  have "mission_goal t (hold_after_go_to lat lon t2) LOITER fr p = (lat, lon)"
    by (simp add: mission_goal_def goal Let_def split: option.split)
  with mode goal assms show ?thesis by (auto simp: mission_step_def Let_def)
qed

lemma hold_flight:
  assumes "mission_step t e [] (hold_after_go_to lat lon t2) fr p = Inr (out, p')"
    and "1 < vnorm (vsub (to_enu e lat lon) (to_enu e (fx_lat (get_fix e)) (fx_lon (get_fix e))))"
  shows "mo_mode out = mission_code LOITER \<and> vnorm (pr_velocity (mo_policy out)) = 4
    \<and> pr_velocity (mo_policy out)
      = vscale (vnormalize (vsub (to_enu e lat lon) (to_enu e (fx_lat (get_fix e)) (fx_lon (get_fix e))))) 4"
  using hold_step [OF assms(1)] lone_policy [OF assms(2)] by simp

text \<open>The agent takes its own estimate for a measurement: without camera and peers the position it
  stores for its module after a tick is its own fix, its flags pass the guard that is meant to
  skip an echoed fix, and so the next tick, with no telemetry from the radio in between, folds that
  fix and its own uncertainty into the filter as if the radio had measured it again.\<close>

theorem fused_pose_fed_back:
  assumes "position_valid (md_position m)" and "md_neighbors m = []"
    and "fuse_jetson_ekf now None m a = (m', a', err)"
  shows "own_nrf (md_position m')
    \<and> (let f = get_fix (ag_ekf a')
       in fold_nrf (md_position m') e = update_nrf (fx_lat f) (fx_lon f) (fx_heading f) (fx_vel_n f) (fx_vel_e f)
            (if fx_pos_std f = 0 then 5 else fx_pos_std f) (if fx_hdg_std f = 0 then 10 else fx_hdg_std f) e
          \<and> (ag_ekf_last a' = Some now)
          \<and> ag_ekf a' = fold_nrf (md_position m)
               (case ag_ekf_last a of None \<Rightarrow> ag_ekf a | Some t \<Rightarrow> predict (now - t) (ag_ekf a)))"
proof -
  let ?e = "fold_nrf (md_position m) (case ag_ekf_last a of None \<Rightarrow> ag_ekf a | Some t \<Rightarrow> predict (now - t) (ag_ekf a))"
  have f: "fused now None m a = (False, False, ?e)"
    using assms(2) by (simp add: fused_def fold_vio_def dmap_def Let_def)
  have m': "m' = fst (fuse_jetson_ekf now None m a)" and a': "a' = fst (snd (fuse_jetson_ekf now None m a))"
    by (simp_all add: assms(3))
  have "ag_ekf a' = ?e \<and> ag_ekf_last a' = Some now"
    unfolding a' fuse_jetson_ekf_eq [OF assms(1) f] Let_def snd_conv
    by (auto simp: inject_pose_def Let_def store_module_def write_effect_def split: option.split sum.split)
  moreover have pos: "md_position m' = fused_position now (md_position m) (get_fix ?e)
      (fused_flags False False (fx_converged (get_fix ?e)))"
    unfolding m' fuse_jetson_ekf_eq [OF assms(1) f] Let_def fst_conv by simp
  moreover have "own_nrf (md_position m')"
    by (simp add: pos own_nrf_def fused_position_def fused_flags_def has_bits_def Let_def)
  ultimately show ?thesis by (simp add: fold_nrf_def fused_position_def Let_def)
qed

definition lone_module :: module_state where
  "lone_module = (module0 [] 0)\<lparr>md_position :=
     position0\<lparr>ps_lat := 1, ps_source := pos_source_code SRC_GPS\<rparr>\<rparr>"

lemma fused_pose_fed_back_witness:
  "own_nrf (md_position (fst (fuse_jetson_ekf 5 None lone_module jetson_agent_init)))"
proof -
  obtain m' a' err where f: "fuse_jetson_ekf 5 None lone_module jetson_agent_init = (m', a', err)"
    by (cases "fuse_jetson_ekf 5 None lone_module jetson_agent_init")
  have "position_valid (md_position lone_module)" "md_neighbors lone_module = []"
    by (simp_all add: lone_module_def position_valid_def module0_def)
  from fused_pose_fed_back [OF this f] f show ?thesis by simp
qed

end
