(* ===== verification/OlympusClient.thy ===== *)
theory OlympusClient
  imports Autorouter
begin

text \<open>
  What the link pushes into Olympus (\<open>src/olympus_link/olympus_client.py\<close>): the telemetry and
  registration bodies built from a module's state, the keys they are published under, and the
  choice of the transport. The network is an argument: whether the zenoh session opens, which
  puts it accepts and whether the registration request succeeds; every message handed to a
  transport is appended to \<open>cl_wire\<close>. Timestamps are left out of the bodies.
\<close>

section \<open>Text\<close>

text \<open>\<open>s.rstrip('/')\<close>, with the slashes at the end cut off.\<close>

definition rstrip_slash :: "string \<Rightarrow> string" where
  "rstrip_slash s = rev (dropWhile (\<lambda>c. c = CHR ''/'') (rev s))"

section \<open>Names\<close>

definition status_names :: "(int, string) dict" where
  "status_names =
     [(status_code ST_IDLE, ''idle''), (status_code ST_SCANNING, ''scanning''),
      (status_code ST_TRANSITING, ''transiting''), (status_code ST_EXECUTING, ''executing''),
      (status_code ST_RETURNING, ''returning''), (status_code ST_CHARGING, ''charging''),
      (status_code ST_EMERGENCY, ''emergency''), (status_code ST_OFFLINE, ''offline'')]"

definition pos_source_names :: "(int, string) dict" where
  "pos_source_names =
     [(pos_source_code SRC_NONE, ''none''), (pos_source_code SRC_GPS, ''gps''),
      (pos_source_code SRC_RANGED, ''ranged''), (pos_source_code SRC_IMU, ''imu''),
      (pos_source_code SRC_FUSED, ''fused'')]"

definition dget_or :: "('k, 'v) dict \<Rightarrow> 'k \<Rightarrow> 'v \<Rightarrow> 'v" where
  "dget_or d k v = (case dget d k of None \<Rightarrow> v | Some w \<Rightarrow> w)"

definition mount_name :: "module_state \<Rightarrow> string" where
  "mount_name m = (if md_mount m = mount_code VEHICLE then ''vehicle'' else ''standalone'')"

section \<open>The bodies\<close>

record neighbor_view =
  nv_id :: string
  nv_rssi :: int
  nv_range_m :: real
  nv_quality :: int

record swarm_view =
  sw_name :: pystr
  sw_contribution :: string
  sw_is_provider :: bool
  sw_is_consumer :: bool
  sw_is_relay :: bool
  sw_mount :: string
  sw_attached_to :: pystr
  sw_sensors :: "string list"
  sw_position_source :: string
  sw_position_quality :: int
  sw_vel_north :: real
  sw_vel_east :: real
  sw_speed_mps :: real
  sw_position_std_m :: real
  sw_heading_std_deg :: real
  sw_ekf_flags :: int
  sw_node_class :: string
  sw_capabilities :: "string list"
  sw_parent :: string
  sw_secondary_parent :: string
  sw_subscriptions :: "string list"
  sw_neighbors :: "neighbor_view list"

record telemetry_body =
  tb_id :: string
  tb_role :: string
  tb_latitude :: real
  tb_longitude :: real
  tb_altitude :: real
  tb_heading :: real
  tb_battery :: int
  tb_status :: string
  tb_mesh_rssi :: int
  tb_readings :: "(string, 32 word) dict"
  tb_swarm :: swarm_view

definition best_rssi :: "module_state \<Rightarrow> int" where
  "best_rssi m =
     (case map nb_rssi (dvals (md_neighbors m)) of [] \<Rightarrow> -60 | r # rs \<Rightarrow> fold max rs r)"

definition named_readings :: "module_state \<Rightarrow> (string, 32 word) dict" where
  "named_readings m =
     fold (\<lambda>(ch, v) d. dset (dget_or channel_names ch (str_int ch)) v d) (md_readings m) []"

definition neighbor_view_of :: "neighbor \<Rightarrow> neighbor_view" where
  "neighbor_view_of n =
     \<lparr>nv_id = nb_eui n, nv_rssi = nb_rssi n, nv_range_m = py_round_to 2 (of_int (nb_range_cm n) / 100),
      nv_quality = nb_link_quality n\<rparr>"

definition swarm_view_of :: "module_state \<Rightarrow> swarm_view" where
  "swarm_view_of m =
     \<lparr>sw_name = md_name m, sw_contribution = contribution m, sw_is_provider = is_provider m,
      sw_is_consumer = is_consumer m, sw_is_relay = is_relay m, sw_mount = mount_name m,
      sw_attached_to = md_attached_to m, sw_sensors = sensor_list (md_sensors m),
      sw_position_source = dget_or pos_source_names (ps_source (md_position m)) ''none'',
      sw_position_quality = ps_quality (md_position m),
      sw_vel_north = py_round_to 3 (ps_vel_n (md_position m)),
      sw_vel_east = py_round_to 3 (ps_vel_e (md_position m)),
      sw_speed_mps = py_round_to 2 (position_speed (md_position m)),
      sw_position_std_m = py_round_to 2 (ps_pos_std (md_position m)),
      sw_heading_std_deg = py_round_to 1 (ps_hdg_std (md_position m)),
      sw_ekf_flags = ps_ekf_flags (md_position m), sw_node_class = node_class m,
      sw_capabilities = capability_list (md_capabilities m), sw_parent = ra_primary (md_route m),
      sw_secondary_parent = ra_secondary (md_route m),
      sw_subscriptions = ra_subscriptions (md_route m),
      sw_neighbors = map neighbor_view_of (dvals (md_neighbors m))\<rparr>"

definition telemetry_body_of :: "module_state \<Rightarrow> telemetry_body" where
  "telemetry_body_of m =
     \<lparr>tb_id = md_eui m, tb_role = ''swarm_module'', tb_latitude = ps_lat (md_position m),
      tb_longitude = ps_lon (md_position m), tb_altitude = ps_alt (md_position m),
      tb_heading = ps_heading (md_position m), tb_battery = md_battery_pct m,
      tb_status = dget_or status_names (md_status m) ''idle'', tb_mesh_rssi = best_rssi m,
      tb_readings = named_readings m, tb_swarm = swarm_view_of m\<rparr>"

record manifest =
  mf_provides_telemetry :: bool
  mf_provides_detections :: bool
  mf_provides_features :: bool
  mf_accepted_commands :: "string list"
  mf_command_authority :: string
  mf_participates_in_cbba :: bool
  mf_ttl_seconds :: int
  mf_data_encryption_required :: bool

record register_body =
  rb_vehicle_id :: string
  rb_role :: string
  rb_capabilities :: "pystr list"
  rb_latitude :: real
  rb_longitude :: real
  rb_altitude :: real
  rb_heading :: real
  rb_trust_tier :: string
  rb_manifest :: manifest

definition register_caps :: "module_state \<Rightarrow> pystr list" where
  "register_caps m =
     map (\<lambda>s. ascii (''sensor:'' @ s)) (sensor_list (md_sensors m))
     @ [ascii (''contribution:'' @ contribution m), ascii (''class:'' @ node_class m)]
     @ map (\<lambda>c. ascii (''cap:'' @ c)) (capability_list (md_capabilities m))
     @ [ascii (''mount:'' @ mount_name m)]
     @ (if md_attached_to m \<noteq> [] then [ascii ''attached_to:'' @ md_attached_to m] else [])"

definition manifest_of :: "module_state \<Rightarrow> manifest" where
  "manifest_of m =
     (let active = (node_class m = ''active'')
      in \<lparr>mf_provides_telemetry = True,
          mf_provides_detections = has_bits (md_sensors m) (sensor_bit S_CAMERA),
          mf_provides_features = is_provider m,
          mf_accepted_commands =
            (if active then [''IDENTIFY'', ''SET_ROLE'', ''SET_RATE'', ''SET_WAYPOINT'',
                             ''SET_MISSION'', ''OVERRIDE'']
             else [''IDENTIFY'']),
          mf_command_authority = (if active then ''advisory'' else ''none''),
          mf_participates_in_cbba = (active \<and> is_provider m), mf_ttl_seconds = 0,
          mf_data_encryption_required = False\<rparr>)"

definition register_body_of :: "module_state \<Rightarrow> register_body" where
  "register_body_of m =
     \<lparr>rb_vehicle_id = md_eui m, rb_role = ''swarm_module'', rb_capabilities = register_caps m,
      rb_latitude = ps_lat (md_position m), rb_longitude = ps_lon (md_position m),
      rb_altitude = ps_alt (md_position m), rb_heading = ps_heading (md_position m),
      rb_trust_tier = (if node_class m = ''active'' then ''partner'' else ''observer''),
      rb_manifest = manifest_of m\<rparr>"

section \<open>The client\<close>

datatype published =
    PubTelemetry telemetry_body | PubNeighbors string "neighbor_view list"
  | PubTopology topology_view | PubRegistry register_body

datatype wire = ZenohPut string published | RestPut string published | RestRegister register_body

record olympus_client =
  cl_sink :: string
  cl_prefix :: string
  cl_session :: bool
  cl_registered :: "string list"
  cl_published :: "(string, telemetry_body) dict"
  cl_last_topology :: "topology_view option"
  cl_wire :: "wire list"

definition olympus_client_init :: "string \<Rightarrow> string \<Rightarrow> bool \<Rightarrow> olympus_client" where
  "olympus_client_init sink key_prefix opens =
     \<lparr>cl_sink = (if sink = ''zenoh'' \<and> \<not> opens then ''rest'' else sink),
      cl_prefix = rstrip_slash key_prefix, cl_session = (sink = ''zenoh'' \<and> opens),
      cl_registered = [], cl_published = [], cl_last_topology = None, cl_wire = []\<rparr>"

text \<open>\<open>publish\<close>: nothing in a dry run; the session when there is one, and REST when there is none or
  its put raises (\<open>put_ok\<close> tells for each key).\<close>

definition publish :: "(string \<Rightarrow> bool) \<Rightarrow> string \<Rightarrow> published \<Rightarrow> olympus_client \<Rightarrow> olympus_client" where
  "publish put_ok key obj c =
     (if cl_sink c = ''dryrun'' then c
      else if cl_session c \<and> put_ok key then c\<lparr>cl_wire := cl_wire c @ [ZenohPut key obj]\<rparr>
      else c\<lparr>cl_wire := cl_wire c @ [RestPut key obj]\<rparr>)"

definition mark_registered :: "string \<Rightarrow> olympus_client \<Rightarrow> olympus_client" where
  "mark_registered eui c = c\<lparr>cl_registered := List.insert eui (cl_registered c)\<rparr>"

definition register_module ::
  "(string \<Rightarrow> bool) \<Rightarrow> bool \<Rightarrow> module_state \<Rightarrow> olympus_client \<Rightarrow> bool \<times> olympus_client" where
  "register_module put_ok post_ok m c =
     (let body = register_body_of m
      in if cl_sink c = ''dryrun'' then (True, mark_registered (md_eui m) c)
         else let c1 = c\<lparr>cl_wire := cl_wire c @ [RestRegister body]\<rparr>;
                  c2 = (if post_ok then mark_registered (md_eui m) c1 else c1)
              in (post_ok,
                  publish put_ok (cl_prefix c2 @ ''/registry/'' @ md_eui m) (PubRegistry body) c2))"

definition publish_telemetry ::
  "(string \<Rightarrow> bool) \<Rightarrow> module_state \<Rightarrow> olympus_client \<Rightarrow> olympus_client" where
  "publish_telemetry put_ok m c =
     (let payload = telemetry_body_of m;
          c1 = c\<lparr>cl_published := dset (md_eui m) payload (cl_published c)\<rparr>;
          c2 = publish put_ok (cl_prefix c @ ''/swarm/'' @ md_eui m @ ''/telemetry'') (PubTelemetry payload) c1
      in publish put_ok (cl_prefix c @ ''/swarm/'' @ md_eui m @ ''/neighbors'')
           (PubNeighbors (md_eui m) (sw_neighbors (tb_swarm payload))) c2)"

definition publish_topology ::
  "(string \<Rightarrow> bool) \<Rightarrow> topology_view \<Rightarrow> olympus_client \<Rightarrow> olympus_client" where
  "publish_topology put_ok topo c =
     publish put_ok (cl_prefix c @ ''/swarm/topology'') (PubTopology topo) (c\<lparr>cl_last_topology := Some topo\<rparr>)"

section \<open>What a manifest promises\<close>

lemma has_bits_or: "has_bits c (a OR b) \<longleftrightarrow> has_bits c a \<or> has_bits c b"
  by (simp add: has_bits_def bit.conj_disj_distrib or_eq_0_iff)

lemma active_iff:
  "node_class m = ''active'' \<longleftrightarrow>
     (is_autonomous m \<or> is_overridable m) \<and> \<not> has_bits (md_capabilities m) (capability_bit C_BEACON_TX)"
  unfolding node_class_def Let_def has_bits_or is_autonomous_def is_overridable_def by auto

lemma manifest_authority:
  "mf_command_authority (manifest_of m) = ''advisory'' \<longleftrightarrow> node_class m = ''active''"
  "''SET_WAYPOINT'' \<in> set (mf_accepted_commands (manifest_of m)) \<longleftrightarrow> node_class m = ''active''"
  "''IDENTIFY'' \<in> set (mf_accepted_commands (manifest_of m))"
  "rb_trust_tier (register_body_of m) = ''partner'' \<longleftrightarrow> node_class m = ''active''"
  by (simp_all add: manifest_of_def register_body_of_def Let_def)

lemma client_frame:
  "cl_sink (publish po k x c) = cl_sink c" "cl_prefix (publish po k x c) = cl_prefix c"
  "cl_session (publish po k x c) = cl_session c" "cl_registered (publish po k x c) = cl_registered c"
  "cl_published (publish po k x c) = cl_published c"
  by (simp_all add: publish_def)

lemma register_effect:
  "set (cl_registered (snd (register_module po ok m c))) =
     (if cl_sink c = ''dryrun'' \<or> ok then insert (md_eui m) (set (cl_registered c)) else set (cl_registered c))"
  "fst (register_module po ok m c) \<longleftrightarrow> cl_sink c = ''dryrun'' \<or> ok"
  by (auto simp: register_module_def Let_def client_frame mark_registered_def)

end
