(* ===== verification/Service.thy ===== *)
theory Service
  imports Localization OlympusClient
begin

text \<open>
  The command-station service (\<open>src/olympus_link/service.py\<close>) and the operator's command path into
  it (\<open>src/olympus_link/commands.py\<close>): one tick runs liveness, registration, localization, routing
  and publishing over the registry; payloads from the gateway update the registry; commands from
  Olympus become unicast or broadcast frames.

  The payloads handed to the serial line are kept in \<open>sv_frames\<close>. A tick that raises leaves the
  state it reached, as the loop around it only logs the exception.
\<close>

section \<open>The service\<close>

record service_config =
  sc_module_ttl_s :: real
  sc_router :: router_config

record service =
  sv_reg :: registry
  sv_olympus :: olympus_client
  sv_serial :: bool
  sv_seq :: int
  sv_frames :: "bytes list"

definition service_init :: "string \<Rightarrow> olympus_client \<Rightarrow> service" where
  "service_init gateway c =
     \<lparr>sv_reg = registry0 gateway, sv_olympus = c, sv_serial = False, sv_seq = 0, sv_frames = []\<rparr>"

type_synonym service_outcome = "service \<times> py_error option"

definition adopt_gateway :: "message \<Rightarrow> registry \<Rightarrow> registry" where
  "adopt_gateway msg r =
     (if has_bits (message_flags msg) (flag_bit F_GATEWAY)
         \<and> eui_str (message_eui msg) \<noteq> rg_gateway_eui r
      then r\<lparr>rg_gateway_eui := eui_str (message_eui msg)\<rparr> else r)"

definition service_on_payload :: "real \<Rightarrow> bytes \<Rightarrow> service \<Rightarrow> service" where
  "service_on_payload now payload s =
     (case decode_message payload of
        Inl e \<Rightarrow> s
      | Inr None \<Rightarrow> s
      | Inr (Some msg) \<Rightarrow>
          let r = adopt_gateway msg (sv_reg s)
          in s\<lparr>sv_reg := (case msg of
               MHello m \<Rightarrow> on_hello now m r
             | MTelemetry m \<Rightarrow> on_telemetry now m r
             | MNeighbors m \<Rightarrow> on_neighbors now m r
             | _ \<Rightarrow> r)\<rparr>)"

text \<open>\<open>self.serial.write_payload(encoded)\<close> with the next sequence number.\<close>

definition send_frame :: "(int \<Rightarrow> bytes result) \<Rightarrow> service \<Rightarrow> service_outcome" where
  "send_frame enc s =
     (let s1 = s\<lparr>sv_seq := sv_seq s + 1\<rparr>
      in case enc (sv_seq s1) of
           Inl e \<Rightarrow> (s1, Some e)
         | Inr b \<Rightarrow> (s1\<lparr>sv_frames := sv_frames s1 @ [b]\<rparr>, None))"

definition push_route :: "string \<Rightarrow> service \<Rightarrow> service_outcome" where
  "push_route eui s =
     (if \<not> sv_serial s \<or> eui = rg_gateway_eui (sv_reg s) then (s, None)
      else send_frame (\<lambda>seq.
             rbind (route_message (the (dget (rg_modules (sv_reg s)) eui)) seq) (\<lambda>route.
             route_encode (route\<lparr>ro_flags := flag_bit F_GATEWAY\<rparr>))) s)"

fun push_routes :: "string list \<Rightarrow> service \<Rightarrow> service_outcome" where
  "push_routes [] s = (s, None)"
| "push_routes (e # es) s =
     (case push_route e s of
        (s1, Some err) \<Rightarrow> (s1, Some err)
      | (s1, None) \<Rightarrow> push_routes es s1)"

definition service_send_command :: "string \<Rightarrow> int \<Rightarrow> bytes \<Rightarrow> service \<Rightarrow> service_outcome" where
  "service_send_command eui op params s =
     (if \<not> sv_serial s then (s, None)
      else send_frame (\<lambda>seq.
             rbind (eui_bytes eui) (\<lambda>e.
             cmd_encode \<lparr>cm_eui = e, cm_op = op, cm_params = params, cm_seq = seq,
                         cm_flags = flag_bit F_GATEWAY\<rparr>)) s)"

definition service_send_broadcast :: "int \<Rightarrow> bytes \<Rightarrow> service \<Rightarrow> service_outcome" where
  "service_send_broadcast op params s =
     (if \<not> sv_serial s then (s, None)
      else let leader = (if rg_gateway_eui (sv_reg s) \<noteq> [] then rg_gateway_eui (sv_reg s)
                         else replicate 16 (CHR ''0''))
           in send_frame (\<lambda>seq.
                rbind (eui_bytes leader) (\<lambda>e.
                broadcast_encode \<lparr>bc_eui = e, bc_op = op, bc_params = params, bc_seq = seq,
                                  bc_flags = flag_bit F_LEADER OR flag_bit F_OVERRIDE\<rparr>)) s)"

section \<open>The tick\<close>

record network =
  nw_put_ok :: "string \<Rightarrow> bool"
  nw_post_ok :: "string \<Rightarrow> bool"

definition publish_offline :: "network \<Rightarrow> registry \<Rightarrow> string \<Rightarrow> olympus_client \<Rightarrow> olympus_client" where
  "publish_offline nw r eui c =
     (if eui \<noteq> rg_gateway_eui r
      then publish_telemetry (nw_put_ok nw) (the (dget (rg_modules r) eui)) c else c)"

definition register_new :: "network \<Rightarrow> string \<Rightarrow> registry \<times> olympus_client \<Rightarrow> registry \<times> olympus_client" where
  "register_new nw eui rc =
     (let (r, c) = rc; m = the (dget (rg_modules r) eui)
      in if md_eui m = rg_gateway_eui r then (r, c)
         else if \<not> md_registered m
         then (put_module (m\<lparr>md_registered := True\<rparr>) r,
               snd (register_module (nw_put_ok nw) (nw_post_ok nw (md_eui m)) m c))
         else (r, c))"

definition service_tick :: "real \<Rightarrow> route_hash \<Rightarrow> network \<Rightarrow> service_config \<Rightarrow> service \<Rightarrow> service_outcome" where
  "service_tick now rhash nw cfg s =
     (let (flipped, r1) = expire now (sc_module_ttl_s cfg) (sv_reg s);
          c1 = fold (publish_offline nw r1) flipped (sv_olympus s);
          (seen, r2) = drain_newly_seen r1;
          (r3, c3) = fold (register_new nw) seen (r2, c1);
          (fixed, r4) = localize r3;
          (changed, r5) = compute_routes rhash (sc_router cfg) r4;
          (s6, err) = push_routes changed (s\<lparr>sv_reg := r5, sv_olympus := c3\<rparr>)
      in if err \<noteq> None then (s6, err)
         else let c7 = fold (publish_telemetry (nw_put_ok nw)) (online_modules (sv_reg s6)) (sv_olympus s6)
              in (s6\<lparr>sv_olympus := publish_topology (nw_put_ok nw) (topology (sv_reg s6)) c7\<rparr>, None))"

section \<open>Commands from Olympus\<close>

text \<open>The JSON values a command's parameters hold; command names and keys are ASCII.\<close>

datatype json_value = JNull | JNum real

definition json_get :: "(string, json_value) dict \<Rightarrow> string \<Rightarrow> json_value \<Rightarrow> json_value" where
  "json_get p k v = dget_or p k v"

definition json_int :: "json_value \<Rightarrow> int result" where
  "json_int v = (case v of JNull \<Rightarrow> Inl TypeError | JNum x \<Rightarrow> Inr (py_int x))"

type_synonym downlink = "cmd_op \<times> bytes \<times> bool"

definition set_mission_cmd :: "mission_type \<Rightarrow> int \<Rightarrow> bool \<Rightarrow> downlink option result" where
  "set_mission_cmd mt ttl bcast =
     rbind (pack_mission (mission_code mt) ttl) (\<lambda>b. Inr (Some (SET_MISSION, b, bcast)))"

definition translate :: "string option \<Rightarrow> (string, json_value) dict \<Rightarrow> downlink option result" where
  "translate command p =
     (let c = map upper_char (case command of None \<Rightarrow> [] | Some s \<Rightarrow> s);
          lat = json_get p ''latitude'' (json_get p ''lat'' JNull);
          lon = json_get p ''longitude'' (json_get p ''lon'' JNull);
          alt = (case json_get p ''altitude'' (json_get p ''alt'' (JNum 0)) of JNull \<Rightarrow> 0 | JNum x \<Rightarrow> x)
      in rbind (json_int (json_get p ''priority'' (JNum 5))) (\<lambda>pri.
         rbind (json_int (json_get p ''ttl_s'' (JNum 0))) (\<lambda>ttl.
         case (c = ''GO_TO'', lat, lon) of
           (True, JNum la, JNum lo) \<Rightarrow>
             rbind (pack_waypoint \<lparr>wp_lat = la, wp_lon = lo, wp_alt = alt,
                      wp_mission_type = mission_code GOTO, wp_priority = pri, wp_ttl_s = ttl\<rparr>)
               (\<lambda>b. Inr (Some (SET_WAYPOINT, b, False)))
         | _ \<Rightarrow>
             if c \<in> {''RETURN_TO_LAUNCH'', ''RTL''} then set_mission_cmd RTL ttl False
             else if c = ''START_SCAN'' then set_mission_cmd SEARCH ttl False
             else if c \<in> {''PAUSE'', ''LOITER''} then set_mission_cmd LOITER ttl False
             else if c = ''RESUME'' then set_mission_cmd COVERAGE ttl False
             else if c = ''IDENTIFY'' then Inr (Some (IDENTIFY, [], False))
             else if c = ''CLEAR_OVERRIDE'' then Inr (Some (CLEAR_OVERRIDE, [], False))
             else if c \<in> {''EMERGENCY_STOP'', ''ABORT_ALL''} then set_mission_cmd LOITER 0 True
             else Inr None)))"

definition fleet_targets :: "string list" where
  "fleet_targets = [''broadcast'', ''all'', ''fleet'', ''*'']"

definition last_segment :: "string \<Rightarrow> string" where
  "last_segment key = rev (takeWhile (\<lambda>c. c \<noteq> CHR ''/'') (rev (rstrip_slash key)))"

text \<open>\<open>_on_sample\<close>: the call it schedules; \<open>None\<close> as the object is a sample that does not decode.\<close>

definition on_sample ::
  "string \<Rightarrow> (string option \<times> (string, json_value) dict) option
     \<Rightarrow> (string \<times> int \<times> bytes \<times> bool) option result" where
  "on_sample key obj =
     (case obj of
        None \<Rightarrow> Inr None
      | Some (command, params) \<Rightarrow>
          rbind (translate command params) (\<lambda>d. Inr (case d of
            None \<Rightarrow> None
          | Some (op, b, bcast) \<Rightarrow> Some (last_segment key, cmd_code op, b, bcast))))"

definition dispatch :: "string \<Rightarrow> int \<Rightarrow> bytes \<Rightarrow> bool \<Rightarrow> service \<Rightarrow> service_outcome" where
  "dispatch target op params bcast s =
     (if bcast \<or> map lower_char target \<in> set fleet_targets then service_send_broadcast op params s
      else service_send_command target op params s)"

section \<open>Frames\<close>

definition frames_ok :: "service \<Rightarrow> bool" where
  "frames_ok s \<longleftrightarrow> 0 \<le> sv_seq s \<and> sorted_wrt (<) (map frame_seq (sv_frames s))
     \<and> (\<forall>b \<in> set (sv_frames s). 0 < frame_seq b \<and> frame_seq b \<le> sv_seq s)"

lemma send_frame_ok:
  assumes "frames_ok s" and "\<And>b. enc (sv_seq s + 1) = Inr b \<Longrightarrow> frame_seq b = sv_seq s + 1"
  shows "frames_ok (fst (send_frame enc s))"
  using assms by (fastforce simp: frames_ok_def send_frame_def Let_def sorted_wrt_append split: sum.split)

lemma send_frame_frame:
  "sv_reg (fst (send_frame enc s)) = sv_reg s" "sv_olympus (fst (send_frame enc s)) = sv_olympus s"
  "sv_serial (fst (send_frame enc s)) = sv_serial s"
  by (simp_all add: send_frame_def Let_def split: sum.split)

lemma route_message_fields:
  "route_message m seq = Inr r \<Longrightarrow> ro_seq r = seq \<and> length (ro_eui r) = 8"
  by (auto simp: route_message_def Let_def rbind_eq_Inr intro: eui_bytes_length)

lemma frame_seq_messages:
  "\<lbrakk>cmd_encode m = Inr b; length (cm_eui m) = 8\<rbrakk> \<Longrightarrow> frame_seq b = cm_seq m"
  "\<lbrakk>broadcast_encode bc = Inr b; length (bc_eui bc) = 8\<rbrakk> \<Longrightarrow> frame_seq b = bc_seq bc"
  "\<lbrakk>route_encode r = Inr b; length (ro_eui r) = 8\<rbrakk> \<Longrightarrow> frame_seq b = ro_seq r"
  by (auto simp: cmd_encode_def broadcast_encode_def route_encode_def rbind_eq_Inr dest: frame_seq_encoded)

lemma push_route_ok:
  "frames_ok s \<Longrightarrow> frames_ok (fst (push_route e s))"
  "sv_reg (fst (push_route e s)) = sv_reg s" "sv_olympus (fst (push_route e s)) = sv_olympus s"
proof -
  show "frames_ok (fst (push_route e s))" if ok: "frames_ok s"
  proof (cases "sv_serial s \<and> e \<noteq> rg_gateway_eui (sv_reg s)")
    case True
    have "frame_seq b = sv_seq s + 1"
      if enc: "rbind (route_message m (sv_seq s + 1)) (\<lambda>r. route_encode (r\<lparr>ro_flags := flag_bit F_GATEWAY\<rparr>)) = Inr b"
      for b m
    proof -
      obtain r where r: "route_message m (sv_seq s + 1) = Inr r"
        "route_encode (r\<lparr>ro_flags := flag_bit F_GATEWAY\<rparr>) = Inr b"
        using enc by (auto simp: rbind_eq_Inr)
      from frame_seq_messages(3) [OF r(2)] route_message_fields [OF r(1)] show ?thesis by simp
    qed
    with ok True show ?thesis by (simp add: push_route_def send_frame_ok)
  qed (use ok in \<open>auto simp: push_route_def\<close>)
qed (simp_all add: push_route_def send_frame_frame)

lemma push_routes_ok:
  "frames_ok s \<Longrightarrow> frames_ok (fst (push_routes es s))"
  "sv_reg (fst (push_routes es s)) = sv_reg s \<and> sv_olympus (fst (push_routes es s)) = sv_olympus s"
proof -
  have "(frames_ok s \<longrightarrow> frames_ok (fst (push_routes es s)))
      \<and> sv_reg (fst (push_routes es s)) = sv_reg s \<and> sv_olympus (fst (push_routes es s)) = sv_olympus s"
  proof (induction es arbitrary: s)
    case (Cons e es)
    obtain s1 err where p: "push_route e s = (s1, err)" by (cases "push_route e s")
    with push_route_ok [where e = e and s = s] Cons.IH [of s1] show ?case
      by (cases err) auto
  qed simp
  then show "frames_ok s \<Longrightarrow> frames_ok (fst (push_routes es s))"
    "sv_reg (fst (push_routes es s)) = sv_reg s \<and> sv_olympus (fst (push_routes es s)) = sv_olympus s"
    by blast+
qed

lemma send_ok:
  assumes "frames_ok s"
  shows "frames_ok (fst (service_send_command e op ps s))"
    and "frames_ok (fst (service_send_broadcast op ps s))"
proof -
  have "frame_seq b = sv_seq s + 1"
    if "rbind (eui_bytes e) (\<lambda>e. cmd_encode (m\<lparr>cm_eui := e, cm_seq := sv_seq s + 1\<rparr>)) = Inr b" for b e m
    using that by (auto simp: rbind_eq_Inr dest!: eui_bytes_length frame_seq_messages(1))
  from this [of _ "\<lparr>cm_eui = [], cm_op = op, cm_params = ps, cm_seq = 0, cm_flags = flag_bit F_GATEWAY\<rparr>"]
  show "frames_ok (fst (service_send_command e op ps s))"
    using assms by (simp add: service_send_command_def send_frame_ok)
  have "frame_seq b = sv_seq s + 1"
    if "rbind (eui_bytes e) (\<lambda>e. broadcast_encode (m\<lparr>bc_eui := e, bc_seq := sv_seq s + 1\<rparr>)) = Inr b" for b e m
    using that by (auto simp: rbind_eq_Inr dest!: eui_bytes_length frame_seq_messages(2))
  from this [of _ "\<lparr>bc_eui = [], bc_op = op, bc_params = ps, bc_seq = 0,
      bc_flags = flag_bit F_LEADER OR flag_bit F_OVERRIDE\<rparr>"]
  show "frames_ok (fst (service_send_broadcast op ps s))"
    using assms by (simp add: service_send_broadcast_def Let_def send_frame_ok)
qed

text \<open>A tick in four parts: what it does to the registry and the client, then the routes, then the
  publishing.\<close>

definition tick_state :: "real \<Rightarrow> route_hash \<Rightarrow> network \<Rightarrow> service_config \<Rightarrow> service \<Rightarrow> string list \<times> service" where
  "tick_state now rhash nw cfg s =
     (let (flipped, r1) = expire now (sc_module_ttl_s cfg) (sv_reg s);
          c1 = fold (publish_offline nw r1) flipped (sv_olympus s);
          (seen, r2) = drain_newly_seen r1;
          (r3, c3) = fold (register_new nw) seen (r2, c1);
          (changed, r5) = compute_routes rhash (sc_router cfg) (snd (localize r3))
      in (changed, s\<lparr>sv_reg := r5, sv_olympus := c3\<rparr>))"

lemma service_tick_eq:
  "service_tick now rhash nw cfg s =
     (let (changed, s5) = tick_state now rhash nw cfg s; (s6, err) = push_routes changed s5
      in if err \<noteq> None then (s6, err)
         else let c7 = fold (publish_telemetry (nw_put_ok nw)) (online_modules (sv_reg s6)) (sv_olympus s6)
              in (s6\<lparr>sv_olympus := publish_topology (nw_put_ok nw) (topology (sv_reg s6)) c7\<rparr>, None))"
  by (simp add: service_tick_def tick_state_def Let_def split_beta)

lemma tick_frames:
  assumes "frames_ok s"
  shows "frames_ok (fst (service_tick now rhash nw cfg s))"
proof -
  obtain ch s5 where t: "tick_state now rhash nw cfg s = (ch, s5)" by (cases "tick_state now rhash nw cfg s")
  have "frames_ok s5" using t assms by (auto simp: tick_state_def Let_def frames_ok_def split: prod.splits)
  then have "frames_ok (fst (push_routes ch s5))" by (rule push_routes_ok)
  then show ?thesis
    by (cases "push_routes ch s5") (auto simp: service_tick_eq t Let_def frames_ok_def)
qed

datatype service_event =
    GatewayPayload real bytes | ServiceTick real route_hash network | CommandSample string int bytes bool
  | SerialUp

fun service_step :: "service_config \<Rightarrow> service \<Rightarrow> service_event \<Rightarrow> service" where
  "service_step cfg s (GatewayPayload now b) = service_on_payload now b s"
| "service_step cfg s (ServiceTick now rhash nw) = fst (service_tick now rhash nw cfg s)"
| "service_step cfg s (CommandSample target op params bcast) = fst (dispatch target op params bcast s)"
| "service_step cfg s SerialUp = s\<lparr>sv_serial := True\<rparr>"

interpretation service_machine: event_machine "service_step cfg" frames_ok
proof unfold_locales
  fix s e assume ok: "frames_ok s"
  show "frames_ok (service_step cfg s e)"
  proof (cases e)
    case (GatewayPayload now b)
    then show ?thesis using ok
      by (auto simp: service_on_payload_def Let_def frames_ok_def split: sum.split option.split)
  next
    case (ServiceTick now rhash nw)
    then show ?thesis using tick_frames [OF ok] by simp
  next
    case (CommandSample target op ps bcast)
    then show ?thesis using send_ok [OF ok] by (simp add: dispatch_def)
  next
    case SerialUp
    then show ?thesis using ok by (simp add: frames_ok_def)
  qed
qed

lemma service_frames_ordered:
  "sorted_wrt (<) (map frame_seq (sv_frames (foldl (service_step cfg) (service_init g c) es)))"
  using service_machine.run_inv [of "service_init g c" cfg es]
  by (simp add: frames_ok_def service_init_def)

section \<open>Registration in a tick\<close>

lemma put_module_fields:
  "rg_gateway_eui (put_module m r) = rg_gateway_eui r" "rg_newly_seen (put_module m r) = rg_newly_seen r"
  by (simp_all add: put_module_def)

lemma register_new_spec:
  assumes "registry_inv r" and "dget (rg_modules r) e = Some m" and "md_online m"
    and "register_new nw e (r, c) = (r', c')"
  shows "registry_inv r' \<and> rg_gateway_eui r' = rg_gateway_eui r \<and> rg_newly_seen r' = rg_newly_seen r
    \<and> (\<forall>k. dget (rg_modules r') k =
         (if k = e \<and> e \<noteq> rg_gateway_eui r then Some (m\<lparr>md_registered := True\<rparr>) else dget (rg_modules r) k))
    \<and> cl_sink c' = cl_sink c
    \<and> set (cl_registered c') = set (cl_registered c)
        \<union> (if e \<noteq> rg_gateway_eui r \<and> \<not> md_registered m \<and> (cl_sink c = ''dryrun'' \<or> nw_post_ok nw e) then {e} else {})"
proof -
  have m: "md_eui m = e" "module_inv m" using assms(1,2) by (simp_all add: registry_inv_def)
  let ?m = "m\<lparr>md_registered := True\<rparr>"
  have "module_inv ?m" using m(2) assms(3) by (simp add: module_inv_def)
  then have inv: "registry_inv (put_module ?m r)" by (rule inv_put_module [OF assms(1)])
  have sink: "cl_sink (snd (register_module po ok m c)) = cl_sink c" for po ok
    by (auto simp: register_module_def Let_def client_frame mark_registered_def)
  consider "e = rg_gateway_eui r" | "e \<noteq> rg_gateway_eui r" "md_registered m" | "e \<noteq> rg_gateway_eui r" "\<not> md_registered m"
    by blast
  then show ?thesis
  proof cases
    case 1
    with assms m show ?thesis by (auto simp: register_new_def Let_def)
  next
    case 2
    then have "m\<lparr>md_registered := True\<rparr> = m" by simp
    with 2 assms m show ?thesis by (auto simp: register_new_def Let_def)
  next
    case 3
    then have "r' = put_module ?m r" "c' = snd (register_module (nw_put_ok nw) (nw_post_ok nw e) m c)"
      using assms(2,4) m(1) by (simp_all add: register_new_def Let_def)
    with 3 inv m(1) sink register_effect(1) show ?thesis
      by (auto simp: put_module_get put_module_fields)
  qed
qed

lemma register_fold:
  assumes "registry_inv r" and "distinct es" and "\<forall>e \<in> set es. \<exists>m. dget (rg_modules r) e = Some m \<and> md_online m"
    and "fold (register_new nw) es (r, c) = (r', c')"
  shows "registry_inv r' \<and> rg_gateway_eui r' = rg_gateway_eui r \<and> rg_newly_seen r' = rg_newly_seen r
    \<and> (\<forall>k. dget (rg_modules r') k =
         (if k \<in> set es \<and> k \<noteq> rg_gateway_eui r
          then map_option (\<lambda>m. m\<lparr>md_registered := True\<rparr>) (dget (rg_modules r) k) else dget (rg_modules r) k))
    \<and> cl_sink c' = cl_sink c
    \<and> set (cl_registered c') = set (cl_registered c)
        \<union> {k \<in> set es. k \<noteq> rg_gateway_eui r \<and> \<not> md_registered (the (dget (rg_modules r) k))
             \<and> (cl_sink c = ''dryrun'' \<or> nw_post_ok nw k)}"
  using assms
proof (induction es arbitrary: r c)
  case (Cons e es)
  obtain m where m: "dget (rg_modules r) e = Some m" "md_online m" using Cons.prems(3) by auto
  obtain r1 c1 where s: "register_new nw e (r, c) = (r1, c1)" by (cases "register_new nw e (r, c)")
  note one = register_new_spec [OF Cons.prems(1) m s]
  have e: "e \<notin> set es" "distinct es" using Cons.prems(2) by simp_all
  have "\<forall>x \<in> set es. \<exists>m. dget (rg_modules r1) x = Some m \<and> md_online m"
    using Cons.prems(3) one e(1) by auto
  moreover have "fold (register_new nw) es (r1, c1) = (r', c')" using Cons.prems(4) s by simp
  ultimately have ih: "registry_inv r' \<and> rg_gateway_eui r' = rg_gateway_eui r1 \<and> rg_newly_seen r' = rg_newly_seen r1
    \<and> (\<forall>k. dget (rg_modules r') k =
         (if k \<in> set es \<and> k \<noteq> rg_gateway_eui r1
          then map_option (\<lambda>m. m\<lparr>md_registered := True\<rparr>) (dget (rg_modules r1) k) else dget (rg_modules r1) k))
    \<and> cl_sink c' = cl_sink c1
    \<and> set (cl_registered c') = set (cl_registered c1)
        \<union> {k \<in> set es. k \<noteq> rg_gateway_eui r1 \<and> \<not> md_registered (the (dget (rg_modules r1) k))
             \<and> (cl_sink c1 = ''dryrun'' \<or> nw_post_ok nw k)}"
    using Cons.IH [of r1 c1] e one by blast
  have others: "dget (rg_modules r1) k = dget (rg_modules r) k" if "k \<in> set es" for k
    using one e that by auto
  have "{k \<in> set es. k \<noteq> rg_gateway_eui r1 \<and> \<not> md_registered (the (dget (rg_modules r1) k))
             \<and> (cl_sink c1 = ''dryrun'' \<or> nw_post_ok nw k)}
      = {k \<in> set es. k \<noteq> rg_gateway_eui r \<and> \<not> md_registered (the (dget (rg_modules r) k))
             \<and> (cl_sink c = ''dryrun'' \<or> nw_post_ok nw k)}"
    using one others e(1) by auto
  moreover have "dget (rg_modules r') k =
         (if k \<in> set (e # es) \<and> k \<noteq> rg_gateway_eui r
          then map_option (\<lambda>m. m\<lparr>md_registered := True\<rparr>) (dget (rg_modules r) k) else dget (rg_modules r) k)" for k
    using ih one e(1) m(1) by auto
  moreover have split: "{k \<in> set (e # es). Q k} = (if Q e then {e} else {}) \<union> {k \<in> set es. Q k}" for Q
    by auto
  have "set (cl_registered c') = set (cl_registered c)
        \<union> {k \<in> set (e # es). k \<noteq> rg_gateway_eui r \<and> \<not> md_registered (the (dget (rg_modules r) k))
             \<and> (cl_sink c = ''dryrun'' \<or> nw_post_ok nw k)}"
    unfolding split using ih one calculation(1) m(1) by (simp add: Un_assoc)
  ultimately show ?case using ih one by simp
qed simp

lemma frame_back:
  assumes "\<exists>f. dget d' k = map_option f (dget d k)
      \<and> (\<forall>m. md_online (f m) = md_online m \<and> md_registered (f m) = md_registered m)"
    and "dget d' k = Some m"
  obtains m0 where "dget d k = Some m0" "md_online m0 = md_online m" "md_registered m0 = md_registered m"
  using assms by (cases "dget d k") auto

lemma localize_frame:
  assumes "registry_inv r"
  shows "registry_inv (snd (localize r)) \<and> rg_gateway_eui (snd (localize r)) = rg_gateway_eui r
    \<and> rg_newly_seen (snd (localize r)) = rg_newly_seen r
    \<and> (\<forall>k. \<exists>f. dget (rg_modules (snd (localize r))) k = map_option f (dget (rg_modules r) k)
          \<and> (\<forall>m. md_online (f m) = md_online m \<and> md_registered (f m) = md_registered m))"
proof (cases "length (filter is_anchor (online_modules r)) < 3")
  case True
  then show ?thesis using assms by (auto simp: localize_def Let_def option.map_id intro!: exI [of _ id])
next
  case False
  let ?p = "md_position (hd (filter is_anchor (online_modules r)))"
  let ?es = "map md_eui (online_modules r)"
  obtain new r' where l: "localize_loop (ps_lat ?p) (ps_lon ?p) ?es ([], r) = (new, r')"
    by (cases "localize_loop (ps_lat ?p) (ps_lon ?p) ?es ([], r)")
  have "set ?es \<subseteq> set (dkeys (rg_modules r))"
    using online_ids(2) [OF assms] pydict.keys_get [of _ "rg_modules r"] by blast
  note spec = localize_loop_spec [OF l assms online_ids(1) [OF assms] this]
  have loc: "localize r = (new, r')" using False l by (simp add: localize_def Let_def)
  have "\<exists>f. dget (rg_modules r') k = map_option f (dget (rg_modules r) k)
          \<and> (\<forall>m. md_online (f m) = md_online m \<and> md_registered (f m) = md_registered m)" for k
  proof (cases "k \<in> set new")
    case True
    with spec obtain m p where "dget (rg_modules r) k = Some m" "dget (rg_modules r') k = Some (m\<lparr>md_position := p\<rparr>)"
      by auto
    then show ?thesis by (intro exI [of _ "\<lambda>m. m\<lparr>md_position := p\<rparr>"]) simp
  next
    case False
    with spec show ?thesis by (intro exI [of _ id]) (auto simp: option.map_id)
  qed
  with spec loc show ?thesis by auto
qed

lemma offline_frame:
  "cl_sink (fold (publish_offline nw r) es c) = cl_sink c"
  "cl_registered (fold (publish_offline nw r) es c) = cl_registered c"
proof -
  have "cl_sink (fold (publish_offline nw r) es c) = cl_sink c
      \<and> cl_registered (fold (publish_offline nw r) es c) = cl_registered c"
    by (induction es arbitrary: c) (auto simp: publish_offline_def publish_telemetry_def Let_def client_frame)
  then show "cl_sink (fold (publish_offline nw r) es c) = cl_sink c"
    "cl_registered (fold (publish_offline nw r) es c) = cl_registered c" by blast+
qed

lemma published_frame:
  "cl_registered (fold (publish_telemetry po) ms c) = cl_registered c"
  "cl_registered (publish_topology po t c) = cl_registered c"
  by (induction ms arbitrary: c) (simp_all add: publish_telemetry_def publish_topology_def Let_def client_frame)

lemma compute_frame:
  assumes "registry_inv r" and "compute_routes rhash cfg r = (ch, r')"
  shows "registry_inv r' \<and> rg_newly_seen r' = rg_newly_seen r
    \<and> (\<exists>f. dget (rg_modules r') k = map_option f (dget (rg_modules r) k)
          \<and> (\<forall>m. md_online (f m) = md_online m \<and> md_registered (f m) = md_registered m))"
proof -
  obtain dst prev where d: "dijkstra (adjacency r) (rg_gateway_eui r) = (dst, prev)"
    by (cases "dijkstra (adjacency r) (rg_gateway_eui r)")
  note spec = compute_spec [OF assms refl d]
  show ?thesis
    using spec(1,5) spec(3) [of k]
    by (intro conjI exI [of _ "\<lambda>m. if md_online m \<and> k \<noteq> rg_gateway_eui r
             then m\<lparr>md_route := new_route rhash cfg r (adjacency r) dst prev m\<rparr> else m"]) auto
qed

text \<open>Every online module but the gateway is queued until it is registered.\<close>

definition queued_but_gateway :: "registry \<Rightarrow> bool" where
  "queued_but_gateway r \<longleftrightarrow>
     (\<forall>k m. dget (rg_modules r) k = Some m \<and> md_online m \<and> \<not> md_registered m \<and> k \<noteq> rg_gateway_eui r
        \<longrightarrow> k \<in> set (rg_newly_seen r))"

lemma tick_state_spec:
  assumes "registry_inv (sv_reg s)" and "queued_but_gateway (sv_reg s)"
    and "\<forall>e \<in> set (rg_newly_seen (sv_reg s)). \<exists>m. dget (rg_modules (sv_reg s)) e = Some m
           \<and> md_online m \<and> \<not> stale now (sc_module_ttl_s cfg) m"
    and "tick_state now rhash nw cfg s = (changed, s5)"
  shows "rg_newly_seen (sv_reg s5) = []
    \<and> (\<forall>k m. dget (rg_modules (sv_reg s5)) k = Some m \<and> md_online m \<and> k \<noteq> rg_gateway_eui (sv_reg s)
          \<longrightarrow> md_registered m)
    \<and> set (cl_registered (sv_olympus s5)) = set (cl_registered (sv_olympus s))
        \<union> {k \<in> set (rg_newly_seen (sv_reg s)). k \<noteq> rg_gateway_eui (sv_reg s)
             \<and> \<not> md_registered (the (dget (rg_modules (sv_reg s)) k))
             \<and> (cl_sink (sv_olympus s) = ''dryrun'' \<or> nw_post_ok nw k)}"
proof -
  let ?r = "sv_reg s" and ?ttl = "sc_module_ttl_s cfg"
  obtain flipped r1 where x: "expire now ?ttl ?r = (flipped, r1)" by (cases "expire now ?ttl ?r")
  note ex = expire_spec [OF assms(1), where now = now and ttl = ?ttl, unfolded x snd_conv]
  let ?c1 = "fold (publish_offline nw r1) flipped (sv_olympus s)"
  obtain seen r2 where dr: "drain_newly_seen r1 = (seen, r2)" by (cases "drain_newly_seen r1")
  note d = drain_spec [OF ex(1), unfolded dr fst_conv snd_conv]
  have r2: "rg_modules r2 = rg_modules r1" "rg_newly_seen r2 = []" "rg_gateway_eui r2 = rg_gateway_eui ?r"
    using dr ex(5) by (auto simp: drain_newly_seen_def Let_def)
  have get: "dget (rg_modules r2) k = dget (rg_modules ?r) k" if "k \<in> set seen" for k
  proof -
    from that obtain m where "dget (rg_modules ?r) k = Some m" "\<not> stale now ?ttl m"
      using d(1) ex(6) assms(3) by auto
    then show ?thesis using ex(3) [of k] by (simp add: r2)
  qed
  have online: "\<forall>e \<in> set seen. \<exists>m. dget (rg_modules r2) e = Some m \<and> md_online m"
    using get d(1) ex(6) assms(3) by auto
  obtain r3 c3 where f: "fold (register_new nw) seen (r2, ?c1) = (r3, c3)"
    by (cases "fold (register_new nw) seen (r2, ?c1)")
  note reg = register_fold [OF d(3,2) online f]
  note loc = localize_frame [OF reg [THEN conjunct1]]
  obtain ch r5 where cr: "compute_routes rhash (sc_router cfg) (snd (localize r3)) = (ch, r5)"
    by (cases "compute_routes rhash (sc_router cfg) (snd (localize r3))")
  note com = compute_frame [OF loc [THEN conjunct1] cr]
  have t: "tick_state now rhash nw cfg s = (ch, s\<lparr>sv_reg := r5, sv_olympus := c3\<rparr>)"
    by (simp add: tick_state_def Let_def x dr f cr)
  then have s5: "sv_reg s5 = r5" "sv_olympus s5 = c3" using assms(4) by auto
  have "md_registered m" if k: "dget (rg_modules r5) k = Some m" "md_online m" "k \<noteq> rg_gateway_eui ?r" for k m
  proof -
    obtain m4 where m4: "dget (rg_modules (snd (localize r3))) k = Some m4" "md_online m4 = md_online m"
      "md_registered m4 = md_registered m"
      by (rule frame_back [OF com [THEN conjunct2, THEN conjunct2] k(1)])
    obtain m3 where m3': "dget (rg_modules r3) k = Some m3" "md_online m3 = md_online m4"
      "md_registered m3 = md_registered m4"
      by (rule frame_back [OF loc [THEN conjunct2, THEN conjunct2, THEN conjunct2, THEN spec] m4(1)])
    with m4 k(2) have m3: "dget (rg_modules r3) k = Some m3" "md_online m3" "md_registered m3 = md_registered m"
      by simp_all
    show ?thesis
    proof (cases "k \<in> set seen")
      case True
      with m3 reg r2(3) k(3) show ?thesis by auto
    next
      case False
      with m3 reg have "dget (rg_modules r2) k = Some m3" by auto
      with ex(3) [of k] obtain m0 where m0: "dget (rg_modules ?r) k = Some m0"
        "m3 = (if stale now ?ttl m0 then set_offline m0 else m0)" by (auto simp: r2)
      with m3(2) have "m3 = m0" by (auto simp: set_offline_def split: if_splits)
      with m0 m3 assms(2) k(3) False d(1) ex(6) show ?thesis
        by (auto simp: queued_but_gateway_def)
    qed
  qed
  moreover have "rg_newly_seen r5 = []" using com loc reg r2(2) by simp
  moreover have "set (cl_registered c3) = set (cl_registered (sv_olympus s))
        \<union> {k \<in> set (rg_newly_seen ?r). k \<noteq> rg_gateway_eui ?r
             \<and> \<not> md_registered (the (dget (rg_modules ?r) k))
             \<and> (cl_sink (sv_olympus s) = ''dryrun'' \<or> nw_post_ok nw k)}"
    using reg get r2(3) d(1) ex(6) by (auto simp: offline_frame)
  ultimately show ?thesis unfolding s5 by blast
qed

text \<open>One tick settles every registration: whether or not the registration requests succeed and
  whether or not a route cannot be sent, afterwards the queue is empty and every online module
  except the gateway is marked registered; Olympus itself knows exactly those it knew before and
  the freshly queued ones whose request succeeded. A request that fails is therefore never
  repeated while the module stays online.\<close>

theorem tick_registers:
  assumes "registry_inv (sv_reg s)" and "queued_but_gateway (sv_reg s)"
    and "\<forall>e \<in> set (rg_newly_seen (sv_reg s)). \<exists>m. dget (rg_modules (sv_reg s)) e = Some m
           \<and> md_online m \<and> \<not> stale now (sc_module_ttl_s cfg) m"
    and "service_tick now rhash nw cfg s = (s', err)"
  shows "rg_newly_seen (sv_reg s') = []
    \<and> (\<forall>k m. dget (rg_modules (sv_reg s')) k = Some m \<and> md_online m \<and> k \<noteq> rg_gateway_eui (sv_reg s)
          \<longrightarrow> md_registered m)
    \<and> set (cl_registered (sv_olympus s')) = set (cl_registered (sv_olympus s))
        \<union> {k \<in> set (rg_newly_seen (sv_reg s)). k \<noteq> rg_gateway_eui (sv_reg s)
             \<and> \<not> md_registered (the (dget (rg_modules (sv_reg s)) k))
             \<and> (cl_sink (sv_olympus s) = ''dryrun'' \<or> nw_post_ok nw k)}"
proof -
  obtain changed s5 where t: "tick_state now rhash nw cfg s = (changed, s5)"
    by (cases "tick_state now rhash nw cfg s")
  have s': "sv_reg s' = sv_reg s5" "cl_registered (sv_olympus s') = cl_registered (sv_olympus s5)"
    using assms(4) push_routes_ok(2) [of changed s5]
    by (auto simp: service_tick_eq t Let_def published_frame split: prod.splits if_splits)
  show ?thesis unfolding s' by (rule tick_state_spec [OF assms(1-3) t])
qed

definition waiting_service :: service where
  "waiting_service =
     \<lparr>sv_reg = \<lparr>rg_modules = [(''A'', module0 ''A'' 0)], rg_gateway_eui = ''G'', rg_newly_seen = [''A'']\<rparr>,
      sv_olympus = olympus_client_init ''rest'' ''ceres'' False, sv_serial = False, sv_seq = 0, sv_frames = []\<rparr>"

lemma tick_registers_witness:
  "rg_newly_seen (sv_reg (fst (service_tick 1 (\<lambda>_ _ _. 1) \<lparr>nw_put_ok = \<lambda>_. True, nw_post_ok = \<lambda>_. False\<rparr>
      \<lparr>sc_module_ttl_s = 12, sc_router = router_config0\<rparr> waiting_service))) = []
   \<and> set (cl_registered (sv_olympus (fst (service_tick 1 (\<lambda>_ _ _. 1)
      \<lparr>nw_put_ok = \<lambda>_. True, nw_post_ok = \<lambda>_. False\<rparr>
      \<lparr>sc_module_ttl_s = 12, sc_router = router_config0\<rparr> waiting_service)))) = {}"
proof -
  let ?cfg = "\<lparr>sc_module_ttl_s = 12, sc_router = router_config0\<rparr>"
  let ?nw = "\<lparr>nw_put_ok = \<lambda>_. True, nw_post_ok = \<lambda>_. False\<rparr>"
  have inv: "registry_inv (sv_reg waiting_service)"
    by (simp add: waiting_service_def registry_inv_def module_inv_def module0_def)
  have q: "queued_but_gateway (sv_reg waiting_service)"
    by (simp add: waiting_service_def queued_but_gateway_def)
  have fresh: "\<forall>e \<in> set (rg_newly_seen (sv_reg waiting_service)). \<exists>m. dget (rg_modules (sv_reg waiting_service)) e = Some m
           \<and> md_online m \<and> \<not> stale 1 (sc_module_ttl_s ?cfg) m"
    by (simp add: waiting_service_def stale_def module0_def)
  obtain s' err where t: "service_tick 1 (\<lambda>_ _ _. 1) ?nw ?cfg waiting_service = (s', err)"
    by (cases "service_tick 1 (\<lambda>_ _ _. 1) ?nw ?cfg waiting_service")
  have c: "set (cl_registered (sv_olympus waiting_service)) = {}" "cl_sink (sv_olympus waiting_service) \<noteq> ''dryrun''"
    by (simp_all add: waiting_service_def olympus_client_init_def)
  have "rg_newly_seen (sv_reg s') = [] \<and> set (cl_registered (sv_olympus s')) = {}"
    using tick_registers [OF inv q fresh t] c by simp
  with t show ?thesis by simp
qed

section \<open>The frames of a command\<close>

lemma command_frame:
  assumes "sv_serial s" and "0 \<le> sv_seq s" and "sv_seq s + 1 < 2 ^ 32" and "wf_cmd_body op ps"
    and "eui_bytes e = Inr e8"
  shows "\<exists>b. service_send_command e op ps s = (s\<lparr>sv_seq := sv_seq s + 1, sv_frames := sv_frames s @ [b]\<rparr>, None)
    \<and> decode_message b = Inr (Some (MCmd \<lparr>cm_eui = e8, cm_op = op, cm_params = ps, cm_seq = sv_seq s + 1,
          cm_flags = flag_bit F_GATEWAY\<rparr>))"
proof -
  let ?m = "\<lparr>cm_eui = e8, cm_op = op, cm_params = ps, cm_seq = sv_seq s + 1, cm_flags = flag_bit F_GATEWAY\<rparr>"
  have "wf_message (MCmd ?m)"
    using assms eui_bytes_length [OF assms(5)] by (simp add: wf_cmd_def wf_hdr_fields_def)
  from decodes_itself [OF this] obtain b where b: "cmd_encode ?m = Inr b" "decode_message b = Inr (Some (MCmd ?m))"
    by auto
  then show ?thesis
    using assms by (intro exI [of _ b]) (simp add: service_send_command_def send_frame_def Let_def)
qed

lemma broadcast_frame:
  assumes "sv_serial s" and "0 \<le> sv_seq s" and "sv_seq s + 1 < 2 ^ 32" and "wf_cmd_body op ps"
    and "rg_gateway_eui (sv_reg s) \<noteq> []" and "eui_bytes (rg_gateway_eui (sv_reg s)) = Inr g8"
  shows "\<exists>b. service_send_broadcast op ps s = (s\<lparr>sv_seq := sv_seq s + 1, sv_frames := sv_frames s @ [b]\<rparr>, None)
    \<and> decode_message b = Inr (Some (MBroadcast \<lparr>bc_eui = g8, bc_op = op, bc_params = ps, bc_seq = sv_seq s + 1,
          bc_flags = flag_bit F_LEADER OR flag_bit F_OVERRIDE\<rparr>))"
proof -
  let ?m = "\<lparr>bc_eui = g8, bc_op = op, bc_params = ps, bc_seq = sv_seq s + 1,
      bc_flags = flag_bit F_LEADER OR flag_bit F_OVERRIDE\<rparr>"
  have "wf_message (MBroadcast ?m)"
    using assms eui_bytes_length [OF assms(6)] by (simp add: wf_broadcast_def wf_hdr_fields_def)
  from decodes_itself [OF this] obtain b where b: "broadcast_encode ?m = Inr b" "decode_message b = Inr (Some (MBroadcast ?m))"
    by auto
  then show ?thesis
    using assms by (intro exI [of _ b]) (simp add: service_send_broadcast_def send_frame_def Let_def)
qed

lemma last_segment_own:
  assumes "CHR ''/'' \<notin> set own" and "own \<noteq> []"
  shows "last_segment (''ceres/command/'' @ own) = own"
proof -
  have "dropWhile (\<lambda>c. c = CHR ''/'') (rev own @ xs) = rev own @ xs" for xs
  proof (cases own rule: rev_cases)
    case (snoc ys y)
    with assms(1) show ?thesis by auto
  qed (use assms(2) in simp)
  then show ?thesis using assms(1) by (simp add: last_segment_def rstrip_slash_def takeWhile_append)
qed

lemma eui_bytes_nonempty: "eui_bytes s = Inr e \<Longrightarrow> s \<noteq> []"
  by (auto simp: eui_bytes_def)

text \<open>What the operator's commands become.\<close>

lemma translate_go_to:
  assumes "json_int (json_get p ''priority'' (JNum 5)) = Inr pri" and "json_int (json_get p ''ttl_s'' (JNum 0)) = Inr ttl"
    and "json_get p ''latitude'' (json_get p ''lat'' JNull) = JNum lat"
    and "json_get p ''longitude'' (json_get p ''lon'' JNull) = JNum lon"
    and "\<bar>lat\<bar> \<le> 214" and "\<bar>lon\<bar> \<le> 214" and "alt = (case json_get p ''altitude'' (json_get p ''alt'' (JNum 0)) of JNull \<Rightarrow> 0 | JNum x \<Rightarrow> x)"
    and "\<bar>alt\<bar> \<le> 21000000"
  shows "\<exists>b. translate (Some ''go_to'') p = Inr (Some (SET_WAYPOINT, b, False)) \<and> length b = 16
    \<and> unpack_waypoint b = Inr \<lparr>wp_lat = wire_e7 lat, wp_lon = wire_e7 lon, wp_alt = wire_centi alt,
        wp_mission_type = mission_code GOTO, wp_priority = pri mod 256, wp_ttl_s = ttl mod 65536\<rparr>"
proof -
  let ?w = "\<lparr>wp_lat = lat, wp_lon = lon, wp_alt = alt, wp_mission_type = mission_code GOTO, wp_priority = pri, wp_ttl_s = ttl\<rparr>"
  have "wf_waypoint ?w" using assms by (simp add: wf_waypoint_def)
  from waypoint_roundtrip [OF this] obtain b where b: "pack_waypoint ?w = Inr b" "length b = 16"
    "unpack_waypoint b = Inr (waypoint_on_wire ?w)" by blast
  have up: "map upper_char ''go_to'' = ''GO_TO''" by code_simp
  have "translate (Some ''go_to'') p = Inr (Some (SET_WAYPOINT, b, False))"
    using assms(1-4,7) b(1) unfolding translate_def Let_def option.case up by simp
  with b show ?thesis by (simp add: waypoint_on_wire_def)
qed

lemma translate_emergency_stop:
  assumes "json_int (json_get p ''priority'' (JNum 5)) = Inr pri" and "json_int (json_get p ''ttl_s'' (JNum 0)) = Inr ttl"
  shows "\<exists>b. translate (Some ''EMERGENCY_STOP'') p = Inr (Some (SET_MISSION, b, True)) \<and> length b < 256
    \<and> unpack_mission b = Inr (mission_code LOITER, 0)"
proof -
  obtain b where b: "pack_mission (mission_code LOITER) 0 = Inr b" "unpack_mission b = Inr (mission_code LOITER, 0)"
    using mission_roundtrip [of "mission_code LOITER" 0] by auto
  have "length b < 256" using b(1) struct_pack_length by (fastforce simp: pack_mission_def)
  have up: "map upper_char ''EMERGENCY_STOP'' = ''EMERGENCY_STOP''"
    by code_simp
  have "translate (Some ''EMERGENCY_STOP'') p = Inr (Some (SET_MISSION, b, True))"
    using assms b(1) unfolding translate_def Let_def option.case up
    by (simp add: set_mission_cmd_def)
  with b \<open>length b < 256\<close> show ?thesis by simp
qed

text \<open>A module that was the gateway and no longer is, is never queued by the change itself.\<close>

lemma old_gateway_not_queued:
  assumes "decode_message b = Inr (Some (MRangeReq m))" and "has_bits (rq_flags m) (flag_bit F_GATEWAY)"
  shows "rg_newly_seen (sv_reg (service_on_payload now b s)) = rg_newly_seen (sv_reg s)
    \<and> rg_modules (sv_reg (service_on_payload now b s)) = rg_modules (sv_reg s)
    \<and> rg_gateway_eui (sv_reg (service_on_payload now b s)) = eui_str (rq_eui m)"
  using assms by (simp add: service_on_payload_def adopt_gateway_def Let_def)

end
