(* ===== verification/Tunnel.thy ===== *)
theory Tunnel
  imports BrainProtocol Messages
begin

text \<open>
  Detections in the payload of a MAVLink TUNNEL message
  (\<open>src/olympus/brain/olympus_brain/mavlink_tunnel.py\<close>): a fixed part of 15 bytes, the name
  of the detecting drone cut to 32 bytes, and a timestamp. The MAVLink connection is an
  argument: whether its send call raises.
\<close>

section \<open>The encoder\<close>

definition tunnel_payload_type :: int where
  "tunnel_payload_type = 0x4F"

definition tunnel_max_payload :: nat where
  "tunnel_max_payload = 128"

definition indexed_types :: "detection_type list" where
  "indexed_types =
     [WEED, PEST, DISEASE, NUTRIENT_DEFICIENCY, IRRIGATION_LEAK, CROP_STRESS, OBSTACLE,
      HOSTILE_ACTIVITY, VEHICLE_DETECTED, PERSON_DETECTED, IED_SUSPECTED, STRUCTURAL_CHANGE,
      STRUCTURAL_CRACK, CORROSION, THERMAL_ANOMALY, LEAK_DETECTED, VEGETATION_ENCROACHMENT,
      SURFACE_DEFORMATION, THERMAL_SIGNATURE, DEBRIS_FIELD, VEHICLE_WRECKAGE, SIGNAL_DETECTED]"

definition detection_type_index :: "(detection_type, int) dict" where
  "detection_type_index = zip indexed_types (map int [0..<22])"

definition index_to_detection_type :: "(int, detection_type) dict" where
  "index_to_detection_type = map (\<lambda>(k, v). (v, k)) detection_type_index"

definition tunnel_fmt :: "sfmt list" where
  "tunnel_fmt = [SU 1, SU 1, SU 1, SU 1, SI 4, SI 4, SU 2, SU 1]"

definition tunnel_values :: "detection \<Rightarrow> bytes \<Rightarrow> sval list" where
  "tunnel_values d name =
     [VInt tunnel_payload_type,
      VInt (case dget detection_type_index (de_detection_type d) of None \<Rightarrow> 0 | Some i \<Rightarrow> i),
      VInt (min 255 (max 0 (py_int (de_confidence d * 255)))),
      VInt (min 10 (max 1 (de_severity d))),
      VInt (py_int (gp_latitude (de_position d) * 10000000)),
      VInt (py_int (gp_longitude (de_position d) * 10000000)),
      VInt (min 65535 (max 0 (py_int (gp_altitude (de_position d))))),
      VInt (int (length name))]"

definition tunnel_timestamp :: "detection \<Rightarrow> int" where
  "tunnel_timestamp d = py_int (de_timestamp d) AND 0xFFFFFFFF"

definition tunnel_buffer :: "detection \<Rightarrow> bytes \<Rightarrow> bytes result" where
  "tunnel_buffer d name =
     rbind (struct_pack tunnel_fmt (tunnel_values d name)) (\<lambda>h.
     rbind (struct_pack [SU 4] [VInt (tunnel_timestamp d)]) (\<lambda>t. Inr (h @ name @ t)))"

definition encode_detection :: "detection \<Rightarrow> bytes result" where
  "encode_detection d =
     rbind (utf8_encode (de_detected_by d)) (\<lambda>u.
     let name = take 32 u
     in rbind (tunnel_buffer d name) (\<lambda>buf.
        if tunnel_max_payload < length buf
        then tunnel_buffer d (take (tunnel_max_payload - 19) name)
        else Inr buf))"

section \<open>The decoder\<close>

definition decode_detection :: "string \<Rightarrow> real \<Rightarrow> pystr \<Rightarrow> bytes \<Rightarrow> detection option" where
  "decode_detection uid now fallback data =
     (if length data < 19 then None
      else if uint (data ! 0) \<noteq> tunnel_payload_type then None
      else case struct_unpack tunnel_fmt (take 15 data) of
             Inr [VInt magic, VInt ty, VInt conf, VInt sev, VInt lat, VInt lon, VInt alt, VInt n] \<Rightarrow>
               if int (length data) < 15 + n + 4 then None
               else let name = utf8_decode_replace (slice data 15 (15 + nat n));
                        pos = 15 + nat n
                    in (case struct_unpack [SU 4] (slice data pos (pos + 4)) of
                          Inl e \<Rightarrow> None
                        | Inr ts \<Rightarrow>
                            (case detection_create uid now
                                    (case dget index_to_detection_type ty of None \<Rightarrow> OBSTACLE | Some t \<Rightarrow> t)
                                    \<lparr>gp_latitude = of_int lat / 10000000, gp_longitude = of_int lon / 10000000,
                                     gp_altitude = of_int alt, gp_heading = 0\<rparr>
                                    (of_int conf / 255) (if name \<noteq> [] then name else fallback)
                                    (max 1 (min 10 sev)) of
                               Inl e \<Rightarrow> None
                             | Inr d \<Rightarrow> Some d))
           | _ \<Rightarrow> None)"

section \<open>The transmitter\<close>

record tunnel_message =
  tm_target_system :: int
  tm_target_component :: int
  tm_payload_type :: int
  tm_length :: int
  tm_payload :: bytes

text \<open>\<open>send_detection\<close>: the message handed to the connection (which raises unless \<open>send_ok\<close>), and the
  returned flag. An exception of the encoder is not caught.\<close>

definition send_detection ::
  "bool \<Rightarrow> detection \<Rightarrow> int \<Rightarrow> int \<Rightarrow> (bool \<times> tunnel_message list) result" where
  "send_detection send_ok d target_system target_component =
     rbind (encode_detection d) (\<lambda>payload.
     let padded = payload @ replicate (tunnel_max_payload - length payload) 0;
         msg = \<lparr>tm_target_system = target_system, tm_target_component = target_component,
                tm_payload_type = tunnel_payload_type, tm_length = int (length payload),
                tm_payload = padded\<rparr>
     in Inr (send_ok, if send_ok then [msg] else []))"

section \<open>The round trip\<close>

lemma type_index:
  "\<exists>i. dget detection_type_index t = Some i \<and> 0 \<le> i \<and> i < 22 \<and> dget index_to_detection_type i = Some t"
proof -
  have "list_all (\<lambda>t. case dget detection_type_index t of None \<Rightarrow> False
      | Some i \<Rightarrow> 0 \<le> i \<and> i < 22 \<and> dget index_to_detection_type i = Some t) indexed_types"
    by code_simp
  moreover have "t \<in> set indexed_types" by (cases t) (simp_all add: indexed_types_def)
  ultimately have "case dget detection_type_index t of None \<Rightarrow> False
      | Some i \<Rightarrow> 0 \<le> i \<and> i < 22 \<and> dget index_to_detection_type i = Some t"
    by (simp add: list_all_iff)
  then show ?thesis by (simp split: option.splits)
qed

lemma py_int_error: "\<bar>of_int (py_int x) - x\<bar> < 1"
proof (cases "x < 0")
  case True
  have "of_int \<lceil>x\<rceil> - x < 1" "x \<le> of_int \<lceil>x\<rceil>" by linarith+
  with True show ?thesis by (simp add: py_int_def)
next
  case False
  have "x - of_int \<lfloor>x\<rfloor> < 1" "of_int \<lfloor>x\<rfloor> \<le> x" by linarith+
  with False show ?thesis by (simp add: py_int_def)
qed

lemma degrees_fit: "\<bar>x\<bar> \<le> 214 \<Longrightarrow> - (2 ^ 31) \<le> py_int (x * 10000000) \<and> py_int (x * 10000000) < 2 ^ 31"
proof -
  assume "\<bar>x\<bar> \<le> 214"
  then have "\<bar>of_int (py_int (x * 10000000)) :: real\<bar> < 2140000001"
    using py_int_error [of "x * 10000000"] by linarith
  then have "\<bar>py_int (x * 10000000)\<bar> < 2140000001" by linarith
  then show ?thesis by simp linarith
qed

lemma tunnel_fits:
  assumes "\<bar>gp_latitude (de_position d)\<bar> \<le> 214" and "\<bar>gp_longitude (de_position d)\<bar> \<le> 214"
    and "length name \<le> 32"
  shows "list_all2 fits tunnel_fmt (tunnel_values d name)"
proof -
  obtain i where "dget detection_type_index (de_detection_type d) = Some i" "0 \<le> i" "i < 22"
    using type_index by blast
  then show ?thesis
    using degrees_fit [OF assms(1)] degrees_fit [OF assms(2)] assms(3)
    by (simp add: tunnel_fmt_def tunnel_values_def tunnel_payload_type_def min_less_iff_disj le_max_iff_disj)
qed

lemma timestamp_fits: "list_all2 fits [SU 4] [VInt (tunnel_timestamp d)]"
  by (simp add: tunnel_timestamp_def and_mask_mod)

text \<open>The detection a receiver gets: quantised, with a fresh id and its own clock.\<close>

definition tunnel_received :: "string \<Rightarrow> real \<Rightarrow> pystr \<Rightarrow> bytes \<Rightarrow> detection \<Rightarrow> detection" where
  "tunnel_received uid now fallback name d =
     \<lparr>de_id = uid, de_detection_type = de_detection_type d,
      de_position = \<lparr>gp_latitude = of_int (py_int (gp_latitude (de_position d) * 10000000)) / 10000000,
                     gp_longitude = of_int (py_int (gp_longitude (de_position d) * 10000000)) / 10000000,
                     gp_altitude = of_int (min 65535 (max 0 (py_int (gp_altitude (de_position d))))),
                     gp_heading = 0\<rparr>,
      de_confidence = of_int (min 255 (max 0 (py_int (de_confidence d * 255)))) / 255,
      de_severity = min 10 (max 1 (de_severity d)),
      de_detected_by = (let n = utf8_decode_replace name in if n \<noteq> [] then n else fallback),
      de_timestamp = now\<rparr>"

lemma tunnel_frame:
  assumes "\<bar>gp_latitude (de_position d)\<bar> \<le> 214" and "\<bar>gp_longitude (de_position d)\<bar> \<le> 214"
    and "length name \<le> 32"
  shows "\<exists>b. tunnel_buffer d name = Inr b \<and> length b = 19 + length name
    \<and> (\<forall>extra uid now fallback. decode_detection uid now fallback (b @ extra)
          = Some (tunnel_received uid now fallback name d))"
proof -
  obtain h where h: "struct_pack tunnel_fmt (tunnel_values d name) = Inr h" "length h = 15"
    "\<And>rest. struct_unpack tunnel_fmt (take 15 (h @ rest)) = Inr (tunnel_values d name)"
    using pack_front [OF tunnel_fits [OF assms], of 15] by (auto simp: tunnel_fmt_def)
  obtain t where t: "struct_pack [SU 4] [VInt (tunnel_timestamp d)] = Inr t" "length t = 4"
    "\<And>rest. struct_unpack [SU 4] (take 4 (t @ rest)) = Inr [VInt (tunnel_timestamp d)]"
  proof -
    have "\<exists>t. struct_pack [SU 4] [VInt (tunnel_timestamp d)] = Inr t \<and> length t = 4
        \<and> (\<forall>rest. struct_unpack [SU 4] (take 4 (t @ rest)) = Inr [VInt (tunnel_timestamp d)])"
      by (rule pack_front [OF timestamp_fits]) simp_all
    with that show ?thesis by blast
  qed
  let ?b = "h @ name @ t"
  have buf: "tunnel_buffer d name = Inr ?b" unfolding tunnel_buffer_def h(1) rbind_Inr t(1) by simp
  obtain i where i: "dget detection_type_index (de_detection_type d) = Some i"
    "dget index_to_detection_type i = Some (de_detection_type d)"
    using type_index by blast
  have "decode_detection uid now fallback (?b @ extra) = Some (tunnel_received uid now fallback name d)"
    for extra uid now fallback
  proof -
    have "\<exists>h0 hs. h = h0 # hs" using h(2) by (cases h) auto
    then obtain h0 hs where h0: "h = h0 # hs" by blast
    have "unpack_fields tunnel_fmt h = tunnel_values d name"
      using h(3) [of "[]"] h(2) by (simp add: struct_unpack_def split: if_splits)
    then have magic: "uint ((?b @ extra) ! 0) = tunnel_payload_type"
      by (simp add: h0 tunnel_fmt_def tunnel_values_def)
    have name: "slice (h @ name @ t @ extra) 15 (15 + length name) = name"
      by (simp add: slice_def h(2))
    have ts: "slice (h @ name @ t @ extra) (15 + length name) (19 + length name) = take 4 (t @ extra)"
      by (simp add: slice_def h(2))
    have conf: "0 \<le> (of_int (min 255 (max 0 (py_int (de_confidence d * 255)))) / 255 :: real)
        \<and> (of_int (min 255 (max 0 (py_int (de_confidence d * 255)))) / 255 :: real) \<le> 1"
      by (simp add: min_le_iff_disj le_max_iff_disj)
    have sev: "max 1 (min 10 (min 10 (max 1 (de_severity d)))) = min 10 (max 1 (de_severity d))"
      "1 \<le> min 10 (max 1 (de_severity d))" "min 10 (max 1 (de_severity d)) \<le> 10" by auto
    have un: "struct_unpack tunnel_fmt (take 15 (?b @ extra)) = Inr (tunnel_values d name)"
      using h(3) [of "name @ t @ extra"] by simp
    have len: "\<not> length (?b @ extra) < 19" "\<not> int (length (?b @ extra)) < 15 + int (length name) + 4"
      using h(2) t(2) by simp_all
    show ?thesis
      unfolding decode_detection_def un
      using magic len conf sev i t(3) [of extra]
      by (simp add: tunnel_values_def name ts detection_create_def tunnel_received_def Let_def
          del: length_append take_append)
  qed
  with buf h(2) t(2) show ?thesis by (intro exI [of _ ?b]) auto
qed


definition sample_detection :: detection where
  "sample_detection =
     \<lparr>de_id = ''d1'', de_detection_type = PEST, de_position = \<lparr>gp_latitude = 1, gp_longitude = 2, gp_altitude = 3, gp_heading = 0\<rparr>,
      de_confidence = 1 / 2, de_severity = 12, de_detected_by = [120], de_timestamp = 1000\<rparr>"


end
