(* ===== verification/DetectionBuffer.thy ===== *)
theory DetectionBuffer
  imports BrainProtocol
begin

text \<open>
  The on-device archive of detections and its syncer
  (\<open>src/olympus/brain/olympus_brain/detection_buffer.py\<close>). The SQLite table is the list of its
  rows in insertion order, with the primary key as an invariant: an insert replaces the row of
  its id. \<open>ORDER BY timestamp\<close> is a stable sort; for equal timestamps, where SQL leaves the order
  open, it keeps the order of insertion. The columns are those of the detection stored in them;
  the JSON text of a row is the detection itself. Database errors, which the code only logs, are
  left out. The publish callback is an argument: which detections it accepts.
\<close>

section \<open>The archive\<close>

record archive_row =
  rw_detection :: detection
  rw_synced :: bool

abbreviation rw_id :: "archive_row \<Rightarrow> string" where
  "rw_id r \<equiv> de_id (rw_detection r)"

abbreviation rw_time :: "archive_row \<Rightarrow> real" where
  "rw_time r \<equiv> de_timestamp (rw_detection r)"

record detection_buffer =
  db_max_size :: nat
  db_rows :: "archive_row list"

definition max_buffered_detections :: nat where
  "max_buffered_detections = 50000"

definition detection_buffer_init :: "nat \<Rightarrow> detection_buffer" where
  "detection_buffer_init max_size = \<lparr>db_max_size = max_size, db_rows = []\<rparr>"

definition delete_ids :: "string list \<Rightarrow> archive_row list \<Rightarrow> archive_row list" where
  "delete_ids ids rows = filter (\<lambda>r. rw_id r \<notin> set ids) rows"

definition oldest :: "nat \<Rightarrow> archive_row list \<Rightarrow> string list" where
  "oldest n rows = map rw_id (take n (sort_key rw_time rows))"

definition insert_row :: "detection \<Rightarrow> archive_row list \<Rightarrow> archive_row list" where
  "insert_row d rows = delete_ids [de_id d] rows @ [\<lparr>rw_detection = d, rw_synced = False\<rparr>]"

definition evict :: "nat \<Rightarrow> archive_row list \<Rightarrow> archive_row list" where
  "evict max_size rows =
     (let count = length rows
      in if max_size < count
         then let excess = count - max_size;
                  synced_count = length (filter rw_synced rows);
                  synced_to_evict = min excess synced_count;
                  rows1 = (if 0 < synced_to_evict
                           then delete_ids (oldest synced_to_evict (filter rw_synced rows)) rows else rows);
                  remaining_excess = excess - synced_to_evict
              in if 0 < remaining_excess then delete_ids (oldest remaining_excess rows1) rows1 else rows1
         else rows)"

definition buffer :: "detection \<Rightarrow> detection_buffer \<Rightarrow> detection_buffer" where
  "buffer d b = b\<lparr>db_rows := evict (db_max_size b) (insert_row d (db_rows b))\<rparr>"

definition get_unsynced :: "nat \<Rightarrow> detection_buffer \<Rightarrow> detection list" where
  "get_unsynced limit b =
     map rw_detection (take limit (sort_key rw_time (filter (\<lambda>r. \<not> rw_synced r) (db_rows b))))"

definition mark_synced :: "string list \<Rightarrow> detection_buffer \<Rightarrow> detection_buffer" where
  "mark_synced ids b =
     b\<lparr>db_rows := map (\<lambda>r. if rw_id r \<in> set ids then r\<lparr>rw_synced := True\<rparr> else r) (db_rows b)\<rparr>"

definition purge_synced :: "detection_buffer \<Rightarrow> nat \<times> detection_buffer" where
  "purge_synced b =
     (length (filter rw_synced (db_rows b)), b\<lparr>db_rows := filter (\<lambda>r. \<not> rw_synced r) (db_rows b)\<rparr>)"

definition newest_first :: "nat \<Rightarrow> archive_row list \<Rightarrow> archive_row list" where
  "newest_first n rows = take n (sort_key (\<lambda>r. - rw_time r) rows)"

text \<open>\<open>query\<close>: an empty text filter is no filter.\<close>

definition query ::
  "string option \<Rightarrow> pystr option \<Rightarrow> real option \<Rightarrow> nat \<Rightarrow> detection_buffer \<Rightarrow> detection list" where
  "query dtype by_drone min_confidence limit b =
     map rw_detection (newest_first limit (filter (\<lambda>r. let d = rw_detection r in
        (case dtype of None \<Rightarrow> True | Some t \<Rightarrow> t = [] \<or> detection_type_value (de_detection_type d) = t)
        \<and> (case by_drone of None \<Rightarrow> True | Some n \<Rightarrow> n = [] \<or> de_detected_by d = n)
        \<and> (case min_confidence of None \<Rightarrow> True | Some c \<Rightarrow> c \<le> de_confidence d)) (db_rows b)))"

definition type_distribution :: "detection_buffer \<Rightarrow> (string, nat) dict" where
  "type_distribution b =
     (let ts = map (\<lambda>r. detection_type_value (de_detection_type (rw_detection r))) (db_rows b)
      in map (\<lambda>t. (t, length (filter (\<lambda>x. x = t) ts))) (remdups ts))"

record confidence_summary =
  cs_mean :: real
  cs_min :: real
  cs_max :: real
  cs_count :: nat

definition round4 :: "real \<Rightarrow> real" where
  "round4 x = of_int (py_round (x * 10 ^ 4)) / 10 ^ 4"

definition confidence_stats :: "detection_buffer \<Rightarrow> confidence_summary" where
  "confidence_stats b =
     (case map (\<lambda>r. de_confidence (rw_detection r)) (db_rows b) of
        [] \<Rightarrow> \<lparr>cs_mean = 0, cs_min = 0, cs_max = 0, cs_count = 0\<rparr>
      | c # cs \<Rightarrow> \<lparr>cs_mean = round4 (sum_list (c # cs) / real (length (c # cs))),
                   cs_min = round4 (fold min cs c), cs_max = round4 (fold max cs c),
                   cs_count = length (c # cs)\<rparr>)"

definition recent_accuracy_window :: "nat \<Rightarrow> detection_buffer \<Rightarrow> real list" where
  "recent_accuracy_window n b = map (\<lambda>r. de_confidence (rw_detection r)) (newest_first n (db_rows b))"

definition pending_count :: "detection_buffer \<Rightarrow> nat" where
  "pending_count b = length (filter (\<lambda>r. \<not> rw_synced r) (db_rows b))"

definition total_count :: "detection_buffer \<Rightarrow> nat" where
  "total_count b = length (db_rows b)"

section \<open>The syncer\<close>

text \<open>One round of \<open>DetectionSyncer.run\<close>: what was published, and the buffer after it.\<close>

definition sync_round ::
  "(detection \<Rightarrow> bool) \<Rightarrow> nat \<Rightarrow> detection_buffer \<Rightarrow> detection list \<times> detection_buffer" where
  "sync_round accepts batch_size b =
     (if 0 < pending_count b
      then let published = takeWhile accepts (get_unsynced batch_size b);
               b1 = (if published \<noteq> [] then mark_synced (map de_id published) b else b)
           in (published, snd (purge_synced b1))
      else ([], b))"

section \<open>Rows and their ids\<close>

definition ids_distinct :: "archive_row list \<Rightarrow> bool" where
  "ids_distinct rows \<longleftrightarrow> distinct (map rw_id rows)"

lemma ids_distinct_filter: "ids_distinct rows \<Longrightarrow> ids_distinct (filter P rows)"
  by (simp add: ids_distinct_def distinct_map_filter)

lemma ids_distinct_eq: "\<lbrakk>ids_distinct rows; r \<in> set rows; s \<in> set rows; rw_id r = rw_id s\<rbrakk> \<Longrightarrow> r = s"
  by (auto simp: ids_distinct_def distinct_map inj_on_def)

lemma ids_distinct_insert: "ids_distinct rows \<Longrightarrow> ids_distinct (insert_row d rows)"
  by (auto simp: insert_row_def delete_ids_def ids_distinct_def distinct_map_filter)

lemma set_take_sort: "set (take n (sort_key f xs)) \<subseteq> set xs"
  using set_take_subset [of n "sort_key f xs"] by simp

text \<open>Deleting the ids of some rows removes exactly those rows.\<close>

lemma delete_ids_length:
  assumes "ids_distinct rows" and "set xs \<subseteq> set rows" and "distinct xs"
  shows "length (delete_ids (map rw_id xs) rows) = length rows - length xs"
proof -
  have inj: "inj_on rw_id (set rows)" and d: "distinct rows"
    using assms(1) by (auto simp: ids_distinct_def distinct_map)
  have "r \<in> set xs" if "r \<in> set rows" "rw_id r \<in> rw_id ` set xs" for r
    using that assms(2) inj by (auto simp: inj_on_def)
  then have "set (filter (\<lambda>r. rw_id r \<in> set (map rw_id xs)) rows) = set xs"
    using assms(2) by auto
  then have "length (filter (\<lambda>r. rw_id r \<in> set (map rw_id xs)) rows) = length xs"
    using d assms(3) by (metis distinct_card distinct_filter)
  then show ?thesis
    using sum_length_filter_compl [of "\<lambda>r. rw_id r \<in> set (map rw_id xs)" rows]
    by (simp add: delete_ids_def)
qed

lemma oldest_length:
  assumes "ids_distinct rows" and "n \<le> length (filter P rows)"
  shows "length (delete_ids (oldest n (filter P rows)) rows) = length rows - n"
proof -
  have "distinct (take n (sort_key rw_time (filter P rows)))"
    using assms(1) by (simp add: ids_distinct_def distinct_map)
  moreover have "set (take n (sort_key rw_time (filter P rows))) \<subseteq> set rows"
    using set_take_sort by fastforce
  ultimately show ?thesis
    using delete_ids_length [OF assms(1)] assms(2) by (simp add: oldest_def)
qed

lemma delete_oldest_keeps:
  assumes "ids_distinct rows" and "r \<in> set rows" and "\<not> P r"
  shows "r \<in> set (delete_ids (oldest n (filter P rows)) rows)"
proof -
  have "rw_id r \<notin> set (oldest n (filter P rows))"
  proof
    assume "rw_id r \<in> set (oldest n (filter P rows))"
    then obtain s where "s \<in> set (take n (sort_key rw_time (filter P rows)))" "rw_id s = rw_id r"
      by (auto simp: oldest_def)
    moreover from this(1) have "s \<in> set rows" "P s" using set_take_sort by fastforce+
    ultimately show False using ids_distinct_eq [OF assms(1)] assms(2,3) by metis
  qed
  with assms(2) show ?thesis by (simp add: delete_ids_def)
qed

lemma delete_ids_subset: "set (delete_ids ids rows) \<subseteq> set rows"
  by (auto simp: delete_ids_def)

lemma ids_distinct_delete: "ids_distinct rows \<Longrightarrow> ids_distinct (delete_ids ids rows)"
  by (simp add: delete_ids_def ids_distinct_filter)

section \<open>Eviction\<close>

lemma evict_spec:
  assumes "ids_distinct rows"
  shows "ids_distinct (evict n rows) \<and> set (evict n rows) \<subseteq> set rows
    \<and> length (evict n rows) = min n (length rows)
    \<and> (length (filter (\<lambda>r. \<not> rw_synced r) rows) \<le> n
        \<longrightarrow> (\<forall>r \<in> set rows. \<not> rw_synced r \<longrightarrow> r \<in> set (evict n rows)))"
proof (cases "n < length rows")
  case False
  then show ?thesis using assms by (simp add: evict_def)
next
  case True
  define excess where "excess = length rows - n"
  define k where "k = min excess (length (filter rw_synced rows))"
  define rows1 where "rows1 = (if 0 < k then delete_ids (oldest k (filter rw_synced rows)) rows else rows)"
  have e: "evict n rows = (if 0 < excess - k then delete_ids (oldest (excess - k) rows1) rows1 else rows1)"
    using True by (simp add: evict_def Let_def excess_def k_def rows1_def)
  have r1: "ids_distinct rows1" "set rows1 \<subseteq> set rows"
    using assms ids_distinct_delete delete_ids_subset by (auto simp: rows1_def)
  have l1: "length rows1 = length rows - k"
    using oldest_length [OF assms, of k rw_synced] by (simp add: rows1_def k_def)
  have keep: "r \<in> set rows1" if "r \<in> set rows" "\<not> rw_synced r" for r
    using delete_oldest_keeps [OF assms that(1), of rw_synced] that by (simp add: rows1_def)
  have split: "length (filter rw_synced rows) + length (filter (\<lambda>r. \<not> rw_synced r) rows) = length rows"
    by (rule sum_length_filter_compl)
  have "length (evict n rows) = n"
    using oldest_length [OF r1(1), of "excess - k" "\<lambda>_. True"] l1 True
    by (auto simp: e excess_def k_def)
  moreover have "ids_distinct (evict n rows)" "set (evict n rows) \<subseteq> set rows"
    using r1 ids_distinct_delete delete_ids_subset by (auto simp: e split: if_splits) blast+
  moreover have "excess - k = 0" if "length (filter (\<lambda>r. \<not> rw_synced r) rows) \<le> n"
    using that split by (simp add: excess_def k_def)
  ultimately show ?thesis using keep True by (auto simp: e)
qed

section \<open>Rounds of the syncer\<close>

definition sorted_pending :: "detection_buffer \<Rightarrow> archive_row list" where
  "sorted_pending b = sort_key rw_time (filter (\<lambda>r. \<not> rw_synced r) (db_rows b))"

lemma filter_sort_key: "filter P (sort_key f xs) = sort_key f (filter P xs)"
  by (rule filter_sort)

lemma pending_length: "pending_count b = length (sorted_pending b)"
  by (simp add: pending_count_def sorted_pending_def)

lemma unsynced_take: "get_unsynced n b = map rw_detection (take n (sorted_pending b))"
  by (simp add: get_unsynced_def sorted_pending_def)

lemma sync_round_rows:
  "fst (sync_round accepts k b) = takeWhile accepts (get_unsynced k b)"
  "0 < pending_count b \<Longrightarrow> db_rows (snd (sync_round accepts k b)) =
     filter (\<lambda>r. \<not> rw_synced r \<and> rw_id r \<notin> set (map de_id (fst (sync_round accepts k b)))) (db_rows b)"
  "pending_count b = 0 \<Longrightarrow> snd (sync_round accepts k b) = b"
  "db_max_size (snd (sync_round accepts k b)) = db_max_size b"
proof -
  have "pending_count b = 0 \<Longrightarrow> get_unsynced k b = []"
    by (simp add: unsynced_take pending_length)
  then show "fst (sync_round accepts k b) = takeWhile accepts (get_unsynced k b)"
    by (auto simp: sync_round_def Let_def)
  let ?ids = "set (map de_id (takeWhile accepts (get_unsynced k b)))"
  have m: "filter (\<lambda>r. \<not> rw_synced r) (map (\<lambda>r. if rw_id r \<in> I then r\<lparr>rw_synced := True\<rparr> else r) rows)
      = filter (\<lambda>r. \<not> rw_synced r \<and> rw_id r \<notin> I) rows" for I rows
    by (induction rows) auto
  show "0 < pending_count b \<Longrightarrow> db_rows (snd (sync_round accepts k b)) =
     filter (\<lambda>r. \<not> rw_synced r \<and> rw_id r \<notin> set (map de_id (fst (sync_round accepts k b)))) (db_rows b)"
    using m [of ?ids "db_rows b"]
    by (auto simp: sync_round_def Let_def purge_synced_def mark_synced_def)
qed (simp_all add: sync_round_def Let_def purge_synced_def mark_synced_def)

text \<open>What a round leaves pending: the published ones are gone, the order of the rest is kept.\<close>

lemma sync_round_pending:
  assumes "ids_distinct (db_rows b)"
  shows "sorted_pending (snd (sync_round accepts k b)) =
     drop (length (fst (sync_round accepts k b))) (sorted_pending b)"
proof (cases "pending_count b = 0")
  case True
  then show ?thesis by (simp add: sync_round_rows pending_length)
next
  case False
  let ?S = "sorted_pending b"
  let ?m = "length (fst (sync_round accepts k b))"
  have m: "fst (sync_round accepts k b) = map rw_detection (take ?m ?S)"
  proof -
    have "fst (sync_round accepts k b) = take ?m (get_unsynced k b)"
      unfolding sync_round_rows(1) by (rule takeWhile_eq_take)
    moreover have "?m \<le> k"
      unfolding sync_round_rows(1) unsynced_take
      by (rule order_trans [OF length_takeWhile_le]) simp
    ultimately show ?thesis by (simp add: unsynced_take take_map min_absorb1)
  qed
  have d: "distinct (map rw_id ?S)"
    using assms by (auto simp: sorted_pending_def ids_distinct_def distinct_map inj_on_def)
  have ids: "map de_id (fst (sync_round accepts k b)) = map rw_id (take ?m ?S)"
    using arg_cong [OF m, of "map de_id"] by (simp only: map_map comp_def)
  have rows: "filter (\<lambda>r. \<not> rw_synced r) (db_rows (snd (sync_round accepts k b)))
      = filter (\<lambda>r. rw_id r \<notin> set (map rw_id (take ?m ?S))) (filter (\<lambda>r. \<not> rw_synced r) (db_rows b))"
    using False unfolding sync_round_rows(2) [OF False [unfolded neq0_conv]] ids by (simp add: conj_commute)
  have "sorted_pending (snd (sync_round accepts k b)) = filter (\<lambda>r. rw_id r \<notin> set (map rw_id (take ?m ?S))) ?S"
    unfolding sorted_pending_def [of "snd (sync_round accepts k b)"] rows
    by (simp only: sorted_pending_def filter_sort_key)
  also have "\<dots> = filter (\<lambda>r. rw_id r \<notin> set (map rw_id (take ?m ?S))) (take ?m ?S)
      @ filter (\<lambda>r. rw_id r \<notin> set (map rw_id (take ?m ?S))) (drop ?m ?S)"
    by (metis append_take_drop_id filter_append)
  also have "filter (\<lambda>r. rw_id r \<notin> set (map rw_id (take ?m ?S))) (take ?m ?S) = []"
    by (simp add: filter_empty_conv)
  also have "filter (\<lambda>r. rw_id r \<notin> set (map rw_id (take ?m ?S))) (drop ?m ?S) = drop ?m ?S"
  proof -
    have "distinct (map rw_id (take ?m ?S) @ map rw_id (drop ?m ?S))"
      using d by (metis append_take_drop_id map_append)
    then show ?thesis by (auto simp: filter_id_conv)
  qed
  finally show ?thesis by simp
qed

datatype buffer_event = Buffer detection | MarkSynced "string list" | Purge | SyncRound "detection \<Rightarrow> bool" nat

fun buffer_step :: "detection_buffer \<Rightarrow> buffer_event \<Rightarrow> detection_buffer" where
  "buffer_step b (Buffer d) = buffer d b"
| "buffer_step b (MarkSynced ids) = mark_synced ids b"
| "buffer_step b Purge = snd (purge_synced b)"
| "buffer_step b (SyncRound accepts k) = snd (sync_round accepts k b)"

definition buffer_ok :: "nat \<Rightarrow> detection_buffer \<Rightarrow> bool" where
  "buffer_ok n b \<longleftrightarrow> db_max_size b = n \<and> ids_distinct (db_rows b) \<and> length (db_rows b) \<le> n"

lemma mark_synced_ids: "map rw_id (db_rows (mark_synced ids b)) = map rw_id (db_rows b)"
  by (simp add: mark_synced_def comp_def if_distrib cong: map_cong)

interpretation buffer_machine: event_machine buffer_step "buffer_ok n"
proof unfold_locales
  fix b e assume ok: "buffer_ok n b"
  show "buffer_ok n (buffer_step b e)"
  proof (cases e)
    case (Buffer d)
    have "ids_distinct (insert_row d (db_rows b))"
      using ok by (simp add: buffer_ok_def ids_distinct_insert)
    from evict_spec [OF this, of n] ok Buffer show ?thesis by (simp add: buffer_ok_def buffer_def)
  next
    case (MarkSynced ids)
    have "length (db_rows (mark_synced ids b)) = length (db_rows b)" by (simp add: mark_synced_def)
    with ok MarkSynced mark_synced_ids [of ids b] show ?thesis
      by (simp add: buffer_ok_def ids_distinct_def) (simp add: mark_synced_def)
  next
    case Purge
    with ok show ?thesis
      by (auto simp: buffer_ok_def purge_synced_def ids_distinct_filter intro: order_trans [OF length_filter_le])
  next
    case (SyncRound accepts k)
    show ?thesis
    proof (cases "pending_count b = 0")
      case True
      with ok SyncRound show ?thesis by (simp add: sync_round_rows(3))
    next
      case False
      with ok SyncRound show ?thesis
        by (auto simp: buffer_ok_def sync_round_rows(2,4) ids_distinct_filter
            intro: order_trans [OF length_filter_le])
    qed
  qed
qed

section \<open>The properties of the buffer\<close>

text \<open>C23: However detections arrive and are marked, purged and synced, the archive never holds more
  rows than its capacity nor two rows with one id; and storing a detection never loses one that
  is not yet synced, old or new, as long as the unsynced ones alone fit into the capacity.\<close>

theorem buffer_bounded:
  assumes "b = foldl buffer_step (detection_buffer_init n) es"
  shows "length (db_rows b) \<le> n \<and> distinct (map rw_id (db_rows b))
    \<and> (length (filter (\<lambda>r. \<not> rw_synced r) (insert_row d (db_rows b))) \<le> n
        \<longrightarrow> (\<exists>r \<in> set (db_rows (buffer d b)). rw_detection r = d)
          \<and> (\<forall>r \<in> set (db_rows b). \<not> rw_synced r \<and> rw_id r \<noteq> de_id d \<longrightarrow> r \<in> set (db_rows (buffer d b))))"
proof -
  have "buffer_ok n (detection_buffer_init n)"
    by (simp add: buffer_ok_def detection_buffer_init_def ids_distinct_def)
  then have ok: "buffer_ok n b" unfolding assms by (rule buffer_machine.run_inv)
  then have "ids_distinct (insert_row d (db_rows b))"
    by (simp add: buffer_ok_def ids_distinct_insert)
  note ev = evict_spec [OF this, of n]
  let ?new = "\<lparr>rw_detection = d, rw_synced = False\<rparr>"
  have "?new \<in> set (insert_row d (db_rows b))" by (simp add: insert_row_def)
  moreover have "r \<in> set (insert_row d (db_rows b))" if "r \<in> set (db_rows b)" "rw_id r \<noteq> de_id d" for r
    using that by (simp add: insert_row_def delete_ids_def)
  moreover have "db_rows (buffer d b) = evict n (insert_row d (db_rows b))"
    using ok by (simp add: buffer_def buffer_ok_def)
  ultimately show ?thesis
    using ok ev by (auto simp: buffer_ok_def ids_distinct_def intro!: bexI [of _ ?new])
qed

fun sync_rounds :: "nat \<Rightarrow> nat \<Rightarrow> detection_buffer \<Rightarrow> detection list \<times> detection_buffer" where
  "sync_rounds 0 k b = ([], b)"
| "sync_rounds (Suc n) k b =
     (let (ps, b1) = sync_round (\<lambda>_. True) k b; (qs, b2) = sync_rounds n k b1 in (ps @ qs, b2))"

lemma sync_rounds_spec:
  "\<lbrakk>ids_distinct (db_rows b); sync_rounds n k b = (ps, b')\<rbrakk> \<Longrightarrow>
      ps = map rw_detection (take (n * k) (sorted_pending b)) \<and> sorted_pending b' = drop (n * k) (sorted_pending b)
      \<and> (0 < n \<and> 0 < pending_count b \<longrightarrow> filter rw_synced (db_rows b') = [])"
proof (induction n arbitrary: b ps b')
  case (Suc n)
  obtain qs b1 where r: "sync_round (\<lambda>_. True) k b = (qs, b1)" by (cases "sync_round (\<lambda>_. True) k b")
  obtain rs b2 where rest: "sync_rounds n k b1 = (rs, b2)" by (cases "sync_rounds n k b1")
  have ps: "ps = qs @ rs" "b' = b2" using Suc.prems(2) r rest by simp_all
  have qs: "qs = map rw_detection (take k (sorted_pending b))"
    using sync_round_rows(1) [of "\<lambda>_. True" k b] r by (simp add: unsynced_take)
  have d1: "sorted_pending b1 = drop k (sorted_pending b)"
    using sync_round_pending [OF Suc.prems(1), of "\<lambda>_. True" k] r qs
    by (simp add: min_def)
  have clean: "filter rw_synced (db_rows b1) = [] \<and> ids_distinct (db_rows b1)" if "0 < pending_count b"
    using sync_round_rows(2) [OF that, of "\<lambda>_. True" k] r Suc.prems(1) ids_distinct_filter
    by (auto simp: filter_empty_conv)
  have "ids_distinct (db_rows b1)"
    using clean Suc.prems(1) r sync_round_rows(3) [of b "\<lambda>_. True" k] by (cases "pending_count b = 0") auto
  note ih = Suc.IH [OF this rest]
  have "filter rw_synced (db_rows b2) = []" if pos: "0 < pending_count b"
  proof (cases "0 < n \<and> 0 < pending_count b1")
    case True
    with ih show ?thesis by simp
  next
    case False
    have same: "sync_rounds m k c = ([], c)" if "pending_count c = 0" for m c
    proof -
      have "sync_round (\<lambda>_. True) k c = ([], c)"
        using that sync_round_rows(1) [of "\<lambda>_. True" k c] sync_round_rows(3) [of c "\<lambda>_. True" k]
        by (simp add: unsynced_take pending_length prod_eq_iff)
      then show ?thesis by (induction m) simp_all
    qed
    from False have "b2 = b1" using rest same [of b1 n] by (cases "n = 0") auto
    then show ?thesis using clean [OF pos] by simp
  qed
  moreover have "take (Suc n * k) (sorted_pending b) = take k (sorted_pending b) @ take (n * k) (drop k (sorted_pending b))"
    by (simp add: take_add)
  moreover have "drop (n * k) (drop k (sorted_pending b)) = drop (Suc n * k) (sorted_pending b)"
    by (simp add: add.commute)
  ultimately show ?case using ih qs d1 ps by (simp del: mult_Suc drop_drop)
qed simp

text \<open>C22: Once the link accepts what is published, the backlog drains: \<open>n\<close> rounds with batches of
  \<open>k\<close> publish the oldest \<open>n * k\<close> unsynced detections, each once and in the order of their timestamps,
  so enough rounds publish all of them and leave nothing pending, nor any row at all: a synced
  row stays in the archive only until the end of the round.\<close>

theorem sync_drains:
  assumes "ids_distinct (db_rows b)" and "sync_rounds n k b = (ps, b')" and "0 < n"
  shows "ps = map rw_detection (take (n * k) (sorted_pending b))
    \<and> pending_count b' = pending_count b - n * k
    \<and> (0 < pending_count b \<and> pending_count b \<le> n * k \<longrightarrow> db_rows b' = [])"
proof -
  from sync_rounds_spec [OF assms(1,2)] assms(3) have r: "ps = map rw_detection (take (n * k) (sorted_pending b))"
    "sorted_pending b' = drop (n * k) (sorted_pending b)"
    "0 < pending_count b \<Longrightarrow> filter rw_synced (db_rows b') = []" by auto
  have "db_rows b' = []" if "0 < pending_count b" "pending_count b \<le> n * k"
  proof -
    have "filter (\<lambda>r. \<not> rw_synced r) (db_rows b') = []"
    proof -
      have "pending_count b' = 0" using r(2) that(2) by (simp add: pending_length)
      then show ?thesis by (simp add: pending_count_def)
    qed
    with r(3) [OF that(1)] show ?thesis by (auto simp: filter_empty_conv)
  qed
  with r show ?thesis by (simp add: pending_length)
qed

definition sample_archive :: detection_buffer where
  "sample_archive =
     \<lparr>db_max_size = 5, db_rows = map (\<lambda>(i, t). \<lparr>rw_detection = \<lparr>de_id = i, de_detection_type = PEST,
        de_position = geo_position0, de_confidence = 1, de_severity = 5, de_detected_by = [],
        de_timestamp = t\<rparr>, rw_synced = False\<rparr>) [(''a'', 2), (''b'', 1)]\<rparr>"

lemma sync_drains_witness:
  "map de_id (fst (sync_rounds 2 1 sample_archive)) = [''b'', ''a''] \<and> db_rows (snd (sync_rounds 2 1 sample_archive)) = []"
proof -
  obtain ps b' where r: "sync_rounds 2 1 sample_archive = (ps, b')" by (cases "sync_rounds 2 1 sample_archive")
  have d: "ids_distinct (db_rows sample_archive)" by (simp add: sample_archive_def ids_distinct_def)
  have s: "map (\<lambda>r. de_id (rw_detection r)) (sorted_pending sample_archive) = [''b'', ''a'']"
    by (simp add: sorted_pending_def sample_archive_def)
  then have l: "length (sorted_pending sample_archive) = 2" by (metis length_map list.size(3,4) Suc_eq_plus1 numeral_2_eq_2 add_0)
  with sync_drains [OF d r] s r show ?thesis by (simp add: pending_length comp_def)
qed

lemma buffer_bounded_witness:
  "length (db_rows (foldl buffer_step (detection_buffer_init 1)
      [Buffer (rw_detection (hd (db_rows sample_archive))), Purge])) \<le> 1"
  using buffer_bounded [OF refl] by blast

end
