(* ===== verification/Orca.thy ===== *)
theory Orca
  imports Coordination BrainProtocol
begin

text \<open>
  The collision avoidance of the drone brain, \<open>olympus/brain/olympus_brain/orca.py\<close>: the planner that
  bends a preferred velocity around its neighbors, the emergency change of altitude and the choice of
  the neighbors. A numpy array of two floats is a pair. The lemmas work out on which side of its line
  a preferred velocity lies, which decides whether a neighbor that is not yet too close has any effect.
\<close>

section \<open>The planner\<close>

record orca_neighbor =
  on_position :: geo_position
  on_velocity :: vec
  on_radius :: real

record orca_result =
  or_velocity :: vec
  or_is_adjusted :: bool

record orca_planner =
  op_agent_radius :: real
  op_max_speed :: real
  op_neighbor_dist :: real

definition orca_planner_init :: "real \<Rightarrow> real \<Rightarrow> real \<Rightarrow> orca_planner" where
  "orca_planner_init agent_radius max_speed neighbor_dist =
     \<lparr>op_agent_radius = agent_radius, op_max_speed = max_speed, op_neighbor_dist = neighbor_dist\<rparr>"

definition orca_default_radius :: real where
  "orca_default_radius = 10"

definition default_neighbor_dist :: real where
  "default_neighbor_dist = 50"

definition orca_time_horizon :: real where
  "orca_time_horizon = 5"

definition min_separation :: real where
  "min_separation = 20"

definition emergency_separation :: real where
  "emergency_separation = 10"

definition emergency_alt_offset :: real where
  "emergency_alt_offset = 15"

definition geo_to_local :: "geo_position \<Rightarrow> geo_position \<Rightarrow> vec" where
  "geo_to_local origin target =
     (let dlat = radians (gp_latitude target - gp_latitude origin);
          dlon = radians (gp_longitude target - gp_longitude origin);
          cos_lat = cos (radians (gp_latitude origin))
      in (dlon * cos_lat * 6371000, dlat * 6371000))"

definition orca_normalize :: "vec \<Rightarrow> vec" where
  "orca_normalize v = (let n = vnorm v in if n < 1 / 10 ^ 10 then (1, 0) else (fst v / n, snd v / n))"

text \<open>The unit vectors along the two tangents of the velocity obstacle of a disc of radius \<open>r\<close> at \<open>p\<close>.\<close>

definition left_leg :: "vec \<Rightarrow> real \<Rightarrow> vec" where
  "left_leg p r =
     (let dist = vnorm p; leg = sqrt (dist * dist - r * r); e = vscale p (1 / dist);
          cos_theta = leg / dist; sin_theta = r / dist
      in (fst e * cos_theta - snd e * sin_theta, fst e * sin_theta + snd e * cos_theta))"

definition right_leg :: "vec \<Rightarrow> real \<Rightarrow> vec" where
  "right_leg p r =
     (let dist = vnorm p; leg = sqrt (dist * dist - r * r); e = vscale p (1 / dist);
          cos_theta = leg / dist; sin_theta = r / dist
      in (fst e * cos_theta + snd e * sin_theta, - fst e * sin_theta + snd e * cos_theta))"

text \<open>The line one neighbor adds, direction and point.\<close>

definition neighbor_line :: "geo_position \<Rightarrow> vec \<Rightarrow> orca_planner \<Rightarrow> orca_neighbor \<Rightarrow> vec \<times> vec" where
  "neighbor_line my_pos preferred_vel pl nb =
     (let rel_pos = geo_to_local my_pos (on_position nb); rel_vel = vsub preferred_vel (on_velocity nb);
          dist = vnorm rel_pos; combined_radius = op_agent_radius pl + on_radius nb
      in if dist < 1 / 1000 then ((1, 0), vscale (vscale (1, 0) (op_max_speed pl)) 0.5)
         else if dist < combined_radius
         then let w = vsub rel_vel (vscale rel_pos (1 / orca_time_horizon)); w_len = vnorm w;
                  direction = (if w_len < 1 / 1000 then orca_normalize rel_pos else orca_normalize w);
                  u = vscale direction (combined_radius / orca_time_horizon - w_len)
              in ((- snd direction, fst direction), vadd preferred_vel (vscale u 0.5))
         else let (direction, line_dir) =
                    (if 0 < vdet rel_pos rel_vel
                     then let d = left_leg rel_pos combined_radius in (d, (snd d, - fst d))
                     else let d = right_leg rel_pos combined_radius in (d, (- snd d, fst d)));
                  proj = vdot rel_vel direction;
                  u = vadd (vsub (vscale direction (max 0 proj)) rel_vel)
                           (vscale direction (combined_radius / orca_time_horizon))
              in (line_dir, vadd preferred_vel (vscale u 0.5)))"

definition slow_to :: "real \<Rightarrow> vec \<Rightarrow> vec" where
  "slow_to max_speed v = (let speed = vnorm v in if max_speed < speed then vscale v (max_speed / speed) else v)"

fun solve_linear_program :: "real \<Rightarrow> vec \<Rightarrow> vec \<Rightarrow> (vec \<times> vec) list \<Rightarrow> vec" where
  "solve_linear_program max_speed preferred result [] = result"
| "solve_linear_program max_speed preferred result ((direction, line_point) # lines) =
     solve_linear_program max_speed preferred
       (if vdot direction (vsub result line_point) < 0
        then let t_opt = vdot direction (vsub preferred line_point)
             in slow_to max_speed (vadd line_point (vscale direction t_opt))
        else result) lines"

definition compute_safe_velocity ::
  "geo_position \<Rightarrow> vec \<Rightarrow> orca_neighbor list \<Rightarrow> orca_planner \<Rightarrow> orca_result" where
  "compute_safe_velocity my_pos preferred_vel neighbors pl =
     (if neighbors = [] then \<lparr>or_velocity = preferred_vel, or_is_adjusted = False\<rparr>
      else let orca_lines = map (neighbor_line my_pos preferred_vel pl) neighbors;
               result = slow_to (op_max_speed pl)
                          (solve_linear_program (op_max_speed pl) preferred_vel preferred_vel orca_lines)
           in \<lparr>or_velocity = result, or_is_adjusted = 0.1 < vnorm (vsub result preferred_vel)\<rparr>)"

fun check_altitude_separation :: "geo_position \<Rightarrow> geo_position list \<Rightarrow> real \<Rightarrow> real option" where
  "check_altitude_separation my_pos [] my_role_altitude = None"
| "check_altitude_separation my_pos (n # ns) my_role_altitude =
     (if distance_to my_pos n < emergency_separation
         \<and> \<bar>gp_altitude my_pos - gp_altitude n\<bar> < min_separation
      then Some (if gp_altitude my_pos \<le> gp_altitude n then my_role_altitude - emergency_alt_offset
                 else my_role_altitude + emergency_alt_offset)
      else check_altitude_separation my_pos ns my_role_altitude)"

definition get_neighbors ::
  "string \<Rightarrow> (string, geo_position) dict \<Rightarrow> (string, vec) dict \<Rightarrow> orca_planner \<Rightarrow> orca_neighbor list" where
  "get_neighbors my_id swarm_positions swarm_velocities pl =
     (case dget swarm_positions my_id of
        None \<Rightarrow> []
      | Some my_pos \<Rightarrow>
          map (\<lambda>(drone_id, pos). \<lparr>on_position = pos,
                 on_velocity = (case dget swarm_velocities drone_id of None \<Rightarrow> (0, 0) | Some v \<Rightarrow> v),
                 on_radius = op_agent_radius pl\<rparr>)
            (filter (\<lambda>(drone_id, pos). drone_id \<noteq> my_id \<and> \<not> op_neighbor_dist pl < distance_to my_pos pos)
              swarm_positions))"

section \<open>The side of a line a velocity lies on\<close>

lemma vnorm_square: "(vnorm p)\<^sup>2 = (fst p)\<^sup>2 + (snd p)\<^sup>2"
  by (simp add: vnorm_def)

lemma unit_vector:
  assumes "0 < vnorm p"
  shows "(fst p / vnorm p)\<^sup>2 + (snd p / vnorm p)\<^sup>2 = 1"
proof -
  have "fst p / vnorm p * vnorm p = fst p" "snd p / vnorm p * vnorm p = snd p" using assms by simp_all
  then have "((fst p / vnorm p)\<^sup>2 + (snd p / vnorm p)\<^sup>2) * (vnorm p)\<^sup>2 = (vnorm p)\<^sup>2"
    unfolding distrib_right power_mult_distrib [symmetric] by (simp only: vnorm_square)
  then show ?thesis using assms by simp
qed

text \<open>Both legs are the direction to the neighbor turned by the same angle.\<close>

lemma legs:
  assumes "0 < r" and "r \<le> vnorm p"
  obtains c s where "c\<^sup>2 + s\<^sup>2 = 1" and "s * vnorm p = r"
    and "left_leg p r = (fst p / vnorm p * c - snd p / vnorm p * s, fst p / vnorm p * s + snd p / vnorm p * c)"
    and "right_leg p r = (fst p / vnorm p * c + snd p / vnorm p * s, - (fst p / vnorm p) * s + snd p / vnorm p * c)"
proof
  let ?d = "vnorm p"
  let ?c = "sqrt (?d * ?d - r * r) / ?d" and ?s = "r / ?d"
  have d: "0 < ?d" using assms by simp
  have "r * r \<le> ?d * ?d" using assms by (simp add: mult_mono)
  then show "?c\<^sup>2 + ?s\<^sup>2 = 1"
    using d by (simp add: power_divide power2_eq_square flip: add_divide_distrib)
  show "?s * ?d = r" using d by simp
  show "left_leg p r = (fst p / ?d * ?c - snd p / ?d * ?s, fst p / ?d * ?s + snd p / ?d * ?c)"
    and "right_leg p r = (fst p / ?d * ?c + snd p / ?d * ?s, - (fst p / ?d) * ?s + snd p / ?d * ?c)"
    by (simp_all add: left_leg_def right_leg_def Let_def vscale_def)
qed

text \<open>Two vehicles that keep their velocities come closer than \<open>r\<close> at a later time.\<close>

definition collision_course :: "vec \<Rightarrow> vec \<Rightarrow> real \<Rightarrow> bool" where
  "collision_course rel_pos rel_vel r \<longleftrightarrow> (\<exists>t>0. vnorm (vsub rel_pos (vscale rel_vel t)) < r)"

lemma cauchy_less:
  assumes "c\<^sup>2 + s\<^sup>2 = 1" and "a\<^sup>2 + b\<^sup>2 < (r :: real)\<^sup>2" and "0 < r"
  shows "c * b + s * a < r" and "s * a - c * b < r"
proof -
  have "(c * b + s * a)\<^sup>2 + (c * a - s * b)\<^sup>2 = (c\<^sup>2 + s\<^sup>2) * (a\<^sup>2 + b\<^sup>2)"
    and "(s * a - c * b)\<^sup>2 + (c * a + s * b)\<^sup>2 = (c\<^sup>2 + s\<^sup>2) * (a\<^sup>2 + b\<^sup>2)"
    by (simp_all add: power2_eq_square algebra_simps)
  moreover have "x < z" if "x + y = 1 * w" "w < z" "0 \<le> y" for x y z w :: real using that by linarith
  ultimately have "(c * b + s * a)\<^sup>2 < r\<^sup>2" and "(s * a - c * b)\<^sup>2 < r\<^sup>2"
    using assms(2) unfolding assms(1) by (meson zero_le_power2)+
  then show "c * b + s * a < r" and "s * a - c * b < r"
    using assms(3) by (meson less_imp_le power2_less_imp_less)+
qed

text \<open>A velocity on a collision course points into the cone between the two legs.\<close>

lemma collision_inside:
  assumes "0 < r" and "r \<le> vnorm p" and "collision_course p v r"
  shows "0 < vdet (right_leg p r) v" and "vdet (left_leg p r) v < 0"
proof -
  let ?d = "vnorm p" and ?x = "fst p / vnorm p" and ?y = "snd p / vnorm p"
  obtain c s where cs: "c\<^sup>2 + s\<^sup>2 = 1" "s * ?d = r"
    and l: "left_leg p r = (?x * c - ?y * s, ?x * s + ?y * c)"
    and rr: "right_leg p r = (?x * c + ?y * s, - ?x * s + ?y * c)"
    using legs [OF assms(1,2)] by metis
  obtain t where t: "0 < t" "vnorm (vsub p (vscale v t)) < r"
    using assms(3) by (auto simp: collision_course_def)
  define q where "q = vsub p (vscale v t)"
  have d: "0 < ?d" using assms by simp
  define a b where "a = ?x * fst q + ?y * snd q" and "b = ?x * snd q - ?y * fst q"
  have "a\<^sup>2 + b\<^sup>2 = (?x\<^sup>2 + ?y\<^sup>2) * ((fst q)\<^sup>2 + (snd q)\<^sup>2)"
    unfolding a_def b_def power2_eq_square by (simp only: algebra_simps)
  then have "a\<^sup>2 + b\<^sup>2 = (vnorm q)\<^sup>2" unfolding unit_vector [OF d] vnorm_square by simp
  also have "\<dots> < r\<^sup>2" using t(2) vnorm_nonneg [of q] by (simp add: q_def power_strict_mono)
  finally have near: "c * b + s * a < r" "s * a - c * b < r"
    using cauchy_less [OF cs(1)] assms(1) by blast+
  have v: "t * fst v = ?x * ?d - fst q" "t * snd v = ?y * ?d - snd q"
    using d by (simp_all add: q_def vsub_def vscale_def mult.commute)
  have ab: "?x * (t * snd v) - ?y * (t * fst v) = - b" "?x * (t * fst v) + ?y * (t * snd v) = ?d - a"
  proof -
    show "?x * (t * snd v) - ?y * (t * fst v) = - b" unfolding v b_def by (simp only: algebra_simps)
    have "?x * (t * fst v) + ?y * (t * snd v) = (?x\<^sup>2 + ?y\<^sup>2) * ?d - a"
      unfolding v a_def power2_eq_square by (simp only: algebra_simps)
    then show "?x * (t * fst v) + ?y * (t * snd v) = ?d - a" unfolding unit_vector [OF d] by simp
  qed
  have "t * vdet (right_leg p r) v
      = c * (?x * (t * snd v) - ?y * (t * fst v)) + s * (?x * (t * fst v) + ?y * (t * snd v))"
    unfolding rr vdet_def fst_conv snd_conv by (simp only: algebra_simps)
  also have "\<dots> = r - (c * b + s * a)" unfolding ab cs(2) [symmetric] by (simp add: algebra_simps)
  finally have "0 < t * vdet (right_leg p r) v" using near(1) by linarith
  then show "0 < vdet (right_leg p r) v" by (rule zero_less_mult_pos [OF _ t(1)])
  have "t * vdet (left_leg p r) v
      = c * (?x * (t * snd v) - ?y * (t * fst v)) - s * (?x * (t * fst v) + ?y * (t * snd v))"
    unfolding l vdet_def fst_conv snd_conv by (simp only: algebra_simps)
  also have "\<dots> = (s * a - c * b) - r" unfolding ab cs(2) [symmetric] by (simp add: algebra_simps)
  finally have "t * vdet (left_leg p r) v < 0" using near(2) by linarith
  then show "vdet (left_leg p r) v < 0" using t(1) by (simp add: mult_less_0_iff)
qed

text \<open>On which side of the line of a neighbor that is not yet too close the preferred velocity lies.\<close>

lemma half_step_side:
  "vdot (- snd d, fst d) (vsub w (vadd w (vscale (vadd (vsub (vscale d k) v) (vscale d c)) 0.5))) = vdet d v / 2"
  "vdot (snd d, - fst d) (vsub w (vadd w (vscale (vadd (vsub (vscale d k) v) (vscale d c)) 0.5))) = - vdet d v / 2"
  by (simp_all add: vdot_def vsub_def vadd_def vscale_def vdet_def field_simps)

lemma line_side:
  assumes "1 / 1000 \<le> op_agent_radius pl + on_radius nb"
    and "op_agent_radius pl + on_radius nb \<le> vnorm (geo_to_local my_pos (on_position nb))"
    and "neighbor_line my_pos preferred_vel pl nb = (direction, line_point)"
  shows "vdot direction (vsub preferred_vel line_point)
      = (let p = geo_to_local my_pos (on_position nb); v = vsub preferred_vel (on_velocity nb);
             r = op_agent_radius pl + on_radius nb
         in if 0 < vdet p v then - vdet (left_leg p r) v / 2 else vdet (right_leg p r) v / 2)"
proof -
  let ?p = "geo_to_local my_pos (on_position nb)" and ?v = "vsub preferred_vel (on_velocity nb)"
  let ?r = "op_agent_radius pl + on_radius nb"
  have far: "\<not> vnorm ?p < 1 / 1000" "\<not> vnorm ?p < ?r" using assms(1,2) by simp_all
  show ?thesis
  proof (cases "0 < vdet ?p ?v")
    case True
    with assms(3) far have "direction = (snd (left_leg ?p ?r), - fst (left_leg ?p ?r))"
      "\<exists>k c. line_point = vadd preferred_vel
         (vscale (vadd (vsub (vscale (left_leg ?p ?r) k) ?v) (vscale (left_leg ?p ?r) c)) 0.5)"
      by (auto simp: neighbor_line_def Let_def)
    with True show ?thesis by (auto simp only: half_step_side Let_def if_True)
  next
    case False
    with assms(3) far have "direction = (- snd (right_leg ?p ?r), fst (right_leg ?p ?r))"
      "\<exists>k c. line_point = vadd preferred_vel
         (vscale (vadd (vsub (vscale (right_leg ?p ?r) k) ?v) (vscale (right_leg ?p ?r) c)) 0.5)"
      by (auto simp: neighbor_line_def Let_def)
    with False show ?thesis by (auto simp only: half_step_side Let_def if_False)
  qed
qed

text \<open>C36: The planner of the brain leaves a velocity alone exactly where it should bend it: if every
  neighbor is outside the sum of the radii and on a collision course (were the velocities kept, the
  two would come closer than the sum of the radii), and the preferred velocity is within the speed
  limit, the preferred velocity is returned unadjusted.\<close>

theorem orca_keeps_collision_course:
  assumes "vnorm preferred_vel \<le> op_max_speed pl"
    and "\<forall>nb \<in> set neighbors. 1 / 1000 \<le> op_agent_radius pl + on_radius nb
      \<and> op_agent_radius pl + on_radius nb \<le> vnorm (geo_to_local my_pos (on_position nb))
      \<and> collision_course (geo_to_local my_pos (on_position nb)) (vsub preferred_vel (on_velocity nb))
          (op_agent_radius pl + on_radius nb)"
  shows "compute_safe_velocity my_pos preferred_vel neighbors pl
    = \<lparr>or_velocity = preferred_vel, or_is_adjusted = False\<rparr>"
proof -
  have keep: "\<not> vdot (fst (neighbor_line my_pos preferred_vel pl nb))
      (vsub preferred_vel (snd (neighbor_line my_pos preferred_vel pl nb))) < 0" if "nb \<in> set neighbors" for nb
  proof -
    obtain dir lp where l: "neighbor_line my_pos preferred_vel pl nb = (dir, lp)" by (rule prod.exhaust)
    note n = bspec [OF assms(2) that(1)]
    have "0 < op_agent_radius pl + on_radius nb" using n by linarith
    with n collision_inside show ?thesis
      unfolding l fst_conv snd_conv line_side [OF n [THEN conjunct1] n [THEN conjunct2, THEN conjunct1] l]
      by (smt (verit) Let_def divide_nonneg_nonneg divide_minus_left)
  qed
  have "solve_linear_program m preferred_vel preferred_vel
      (map (neighbor_line my_pos preferred_vel pl) ns) = preferred_vel" if "set ns \<subseteq> set neighbors" for m ns
    using that
  proof (induction ns)
    case (Cons nb ns)
    then show ?case using keep [of nb]
      by (cases "neighbor_line my_pos preferred_vel pl nb") simp
  qed simp
  moreover have "vnorm (vsub preferred_vel preferred_vel) = 0" by (simp add: vsub_def vnorm_def)
  ultimately show ?thesis
    using assms(1) by (simp add: compute_safe_velocity_def slow_to_def Let_def)
qed

lemma orca_keeps_collision_course_witness:
  "compute_safe_velocity geo_position0 (0, 10)
     [\<lparr>on_position = geo_position0\<lparr>gp_latitude := 100 * 180 / (6371000 * pi)\<rparr>, on_velocity = (0, - 10),
       on_radius = 10\<rparr>] (orca_planner_init 10 15 50)
   = \<lparr>or_velocity = (0, 10), or_is_adjusted = False\<rparr>"
proof (rule orca_keeps_collision_course)
  have "geo_to_local geo_position0 (geo_position0\<lparr>gp_latitude := 100 * 180 / (6371000 * pi)\<rparr>) = (0, 100)"
    by (simp add: geo_to_local_def geo_position0_def radians_def Let_def)
  moreover have "collision_course (0, 100) (vsub (0, 10) (0, - 10)) 20"
    unfolding collision_course_def by (rule exI [of _ 5]) (simp add: vsub_def vscale_def vnorm_def)
  ultimately show "\<forall>nb \<in> set [\<lparr>on_position = geo_position0\<lparr>gp_latitude := 100 * 180 / (6371000 * pi)\<rparr>,
        on_velocity = (0, - 10), on_radius = 10\<rparr>].
      1 / 1000 \<le> op_agent_radius (orca_planner_init 10 15 50) + on_radius nb
      \<and> op_agent_radius (orca_planner_init 10 15 50) + on_radius nb
          \<le> vnorm (geo_to_local geo_position0 (on_position nb))
      \<and> collision_course (geo_to_local geo_position0 (on_position nb)) (vsub (0, 10) (on_velocity nb))
          (op_agent_radius (orca_planner_init 10 15 50) + on_radius nb)"
    by (simp add: orca_planner_init_def vnorm_def)
qed (simp add: orca_planner_init_def vnorm_def)

section \<open>The port on the vehicle\<close>

text \<open>The test of the port is the side of the line, not the component along it; what the line of a
  neighbor to the right leaves is then at least half the reserve on the safe side.\<close>

lemma turned_norm:
  "(x * k + y * s) * (x * k + y * s) + (- x * s + y * k) * (- x * s + y * k) = (x\<^sup>2 + y\<^sup>2) * (k\<^sup>2 + s\<^sup>2)"
  for x y k s :: real
  by (simp add: power2_eq_square algebra_simps)

lemma port_line_side:
  assumes "0 < r" and "r \<le> vnorm p" and "0 \<le> c"
  defines "d \<equiv> right_leg p r"
  shows "0 \<le> vdet (- snd d, fst d)
    (vsub w (vadd w (vscale (vadd (vsub (vscale d (max 0 (vdot v d))) v) (vscale d c)) 0.5)))"
proof -
  have "vdot d d = 1"
  proof -
    obtain k s where ks: "k\<^sup>2 + s\<^sup>2 = 1"
      and d: "d = (fst p / vnorm p * k + snd p / vnorm p * s, - (fst p / vnorm p) * s + snd p / vnorm p * k)"
      using legs [OF assms(1,2)] d_def by metis
    have "vdot d d = ((fst p / vnorm p)\<^sup>2 + (snd p / vnorm p)\<^sup>2) * (k\<^sup>2 + s\<^sup>2)"
      unfolding d vdot_def fst_conv snd_conv by (rule turned_norm)
    then show ?thesis using ks unit_vector [of p] assms(1,2) by simp
  qed
  moreover have "vdet (- snd d, fst d)
      (vsub w (vadd w (vscale (vadd (vsub (vscale d k) v) (vscale d c)) 0.5))) = ((k + c) * vdot d d - vdot v d) / 2"
    for k by (simp add: vdot_def vsub_def vadd_def vscale_def vdet_def field_simps)
  ultimately show ?thesis using assms(3) by (simp only: mult_1_right) simp
qed

text \<open>The port that flies on the vehicle bends a velocity to one side only: neighbors that are
  outside the sum of the radii and are passed on the right or met head-on (the relative velocity
  does not turn to the left of the relative position) have no effect on a preferred velocity within
  the speed limit, however close the collision.\<close>

theorem port_ignores_right_side:
  assumes "vnorm preferred \<le> max_speed" and "0 < tau"
    and "\<forall>(npos, nvel, nrad) \<in> set neighbors. 1 / 1000 \<le> radius + nrad
      \<and> radius + nrad \<le> vnorm (vsub npos my_pos) \<and> vdet (vsub npos my_pos) (vsub preferred nvel) \<le> 0"
  shows "orca my_pos preferred neighbors max_speed radius tau = (preferred, False)"
proof -
  have keep: "orca_step preferred max_speed (orca_line my_pos preferred max_speed radius tau nb) preferred
      = preferred" if nb: "nb \<in> set neighbors" for nb
  proof -
    obtain npos nvel nrad where n: "nb = (npos, nvel, nrad)" by (cases nb)
    let ?p = "vsub npos my_pos" and ?r = "radius + nrad" and ?v = "vsub preferred nvel"
    have b: "1 / 1000 \<le> ?r" "?r \<le> vnorm ?p" "vdet ?p ?v \<le> 0" using assms(3) nb n by auto
    then have far: "\<not> vnorm ?p < 1 / 1000" "\<not> vnorm ?p < ?r" "\<not> 0 < vdet ?p ?v" by simp_all
    let ?d = "right_leg ?p ?r"
    have "orca_line my_pos preferred max_speed radius tau nb = ((- snd ?d, fst ?d), vadd preferred (vscale
        (vadd (vsub (vscale ?d (max 0 (vdot ?v ?d))) ?v) (vscale ?d (?r / tau))) 0.5))"
      using far unfolding orca_line_def n right_leg_def Let_def by simp
    then show ?thesis
      using port_line_side [of ?r ?p "?r / tau" preferred ?v] b assms(2) unfolding orca_step_def Let_def by simp
  qed
  have "fold (orca_step preferred max_speed)
      (map (orca_line my_pos preferred max_speed radius tau) ns) preferred = preferred"
    if "set ns \<subseteq> set neighbors" for ns
    using that by (induction ns) (simp_all add: keep)
  moreover have "vnorm (vsub preferred preferred) = 0" by (simp add: vsub_def vnorm_def)
  ultimately show ?thesis
    using assms(1) by (simp add: orca_def clip_speed_id Let_def)
qed

lemma port_ignores_right_side_witness:
  "orca (0, 0) (0, 4) [((0, 20), (0, - 4), 5)] 8 5 5 = ((0, 4), False)"
  by (rule port_ignores_right_side) (simp_all add: vnorm_def vsub_def vdet_def)

text \<open>With neighbors in sight the brain's velocity respects the speed limit; with none it is returned
  as it came.\<close>

lemma slow_to_bound: "0 \<le> m \<Longrightarrow> vnorm (slow_to m v) \<le> m"
  using clip_speed_bound [of m v] by (simp add: slow_to_def clip_speed_def)

lemma safe_speed:
  "\<lbrakk>neighbors \<noteq> []; 0 \<le> op_max_speed pl\<rbrakk>
     \<Longrightarrow> vnorm (or_velocity (compute_safe_velocity my_pos pref neighbors pl)) \<le> op_max_speed pl"
  by (simp add: compute_safe_velocity_def Let_def slow_to_bound)

section \<open>Separation in altitude\<close>

text \<open>Two vehicles at the same altitude that are too close decide alike: both go down.\<close>

lemma altitude_tie:
  assumes "distance_to p q < emergency_separation" and "gp_altitude p = gp_altitude q"
  shows "check_altitude_separation p [q] a = Some (a - 15) \<and> check_altitude_separation q [p] a = Some (a - 15)"
  using assms distance_bounds [of p q]
  by (simp add: min_separation_def emergency_alt_offset_def)

lemma neighbors_within:
  "nb \<in> set (get_neighbors my_id pos vel pl) \<Longrightarrow> dget pos my_id = Some p
     \<Longrightarrow> distance_to p (on_position nb) \<le> op_neighbor_dist pl"
  by (auto simp: get_neighbors_def)

end
