(* ===== verification/MissionProfile.thy ===== *)
theory MissionProfile
  imports BrainProtocol
begin

text \<open>
  The mission profiles, \<open>olympus/brain/olympus_brain/mission_profile.py\<close>: what each vertical detects,
  which task answers a detection, how a task is executed and what it takes from the payload. The
  advisor's prompts are left out. The value of the environment variable \<open>OLYMPUS_INSTANCE\<close> is an
  argument of \<open>load_profile\<close>.
\<close>

record payload_config =
  pc_label :: string
  pc_unit :: string
  pc_capacity :: real
  pc_rate :: real

record task_execution_params =
  te_duration :: real
  te_consumes_payload :: bool
  te_payload_fraction :: real
  te_log_template :: string
  te_requires_payload :: bool

record mission_profile =
  mp_id :: string
  mp_name :: string
  mp_domain :: string
  mp_detection_types :: "string list"
  mp_task_types :: "string list"
  mp_detection_to_task :: "(string, string) dict"
  mp_payload :: payload_config
  mp_task_execution :: "(string, task_execution_params) dict"

text \<open>The dictionary \<open>{v: k for k, v in d.items()}\<close>: the last key of a value stays.\<close>

definition task_to_detection :: "mission_profile \<Rightarrow> (string, string) dict" where
  "task_to_detection p = foldl (\<lambda>d (k, v). dset v k d) [] (mp_detection_to_task p)"

definition exec_params :: "real \<Rightarrow> bool \<Rightarrow> real \<Rightarrow> string \<Rightarrow> bool \<Rightarrow> task_execution_params" where
  "exec_params duration consumes fraction template requires =
     \<lparr>te_duration = duration, te_consumes_payload = consumes, te_payload_fraction = fraction,
      te_log_template = template, te_requires_payload = requires\<rparr>"

definition ceres :: mission_profile where
  "ceres =
     \<lparr>mp_id = ''ceres'', mp_name = ''Precision Agriculture'', mp_domain = ''agriculture'',
      mp_detection_types = [''weed'', ''pest'', ''disease'', ''nutrient_deficiency'', ''irrigation_leak'',
        ''crop_stress''],
      mp_task_types = [''spray'', ''fertilize'', ''inspect'', ''seed'', ''sample''],
      mp_detection_to_task =
        [(''weed'', ''spray''), (''pest'', ''spray''), (''disease'', ''spray''),
         (''nutrient_deficiency'', ''fertilize''), (''irrigation_leak'', ''inspect''),
         (''crop_stress'', ''inspect'')],
      mp_payload = \<lparr>pc_label = ''Tank Level'', pc_unit = ''L'', pc_capacity = 10, pc_rate = 2\<rparr>,
      mp_task_execution =
        [(''spray'', exec_params 5 True 1 ''Sprayed {cost:.2f}{unit} of herbicide'' True),
         (''fertilize'', exec_params 5 True 1 ''Applied {cost:.2f}{unit} of fertilizer'' True),
         (''seed'', exec_params 8 True 0.5 ''Seeded {cost:.2f}{unit} in target area'' True),
         (''inspect'', exec_params 10 False 0 ''Hover inspection complete - imagery captured'' False),
         (''sample'', exec_params 12 True 0.1 ''Soil sample collected ({cost:.2f}{unit})'' True)]\<rparr>"

definition athena :: mission_profile where
  "athena =
     \<lparr>mp_id = ''athena'', mp_name = ''Tactical Reconnaissance'', mp_domain = ''defense'',
      mp_detection_types = [''hostile_activity'', ''vehicle_detected'', ''person_detected'', ''ied_suspected'',
        ''structural_change'', ''thermal_anomaly''],
      mp_task_types = [''investigate'', ''mark'', ''photograph'', ''relay''],
      mp_detection_to_task =
        [(''hostile_activity'', ''investigate''), (''vehicle_detected'', ''photograph''),
         (''person_detected'', ''photograph''), (''ied_suspected'', ''mark''),
         (''structural_change'', ''photograph''), (''thermal_anomaly'', ''investigate'')],
      mp_payload = \<lparr>pc_label = ''Payload Bay'', pc_unit = ''%'', pc_capacity = 100, pc_rate = 5\<rparr>,
      mp_task_execution =
        [(''investigate'', exec_params 15 False 0 ''Close flyby complete - area under observation'' False),
         (''mark'', exec_params 5 True 0.2 ''IR marker deployed ({cost:.1f}{unit} payload used)'' True),
         (''photograph'', exec_params 5 False 0 ''High-res imagery captured - {count} frames'' False),
         (''relay'', exec_params 30 False 0 ''Comms relay orbit complete - link maintained'' False)]\<rparr>"

definition vulcan :: mission_profile where
  "vulcan =
     \<lparr>mp_id = ''vulcan'', mp_name = ''Industrial Inspection'', mp_domain = ''industrial'',
      mp_detection_types = [''structural_crack'', ''corrosion'', ''thermal_anomaly'', ''leak_detected'',
        ''vegetation_encroachment'', ''surface_deformation''],
      mp_task_types = [''photograph'', ''thermal_scan'', ''measure'', ''sample''],
      mp_detection_to_task =
        [(''structural_crack'', ''photograph''), (''corrosion'', ''photograph''),
         (''thermal_anomaly'', ''thermal_scan''), (''leak_detected'', ''sample''),
         (''vegetation_encroachment'', ''photograph''), (''surface_deformation'', ''measure'')],
      mp_payload = \<lparr>pc_label = ''Sensor Bay'', pc_unit = ''%'', pc_capacity = 100, pc_rate = 1\<rparr>,
      mp_task_execution =
        [(''photograph'', exec_params 10 False 0 ''Close-range inspection photos captured'' False),
         (''thermal_scan'',
          exec_params 12 True 0.5 ''FLIR thermal sweep complete ({cost:.1f}{unit} sensor capacity)'' False),
         (''measure'', exec_params 8 False 0 ''LiDAR/photogrammetry measurement recorded'' False),
         (''sample'', exec_params 15 True 1 ''Environmental sample collected ({cost:.2f}{unit})'' True)]\<rparr>"

definition hermes :: mission_profile where
  "hermes =
     \<lparr>mp_id = ''hermes'', mp_name = ''Search and Rescue'', mp_domain = ''sar'',
      mp_detection_types = [''person_detected'', ''thermal_signature'', ''debris_field'', ''vehicle_wreckage'',
        ''signal_detected''],
      mp_task_types = [''investigate'', ''drop_supplies'', ''mark_location'', ''relay_comms''],
      mp_detection_to_task =
        [(''person_detected'', ''drop_supplies''), (''thermal_signature'', ''investigate''),
         (''debris_field'', ''mark_location''), (''vehicle_wreckage'', ''investigate''),
         (''signal_detected'', ''investigate'')],
      mp_payload = \<lparr>pc_label = ''Supply Payload'', pc_unit = ''kg'', pc_capacity = 5, pc_rate = 5\<rparr>,
      mp_task_execution =
        [(''investigate'', exec_params 15 False 0 ''Close approach scan complete - thermal/visual sweep done'' False),
         (''drop_supplies'', exec_params 8 True 1 ''Supply drop deployed ({cost:.2f}{unit})'' True),
         (''mark_location'', exec_params 5 True 0.1 ''Location marker deployed ({cost:.2f}{unit})'' True),
         (''relay_comms'', exec_params 30 False 0 ''Comms relay orbit complete - signal relay maintained'' False)]\<rparr>"

definition profiles :: "(string, mission_profile) dict" where
  "profiles = [(''ceres'', ceres), (''athena'', athena), (''vulcan'', vulcan), (''hermes'', hermes)]"

definition load_profile :: "string option \<Rightarrow> string option \<Rightarrow> mission_profile" where
  "load_profile env profile_id =
     (let pid = (case profile_id of
                   Some p \<Rightarrow> if p = '''' then (case env of None \<Rightarrow> ''athena'' | Some e \<Rightarrow> e) else p
                 | None \<Rightarrow> (case env of None \<Rightarrow> ''athena'' | Some e \<Rightarrow> e))
      in case dget profiles pid of None \<Rightarrow> athena | Some p \<Rightarrow> p)"

text \<open>The members of an enumeration by their value, \<open>DetectionType(s)\<close> and \<open>TaskType(s)\<close>.\<close>

definition all_detection_types :: "detection_type list" where
  "all_detection_types =
     [WEED, PEST, DISEASE, NUTRIENT_DEFICIENCY, IRRIGATION_LEAK, CROP_STRESS, OBSTACLE,
      HOSTILE_ACTIVITY, VEHICLE_DETECTED, PERSON_DETECTED, IED_SUSPECTED, STRUCTURAL_CHANGE,
      STRUCTURAL_CRACK, CORROSION, THERMAL_ANOMALY, LEAK_DETECTED, VEGETATION_ENCROACHMENT,
      SURFACE_DEFORMATION, THERMAL_SIGNATURE, DEBRIS_FIELD, VEHICLE_WRECKAGE, SIGNAL_DETECTED]"

definition detection_type_of :: "string \<Rightarrow> detection_type result" where
  "detection_type_of s =
     (case find (\<lambda>d. detection_type_value d = s) all_detection_types of None \<Rightarrow> Inl ValueError | Some d \<Rightarrow> Inr d)"

definition all_task_types :: "task_type list" where
  "all_task_types =
     [SPRAY, SEED, FERTILIZE, INSPECT, SAMPLE, INVESTIGATE, MARK, PHOTOGRAPH, RELAY, THERMAL_SCAN,
      MEASURE, DROP_SUPPLIES, MARK_LOCATION, RELAY_COMMS]"

definition task_type_of :: "string \<Rightarrow> task_type result" where
  "task_type_of s =
     (case find (\<lambda>t. task_type_value t = s) all_task_types of None \<Rightarrow> Inl ValueError | Some t \<Rightarrow> Inr t)"

lemma detection_type_of_value [simp]: "detection_type_of (detection_type_value d) = Inr d"
  by (cases d) (simp_all add: detection_type_of_def all_detection_types_def)

lemma task_type_of_value [simp]: "task_type_of (task_type_value t) = Inr t"
  by (cases t) (simp_all add: task_type_of_def all_task_types_def)

lemma task_type_value_inj: "task_type_value t = task_type_value u \<longleftrightarrow> t = u"
  by (metis task_type_of_value sum.inject(2))

text \<open>Every profile is closed: its detections and tasks are members of the enumerations, a detection
  it names is answered by one of its tasks, and each of its tasks has execution parameters.\<close>

definition profile_ok :: "mission_profile \<Rightarrow> bool" where
  "profile_ok p \<longleftrightarrow>
     dkeys (mp_detection_to_task p) = mp_detection_types p
     \<and> (\<forall>s \<in> set (mp_detection_types p). \<not> isl (detection_type_of s))
     \<and> (\<forall>s \<in> set (mp_task_types p). \<not> isl (task_type_of s))
     \<and> set (dvals (mp_detection_to_task p)) \<subseteq> set (mp_task_types p)
     \<and> set (dkeys (mp_task_execution p)) = set (mp_task_types p)"

lemma profiles_ok: "p \<in> set (dvals profiles) \<Longrightarrow> profile_ok p"
  by (auto simp: profiles_def ceres_def athena_def vulcan_def hermes_def profile_ok_def detection_type_of_def
      all_detection_types_def task_type_of_def all_task_types_def)


text \<open>What the reverse mapping of the defense vertical forgets: of the detections that lead to the
  same task only the last one is left.\<close>

lemma athena_reverse:
  "task_to_detection athena
   = [(''investigate'', ''thermal_anomaly''), (''photograph'', ''structural_change''), (''mark'', ''ied_suspected'')]"
  by (simp add: task_to_detection_def athena_def)

end
