(* ===== verification/Athena.thy ===== *)
theory Athena
  imports MissionProfile
begin

text \<open>
  The defense vertical, \<open>olympus/brain/olympus_brain/athena.py\<close>: the threat level of a detection, the
  rules of engagement a task is checked against, and the tactical symbols of the map. Of the reason a
  task is refused for, the rule is kept and the text of the log message left out.
\<close>

section \<open>Threats\<close>

datatype threat_level = GREEN | AMBER | RED

fun threat_level_value :: "threat_level \<Rightarrow> string" where
  "threat_level_value GREEN = ''green''"
| "threat_level_value AMBER = ''amber''"
| "threat_level_value RED = ''red''"

record threat_assessment =
  ta_level :: threat_level
  ta_detection_type :: string
  ta_confidence :: real
  ta_description :: string
  ta_recommended_action :: string
  ta_min_approach_distance_m :: real
  ta_requires_buddy :: bool

definition threat_classification :: "(string, threat_level) dict" where
  "threat_classification =
     [(''structural_change'', GREEN), (''thermal_anomaly'', GREEN), (''vehicle_detected'', AMBER),
      (''person_detected'', AMBER), (''hostile_activity'', RED), (''ied_suspected'', RED)]"

definition threat_recommendations :: "(string, string) dict" where
  "threat_recommendations =
     [(''structural_change'', ''Log and photograph. Schedule follow-up if in sensitive area.''),
      (''thermal_anomaly'', ''Investigate with IR sensor. May indicate concealed personnel or equipment.''),
      (''vehicle_detected'', ''Photograph and classify. Track movement vector if mobile.''),
      (''person_detected'', ''Photograph and track. Determine intent from behavior patterns.''),
      (''hostile_activity'', ''Mark position. Do NOT approach. Alert command immediately.''),
      (''ied_suspected'', ''Mark position. Maintain 50m standoff. Alert EOD team.'')]"

definition classify :: "detection \<Rightarrow> threat_assessment" where
  "classify d =
     (let det_type = detection_type_value (de_detection_type d);
          level = (case dget threat_classification det_type of None \<Rightarrow> AMBER | Some l \<Rightarrow> l)
      in \<lparr>ta_level = level, ta_detection_type = det_type, ta_confidence = de_confidence d,
          ta_description = map upper_char (threat_level_value level) @ '' contact: '' @ det_type
             @ '' (conf='' @ str_fixed2 (de_confidence d) @ '')'',
          ta_recommended_action = (case dget threat_recommendations det_type of
             None \<Rightarrow> ''Investigate and report.'' | Some r \<Rightarrow> r),
          ta_min_approach_distance_m =
            (if det_type = ''ied_suspected'' then 50 else if level = RED then 30 else 0),
          ta_requires_buddy = (det_type \<noteq> ''ied_suspected'' \<and> level = AMBER)\<rparr>)"

section \<open>Rules of engagement\<close>

record roe_config =
  rc_ied_standoff_m :: real
  rc_investigate_min_drones :: int
  rc_exclusion_zones :: "(real \<times> real \<times> real) list"
  rc_max_autonomous_level :: threat_level
  rc_red_requires_approval :: bool

definition roe_config0 :: roe_config where
  "roe_config0 =
     \<lparr>rc_ied_standoff_m = 50, rc_investigate_min_drones = 2, rc_exclusion_zones = [],
      rc_max_autonomous_level = AMBER, rc_red_requires_approval = True\<rparr>"

datatype roe_reason = IED_MARK_ONLY | BUDDY_MISSING | RED_HOLD | EXCLUDED_TARGET | ROE_PASSED

fun in_exclusion_zone :: "(real \<times> real \<times> real) list \<Rightarrow> real \<Rightarrow> real \<Rightarrow> bool" where
  "in_exclusion_zone [] lat lon = False"
| "in_exclusion_zone ((zone_lat, zone_lon, radius_m) # zones) lat lon =
     (let dlat = radians (lat - zone_lat); dlon = radians (lon - zone_lon);
          a = (sin (dlat / 2))\<^sup>2 + cos (radians zone_lat) * cos (radians lat) * (sin (dlon / 2))\<^sup>2;
          dist_m = 6371000 * 2 * arcsin (sqrt a)
      in if dist_m \<le> radius_m then True else in_exclusion_zone zones lat lon)"

definition validate_task ::
  "roe_config \<Rightarrow> task \<Rightarrow> threat_assessment \<Rightarrow> int \<Rightarrow> geo_position option \<Rightarrow> bool \<times> roe_reason" where
  "validate_task cfg t threat available_drones executor_position =
     (if ta_detection_type threat = ''ied_suspected'' \<and> tk_task_type t \<notin> {MARK, PHOTOGRAPH}
      then (False, IED_MARK_ONLY)
      else if tk_task_type t = INVESTIGATE \<and> available_drones < rc_investigate_min_drones cfg
      then (False, BUDDY_MISSING)
      else if ta_level threat = RED \<and> rc_red_requires_approval cfg
      then (False, RED_HOLD)
      else if executor_position \<noteq> None
              \<and> in_exclusion_zone (rc_exclusion_zones cfg) (gp_latitude (tk_target_position t))
                  (gp_longitude (tk_target_position t))
      then (False, EXCLUDED_TARGET)
      else (True, ROE_PASSED))"

section \<open>Tactical symbols\<close>

record symbol_style =
  ss_sidc :: string
  ss_label :: string
  ss_color :: string

definition symbol_style_of :: "string \<Rightarrow> string \<Rightarrow> string \<Rightarrow> symbol_style" where
  "symbol_style_of sidc label color = \<lparr>ss_sidc = sidc, ss_label = label, ss_color = color\<rparr>"

definition symbol_map :: "(string, symbol_style) dict" where
  "symbol_map =
     [(''hostile_activity'', symbol_style_of ''SHG-UCI----'' ''HOSTILE'' ''#FF0000''),
      (''vehicle_detected'', symbol_style_of ''SHG-EVM----'' ''VEH'' ''#FF8800''),
      (''person_detected'', symbol_style_of ''SHG-UCI----'' ''PERSON'' ''#FF8800''),
      (''ied_suspected'', symbol_style_of ''SHG-EXI----'' ''IED'' ''#FF0000''),
      (''structural_change'', symbol_style_of ''SNG-IB-----'' ''STRUCT'' ''#00CC00''),
      (''thermal_anomaly'', symbol_style_of ''SNG-ES-----'' ''THERMAL'' ''#00CC00'')]"

record tactical_symbol =
  ts_id :: string
  ts_style :: symbol_style
  ts_position :: "real \<times> real \<times> real"
  ts_confidence :: real
  ts_severity :: int
  ts_timestamp :: real

definition get_symbol :: "detection \<Rightarrow> tactical_symbol" where
  "get_symbol d =
     (let det_type = detection_type_value (de_detection_type d);
          sym = (case dget symbol_map det_type of
                   Some s \<Rightarrow> s
                 | None \<Rightarrow> symbol_style_of ''SUG-------'' (take 6 (map upper_char det_type)) ''#AAAAAA'')
      in \<lparr>ts_id = de_id d, ts_style = sym,
          ts_position = (gp_latitude (de_position d), gp_longitude (de_position d), gp_altitude (de_position d)),
          ts_confidence = de_confidence d, ts_severity = de_severity d, ts_timestamp = de_timestamp d\<rparr>)"

fun get_threat_color :: "threat_level \<Rightarrow> string" where
  "get_threat_color GREEN = ''#00CC00''"
| "get_threat_color AMBER = ''#FF8800''"
| "get_threat_color RED = ''#FF0000''"

section \<open>What the rules let through\<close>

lemma exclusion_zone_iff:
  "in_exclusion_zone zones lat lon \<longleftrightarrow>
     (\<exists>(zlat, zlon, r) \<in> set zones.
        distance_to (geo_position0\<lparr>gp_latitude := zlat, gp_longitude := zlon\<rparr>)
          (geo_position0\<lparr>gp_latitude := lat, gp_longitude := lon\<rparr>) \<le> r)"
  by (induction zones lat lon rule: in_exclusion_zone.induct)
     (auto simp: Let_def distance_to_def haversine_def geo_position0_def)

text \<open>A task is refused by the rules of engagement exactly when it answers a suspected IED with
  anything but marking or photographing, or is an investigation without its buddies, or answers a red
  threat while red threats need approval (so the marking of a suspected IED, which the first rule lets
  through, is held by the third), or has its target in an exclusion zone by the distance of the brain's
  own positions while the executor's position is known.\<close>

theorem roe_refuses_iff:
  "fst (validate_task cfg t (classify d) available pos) = False \<longleftrightarrow>
     (de_detection_type d = IED_SUSPECTED \<and> tk_task_type t \<notin> {MARK, PHOTOGRAPH})
     \<or> (tk_task_type t = INVESTIGATE \<and> available < rc_investigate_min_drones cfg)
     \<or> (de_detection_type d \<in> {HOSTILE_ACTIVITY, IED_SUSPECTED} \<and> rc_red_requires_approval cfg)
     \<or> (pos \<noteq> None \<and> (\<exists>(zlat, zlon, r) \<in> set (rc_exclusion_zones cfg).
          distance_to (geo_position0\<lparr>gp_latitude := zlat, gp_longitude := zlon\<rparr>)
            (geo_position0\<lparr>gp_latitude := gp_latitude (tk_target_position t),
               gp_longitude := gp_longitude (tk_target_position t)\<rparr>) \<le> r))"
proof -
  have "ta_detection_type (classify d) = ''ied_suspected'' \<longleftrightarrow> de_detection_type d = IED_SUSPECTED"
    by (cases "de_detection_type d") (simp_all add: classify_def Let_def)
  moreover have "ta_level (classify d) = RED \<longleftrightarrow> de_detection_type d \<in> {HOSTILE_ACTIVITY, IED_SUSPECTED}"
    by (cases "de_detection_type d") (simp_all add: classify_def Let_def threat_classification_def)
  ultimately show ?thesis
    unfolding validate_task_def exclusion_zone_iff by (simp only: split: if_split) (simp only: fst_conv, blast)
qed

lemma classify_bounds:
  "ta_level (classify d) = RED \<longleftrightarrow> 0 < ta_min_approach_distance_m (classify d)"
  by (cases "de_detection_type d") (simp_all add: classify_def Let_def threat_classification_def)

end
