(* ===== verification/Cbba.thy ===== *)
theory Cbba
  imports Athena "HOL-Library.List_Lexorder" "HOL-Library.Char_ord"
begin

text \<open>
  The task allocator, \<open>olympus/brain/olympus_brain/cbba.py\<close>: the score an executor gives a task, the
  phase that fills its own bundle, the consensus phase over the bundles of all executors, and the
  rounds that alternate them. The clock is an argument: one reading per round. The tables keyed by the
  ids of the available tasks are functions, since no other key is ever looked up. The detection the
  score builds for the rules of engagement is never kept, so its id is left empty.
\<close>

section \<open>Snapshots and the allocator\<close>

record executor_snapshot =
  ex_drone_id :: string
  ex_position :: geo_position
  ex_battery_percent :: int
  ex_payload_level :: real
  ex_payload_capacity :: real
  ex_capable_task_types :: "string list"
  ex_timestamp :: real

definition snapshot_from_telemetry ::
  "real \<Rightarrow> drone_telemetry \<Rightarrow> real \<Rightarrow> real \<Rightarrow> string list \<Rightarrow> executor_snapshot" where
  "snapshot_from_telemetry now telemetry payload_level payload_capacity capable =
     \<lparr>ex_drone_id = dt_drone_id telemetry, ex_position = dt_position telemetry,
      ex_battery_percent = bs_percentage (dt_battery telemetry), ex_payload_level = payload_level,
      ex_payload_capacity = payload_capacity, ex_capable_task_types = capable, ex_timestamp = now\<rparr>"

record comms_awareness =
  ca_mode :: string
  ca_channel_load :: real

definition bandwidth_factor :: "comms_awareness \<Rightarrow> real" where
  "bandwidth_factor c =
     (case dget [(''full_comms'', 1), (''degraded'', 0.7), (''minimal'', 0.3), (''denied'', 0)] (ca_mode c) of
        None \<Rightarrow> 1 | Some f \<Rightarrow> f)"

record cbba_allocator =
  cb_drone_id :: string
  cb_max_bundle_size :: int
  cb_profile :: mission_profile
  cb_comms :: comms_awareness
  cb_roe_enabled :: bool
  cb_available_drone_count :: int

definition cbba_init :: "string option \<Rightarrow> string \<Rightarrow> int \<Rightarrow> cbba_allocator" where
  "cbba_init env drone_id max_bundle_size =
     (let profile = load_profile env None
      in \<lparr>cb_drone_id = drone_id, cb_max_bundle_size = max_bundle_size, cb_profile = profile,
          cb_comms = \<lparr>ca_mode = ''full_comms'', ca_channel_load = 0\<rparr>,
          cb_roe_enabled = (mp_id profile = ''athena''), cb_available_drone_count = 1\<rparr>)"

definition set_comms_state :: "string \<Rightarrow> real \<Rightarrow> cbba_allocator \<Rightarrow> cbba_allocator" where
  "set_comms_state mode channel_load al =
     al\<lparr>cb_comms := \<lparr>ca_mode = mode, ca_channel_load = channel_load\<rparr>\<rparr>"

definition set_available_drone_count :: "int \<Rightarrow> cbba_allocator \<Rightarrow> cbba_allocator" where
  "set_available_drone_count count al = al\<lparr>cb_available_drone_count := max 1 count\<rparr>"

section \<open>The score of a task\<close>

definition high_bandwidth_tasks :: "string list" where
  "high_bandwidth_tasks = [''spray'', ''seed'', ''fertilize'', ''drop_supplies'']"

text \<open>An unknown detection type, or a detection that does not validate, skips the check.\<close>

definition roe_blocks :: "cbba_allocator \<Rightarrow> real \<Rightarrow> task \<Rightarrow> executor_snapshot \<Rightarrow> bool" where
  "roe_blocks al now t st =
     (cb_roe_enabled al \<and> tk_detection_id t \<noteq> ''''
      \<and> (case dget (task_to_detection (cb_profile al)) (task_type_value (tk_task_type t)) of
           None \<Rightarrow> False
         | Some det_type_str \<Rightarrow>
             det_type_str \<noteq> ''''
             \<and> (case rbind (detection_type_of det_type_str)
                       (\<lambda>dt. detection_create '''' now dt (tk_target_position t) 0.8 (map of_char ''cbba'')
                               (tk_priority t)) of
                  Inl e \<Rightarrow> False
                | Inr det \<Rightarrow> \<not> fst (validate_task roe_config0 t (classify det)
                                     (cb_available_drone_count al) (Some (ex_position st))))))"

definition payload_ratio :: "executor_snapshot \<Rightarrow> real" where
  "payload_ratio st =
     (if 0 < ex_payload_capacity st then ex_payload_level st / ex_payload_capacity st else 1)"

definition raw_score :: "task \<Rightarrow> executor_snapshot \<Rightarrow> real" where
  "raw_score t st =
     (let distance = distance_to (ex_position st) (tk_target_position t);
          distance_score = max 0 (1 - distance / 5000);
          battery_score = of_int (ex_battery_percent st) / 100;
          urgency_score = of_int (tk_priority t) / 10
      in 0.35 * distance_score + 0.15 * battery_score + 0.15 * payload_ratio st
         + 0.20 * urgency_score + 0.15 * 1)"

definition score_task :: "cbba_allocator \<Rightarrow> real \<Rightarrow> task \<Rightarrow> executor_snapshot \<Rightarrow> nat \<Rightarrow> real" where
  "score_task al now t st bundle_position =
     (let ty = task_type_value (tk_task_type t)
      in if ty \<notin> set (ex_capable_task_types st) then 0
         else if roe_blocks al now t st then 0
         else if (case dget (mp_task_execution (cb_profile al)) ty of None \<Rightarrow> False
                  | Some p \<Rightarrow> te_requires_payload p \<and> payload_ratio st < 0.1) then 0
         else let raw = raw_score t st
                * (if ty \<in> set high_bandwidth_tasks then bandwidth_factor (cb_comms al) else 1);
                load = ca_channel_load (cb_comms al);
                raw' = (if 0.7 < load then raw * max 0.3 (1 - (load - 0.7) / 0.3) else raw);
                diminished = raw' * 0.7 ^ bundle_position
              in case tk_deadline t of
                   None \<Rightarrow> py_round_to 6 diminished
                 | Some deadline \<Rightarrow>
                     let remaining = deadline - now
                     in if remaining < 0 then 0
                        else py_round_to 6 (if remaining < 120 then diminished * 1.5 else diminished))"

section \<open>The phases\<close>

record cbba_state =
  cs_bundles :: "string \<Rightarrow> string list"
  cs_winning_bids :: "string \<Rightarrow> real"
  cs_winning_agents :: "string \<Rightarrow> string option"
  cs_bid_timestamps :: "string \<Rightarrow> real"

definition cbba_state0 :: cbba_state where
  "cbba_state0 =
     \<lparr>cs_bundles = (\<lambda>_. []), cs_winning_bids = (\<lambda>_. - 1), cs_winning_agents = (\<lambda>_. None),
      cs_bid_timestamps = (\<lambda>_. 0)\<rparr>"

text \<open>The inner loop of the bundle phase: the best task the drone does not hold yet and can win.\<close>

fun best_bid ::
  "(string \<Rightarrow> real) \<Rightarrow> string list \<Rightarrow> (string \<Rightarrow> real) \<Rightarrow> string list \<Rightarrow> string option \<times> real
     \<Rightarrow> string option \<times> real" where
  "best_bid sc bundle win [] best = best"
| "best_bid sc bundle win (tid # tids) best =
     best_bid sc bundle win tids
       (if tid \<in> set bundle then best
        else if win tid < sc tid \<and> snd best < sc tid then (Some tid, sc tid) else best)"

definition claim_task :: "string \<Rightarrow> real \<Rightarrow> string \<Rightarrow> real \<Rightarrow> cbba_state \<Rightarrow> cbba_state" where
  "claim_task me now tid score s =
     s\<lparr>cs_bundles := (cs_bundles s)(me := cs_bundles s me @ [tid]),
       cs_winning_bids := (cs_winning_bids s)(tid := score),
       cs_winning_agents := (cs_winning_agents s)(tid := Some me),
       cs_bid_timestamps := (cs_bid_timestamps s)(tid := now)\<rparr>"

definition next_bid ::
  "(string \<Rightarrow> nat \<Rightarrow> real) \<Rightarrow> string \<Rightarrow> string list \<Rightarrow> cbba_state \<Rightarrow> string option \<times> real" where
  "next_bid sc me tids s =
     (let b = cs_bundles s me; position = length b
      in best_bid (\<lambda>tid. sc tid position) b (cs_winning_bids s) tids (None, - 1))"

text \<open>\<open>sc tid pos\<close> is the score the drone gives task \<open>tid\<close> at position \<open>pos\<close> of its bundle.\<close>

function bundle_phase ::
  "(string \<Rightarrow> nat \<Rightarrow> real) \<Rightarrow> string \<Rightarrow> int \<Rightarrow> real \<Rightarrow> string list \<Rightarrow> cbba_state \<Rightarrow> cbba_state" where
  "bundle_phase sc me max_size now tids s =
     (if int (length (cs_bundles s me)) < max_size
      then (case next_bid sc me tids s of
              (None, _) \<Rightarrow> s
            | (Some tid, score) \<Rightarrow>
                if score \<le> 0 then s
                else bundle_phase sc me max_size now tids (claim_task me now tid score s))
      else s)"
  by pat_completeness auto

termination
  by (relation "measure (\<lambda>(sc, me, max_size, now, tids, s). nat (max_size - int (length (cs_bundles s me))))")
     (auto simp: claim_task_def)

declare bundle_phase.simps [simp del]

type_synonym claimant = "string \<times> real \<times> real"

definition claimants_of ::
  "(string \<Rightarrow> string \<Rightarrow> nat \<Rightarrow> real) \<Rightarrow> (string \<Rightarrow> real) \<Rightarrow> string list \<Rightarrow> (string \<Rightarrow> string list)
     \<Rightarrow> string \<Rightarrow> claimant list" where
  "claimants_of scs stamp drone_ids bundles tid =
     map (\<lambda>did. (did, scs did tid (length (takeWhile (\<lambda>x. x \<noteq> tid) (bundles did))), stamp did))
       (filter (\<lambda>did. tid \<in> set (bundles did)) drone_ids)"

text \<open>\<open>max(claimants, key=lambda c: (c[1], c[2]))\<close>: the first of the greatest.\<close>

fun max_claimant :: "claimant \<Rightarrow> claimant list \<Rightarrow> claimant" where
  "max_claimant best [] = best"
| "max_claimant best (c # cs) =
     max_claimant
       (if fst (snd best) < fst (snd c) \<or> fst (snd best) = fst (snd c) \<and> snd (snd best) < snd (snd c)
        then c else best) cs"

fun drop_losers :: "string \<Rightarrow> claimant \<Rightarrow> claimant list \<Rightarrow> cbba_state \<times> bool \<Rightarrow> cbba_state \<times> bool" where
  "drop_losers tid winner [] (s, changed) = (s, changed)"
| "drop_losers tid winner ((did, score, ts) # cs) (s, changed) =
     (let (winner_id, winner_score, winner_ts) = winner
      in drop_losers tid winner cs
           (if did \<noteq> winner_id \<and> (score < winner_score \<or> score = winner_score \<and> ts < winner_ts)
            then (s\<lparr>cs_bundles := (cs_bundles s)(did := remove1 tid (cs_bundles s did))\<rparr>, True)
            else (s, changed)))"

fun consensus_phase ::
  "(string \<Rightarrow> string \<Rightarrow> nat \<Rightarrow> real) \<Rightarrow> (string \<Rightarrow> real) \<Rightarrow> string list \<Rightarrow> real \<Rightarrow> string list
     \<Rightarrow> cbba_state \<times> bool \<Rightarrow> cbba_state \<times> bool" where
  "consensus_phase scs stamp drone_ids now [] (s, changed) = (s, changed)"
| "consensus_phase scs stamp drone_ids now (tid # tids) (s, changed) =
     consensus_phase scs stamp drone_ids now tids
       (case claimants_of scs stamp drone_ids (cs_bundles s) tid of
          c # c' # cs \<Rightarrow>
            (let w = max_claimant c (c' # cs);
                 (s', changed') = drop_losers tid w (c # c' # cs) (s, changed)
             in if cs_winning_agents s' tid \<noteq> Some (fst w)
                then (s'\<lparr>cs_winning_agents := (cs_winning_agents s')(tid := Some (fst w)),
                         cs_winning_bids := (cs_winning_bids s')(tid := fst (snd w)),
                         cs_bid_timestamps := (cs_bid_timestamps s')(tid := now)\<rparr>, True)
                else (s', changed'))
        | _ \<Rightarrow> (s, changed))"

section \<open>The allocation\<close>

definition max_rounds :: nat where
  "max_rounds = 50"

definition convergence_rounds :: nat where
  "convergence_rounds = 2"

text \<open>The rounds left, those since the last change, and the number of the round.\<close>

fun allocation_rounds ::
  "(real \<Rightarrow> string \<Rightarrow> string \<Rightarrow> nat \<Rightarrow> real) \<Rightarrow> (real \<Rightarrow> string \<Rightarrow> nat \<Rightarrow> real) \<Rightarrow> (string \<Rightarrow> real) \<Rightarrow> string \<Rightarrow> int
     \<Rightarrow> string list \<Rightarrow> string list \<Rightarrow> (nat \<Rightarrow> real) \<Rightarrow> nat \<Rightarrow> nat \<Rightarrow> nat \<Rightarrow> cbba_state \<Rightarrow> cbba_state" where
  "allocation_rounds scs sc stamp me max_size drone_ids tids clock 0 quiet r s = s"
| "allocation_rounds scs sc stamp me max_size drone_ids tids clock (Suc n) quiet r s =
     (let prev_bundle = cs_bundles s me;
          s1 = bundle_phase (sc (clock r)) me max_size (clock r) tids s;
          (s2, changed) = consensus_phase (scs (clock r)) stamp drone_ids (clock r) tids (s1, False);
          quiet' = (if \<not> changed \<and> cs_bundles s2 me = prev_bundle then quiet + 1 else 0)
      in if convergence_rounds \<le> quiet' then s2
         else allocation_rounds scs sc stamp me max_size drone_ids tids clock n quiet' (Suc r) s2)"

definition task_map :: "task list \<Rightarrow> (string, task) dict" where
  "task_map tasks = foldl (\<lambda>d t. dset (tk_id t) t d) [] tasks"

text \<open>A key the table lacks would raise; the phases only look up ids of available tasks.\<close>

definition score_id ::
  "cbba_allocator \<Rightarrow> (string, task) dict \<Rightarrow> executor_snapshot option \<Rightarrow> real \<Rightarrow> string \<Rightarrow> nat \<Rightarrow> real" where
  "score_id al tm st now tid pos =
     (case (dget tm tid, st) of (Some t, Some x) \<Rightarrow> score_task al now t x pos | _ \<Rightarrow> 0)"

definition run_allocation ::
  "cbba_allocator \<Rightarrow> (nat \<Rightarrow> real) \<Rightarrow> task list \<Rightarrow> (string, executor_snapshot) dict \<Rightarrow> executor_snapshot
     \<Rightarrow> task list" where
  "run_allocation al clock available_tasks executor_states my_state =
     (if available_tasks = [] \<or> dget executor_states (cb_drone_id al) = None then []
      else let tm = task_map available_tasks; tids = dkeys tm; drone_ids = sort (dkeys executor_states);
               s = allocation_rounds (\<lambda>now did. score_id al tm (dget executor_states did) now)
                     (score_id al tm (Some my_state))
                     (\<lambda>did. case dget executor_states did of None \<Rightarrow> 0 | Some x \<Rightarrow> ex_timestamp x)
                     (cb_drone_id al) (cb_max_bundle_size al) drone_ids tids clock max_rounds 0 0 cbba_state0
           in List.map_filter (dget tm) (cs_bundles s (cb_drone_id al)))"

section \<open>The rules of engagement in a score\<close>

text \<open>What the rules of engagement do to an allocation of the defense vertical. The detection a task
  answers is guessed from the task's type, so that marking a suspected IED, the one thing the rules
  allow there, is always blocked, while an investigation, whatever was detected (hostile activity
  included), only needs its two drones, and no other task is ever blocked.\<close>

theorem athena_roe_by_task_type:
  assumes "cb_roe_enabled al" and "cb_profile al = athena" and "tk_detection_id t \<noteq> ''''"
    and "1 \<le> tk_priority t" and "tk_priority t \<le> 10"
  shows "roe_blocks al now t st \<longleftrightarrow>
     tk_task_type t = MARK \<or> tk_task_type t = INVESTIGATE \<and> cb_available_drone_count al < 2"
proof -
  have d: "rbind (detection_type_of (detection_type_value dt))
      (\<lambda>dt. detection_create '''' now dt (tk_target_position t) 0.8 (map of_char ''cbba'') (tk_priority t))
    = Inr \<lparr>de_id = '''', de_detection_type = dt, de_position = tk_target_position t, de_confidence = 0.8,
           de_severity = tk_priority t, de_detected_by = map of_char ''cbba'', de_timestamp = now\<rparr>" for dt
    using assms(4,5) by (simp add: detection_create_def)
  have v: "(\<not> fst (validate_task roe_config0 t (classify \<lparr>de_id = '''', de_detection_type = dt,
        de_position = tk_target_position t, de_confidence = 0.8, de_severity = tk_priority t,
        de_detected_by = map of_char ''cbba'', de_timestamp = now\<rparr>) (cb_available_drone_count al)
        (Some (ex_position st)))) \<longleftrightarrow>
      dt = IED_SUSPECTED \<or> dt = HOSTILE_ACTIVITY \<or> tk_task_type t = INVESTIGATE \<and> cb_available_drone_count al < 2"
    for dt
    by (cases dt; cases "tk_task_type t")
       (simp_all add: validate_task_def classify_def Let_def threat_classification_def roe_config0_def)
  note d1 = d [of THERMAL_ANOMALY] d [of STRUCTURAL_CHANGE] d [of IED_SUSPECTED]
  show ?thesis
    unfolding roe_blocks_def assms(2) athena_reverse using assms(1,3) d1 v
    by (cases "tk_task_type t") simp_all
qed

definition sample_task :: "string \<Rightarrow> task_type \<Rightarrow> task" where
  "sample_task tid ty =
     \<lparr>tk_id = tid, tk_task_type = ty, tk_target_position = geo_position0, tk_priority = 5,
      tk_state = TASK_PENDING, tk_created_by = [], tk_assigned_to = None, tk_detection_id = ''d'',
      tk_created_at = 0, tk_deadline = None, tk_payload_required = None, tk_escalation_level = AUTO\<rparr>"

definition sample_executor :: executor_snapshot where
  "sample_executor =
     \<lparr>ex_drone_id = ''a'', ex_position = geo_position0, ex_battery_percent = 100, ex_payload_level = 100,
      ex_payload_capacity = 100, ex_capable_task_types = [''mark'', ''photograph''], ex_timestamp = 0\<rparr>"

lemma athena_roe_by_task_type_witness:
  "roe_blocks (cbba_init None ''a'' 3) 0 (sample_task ''t'' MARK) sample_executor"
proof -
  have p: "load_profile None None = athena" by (simp add: load_profile_def profiles_def)
  have "cb_roe_enabled (cbba_init None ''a'' 3)" "cb_profile (cbba_init None ''a'' 3) = athena"
    unfolding cbba_init_def p Let_def by (simp_all add: athena_def)
  from athena_roe_by_task_type [OF this, of "sample_task ''t'' MARK" 0 sample_executor]
  show ?thesis by (simp add: sample_task_def)
qed

section \<open>Greedy bundles\<close>

lemma best_bid_spec:
  "best_bid sc bundle win tids best = (r, x) \<Longrightarrow>
     snd best \<le> x
     \<and> ((r, x) = best \<or> (\<exists>t \<in> set tids - set bundle. r = Some t \<and> x = sc t \<and> win t < x \<and> snd best < x))
     \<and> (\<forall>u \<in> set tids - set bundle. win u < sc u \<longrightarrow> sc u \<le> x)"
proof (induction tids arbitrary: best)
  case (Cons tid tids)
  show ?case
  proof (cases "tid \<notin> set bundle \<and> win tid < sc tid \<and> snd best < sc tid")
    case True
    with Cons.prems have "best_bid sc bundle win tids (Some tid, sc tid) = (r, x)" by simp
    from Cons.IH [OF this] True show ?thesis by auto
  next
    case False
    with Cons.prems have "best_bid sc bundle win tids best = (r, x)" by (auto split: if_splits)
    from Cons.IH [OF this] False show ?thesis by auto
  qed
qed auto

text \<open>The greedy property of a bundle and of one that no task can extend.\<close>

definition greedy :: "(string \<Rightarrow> nat \<Rightarrow> real) \<Rightarrow> string list \<Rightarrow> string list \<Rightarrow> bool" where
  "greedy sc tids b \<longleftrightarrow>
     (\<forall>i < length b. 0 < sc (b ! i) i \<and> (\<forall>u \<in> set tids - set (take i b). sc u i \<le> sc (b ! i) i))"

definition complete :: "(string \<Rightarrow> nat \<Rightarrow> real) \<Rightarrow> int \<Rightarrow> string list \<Rightarrow> string list \<Rightarrow> bool" where
  "complete sc max_size tids b \<longleftrightarrow>
     (int (length b) < max_size \<longrightarrow> (\<forall>u \<in> set tids - set b. sc u (length b) \<le> 0))"

text \<open>Only the drone's own bundle is ever filled; a task outside it has no bid yet.\<close>

definition own_bundle :: "string \<Rightarrow> int \<Rightarrow> string list \<Rightarrow> cbba_state \<Rightarrow> bool" where
  "own_bundle me max_size tids s \<longleftrightarrow>
     (\<forall>d. d \<noteq> me \<longrightarrow> cs_bundles s d = [])
     \<and> distinct (cs_bundles s me) \<and> set (cs_bundles s me) \<subseteq> set tids
     \<and> int (length (cs_bundles s me)) \<le> max 0 max_size
     \<and> (\<forall>u. u \<notin> set (cs_bundles s me) \<longrightarrow> cs_winning_bids s u = - 1)
     \<and> (\<forall>u \<in> set (cs_bundles s me). cs_winning_agents s u = Some me \<and> 0 < cs_winning_bids s u)"

lemma own_bundle0: "own_bundle me max_size tids cbba_state0"
  by (simp add: own_bundle_def cbba_state0_def)

lemma claim_spec:
  assumes "own_bundle me m tids s" and "int (length (cs_bundles s me)) < m"
    and "next_bid sc me tids s = (Some tid, x)" and "0 < x"
  shows "own_bundle me m tids (claim_task me now tid x s)"
    and "cs_bundles (claim_task me now tid x s) me = cs_bundles s me @ [tid]"
    and "greedy sc tids (cs_bundles s me) \<Longrightarrow> greedy sc tids (cs_bundles s me @ [tid])"
proof -
  let ?b = "cs_bundles s me" and ?n = "length (cs_bundles s me)"
  note best = best_bid_spec [OF assms(3) [unfolded next_bid_def Let_def]]
  have t: "tid \<in> set tids" "tid \<notin> set ?b" "x = sc tid ?n" using best by auto
  have le: "sc u ?n \<le> x" if "u \<in> set tids - set ?b" for u
  proof (cases "- 1 < sc u ?n")
    case True
    then show ?thesis using best that assms(1) by (auto simp: own_bundle_def)
  qed (use best in simp)
  show "own_bundle me m tids (claim_task me now tid x s)"
    using assms(1,2,4) t(1,2) by (auto simp: own_bundle_def claim_task_def)
  show "cs_bundles (claim_task me now tid x s) me = ?b @ [tid]" by (simp add: claim_task_def)
  show "greedy sc tids (?b @ [tid])" if "greedy sc tids ?b"
    using that le t(3) assms(4) by (auto simp: greedy_def nth_append less_Suc_eq)
qed

lemma bundle_phase_idle:
  assumes "next_bid sc me tids s = (r, x)"
    and "\<not> (int (length (cs_bundles s me)) < m \<and> r \<noteq> None \<and> 0 < x)"
  shows "bundle_phase sc me m now tids s = s"
  using assms by (subst bundle_phase.simps) (auto simp: Let_def split: option.split)

lemma bundle_phase_claim:
  assumes "next_bid sc me tids s = (Some tid, x)"
    and "int (length (cs_bundles s me)) < m" and "0 < x"
  shows "bundle_phase sc me m now tids s = bundle_phase sc me m now tids (claim_task me now tid x s)"
  using assms by (subst bundle_phase.simps) (simp add: Let_def)

lemma bundle_phase_spec:
  "own_bundle me m tids s \<Longrightarrow>
     own_bundle me m tids (bundle_phase sc me m now tids s)
     \<and> (greedy sc tids (cs_bundles s me) \<longrightarrow> greedy sc tids (cs_bundles (bundle_phase sc me m now tids s) me))
     \<and> complete sc m tids (cs_bundles (bundle_phase sc me m now tids s) me)"
proof (induction sc me m now tids s rule: bundle_phase.induct)
  case (1 sc me m now tids s)
  let ?b = "cs_bundles s me"
  obtain r x where best: "next_bid sc me tids s = (r, x)"
    by fastforce
  show ?case
  proof (cases "int (length ?b) < m \<and> r \<noteq> None \<and> 0 < x")
    case True
    then obtain tid where r: "r = Some tid" by auto
    let ?s = "claim_task me now tid x s"
    have eq: "bundle_phase sc me m now tids s = bundle_phase sc me m now tids ?s"
      using bundle_phase_claim [OF best [unfolded r]] True by blast
    note claim = claim_spec [OF 1(2) _ best [unfolded r]]
    have "own_bundle me m tids ?s" using claim(1) True by blast
    moreover have "\<not> x \<le> 0" using True by simp
    ultimately show ?thesis
      using 1(1) [OF _ best [symmetric, unfolded r] refl] True claim(2,3) unfolding eq by simp
  next
    case False
    then have eq: "bundle_phase sc me m now tids s = s" by (rule bundle_phase_idle [OF best])
    have "sc u (length ?b) \<le> 0" if "int (length ?b) < m" "u \<in> set tids - set ?b" for u
      using best_bid_spec [OF best [unfolded next_bid_def Let_def]] that False 1(2)
      by (cases "- 1 < sc u (length ?b)") (auto simp: own_bundle_def)
    then show ?thesis unfolding eq complete_def using 1(2) by blast
  qed
qed

lemma bundle_phase_complete:
  assumes "own_bundle me m tids s" and "complete sc m tids (cs_bundles s me)"
  shows "bundle_phase sc me m now tids s = s"
proof -
  let ?b = "cs_bundles s me"
  obtain r x where best: "next_bid sc me tids s = (r, x)"
    by fastforce
  from best_bid_spec [OF this [unfolded next_bid_def Let_def]] assms(2) have "int (length ?b) < m \<Longrightarrow> r = None \<or> x \<le> 0"
    by (auto simp: complete_def)
  then show ?thesis by (intro bundle_phase_idle [OF best]) auto
qed

section \<open>The consensus phase has nothing to decide\<close>

lemma consensus_idle:
  assumes "\<forall>d. d \<noteq> me \<longrightarrow> cs_bundles s d = []" and "distinct ds"
  shows "consensus_phase scs stamp ds now tids (s, c) = (s, c)"
proof (induction tids)
  case (Cons tid tids)
  have "length (filter (\<lambda>did. tid \<in> set (cs_bundles s did)) ds) \<le> 1"
  proof -
    let ?f = "filter (\<lambda>did. tid \<in> set (cs_bundles s did)) ds"
    have "set ?f \<subseteq> {me}" using assms(1) by auto
    then have "card (set ?f) \<le> 1" using card_mono [of "{me}" "set ?f"] by simp
    then show ?thesis using distinct_card [of ?f] assms(2) by simp
  qed
  then have "length (claimants_of scs stamp ds (cs_bundles s) tid) \<le> 1" by (simp add: claimants_of_def)
  then consider "claimants_of scs stamp ds (cs_bundles s) tid = []"
    | k where "claimants_of scs stamp ds (cs_bundles s) tid = [k]"
    by (cases "claimants_of scs stamp ds (cs_bundles s) tid" rule: remdups_adj.cases) auto
  then show ?case using Cons.IH by cases simp_all
qed simp

section \<open>The rounds\<close>

lemma round_step:
  assumes "own_bundle me m tids s" and "distinct ds"
  shows "allocation_rounds scs sc stamp me m ds tids clock (Suc n) quiet r s =
    (let s1 = bundle_phase (sc (clock r)) me m (clock r) tids s;
         quiet' = (if cs_bundles s1 me = cs_bundles s me then quiet + 1 else 0)
     in if convergence_rounds \<le> quiet' then s1
        else allocation_rounds scs sc stamp me m ds tids clock n quiet' (Suc r) s1)"
proof -
  let ?s1 = "bundle_phase (sc (clock r)) me m (clock r) tids s"
  have "own_bundle me m tids ?s1" using bundle_phase_spec [OF assms(1)] by blast
  then have "consensus_phase (scs (clock r)) stamp ds (clock r) tids (?s1, False) = (?s1, False)"
    by (intro consensus_idle [of me, OF _ assms(2)]) (simp add: own_bundle_def)
  then show ?thesis by (simp add: Let_def)
qed

lemma rounds_own:
  assumes "distinct ds"
  shows "own_bundle me m tids s
    \<Longrightarrow> own_bundle me m tids (allocation_rounds scs sc stamp me m ds tids clock n quiet r s)"
proof (induction n arbitrary: quiet r s)
  case (Suc n)
  then show ?case
    using bundle_phase_spec [OF Suc.prems] unfolding round_step [OF Suc.prems assms] Let_def by simp
qed simp

text \<open>With a clock that stands still the rounds end with a greedy bundle that cannot be extended.\<close>

lemma rounds_greedy:
  assumes "distinct ds" and "\<And>r. sc (clock r) = sc0"
  shows "\<lbrakk>own_bundle me m tids s; greedy sc0 tids (cs_bundles s me);
      0 < n \<or> complete sc0 m tids (cs_bundles s me)\<rbrakk>
    \<Longrightarrow> greedy sc0 tids (cs_bundles (allocation_rounds scs sc stamp me m ds tids clock n quiet r s) me)
      \<and> complete sc0 m tids (cs_bundles (allocation_rounds scs sc stamp me m ds tids clock n quiet r s) me)"
proof (induction n arbitrary: quiet r s)
  case (Suc n)
  then show ?case
    using bundle_phase_spec [OF Suc.prems(1)] unfolding round_step [OF Suc.prems(1) assms(1)] Let_def assms(2)
    by simp
qed simp

text \<open>Two drones that score alike fill their bundles alike, whoever else takes part.\<close>

lemma bundle_phase_rename:
  "\<lbrakk>cs_bundles s me = cs_bundles s' b; cs_winning_bids s = cs_winning_bids s'\<rbrakk> \<Longrightarrow>
     cs_bundles (bundle_phase sc me m now tids s) me = cs_bundles (bundle_phase sc b m now tids s') b
     \<and> cs_winning_bids (bundle_phase sc me m now tids s) = cs_winning_bids (bundle_phase sc b m now tids s')"
proof (induction sc me m now tids s arbitrary: s' rule: bundle_phase.induct)
  case (1 sc me m now tids s)
  let ?b = "cs_bundles s me"
  obtain r x where best: "next_bid sc me tids s = (r, x)"
    by fastforce
  show ?case
  proof (cases "int (length ?b) < m \<and> r \<noteq> None \<and> 0 < x")
    case True
    then obtain tid where r: "r = Some tid" by auto
    have best': "next_bid sc b tids s' = (Some tid, x)"
      using best r 1(2,3) by (simp add: next_bid_def Let_def)
    have eq: "bundle_phase sc me m now tids s = bundle_phase sc me m now tids (claim_task me now tid x s)"
      "bundle_phase sc b m now tids s' = bundle_phase sc b m now tids (claim_task b now tid x s')"
      using bundle_phase_claim [OF best [unfolded r]] True
        bundle_phase_claim [OF best'] 1(2) by auto
    have "\<not> x \<le> 0" using True by simp
    from 1(1) [OF _ best [symmetric, unfolded r] refl this, of "claim_task b now tid x s'"]
    show ?thesis using True 1(2,3) unfolding eq by (simp add: claim_task_def)
  next
    case False
    have best': "next_bid sc b tids s' = (r, x)"
      using best 1(2,3) by (simp add: next_bid_def Let_def)
    from False have "bundle_phase sc me m now tids s = s" "bundle_phase sc b m now tids s' = s'"
      using bundle_phase_idle [OF best] bundle_phase_idle [OF best'] 1(2) by auto
    with 1(2,3) show ?thesis by simp
  qed
qed

lemma rounds_rename:
  assumes "distinct ds" and "distinct ds'"
  shows "\<lbrakk>own_bundle me m tids s; own_bundle b m tids s'; cs_bundles s me = cs_bundles s' b;
      cs_winning_bids s = cs_winning_bids s'\<rbrakk> \<Longrightarrow>
    cs_bundles (allocation_rounds scs sc stamp me m ds tids clock n quiet r s) me
    = cs_bundles (allocation_rounds scs' sc stamp' b m ds' tids clock n quiet r s') b"
proof (induction n arbitrary: quiet r s s')
  case (Suc n)
  let ?s = "bundle_phase (sc (clock r)) me m (clock r) tids s"
    and ?s' = "bundle_phase (sc (clock r)) b m (clock r) tids s'"
  have "cs_bundles ?s me = cs_bundles ?s' b" "cs_winning_bids ?s = cs_winning_bids ?s'"
    using bundle_phase_rename [OF Suc.prems(3,4)] by blast+
  moreover have "own_bundle me m tids ?s" "own_bundle b m tids ?s'"
    using bundle_phase_spec Suc.prems(1,2) by blast+
  ultimately show ?case
    using Suc.IH Suc.prems(3) unfolding round_step [OF Suc.prems(1) assms(1)] round_step [OF Suc.prems(2) assms(2)]
      Let_def by simp
qed simp

section \<open>What an allocation returns\<close>

lemma task_map_snoc: "task_map (tasks @ [t]) = dset (tk_id t) t (task_map tasks)"
  by (simp add: task_map_def)

lemma task_map_Some: "dget (task_map tasks) k = Some t \<Longrightarrow> tk_id t = k \<and> t \<in> set tasks"
  by (induction tasks rule: rev_induct)
     (auto simp: task_map_def [of "[]"] task_map_snoc pydict.get_put split: if_splits)

lemma task_map_keys: "set (dkeys (task_map tasks)) = tk_id ` set tasks"
  by (induction tasks rule: rev_induct) (auto simp: task_map_def [of "[]"] task_map_snoc pydict.keys_put)

lemma task_map_distinct:
  assumes "distinct (map tk_id tasks)" and "t \<in> set tasks"
  shows "dget (task_map tasks) (tk_id t) = Some t"
proof -
  obtain u where u: "dget (task_map tasks) (tk_id t) = Some u"
    using assms(2) pydict.keys_get [of "tk_id t" "task_map tasks"] by (auto simp: task_map_keys)
  with task_map_Some [OF u] assms show ?thesis by (auto simp: distinct_map dest: inj_onD)
qed

lemma taken_tasks:
  assumes "set b \<subseteq> set (dkeys (task_map tasks))"
  shows "map tk_id (List.map_filter (dget (task_map tasks)) b) = b"
  using assms
proof (induction b)
  case (Cons k b)
  then obtain t where "dget (task_map tasks) k = Some t" using pydict.keys_get by fastforce
  with Cons task_map_Some [OF this] show ?case by (simp add: List.map_filter_simps)
qed (simp add: List.map_filter_simps)

lemma score_own_id: "score_task (al\<lparr>cb_drone_id := b\<rparr>) now t x pos = score_task al now t x pos"
proof -
  have sel: "cb_profile (al\<lparr>cb_drone_id := b\<rparr>) = cb_profile al" "cb_comms (al\<lparr>cb_drone_id := b\<rparr>) = cb_comms al"
    "cb_roe_enabled (al\<lparr>cb_drone_id := b\<rparr>) = cb_roe_enabled al"
    "cb_available_drone_count (al\<lparr>cb_drone_id := b\<rparr>) = cb_available_drone_count al" by simp_all
  show ?thesis unfolding score_task_def roe_blocks_def sel by (rule refl)
qed

lemma run_allocation_runs:
  assumes "tasks \<noteq> []" and "dget states (cb_drone_id al) \<noteq> None"
  shows "run_allocation al clock tasks states x =
    List.map_filter (dget (task_map tasks)) (cs_bundles
      (allocation_rounds (\<lambda>now did. score_id al (task_map tasks) (dget states did) now)
         (score_id al (task_map tasks) (Some x))
         (\<lambda>did. case dget states did of None \<Rightarrow> 0 | Some x \<Rightarrow> ex_timestamp x)
         (cb_drone_id al) (cb_max_bundle_size al) (sort (dkeys states)) (dkeys (task_map tasks)) clock
         max_rounds 0 0 cbba_state0) (cb_drone_id al))"
proof -
  have runs: "\<not> (tasks = [] \<or> dget states (cb_drone_id al) = None)" using assms by simp
  show ?thesis unfolding run_allocation_def Let_def if_not_P [OF runs] by (rule refl)
qed

lemma bundles0: "cs_bundles cbba_state0 a = cs_bundles cbba_state0 b"
  by (simp add: cbba_state0_def)

text \<open>The allocation is computed in isolation: what an executor is given depends neither on the other
  executors nor on its own name. Two executors with the same abilities at the same place, each
  knowing of the other, take the same tasks, and the consensus phase never settles a conflict.\<close>

theorem allocation_ignores_others:
  assumes "distinct (dkeys states)" and "dget states (cb_drone_id al) \<noteq> None"
    and "distinct (dkeys states')" and "dget states' b \<noteq> None"
  shows "run_allocation (al\<lparr>cb_drone_id := b\<rparr>) clock tasks states' x = run_allocation al clock tasks states x"
proof -
  let ?al = "al\<lparr>cb_drone_id := b\<rparr>"
  have score: "score_id ?al tm st now = score_id al tm st now" for tm st now
    by (intro ext) (simp add: score_id_def score_own_id split: option.split)
  have d: "distinct (sort (dkeys states'))" "distinct (sort (dkeys states))" using assms(1,3) by simp_all
  have al: "cb_drone_id ?al = b" "cb_max_bundle_size ?al = cb_max_bundle_size al" by simp_all
  show ?thesis
  proof (cases "tasks = []")
    case False
    have st: "dget states' (cb_drone_id ?al) \<noteq> None" using assms(4) by simp
    show ?thesis
      unfolding run_allocation_runs [OF False st]
        run_allocation_runs [OF False assms(2)] al score
      by (rule arg_cong [where f = "List.map_filter (dget (task_map tasks))",
            OF rounds_rename [OF d own_bundle0 own_bundle0 bundles0 refl]])
  qed (simp add: run_allocation_def)
qed

lemma allocation_ignores_others_witness:
  "run_allocation (cbba_init None ''b'' 3) (\<lambda>_. 0) [sample_task ''t'' PHOTOGRAPH]
     [(''a'', sample_executor), (''b'', sample_executor)] sample_executor
   = run_allocation (cbba_init None ''a'' 3) (\<lambda>_. 0) [sample_task ''t'' PHOTOGRAPH]
     [(''b'', sample_executor), (''a'', sample_executor)] sample_executor"
  using allocation_ignores_others [of "[(''b'', sample_executor), (''a'', sample_executor)]"
      "cbba_init None ''a'' 3" "[(''a'', sample_executor), (''b'', sample_executor)]" "''b''" "\<lambda>_. 0"
      "[sample_task ''t'' PHOTOGRAPH]" sample_executor]
  by (simp add: cbba_init_def Let_def)

text \<open>C27: An allocation at one moment is greedy: it holds no task twice and no more than the bundle may
  hold, every task it took had a positive score at its place and none of those left then scored
  higher there, and if there is room left, no task left over scores above zero.\<close>

theorem allocation_greedy:
  assumes "distinct (map tk_id tasks)" and "distinct (dkeys states)"
    and "dget states (cb_drone_id al) \<noteq> None"
  shows "let r = run_allocation al (\<lambda>_. now) tasks states x
    in distinct (map tk_id r) \<and> set r \<subseteq> set tasks \<and> int (length r) \<le> max 0 (cb_max_bundle_size al)
       \<and> (\<forall>i < length r. 0 < score_task al now (r ! i) x i
            \<and> (\<forall>t \<in> set tasks - set (take i r). score_task al now t x i \<le> score_task al now (r ! i) x i))
       \<and> (int (length r) < cb_max_bundle_size al
            \<longrightarrow> (\<forall>t \<in> set tasks - set r. score_task al now t x (length r) \<le> 0))"
proof (cases "tasks = []")
  case False
  let ?tm = "task_map tasks" and ?m = "cb_max_bundle_size al" and ?me = "cb_drone_id al"
  let ?tids = "dkeys ?tm" and ?sc = "score_id al ?tm (Some x) now" and ?r = "run_allocation al (\<lambda>_. now) tasks states x"
  define s where "s = allocation_rounds (\<lambda>now did. score_id al ?tm (dget states did) now) (score_id al ?tm (Some x))
     (\<lambda>did. case dget states did of None \<Rightarrow> 0 | Some x \<Rightarrow> ex_timestamp x) ?me ?m (sort (dkeys states)) ?tids
     (\<lambda>_. now) max_rounds 0 0 cbba_state0"
  let ?b = "cs_bundles s ?me"
  have d: "distinct (sort (dkeys states))" using assms(2) by simp
  have own: "own_bundle ?me ?m ?tids s" unfolding s_def by (rule rounds_own [OF d own_bundle0])
  have "greedy ?sc ?tids (cs_bundles cbba_state0 ?me)" by (simp add: greedy_def cbba_state0_def)
  then have g: "greedy ?sc ?tids ?b" "complete ?sc ?m ?tids ?b"
    unfolding s_def using rounds_greedy [OF d _ own_bundle0, where clock = "\<lambda>_. now"] by (simp_all add: max_rounds_def)
  have r: "?r = List.map_filter (dget ?tm) ?b"
    unfolding s_def by (rule run_allocation_runs [OF False assms(3)])
  have b: "map tk_id ?r = ?b" unfolding r using own by (intro taken_tasks) (simp add: own_bundle_def)
  have sub: "set ?r \<subseteq> set tasks"
    unfolding r by (auto simp: List.map_filter_def dest: task_map_Some)
  have len: "length ?r = length ?b" using b by (metis length_map)
  have inj: "inj_on tk_id (set tasks)" using assms(1) by (simp add: distinct_map)
  have sc: "?sc (tk_id t) i = score_task al now t x i" if "t \<in> set tasks" for t i
    using task_map_distinct [OF assms(1) that] by (simp add: score_id_def)
  have out: "tk_id t \<in> set ?tids - set (take i ?b)" if "t \<in> set tasks - set (take i ?r)" for t i
  proof -
    have "tk_id t \<notin> tk_id ` set (take i ?r)"
      using that inj sub by (auto dest: inj_onD in_set_takeD)
    then show ?thesis using that task_map_keys [of tasks] by (simp add: take_map flip: b)
  qed
  have at: "?b ! i = tk_id (?r ! i)" if "i < length ?r" for i using that by (simp flip: b)
  have in_tasks: "?r ! i \<in> set tasks" if "i < length ?r" for i using that sub by auto
  show ?thesis
    unfolding Let_def
  proof (intro conjI allI impI ballI)
    show "distinct (map tk_id ?r)" "set ?r \<subseteq> set tasks" "int (length ?r) \<le> max 0 ?m"
      using own b sub len by (simp_all add: own_bundle_def)
    fix i assume i: "i < length ?r"
    then have "0 < ?sc (?b ! i) i" "\<forall>u \<in> set ?tids - set (take i ?b). ?sc u i \<le> ?sc (?b ! i) i"
      using g(1) len by (auto simp: greedy_def)
    note gi = this [unfolded at [OF i] sc [OF in_tasks [OF i]]]
    show "0 < score_task al now (?r ! i) x i" by (rule gi(1))
    fix t assume t: "t \<in> set tasks - set (take i ?r)"
    then show "score_task al now t x i \<le> score_task al now (?r ! i) x i"
      using bspec [OF gi(2) out [OF t]] sc [of t i] by simp
  next
    fix t assume "int (length ?r) < ?m" and t: "t \<in> set tasks - set ?r"
    then have none: "\<forall>u \<in> set ?tids - set ?b. ?sc u (length ?r) \<le> 0" using g(2) by (simp add: complete_def len)
    have "tk_id t \<in> set ?tids - set ?b" using out [of t "length ?r"] t len by simp
    from bspec [OF none this] show "score_task al now t x (length ?r) \<le> 0"
      using sc [of t "length ?r"] t by simp
  qed
qed (simp add: run_allocation_def)

lemma allocation_greedy_witness:
  "let r = run_allocation (cbba_init None ''a'' 1) (\<lambda>_. 0)
     [sample_task ''t'' PHOTOGRAPH, sample_task ''u'' MARK] [(''a'', sample_executor)] sample_executor
   in length r \<le> 1 \<and> distinct (map tk_id r)"
proof -
  have "cb_drone_id (cbba_init None ''a'' 1) = ''a''" "cb_max_bundle_size (cbba_init None ''a'' 1) = 1"
    by (simp_all add: cbba_init_def Let_def)
  with allocation_greedy [of "[sample_task ''t'' PHOTOGRAPH, sample_task ''u'' MARK]" "[(''a'', sample_executor)]"
      "cbba_init None ''a'' 1" 0 sample_executor]
  show ?thesis by (simp add: Let_def sample_task_def)
qed

end
