(* ===== verification/Node.thy ===== *)
theory Node
  imports BrainProtocol Struct
begin

text \<open>
  The node every drone of the brain runs, \<open>olympus/brain/olympus_brain/node.py\<close>: what it knows of the
  swarm, the trust registry that gates commands, the handlers of its subscriptions, and what it
  publishes. A sample arrives as the result of parsing it (an exception while parsing is caught and
  logged, which leaves the node alone); a callback is known by the name it was registered under, and
  its calls and the messages published are appended to \<open>nd_effects\<close>. The Zenoh session, the tasks of
  the event loop and the logging are left out: the body of each loop is one step.
\<close>

section \<open>State\<close>

datatype cmd_value = CText string | CInt int | CReal real

type_synonym cmd_payload = "(string, cmd_value) dict"

type_synonym brain_command = "cmd_payload command_message"

record node_config =
  nc_drone_id :: string
  nc_role :: drone_role
  nc_telemetry_rate_hz :: real
  nc_heartbeat_rate_hz :: real

definition node_config0 :: "string \<Rightarrow> drone_role \<Rightarrow> node_config" where
  "node_config0 drone_id r =
     \<lparr>nc_drone_id = drone_id, nc_role = r, nc_telemetry_rate_hz = 5, nc_heartbeat_rate_hz = 0.5\<rparr>"

record vehicle_trust =
  vt_tier :: trust_tier
  vt_status :: registration_status
  vt_manifest :: "capability_manifest option"

record swarm_state =
  ss_members :: "(string, drone_telemetry) dict"
  ss_detections :: "(string, detection) dict"
  ss_pending_tasks :: "(string, task) dict"
  ss_active_bids :: "(string, task_bid list) dict"
  ss_trust_registry :: "(string, vehicle_trust) dict"

definition swarm_state0 :: swarm_state where
  "swarm_state0 =
     \<lparr>ss_members = [], ss_detections = [], ss_pending_tasks = [], ss_active_bids = [],
      ss_trust_registry = []\<rparr>"

definition get_available_executors :: "swarm_state \<Rightarrow> drone_telemetry list" where
  "get_available_executors s = filter (\<lambda>t. dt_role t = EXECUTOR \<and> is_available t) (dvals (ss_members s))"

definition get_scouts :: "swarm_state \<Rightarrow> drone_telemetry list" where
  "get_scouts s = filter (\<lambda>t. dt_role t = SCOUT) (dvals (ss_members s))"

section \<open>Trust\<close>

definition register_vehicle ::
  "string \<Rightarrow> trust_tier \<Rightarrow> registration_status \<Rightarrow> capability_manifest option \<Rightarrow> swarm_state \<Rightarrow> swarm_state" where
  "register_vehicle vehicle_id tier status manifest s =
     s\<lparr>ss_trust_registry := dset vehicle_id \<lparr>vt_tier = tier, vt_status = status, vt_manifest = manifest\<rparr>
         (ss_trust_registry s)\<rparr>"

definition revoke_vehicle :: "string \<Rightarrow> swarm_state \<Rightarrow> swarm_state" where
  "revoke_vehicle vehicle_id s =
     (case dget (ss_trust_registry s) vehicle_id of
        None \<Rightarrow> s
      | Some t \<Rightarrow> s\<lparr>ss_trust_registry := dset vehicle_id (t\<lparr>vt_status := REVOKED\<rparr>) (ss_trust_registry s)\<rparr>)"

definition get_trust_tier :: "string \<Rightarrow> swarm_state \<Rightarrow> trust_tier" where
  "get_trust_tier drone_id s =
     (case dget (ss_trust_registry s) drone_id of None \<Rightarrow> OBSERVER | Some t \<Rightarrow> vt_tier t)"

definition is_command_allowed :: "string \<Rightarrow> command_type \<Rightarrow> swarm_state \<Rightarrow> bool" where
  "is_command_allowed sender_id c s =
     (if c = EMERGENCY_STOP then True
      else case dget (ss_trust_registry s) sender_id of
             None \<Rightarrow> False
           | Some entry \<Rightarrow>
               if vt_status entry = REVOKED then False
               else if vt_tier entry = OBSERVER then False
               else case (vt_tier entry, vt_manifest entry) of
                      (PARTNER, Some m) \<Rightarrow> command_type_value c \<in> set (cm_accepted_commands m)
                    | _ \<Rightarrow> True)"

definition get_cbba_participants :: "swarm_state \<Rightarrow> string list" where
  "get_cbba_participants s =
     map fst (filter (\<lambda>(vid, t). vt_status t = APPROVED
         \<and> (vt_tier t = TRUSTED
            \<or> vt_tier t = PARTNER \<and> (case vt_manifest t of None \<Rightarrow> False | Some m \<Rightarrow> cm_participates_in_cbba m)))
       (ss_trust_registry s))"

section \<open>The node\<close>

datatype put_payload =
    PutTelemetry drone_telemetry | PutDetection detection | PutTask task | PutCommand brain_command
  | PutMetadata model_metadata | PutFeatures bytes | PutEscalation escalation_request | PutModel bytes

datatype node_effect =
    Put string put_payload
  | CallCommand string brain_command | CallDetection string detection | CallTask string task
  | CallMetadata string model_metadata | CallGlobalModel string bytes int | CallFeatures string string bytes

record node =
  nd_config :: node_config
  nd_telemetry :: drone_telemetry
  nd_swarm :: swarm_state
  nd_running :: bool
  nd_publishers :: "(string, string) dict"
  nd_subscribers :: "string list"
  nd_command_callbacks :: "string list"
  nd_detection_callbacks :: "string list"
  nd_task_callbacks :: "string list"
  nd_model_metadata_callbacks :: "string list"
  nd_global_model_callbacks :: "string list"
  nd_feature_callbacks :: "string list"
  nd_effects :: "node_effect list"

definition nd_drone_id :: "node \<Rightarrow> string" where
  "nd_drone_id n = nc_drone_id (nd_config n)"

definition nd_role :: "node \<Rightarrow> drone_role" where
  "nd_role n = nc_role (nd_config n)"

definition telemetry0 :: "string \<Rightarrow> drone_role \<Rightarrow> real \<Rightarrow> drone_telemetry" where
  "telemetry0 drone_id r now =
     \<lparr>dt_drone_id = drone_id, dt_role = r, dt_status = IDLE, dt_position = geo_position0,
      dt_battery = battery_state0, dt_timestamp = now, dt_mesh_rssi = 0, dt_wifi_connected = False,
      dt_current_task_id = None\<rparr>"

definition node_init :: "node_config \<Rightarrow> real \<Rightarrow> node" where
  "node_init cfg now =
     \<lparr>nd_config = cfg, nd_telemetry = telemetry0 (nc_drone_id cfg) (nc_role cfg) now,
      nd_swarm = swarm_state0, nd_running = False, nd_publishers = [], nd_subscribers = [],
      nd_command_callbacks = [], nd_detection_callbacks = [], nd_task_callbacks = [],
      nd_model_metadata_callbacks = [], nd_global_model_callbacks = [], nd_feature_callbacks = [],
      nd_effects = []\<rparr>"

definition emit :: "node_effect list \<Rightarrow> node \<Rightarrow> node" where
  "emit es n = n\<lparr>nd_effects := nd_effects n @ es\<rparr>"

definition setup_publishers :: "node \<Rightarrow> node" where
  "setup_publishers n =
     (let d = nd_drone_id n; ps = dset ''telemetry'' (zk_telemetry d) (nd_publishers n);
          ps' = (if nd_role n = SCOUT
                 then dset ''features'' (zk_features d) (dset ''detection'' (zk_detection d) ps) else ps)
      in n\<lparr>nd_publishers := dset ''model_metadata'' (zk_model_metadata d)
             (dset ''command'' (zk_command ''*'') (dset ''task_auction'' zk_task_auction ps'))\<rparr>)"

definition setup_subscribers :: "node \<Rightarrow> node" where
  "setup_subscribers n =
     n\<lparr>nd_subscribers := nd_subscribers n @
        [zk_telemetry_wildcard, zk_command (nd_drone_id n), zk_command ''*'', zk_detection_all,
         zk_task_auction, zk_model_metadata_wildcard, zk_swarmnet_global_model, zk_features_wildcard,
         zk_registry_wildcard]\<rparr>"

definition node_start :: "node \<Rightarrow> node" where
  "node_start n = (setup_subscribers (setup_publishers n))\<lparr>nd_running := True\<rparr>"

definition node_stop :: "node \<Rightarrow> node" where
  "node_stop n = n\<lparr>nd_running := False\<rparr>"

section \<open>Handlers\<close>

definition on_swarm_telemetry :: "drone_telemetry result \<Rightarrow> node \<Rightarrow> node" where
  "on_swarm_telemetry sample n =
     (case sample of
        Inl e \<Rightarrow> n
      | Inr telem \<Rightarrow>
          if dt_drone_id telem \<noteq> nd_drone_id n
          then n\<lparr>nd_swarm := (nd_swarm n)\<lparr>ss_members := dset (dt_drone_id telem) telem (ss_members (nd_swarm n))\<rparr>\<rparr>
          else n)"

definition with_status :: "drone_status \<Rightarrow> node \<Rightarrow> node" where
  "with_status st n = n\<lparr>nd_telemetry := (nd_telemetry n)\<lparr>dt_status := st\<rparr>\<rparr>"

definition process_command :: "brain_command \<Rightarrow> node \<Rightarrow> node" where
  "process_command cmd n =
     (let working = (if nd_role n = SCOUT then SCANNING else IDLE)
      in case dc_type (cg_command cmd) of
           EMERGENCY_STOP \<Rightarrow> with_status DRONE_EMERGENCY n
         | RETURN_TO_LAUNCH \<Rightarrow> with_status RETURNING n
         | PAUSE \<Rightarrow> with_status IDLE n
         | RESUME \<Rightarrow> with_status working n
         | RECALL_FOR_UPDATE \<Rightarrow> with_status RETURNING n
         | REDEPLOY \<Rightarrow> with_status working n
         | _ \<Rightarrow> n)"

definition on_command :: "brain_command result \<Rightarrow> node \<Rightarrow> node" where
  "on_command sample n =
     (case sample of
        Inl e \<Rightarrow> n
      | Inr cmd \<Rightarrow>
          if cg_target_drone cmd \<noteq> ''*'' \<and> cg_target_drone cmd \<noteq> nd_drone_id n then n
          else if \<not> is_command_allowed (cg_issued_by cmd) (dc_type (cg_command cmd)) (nd_swarm n) then n
          else emit (map (\<lambda>cb. CallCommand cb cmd) (nd_command_callbacks n)) (process_command cmd n))"

definition on_detection :: "detection result \<Rightarrow> node \<Rightarrow> node" where
  "on_detection sample n =
     (case sample of
        Inl e \<Rightarrow> n
      | Inr d \<Rightarrow> emit (map (\<lambda>cb. CallDetection cb d) (nd_detection_callbacks n))
          (n\<lparr>nd_swarm := (nd_swarm n)\<lparr>ss_detections := dset (de_id d) d (ss_detections (nd_swarm n))\<rparr>\<rparr>))"

definition on_task_auction :: "task result \<Rightarrow> node \<Rightarrow> node" where
  "on_task_auction sample n =
     (case sample of
        Inl e \<Rightarrow> n
      | Inr t \<Rightarrow> emit (map (\<lambda>cb. CallTask cb t) (nd_task_callbacks n))
          (n\<lparr>nd_swarm := (nd_swarm n)\<lparr>ss_pending_tasks := dset (tk_id t) t (ss_pending_tasks (nd_swarm n))\<rparr>\<rparr>))"

definition on_model_metadata :: "model_metadata result \<Rightarrow> node \<Rightarrow> node" where
  "on_model_metadata sample n =
     (case sample of
        Inl e \<Rightarrow> n
      | Inr m \<Rightarrow>
          if mm_drone_id m = nd_drone_id n then n
          else emit (map (\<lambda>cb. CallMetadata cb m) (nd_model_metadata_callbacks n)) n)"

text \<open>\<open>struct.unpack("<I", raw[:4])[0]\<close> of at least four bytes is their little-endian number.\<close>

definition on_global_model :: "bytes \<Rightarrow> node \<Rightarrow> node" where
  "on_global_model raw n =
     (if length raw < 4 then n
      else let version = le_int (take 4 raw); weights = drop 4 raw
           in emit (map (\<lambda>cb. CallGlobalModel cb weights version) (nd_global_model_callbacks n)) n)"

text \<open>\<open>s.split("/")\<close>: the parts between the slashes.\<close>

fun split_slash :: "string \<Rightarrow> string list" where
  "split_slash [] = [[]]"
| "split_slash (c # cs) =
     (if c = CHR ''/'' then [] # split_slash cs
      else case split_slash cs of [] \<Rightarrow> [[c]] | p # ps \<Rightarrow> (c # p) # ps)"

definition on_peer_features :: "string \<Rightarrow> bytes \<Rightarrow> node \<Rightarrow> node" where
  "on_peer_features key raw n =
     (let parts = split_slash key
      in if length parts < 4 then n
         else let sender_id = parts ! 2
              in if sender_id = nd_drone_id n then n
                 else if raw = [] then n
                 else emit (map (\<lambda>cb. CallFeatures cb sender_id raw) (nd_feature_callbacks n)) n)"

text \<open>A registry event; a field the message lacks is \<open>None\<close>, capabilities that do not validate are
  \<open>Some (Inl e)\<close>, and empty ones count as lacking.\<close>

record registry_event =
  re_action :: "string option"
  re_vehicle_id :: "string option"
  re_trust_tier :: "string option"
  re_registration_status :: "string option"
  re_capabilities :: "capability_manifest result option"

definition value_or :: "'a option \<Rightarrow> 'a \<Rightarrow> 'a" where
  "value_or x d = (case x of None \<Rightarrow> d | Some v \<Rightarrow> v)"

definition trust_tier_of :: "string \<Rightarrow> trust_tier result" where
  "trust_tier_of s =
     (case find (\<lambda>t. trust_tier_value t = s) [TRUSTED, PARTNER, OBSERVER] of None \<Rightarrow> Inl ValueError | Some t \<Rightarrow> Inr t)"

definition registration_status_of :: "string \<Rightarrow> registration_status result" where
  "registration_status_of s =
     (case find (\<lambda>t. registration_status_value t = s) [PENDING, APPROVED, REJECTED, REVOKED] of
        None \<Rightarrow> Inl ValueError | Some t \<Rightarrow> Inr t)"

definition event_tier :: "registry_event \<Rightarrow> trust_tier" where
  "event_tier ev =
     (case trust_tier_of (value_or (re_trust_tier ev) ''trusted'') of Inl e \<Rightarrow> TRUSTED | Inr t \<Rightarrow> t)"

definition event_status :: "string \<Rightarrow> registry_event \<Rightarrow> registration_status" where
  "event_status action ev =
     (if action = ''approved'' then APPROVED
      else case registration_status_of (value_or (re_registration_status ev) ''approved'') of
             Inl e \<Rightarrow> APPROVED | Inr t \<Rightarrow> t)"

definition event_manifest :: "registry_event \<Rightarrow> capability_manifest option" where
  "event_manifest ev = (case re_capabilities ev of Some (Inr m) \<Rightarrow> Some m | _ \<Rightarrow> None)"

definition registry_change :: "registry_event \<Rightarrow> swarm_state \<Rightarrow> swarm_state" where
  "registry_change ev s =
     (let action = value_or (re_action ev) ''''; vehicle_id = value_or (re_vehicle_id ev) ''''
      in if vehicle_id = '''' then s
         else if action = ''registered'' \<or> action = ''approved''
         then register_vehicle vehicle_id (event_tier ev) (event_status action ev) (event_manifest ev) s
         else if action = ''rejected'' then register_vehicle vehicle_id PARTNER REJECTED None s
         else if action = ''revoked'' then revoke_vehicle vehicle_id s
         else s)"

definition on_registry_event :: "registry_event result \<Rightarrow> node \<Rightarrow> node" where
  "on_registry_event sample n =
     (case sample of Inl e \<Rightarrow> n | Inr ev \<Rightarrow> n\<lparr>nd_swarm := registry_change ev (nd_swarm n)\<rparr>)"

section \<open>Loops and publications\<close>

text \<open>Publishing through a publisher that was never set up raises \<open>KeyError\<close>.\<close>

definition put_on :: "string \<Rightarrow> put_payload \<Rightarrow> node \<Rightarrow> node result" where
  "put_on pub p n =
     (case dget (nd_publishers n) pub of None \<Rightarrow> Inl KeyError | Some key \<Rightarrow> Inr (emit [Put key p] n))"

definition telemetry_round :: "real \<Rightarrow> node \<Rightarrow> node" where
  "telemetry_round now n =
     (let n' = n\<lparr>nd_telemetry := (nd_telemetry n)\<lparr>dt_timestamp := now\<rparr>\<rparr>
      in case put_on ''telemetry'' (PutTelemetry (nd_telemetry n')) n' of Inl e \<Rightarrow> n' | Inr n'' \<Rightarrow> n'')"

definition time_out :: "real \<Rightarrow> drone_telemetry \<Rightarrow> drone_telemetry" where
  "time_out now telem =
     (if 30 < now - dt_timestamp telem \<and> dt_status telem \<noteq> OFFLINE then telem\<lparr>dt_status := OFFLINE\<rparr> else telem)"

definition cleanup_round :: "real \<Rightarrow> node \<Rightarrow> node" where
  "cleanup_round now n =
     n\<lparr>nd_swarm := (nd_swarm n)\<lparr>ss_members := dmap (time_out now) (ss_members (nd_swarm n))\<rparr>\<rparr>"

definition update_position :: "geo_position \<Rightarrow> node \<Rightarrow> node" where
  "update_position p n = n\<lparr>nd_telemetry := (nd_telemetry n)\<lparr>dt_position := p\<rparr>\<rparr>"

definition update_battery :: "battery_state \<Rightarrow> node \<Rightarrow> node" where
  "update_battery b n = n\<lparr>nd_telemetry := (nd_telemetry n)\<lparr>dt_battery := b\<rparr>\<rparr>"

definition update_status :: "drone_status \<Rightarrow> node \<Rightarrow> node" where
  "update_status st n = n\<lparr>nd_telemetry := (nd_telemetry n)\<lparr>dt_status := st\<rparr>\<rparr>"

definition publish_detection :: "detection \<Rightarrow> node \<Rightarrow> node" where
  "publish_detection d n =
     (case dget (nd_publishers n) ''detection'' of None \<Rightarrow> n | Some key \<Rightarrow> emit [Put key (PutDetection d)] n)"

definition publish_task :: "task \<Rightarrow> node \<Rightarrow> node result" where
  "publish_task t n = put_on ''task_auction'' (PutTask t) n"

definition send_command ::
  "string \<Rightarrow> real \<Rightarrow> string \<Rightarrow> command_type \<Rightarrow> cmd_payload option \<Rightarrow> node \<Rightarrow> node result" where
  "send_command uid now target c payload n =
     (let revoked = (target \<noteq> ''*'' \<and> c \<noteq> EMERGENCY_STOP
             \<and> (case dget (ss_trust_registry (nd_swarm n)) target of
                  None \<Rightarrow> False | Some entry \<Rightarrow> vt_status entry = REVOKED))
      in if revoked then Inr n
         else put_on ''command'' (PutCommand
                \<lparr>cg_id = uid, cg_target_drone = target, cg_command = \<lparr>dc_type = c, dc_payload = payload\<rparr>,
                 cg_issued_by = nd_drone_id n, cg_issued_at = now, cg_priority = 5\<rparr>) n)"

definition node_on_command :: "string \<Rightarrow> node \<Rightarrow> node" where
  "node_on_command cb n = n\<lparr>nd_command_callbacks := nd_command_callbacks n @ [cb]\<rparr>"

definition node_on_detection :: "string \<Rightarrow> node \<Rightarrow> node" where
  "node_on_detection cb n = n\<lparr>nd_detection_callbacks := nd_detection_callbacks n @ [cb]\<rparr>"

definition node_on_task :: "string \<Rightarrow> node \<Rightarrow> node" where
  "node_on_task cb n = n\<lparr>nd_task_callbacks := nd_task_callbacks n @ [cb]\<rparr>"

definition node_on_model_metadata :: "string \<Rightarrow> node \<Rightarrow> node" where
  "node_on_model_metadata cb n = n\<lparr>nd_model_metadata_callbacks := nd_model_metadata_callbacks n @ [cb]\<rparr>"

definition node_on_global_model :: "string \<Rightarrow> node \<Rightarrow> node" where
  "node_on_global_model cb n = n\<lparr>nd_global_model_callbacks := nd_global_model_callbacks n @ [cb]\<rparr>"

definition node_on_features :: "string \<Rightarrow> node \<Rightarrow> node" where
  "node_on_features cb n = n\<lparr>nd_feature_callbacks := nd_feature_callbacks n @ [cb]\<rparr>"

definition publish_features :: "bytes \<Rightarrow> node \<Rightarrow> node" where
  "publish_features d n =
     (case dget (nd_publishers n) ''features'' of None \<Rightarrow> n | Some key \<Rightarrow> emit [Put key (PutFeatures d)] n)"

definition publish_model_metadata :: "model_metadata \<Rightarrow> node \<Rightarrow> node" where
  "publish_model_metadata m n =
     (case dget (nd_publishers n) ''model_metadata'' of None \<Rightarrow> n | Some key \<Rightarrow> emit [Put key (PutMetadata m)] n)"

section \<open>Runs\<close>

datatype node_event =
    TelemetrySample "drone_telemetry result" | CommandSample "brain_command result"
  | DetectionSample "detection result" | TaskSample "task result" | MetadataSample "model_metadata result"
  | GlobalModelSample bytes | FeatureSample string bytes | RegistrySample "registry_event result"
  | TelemetryRound real | CleanupRound real | SetPosition geo_position | SetStatus drone_status
  | StartNode | StopNode

fun node_step :: "node \<Rightarrow> node_event \<Rightarrow> node" where
  "node_step n (TelemetrySample x) = on_swarm_telemetry x n"
| "node_step n (CommandSample x) = on_command x n"
| "node_step n (DetectionSample x) = on_detection x n"
| "node_step n (TaskSample x) = on_task_auction x n"
| "node_step n (MetadataSample x) = on_model_metadata x n"
| "node_step n (GlobalModelSample raw) = on_global_model raw n"
| "node_step n (FeatureSample key raw) = on_peer_features key raw n"
| "node_step n (RegistrySample x) = on_registry_event x n"
| "node_step n (TelemetryRound now) = telemetry_round now n"
| "node_step n (CleanupRound now) = cleanup_round now n"
| "node_step n (SetPosition p) = update_position p n"
| "node_step n (SetStatus st) = update_status st n"
| "node_step n StartNode = node_start n"
| "node_step n StopNode = node_stop n"

text \<open>The registry events that let a vehicle in, and those that take it out.\<close>

fun admits :: "string \<Rightarrow> node_event \<Rightarrow> bool" where
  "admits v (RegistrySample (Inr ev)) \<longleftrightarrow>
     re_vehicle_id ev = Some v \<and> re_action ev \<in> {Some ''registered'', Some ''approved'', Some ''rejected''}"
| "admits v _ \<longleftrightarrow> False"

fun revokes :: "string \<Rightarrow> node_event \<Rightarrow> bool" where
  "revokes v (RegistrySample (Inr ev)) \<longleftrightarrow> re_vehicle_id ev = Some v \<and> re_action ev = Some ''revoked''"
| "revokes v _ \<longleftrightarrow> False"

definition last_word :: "string \<Rightarrow> bool \<Rightarrow> node_event list \<Rightarrow> bool" where
  "last_word v b es = foldl (\<lambda>b e. if admits v e then True else if revokes v e then False else b) b es"

lemma emit_frame [simp]:
  "nd_swarm (emit es n) = nd_swarm n" "nd_config (emit es n) = nd_config n" "nd_telemetry (emit es n) = nd_telemetry n"
  by (simp_all add: emit_def)

lemma process_frame [simp]:
  "nd_swarm (process_command cmd n) = nd_swarm n" "nd_config (process_command cmd n) = nd_config n"
  by (simp_all add: process_command_def with_status_def Let_def split: command_type.split)

lemma setup_frame [simp]:
  "nd_swarm (node_start n) = nd_swarm n" "nd_config (node_start n) = nd_config n"
  by (simp_all add: node_start_def setup_publishers_def setup_subscribers_def Let_def)

lemma telemetry_round_frame [simp]:
  "nd_swarm (telemetry_round now n) = nd_swarm n" "nd_config (telemetry_round now n) = nd_config n"
  by (auto simp: telemetry_round_def put_on_def Let_def split: sum.split option.split)

lemma handler_frame [simp]:
  "nd_swarm (on_command x n) = nd_swarm n" "nd_swarm (on_model_metadata m n) = nd_swarm n"
  "nd_swarm (on_global_model raw n) = nd_swarm n" "nd_swarm (on_peer_features key raw n) = nd_swarm n"
  by (auto simp: on_command_def on_model_metadata_def on_global_model_def on_peer_features_def Let_def
      split: sum.split)

lemmas handler_defs = on_swarm_telemetry_def on_detection_def on_task_auction_def on_registry_event_def
  cleanup_round_def update_position_def update_status_def node_stop_def

text \<open>Only registry events touch the trust registry, and they touch the entry they name.\<close>

lemma registry_step:
  "ss_trust_registry (nd_swarm (node_step n e)) =
     (case e of RegistrySample (Inr ev) \<Rightarrow> ss_trust_registry (registry_change ev (nd_swarm n))
      | _ \<Rightarrow> ss_trust_registry (nd_swarm n))"
  by (cases e) (auto simp: handler_defs split: sum.split)

lemma trust_entry_step:
  assumes "v \<noteq> ''''"
  shows "admits v e \<or> (if revokes v e
      then dget (ss_trust_registry (nd_swarm (node_step n e))) v
           = map_option (\<lambda>t. t\<lparr>vt_status := REVOKED\<rparr>) (dget (ss_trust_registry (nd_swarm n)) v)
      else dget (ss_trust_registry (nd_swarm (node_step n e))) v = dget (ss_trust_registry (nd_swarm n)) v)"
  using assms unfolding registry_step
  by (cases e)
     (auto simp: registry_change_def register_vehicle_def revoke_vehicle_def value_or_def Let_def
        pydict.get_put split: sum.split option.split)

definition entry_open :: "string \<Rightarrow> node \<Rightarrow> bool" where
  "entry_open v n \<longleftrightarrow>
     (case dget (ss_trust_registry (nd_swarm n)) v of None \<Rightarrow> False | Some t \<Rightarrow> vt_status t \<noteq> REVOKED)"

lemma entry_open_run:
  "\<lbrakk>v \<noteq> ''''; entry_open v n \<longrightarrow> b\<rbrakk> \<Longrightarrow> entry_open v (foldl node_step n es) \<longrightarrow> last_word v b es"
proof (induction es arbitrary: n b)
  case (Cons e es)
  have "entry_open v (node_step n e) \<longrightarrow> (if admits v e then True else if revokes v e then False else b)"
    using trust_entry_step [OF Cons.prems(1), of e n] Cons.prems(2)
    by (auto simp: entry_open_def split: option.splits if_splits)
  from Cons.IH [OF Cons.prems(1) this] show ?case by (simp add: last_word_def)
qed (simp add: last_word_def)


definition spoken :: "string \<Rightarrow> string \<Rightarrow> registry_event" where
  "spoken action v =
     \<lparr>re_action = Some action, re_vehicle_id = Some v, re_trust_tier = None, re_registration_status = None,
      re_capabilities = None\<rparr>"


text \<open>Rejecting a vehicle lets it command the swarm: the event that tells a node that an application
  was rejected makes the node obey every command of that vehicle, such as the one that sends all
  drones back, where it refused all of them as long as it did not know the vehicle.\<close>

theorem rejection_grants_command:
  assumes "v \<noteq> ''''" and "re_action ev = Some ''rejected''" and "re_vehicle_id ev = Some v"
    and "cg_issued_by cmd = v" and "cg_target_drone cmd = ''*''" and "dc_type (cg_command cmd) = RETURN_TO_LAUNCH"
    and "dget (ss_trust_registry (nd_swarm n)) v = None"
  shows "on_command (Inr cmd) n = n
    \<and> is_command_allowed v c (nd_swarm (on_registry_event (Inr ev) n))
    \<and> dt_status (nd_telemetry (on_command (Inr cmd) (on_registry_event (Inr ev) n))) = RETURNING"
proof -
  have "is_command_allowed v c (nd_swarm (on_registry_event (Inr ev) n))" for c
    using assms(1-3)
    by (simp add: on_registry_event_def registry_change_def value_or_def register_vehicle_def Let_def
        is_command_allowed_def pydict.get_put)
  then show ?thesis
    using assms(4-7) by (simp add: on_command_def is_command_allowed_def process_command_def with_status_def Let_def)
qed

lemma rejection_grants_command_witness:
  "\<exists>n ev cmd. on_command (Inr cmd) n = n
    \<and> dt_status (nd_telemetry (on_command (Inr cmd) (on_registry_event (Inr ev) n))) = RETURNING"
  using rejection_grants_command [of "''v''" "spoken ''rejected'' ''v''"
      "\<lparr>cg_id = ''1'', cg_target_drone = ''*'', cg_command = \<lparr>dc_type = RETURN_TO_LAUNCH, dc_payload = None\<rparr>,
        cg_issued_by = ''v'', cg_issued_at = 0, cg_priority = 5\<rparr>" "node_init (node_config0 ''a'' SCOUT) 0" PAUSE]
  by (simp add: spoken_def node_init_def swarm_state0_def) blast

section \<open>Members\<close>

text \<open>The node's own id is never among the members, and its configuration stays.\<close>

definition members_ok :: "string \<Rightarrow> (string, drone_telemetry) dict \<Rightarrow> bool" where
  "members_ok own d \<longleftrightarrow>
     distinct (dkeys d) \<and> own \<notin> set (dkeys d) \<and> (\<forall>kt \<in> set d. dt_drone_id (snd kt) = fst kt)"

definition node_inv :: "node_config \<Rightarrow> node \<Rightarrow> bool" where
  "node_inv cfg n \<longleftrightarrow> nd_config n = cfg \<and> members_ok (nc_drone_id cfg) (ss_members (nd_swarm n))"

lemma registry_change_members [simp]: "ss_members (registry_change ev s) = ss_members s"
  by (simp add: registry_change_def register_vehicle_def revoke_vehicle_def Let_def split: option.split)

lemma set_dset: "x \<in> set (dset k v d) \<Longrightarrow> x = (k, v) \<or> x \<in> set d"
  by (induction d) (auto simp: dset_def split: if_splits)

lemma members_put:
  "\<lbrakk>members_ok own d; dt_drone_id t \<noteq> own\<rbrakk> \<Longrightarrow> members_ok own (dset (dt_drone_id t) t d)"
  by (auto simp: members_ok_def pydict.distinct_put pydict.keys_put dest: set_dset)

lemma time_out_id [simp]: "dt_drone_id (time_out now t) = dt_drone_id t"
  by (simp add: time_out_def)

lemma members_time_out: "members_ok own d \<Longrightarrow> members_ok own (dmap (time_out now) d)"
  unfolding members_ok_def dkeys_dmap by (auto simp: dmap_def)

interpretation node_machine: event_machine node_step "node_inv cfg"
proof unfold_locales
  fix n e assume inv: "node_inv cfg n"
  consider telem where "e = TelemetrySample (Inr telem)" | now where "e = CleanupRound now"
    | "\<forall>telem. e \<noteq> TelemetrySample (Inr telem)" "\<forall>now. e \<noteq> CleanupRound now" by blast
  then show "node_inv cfg (node_step n e)"
  proof cases
    case (1 telem)
    with inv show ?thesis
      by (cases "dt_drone_id telem = nc_drone_id cfg")
         (simp_all add: node_inv_def on_swarm_telemetry_def nd_drone_id_def members_put)
  next
    case (2 now)
    with inv show ?thesis by (simp add: node_inv_def cleanup_round_def members_time_out)
  next
    case 3
    then have "nd_config (node_step n e) = nd_config n"
      "ss_members (nd_swarm (node_step n e)) = ss_members (nd_swarm n)"
      by (cases e; auto simp: handler_defs on_command_def on_model_metadata_def on_global_model_def
          on_peer_features_def Let_def split: sum.split)+
    with inv show ?thesis by (simp add: node_inv_def)
  qed
qed

text \<open>In any run a node keeps its own telemetry out of the table of the swarm, files every member
  under the member's own id, and offers, right after a clean-up, no executor it has not heard of for
  more than thirty seconds.\<close>

theorem members_sound:
  "let n = cleanup_round now (foldl node_step (node_init cfg t0) es)
   in nc_drone_id cfg \<notin> set (dkeys (ss_members (nd_swarm n)))
      \<and> {t \<in> set (get_available_executors (nd_swarm n)). 30 < now - dt_timestamp t} = {}
      \<and> {kt \<in> set (ss_members (nd_swarm n)). dt_drone_id (snd kt) \<noteq> fst kt} = {}"
proof -
  have "node_inv cfg (node_init cfg t0)" by (simp add: node_inv_def members_ok_def node_init_def swarm_state0_def)
  from node_machine.run_inv [OF this, of "es @ [CleanupRound now]"]
  have inv: "node_inv cfg (cleanup_round now (foldl node_step (node_init cfg t0) es))" by simp
  have fresh: "now - dt_timestamp (time_out now t) \<le> 30" if "is_available (time_out now t)" for t
    using that by (auto simp: time_out_def is_available_def split: if_splits)
  have "{t \<in> set (get_available_executors (nd_swarm (cleanup_round now n))). 30 < now - dt_timestamp t} = {}" for n
    using fresh by (fastforce simp: get_available_executors_def cleanup_round_def not_less)
  with inv show ?thesis by (auto simp: Let_def node_inv_def members_ok_def)
qed

end
