(* ===== verification/Executor.thy ===== *)
theory Executor
  imports Node Cbba Escalation
begin

text \<open>
  The executor drone, \<open>olympus/brain/olympus_brain/executor.py\<close>. Its main loop is a coroutine that gives
  way at every \<open>await\<close>, where a command, a task or an assignment may come in between; so the executor
  carries the place its loop waits at (\<open>xd_pc\<close>), and one tick runs the loop from there to its next
  \<open>await\<close>. Task objects are shared between the loop and the handlers: they live in a table by id, and
  the loop holds the id of the task it started with. A flight is the list of its legs. What the loops
  sleep for is left out, and so are the log messages.
\<close>

section \<open>Configuration and state\<close>

datatype executor_state =
    EX_IDLE | EX_BIDDING | EX_AWAITING_APPROVAL | EX_TRANSITING | EX_EXECUTING | EX_RETURNING | EX_RECALLED

fun executor_state_value :: "executor_state \<Rightarrow> string" where
  "executor_state_value EX_IDLE = ''idle''"
| "executor_state_value EX_BIDDING = ''bidding''"
| "executor_state_value EX_AWAITING_APPROVAL = ''awaiting_approval''"
| "executor_state_value EX_TRANSITING = ''transiting''"
| "executor_state_value EX_EXECUTING = ''executing''"
| "executor_state_value EX_RETURNING = ''returning''"
| "executor_state_value EX_RECALLED = ''recalled''"

record executor_config =
  xc_drone_id :: string
  xc_home_position :: geo_position
  xc_transit_altitude :: real
  xc_working_altitude :: real
  xc_transit_speed_mps :: real
  xc_working_speed_mps :: real
  xc_payload_rate :: real
  xc_payload_capacity :: real
  xc_payload_unit :: string
  xc_min_battery_percent :: int
  xc_spray_rate_lpm :: real
  xc_tank_capacity_liters :: real
  xc_capabilities :: "string list"
  xc_vertical :: string

text \<open>\<open>x or y\<close>: a number that is absent or zero, or a list that is absent or empty, gives way.\<close>

definition num_or :: "real option \<Rightarrow> real \<Rightarrow> real" where
  "num_or x d = (case x of None \<Rightarrow> d | Some v \<Rightarrow> if v = 0 then d else v)"

definition list_or :: "'a list option \<Rightarrow> 'a list \<Rightarrow> 'a list" where
  "list_or x d = (case x of None \<Rightarrow> d | Some v \<Rightarrow> if v = [] then d else v)"

definition executor_config_init ::
  "string option \<Rightarrow> string \<Rightarrow> real \<times> real \<Rightarrow> real \<Rightarrow> real \<Rightarrow> real \<Rightarrow> real \<Rightarrow> real option \<Rightarrow> real option \<Rightarrow> int
     \<Rightarrow> string list option \<Rightarrow> string \<Rightarrow> executor_config" where
  "executor_config_init env drone_id home transit_altitude working_altitude transit_speed working_speed
     payload_rate payload_capacity min_battery capabilities vertical =
     (let profile = load_profile env None;
          rate = num_or payload_rate (pc_rate (mp_payload profile));
          capacity = num_or payload_capacity (pc_capacity (mp_payload profile))
      in \<lparr>xc_drone_id = drone_id,
          xc_home_position = geo_position0\<lparr>gp_latitude := fst home, gp_longitude := snd home, gp_altitude := 0\<rparr>,
          xc_transit_altitude = transit_altitude, xc_working_altitude = working_altitude,
          xc_transit_speed_mps = transit_speed, xc_working_speed_mps = working_speed,
          xc_payload_rate = rate, xc_payload_capacity = capacity,
          xc_payload_unit = pc_unit (mp_payload profile), xc_min_battery_percent = min_battery,
          xc_spray_rate_lpm = rate, xc_tank_capacity_liters = capacity,
          xc_capabilities = list_or capabilities (map task_type_value all_task_types),
          xc_vertical = vertical\<rparr>)"

datatype leg = Navigate geo_position real | Climb geo_position

datatype arrival = ThenWork | ThenRefill

text \<open>Where the main loop waits: at its head, in a leg (target, where it began, its steps, those done,
  the legs to come), in the execution of a task, in the refill at home.\<close>

datatype exec_pc = AtLoop | Flying leg geo_position nat nat "leg list" arrival | Working string | Refilling

record executor =
  xd_config :: executor_config
  xd_profile :: mission_profile
  xd_node :: node
  xd_state :: executor_state
  xd_tasks :: "(string, task) dict"
  xd_current_task :: "string option"
  xd_pending_bids :: "(string, task_bid) dict"
  xd_payload_level :: real
  xd_tank_level_liters :: real
  xd_engine :: escalation_engine
  xd_pending_escalation :: "escalation_request option"
  xd_escalation_response :: "escalation_response option"
  xd_cbba :: cbba_allocator
  xd_running :: bool
  xd_recalled :: bool
  xd_pc :: exec_pc

definition executor_init :: "string option \<Rightarrow> executor_config \<Rightarrow> real \<Rightarrow> executor" where
  "executor_init env cfg now =
     \<lparr>xd_config = cfg, xd_profile = load_profile env None,
      xd_node = node_on_task ''_on_task_received'' (node_init (node_config0 (xc_drone_id cfg) EXECUTOR) now),
      xd_state = EX_IDLE, xd_tasks = [], xd_current_task = None, xd_pending_bids = [],
      xd_payload_level = xc_payload_capacity cfg, xd_tank_level_liters = xc_payload_capacity cfg,
      xd_engine = engine_init (xc_vertical cfg) None, xd_pending_escalation = None,
      xd_escalation_response = None, xd_cbba = cbba_init env (xc_drone_id cfg) 3,
      xd_running = False, xd_recalled = False, xd_pc = AtLoop\<rparr>"

definition on_node :: "(node \<Rightarrow> node) \<Rightarrow> executor \<Rightarrow> executor" where
  "on_node f x = x\<lparr>xd_node := f (xd_node x)\<rparr>"

definition set_task_state :: "string \<Rightarrow> task_state \<Rightarrow> executor \<Rightarrow> executor" where
  "set_task_state tid st x =
     (case dget (xd_tasks x) tid of
        None \<Rightarrow> x | Some t \<Rightarrow> x\<lparr>xd_tasks := dset tid (t\<lparr>tk_state := st\<rparr>) (xd_tasks x)\<rparr>)"

definition executor_available :: "executor \<Rightarrow> bool" where
  "executor_available x \<longleftrightarrow>
     xd_state x = EX_IDLE
     \<and> xc_min_battery_percent (xd_config x) < bs_percentage (dt_battery (nd_telemetry (xd_node x)))
     \<and> xc_payload_capacity (xd_config x) * 0.05 < xd_payload_level x"

definition to_cbba_snapshot :: "real \<Rightarrow> executor \<Rightarrow> executor_snapshot" where
  "to_cbba_snapshot now x =
     snapshot_from_telemetry now (nd_telemetry (xd_node x)) (xd_payload_level x)
       (xc_payload_capacity (xd_config x)) (xc_capabilities (xd_config x))"

definition executor_start :: "executor \<Rightarrow> executor" where
  "executor_start x =
     (on_node (node_on_command ''_on_command_received'' \<circ> update_status IDLE
        \<circ> update_position (xc_home_position (xd_config x)) \<circ> node_start) x)\<lparr>xd_running := True, xd_pc := AtLoop\<rparr>"

definition executor_stop :: "executor \<Rightarrow> executor" where
  "executor_stop x = on_node node_stop (x\<lparr>xd_running := False, xd_pc := AtLoop\<rparr>)"

section \<open>Bids\<close>

definition calculate_bid :: "real \<Rightarrow> task \<Rightarrow> executor \<Rightarrow> task_bid option result" where
  "calculate_bid now t x =
     (let cfg = xd_config x; ty = task_type_value (tk_task_type t)
      in if ty \<notin> set (xc_capabilities cfg) then Inr None
         else let telem = nd_telemetry (xd_node x);
                  distance = distance_to (dt_position telem) (tk_target_position t);
                  battery_pct = bs_percentage (dt_battery telem);
                  battery_cost = of_int (max 0 (30 - battery_pct) * 10);
                  capacity = xc_payload_capacity cfg;
                  payload_pct = (if 0 < capacity then xd_payload_level x / capacity else 1);
                  payload_cost = max 0 (0.2 - payload_pct) * 500;
                  params = dget (mp_task_execution (xd_profile x)) ty
              in if (case params of None \<Rightarrow> False
                     | Some p \<Rightarrow> te_requires_payload p \<and> xd_payload_level x < capacity * 0.1)
                 then Inr None
                 else if xc_transit_speed_mps cfg = 0 then Inl ZeroDivisionError
                 else let transit_time = distance / xc_transit_speed_mps cfg;
                          execution_time = (case params of None \<Rightarrow> 10 | Some p \<Rightarrow> te_duration p);
                          battery_consumption = (transit_time + execution_time) * 0.05
                      in Inr (Some \<lparr>tb_task_id = tk_id t, tb_bidder_id = xc_drone_id cfg,
                           tb_cost = distance + battery_cost + payload_cost,
                           tb_eta_seconds = py_int (transit_time + execution_time),
                           tb_battery_after = max 0 (battery_pct - py_int battery_consumption),
                           tb_timestamp = now\<rparr>))"

text \<open>An exception in the callback is caught and logged by the node that calls it.\<close>

definition on_task_received :: "real \<Rightarrow> task \<Rightarrow> executor \<Rightarrow> executor" where
  "on_task_received now t x =
     (if xd_recalled x then x
      else if \<not> executor_available x then x
      else let available = int (length (get_available_executors (nd_swarm (xd_node x)))) + 1;
               x' = x\<lparr>xd_cbba := set_available_drone_count available (xd_cbba x)\<rparr>
           in case calculate_bid now t x' of
                Inr (Some bid) \<Rightarrow> x'\<lparr>xd_pending_bids := dset (tk_id t) bid (xd_pending_bids x')\<rparr>
              | _ \<Rightarrow> x')"

section \<open>Recall\<close>

definition handle_recall :: "executor \<Rightarrow> executor" where
  "handle_recall x =
     (let x1 = (case xd_current_task x of
                  None \<Rightarrow> x | Some tid \<Rightarrow> (set_task_state tid CANCELLED x)\<lparr>xd_current_task := None\<rparr>);
          x2 = (if xd_pending_escalation x1 = None then x1
                else x1\<lparr>xd_pending_escalation := None, xd_escalation_response := None\<rparr>)
      in on_node (update_status RETURNING)
           (x2\<lparr>xd_recalled := True, xd_pending_bids := [], xd_state := EX_RECALLED\<rparr>))"

definition on_command_received :: "brain_command \<Rightarrow> executor \<Rightarrow> executor" where
  "on_command_received cmd x =
     (case dc_type (cg_command cmd) of
        RECALL_FOR_UPDATE \<Rightarrow> handle_recall x
      | REDEPLOY \<Rightarrow> if xd_recalled x then x\<lparr>xd_recalled := False, xd_state := EX_IDLE\<rparr> else x
      | _ \<Rightarrow> x)"

text \<open>A command sample at the executor's node: the node acts on it and calls the executor back.\<close>

definition executor_command :: "brain_command result \<Rightarrow> executor \<Rightarrow> executor" where
  "executor_command sample x =
     (let n = xd_node x; x' = on_node (on_command sample) x
      in case sample of
           Inl e \<Rightarrow> x'
         | Inr cmd \<Rightarrow>
             if (cg_target_drone cmd = ''*'' \<or> cg_target_drone cmd = nd_drone_id n)
                \<and> is_command_allowed (cg_issued_by cmd) (dc_type (cg_command cmd)) (nd_swarm n)
                \<and> ''_on_command_received'' \<in> set (nd_command_callbacks n)
             then on_command_received cmd x' else x')"

section \<open>Assignment\<close>

definition swarm_context_of :: "executor \<Rightarrow> swarm_context" where
  "swarm_context_of x =
     (let ms = dvals (ss_members (nd_swarm (xd_node x)))
      in swarm_context0\<lparr>cx_total_drones := max 1 (int (length ms) + 1),
           cx_committed_drones := int (length (filter (\<lambda>m. dt_current_task_id m \<noteq> None) ms))\<rparr>)"

definition escalation_reason :: "task \<Rightarrow> escalation_level \<Rightarrow> string" where
  "escalation_reason t level =
     ''Task '' @ task_type_value (tk_task_type t) @ '' scored '' @ escalation_level_value level"

text \<open>The second component is the exception, if one is raised.\<close>

definition await_approval :: "string \<Rightarrow> real \<Rightarrow> task \<Rightarrow> escalation_level \<Rightarrow> executor \<Rightarrow> executor \<times> py_error option" where
  "await_approval uid now t level x =
     (let esc_req = create_request (xd_engine x) uid now t (xc_drone_id (xd_config x)) level
                      (escalation_reason t level);
          x1 = x\<lparr>xd_tasks := dset (tk_id t) (t\<lparr>tk_state := AWAITING_APPROVAL\<rparr>) (xd_tasks x),
                 xd_state := EX_AWAITING_APPROVAL, xd_pending_escalation := Some esc_req\<rparr>;
          ps = nd_publishers (xd_node x);
          pub = (case dget ps ''command'' of Some key \<Rightarrow> Some key | None \<Rightarrow> dget ps ''telemetry'')
      in case pub of
           None \<Rightarrow> (x1, Some AttributeError)
         | Some key \<Rightarrow> (on_node (emit [Put key (PutEscalation esc_req)]) x1, None))"

definition assign_task ::
  "string \<Rightarrow> real \<Rightarrow> task \<Rightarrow> detection option \<Rightarrow> executor \<Rightarrow> executor \<times> py_error option" where
  "assign_task uid now t det x =
     (if \<not> executor_available x then (x, None)
      else if task_type_value (tk_task_type t) \<notin> set (xc_capabilities (xd_config x)) then (x, None)
      else let t1 = t\<lparr>tk_assigned_to := Some (xc_drone_id (xd_config x)), tk_state := ASSIGNED\<rparr>;
               (level, engine) = score t1 det (Some (swarm_context_of x)) (xd_engine x);
               t2 = t1\<lparr>tk_escalation_level := level\<rparr>;
               x1 = x\<lparr>xd_current_task := Some (tk_id t), xd_engine := engine,
                      xd_tasks := dset (tk_id t) t2 (xd_tasks x)\<rparr>
           in if level \<in> {APPROVE_REQUIRED, EMERGENCY} then await_approval uid now t2 level x1
              else (x1\<lparr>xd_state := EX_TRANSITING\<rparr>, None))"

section \<open>Flight\<close>

definition leg_steps :: "leg \<Rightarrow> geo_position \<Rightarrow> nat" where
  "leg_steps l current =
     (case l of
        Navigate target speed \<Rightarrow> nat (max 1 (py_int (distance_to current target / speed * 2)))
      | Climb target \<Rightarrow> nat (max 1 (py_int (\<bar>gp_altitude target - gp_altitude current\<bar> / 2))))"

definition leg_position :: "leg \<Rightarrow> geo_position \<Rightarrow> real \<Rightarrow> geo_position" where
  "leg_position l current t =
     (case l of
        Navigate target speed \<Rightarrow> geo_position0
          \<lparr>gp_latitude := gp_latitude current + t * (gp_latitude target - gp_latitude current),
           gp_longitude := gp_longitude current + t * (gp_longitude target - gp_longitude current),
           gp_altitude := gp_altitude target\<rparr>
      | Climb target \<Rightarrow> geo_position0
          \<lparr>gp_latitude := gp_latitude current, gp_longitude := gp_longitude current,
           gp_altitude := gp_altitude current + t * (gp_altitude target - gp_altitude current)\<rparr>)"

text \<open>Both loops end when the executor was stopped, the one over ground also when it was recalled.\<close>

definition leg_broken :: "leg \<Rightarrow> executor \<Rightarrow> bool" where
  "leg_broken l x \<longleftrightarrow>
     \<not> xd_running x \<or> (case l of Navigate target speed \<Rightarrow> xd_recalled x | Climb target \<Rightarrow> False)"

definition here :: "executor \<Rightarrow> geo_position" where
  "here x = dt_position (nd_telemetry (xd_node x))"

definition arrive :: "arrival \<Rightarrow> executor \<Rightarrow> executor" where
  "arrive a x =
     (case a of ThenWork \<Rightarrow> x\<lparr>xd_state := EX_EXECUTING, xd_pc := AtLoop\<rparr> | ThenRefill \<Rightarrow> x\<lparr>xd_pc := Refilling\<rparr>)"

text \<open>The first step of the next leg that can be flown; a speed of zero raises in \<open>_navigate_to\<close>, which
  the main loop catches.\<close>

fun begin_legs :: "leg list \<Rightarrow> arrival \<Rightarrow> executor \<Rightarrow> executor" where
  "begin_legs [] a x = arrive a x"
| "begin_legs (l # ls) a x =
     (if (case l of Navigate target speed \<Rightarrow> speed = 0 | Climb target \<Rightarrow> False) then x\<lparr>xd_pc := AtLoop\<rparr>
      else if leg_broken l x then begin_legs ls a x
      else let current = here x; steps = leg_steps l current
           in (on_node (update_position (leg_position l current (1 / real steps))) x)
                \<lparr>xd_pc := Flying l current steps 1 ls a\<rparr>)"

definition fly_on :: "leg \<Rightarrow> geo_position \<Rightarrow> nat \<Rightarrow> nat \<Rightarrow> leg list \<Rightarrow> arrival \<Rightarrow> executor \<Rightarrow> executor" where
  "fly_on l current steps i ls a x =
     (if i < steps \<and> \<not> leg_broken l x
      then (on_node (update_position (leg_position l current ((real i + 1) / real steps))) x)
             \<lparr>xd_pc := Flying l current steps (i + 1) ls a\<rparr>
      else begin_legs ls a x)"

section \<open>The handlers of the main loop\<close>

definition handle_idle :: "executor \<Rightarrow> executor" where
  "handle_idle x =
     (let x' = on_node (update_status IDLE) x
      in if xd_payload_level x' < xc_payload_capacity (xd_config x') * 0.10
            \<and> 10 < distance_to (here x') (xc_home_position (xd_config x'))
         then x'\<lparr>xd_state := EX_RETURNING\<rparr> else x')"

definition drop_task :: "string \<Rightarrow> executor \<Rightarrow> executor" where
  "drop_task tid x = (set_task_state tid CANCELLED x)\<lparr>xd_current_task := None, xd_state := EX_IDLE\<rparr>"

definition handle_awaiting_approval :: "real \<Rightarrow> executor \<Rightarrow> executor" where
  "handle_awaiting_approval now x =
     (case (xd_pending_escalation x, xd_current_task x) of
        (Some esc, Some tid) \<Rightarrow>
          (case xd_escalation_response x of
             Some resp \<Rightarrow>
               if ep_escalation_id resp = er_id esc
               then let x' = x\<lparr>xd_escalation_response := None, xd_pending_escalation := None\<rparr>
                    in if ep_approved resp then x'\<lparr>xd_state := EX_TRANSITING\<rparr> else drop_task tid x'
               else if of_int (er_timeout_seconds esc) \<le> now - er_created_at esc
               then let x' = x\<lparr>xd_pending_escalation := None\<rparr>
                    in if er_timeout_action esc = ''proceed'' then x'\<lparr>xd_state := EX_TRANSITING\<rparr>
                       else drop_task tid x'
               else x
           | None \<Rightarrow>
               if of_int (er_timeout_seconds esc) \<le> now - er_created_at esc
               then let x' = x\<lparr>xd_pending_escalation := None\<rparr>
                    in if er_timeout_action esc = ''proceed'' then x'\<lparr>xd_state := EX_TRANSITING\<rparr>
                       else drop_task tid x'
               else x)
      | _ \<Rightarrow> x\<lparr>xd_state := EX_IDLE\<rparr>)"

definition handle_transiting :: "executor \<Rightarrow> executor" where
  "handle_transiting x =
     (case xd_current_task x of
        None \<Rightarrow> x\<lparr>xd_state := EX_IDLE\<rparr>
      | Some tid \<Rightarrow>
          (case dget (xd_tasks x) tid of
             None \<Rightarrow> x
           | Some t \<Rightarrow>
               let cfg = xd_config x;
                   target = (tk_target_position t)\<lparr>gp_altitude := xc_transit_altitude cfg\<rparr>;
                   x' = (on_node (update_status TRANSITING) x)
                          \<lparr>xd_tasks := dset tid (t\<lparr>tk_target_position := target\<rparr>) (xd_tasks x)\<rparr>;
                   working_pos = geo_position0\<lparr>gp_latitude := gp_latitude target,
                     gp_longitude := gp_longitude target, gp_altitude := xc_working_altitude cfg\<rparr>
               in begin_legs [Navigate target (xc_transit_speed_mps cfg), Climb working_pos] ThenWork x'))"

definition handle_executing :: "executor \<Rightarrow> executor" where
  "handle_executing x =
     (case xd_current_task x of
        None \<Rightarrow> x\<lparr>xd_state := EX_IDLE\<rparr>
      | Some tid \<Rightarrow> (on_node (update_status EXECUTING) x)\<lparr>xd_pc := Working tid\<rparr>)"

definition consume_payload :: "task_execution_params option \<Rightarrow> executor \<Rightarrow> executor" where
  "consume_payload params x =
     (case params of
        None \<Rightarrow> x
      | Some p \<Rightarrow>
          if te_consumes_payload p
          then let cost = te_duration p / 60 * xc_payload_rate (xd_config x) * te_payload_fraction p;
                   level = max 0 (xd_payload_level x - cost)
               in x\<lparr>xd_payload_level := level, xd_tank_level_liters := level\<rparr>
          else x)"

text \<open>The rest of \<open>_handle_executing\<close>, once the task's time is over.\<close>

definition finish_work :: "string \<Rightarrow> executor \<Rightarrow> executor" where
  "finish_work tid x =
     (let ty = (case dget (xd_tasks x) tid of None \<Rightarrow> '''' | Some t \<Rightarrow> task_type_value (tk_task_type t));
          x1 = consume_payload (dget (mp_task_execution (xd_profile x)) ty) x;
          x2 = (set_task_state tid COMPLETED x1)\<lparr>xd_current_task := None, xd_pc := AtLoop\<rparr>
      in if xd_payload_level x2 < xc_payload_capacity (xd_config x2) * 0.20
         then x2\<lparr>xd_state := EX_RETURNING\<rparr> else x2\<lparr>xd_state := EX_IDLE\<rparr>)"

definition handle_returning :: "executor \<Rightarrow> executor" where
  "handle_returning x =
     (let cfg = xd_config x; x' = on_node (update_status RETURNING) x; current = here x';
          home = xc_home_position cfg;
          transit_pos = geo_position0\<lparr>gp_latitude := gp_latitude current,
            gp_longitude := gp_longitude current, gp_altitude := xc_transit_altitude cfg\<rparr>;
          home_transit = geo_position0\<lparr>gp_latitude := gp_latitude home,
            gp_longitude := gp_longitude home, gp_altitude := xc_transit_altitude cfg\<rparr>
      in begin_legs [Climb transit_pos, Navigate home_transit (xc_transit_speed_mps cfg), Climb home] ThenRefill x')"

definition finish_refill :: "executor \<Rightarrow> executor" where
  "finish_refill x =
     x\<lparr>xd_payload_level := xc_payload_capacity (xd_config x),
       xd_tank_level_liters := xc_payload_capacity (xd_config x), xd_state := EX_IDLE, xd_pc := AtLoop\<rparr>"

definition handle_recalled :: "executor \<Rightarrow> executor" where
  "handle_recalled x = on_node (update_status RETURNING) x"

definition main_loop_head :: "real \<Rightarrow> executor \<Rightarrow> executor" where
  "main_loop_head now x =
     (if \<not> xd_running x then x
      else case xd_state x of
             EX_IDLE \<Rightarrow> handle_idle x
           | EX_BIDDING \<Rightarrow> x
           | EX_AWAITING_APPROVAL \<Rightarrow> handle_awaiting_approval now x
           | EX_TRANSITING \<Rightarrow> handle_transiting x
           | EX_EXECUTING \<Rightarrow> handle_executing x
           | EX_RETURNING \<Rightarrow> handle_returning x
           | EX_RECALLED \<Rightarrow> handle_recalled x)"

definition exec_tick :: "real \<Rightarrow> executor \<Rightarrow> executor" where
  "exec_tick now x =
     (case xd_pc x of
        AtLoop \<Rightarrow> main_loop_head now x
      | Flying l current steps i ls a \<Rightarrow> fly_on l current steps i ls a x
      | Working tid \<Rightarrow> finish_work tid x
      | Refilling \<Rightarrow> finish_refill x)"

section \<open>Flights\<close>

definition moved :: "geo_position \<Rightarrow> executor \<Rightarrow> executor" where
  "moved p x = on_node (update_position p) x"

lemma moved_frame [simp]:
  "xd_running (moved p x) = xd_running x" "xd_recalled (moved p x) = xd_recalled x" "here (moved p x) = p"
  "xd_state (moved p x) = xd_state x" "xd_tasks (moved p x) = xd_tasks x" "xd_config (moved p x) = xd_config x"
  "xd_current_task (moved p x) = xd_current_task x" "xd_profile (moved p x) = xd_profile x"
  "moved p (moved q x) = moved p x" "moved p (x\<lparr>xd_pc := c\<rparr>) = (moved p x)\<lparr>xd_pc := c\<rparr>"
  by (simp_all add: moved_def on_node_def update_position_def here_def)

lemma here_pc [simp]: "here (x\<lparr>xd_pc := c\<rparr>) = here x" "here (x\<lparr>xd_state := st\<rparr>) = here x"
  "here (x\<lparr>xd_tasks := ts\<rparr>) = here x" "here (on_node (update_status s) x) = here x"
  by (simp_all add: here_def on_node_def update_status_def)

lemma begin_legs_pc [simp]: "begin_legs ls a (x\<lparr>xd_pc := c\<rparr>) = begin_legs ls a x"
proof (induction ls)
  case (Cons l ls)
  then show ?case by (cases l) (simp_all add: leg_broken_def Let_def flip: moved_def)
qed (simp add: arrive_def split: arrival.split)

declare begin_legs.simps(2) [simp del]

definition run_ticks :: "real list \<Rightarrow> executor \<Rightarrow> executor" where
  "run_ticks ts x = foldl (\<lambda>x t. exec_tick t x) x ts"

lemma run_ticks_Cons [simp]: "run_ticks [] x = x" "run_ticks (t # ts) x = run_ticks ts (exec_tick t x)"
  by (simp_all add: run_ticks_def)

lemma run_ticks_append: "run_ticks (ts @ us) x = run_ticks us (run_ticks ts x)"
  by (simp add: run_ticks_def)

definition flies :: "executor \<Rightarrow> bool" where
  "flies x \<longleftrightarrow> xd_running x \<and> \<not> xd_recalled x"

lemma leg_steps_pos: "0 < leg_steps l current"
  by (simp add: leg_steps_def less_max_iff_disj split: leg.split)

lemma fly_leg:
  assumes "flies x" and "length ts = Suc (steps - i)" and "i \<le> steps" and "0 < steps"
  shows "run_ticks ts ((moved (leg_position l c (real i / real steps)) x)\<lparr>xd_pc := Flying l c steps i ls a\<rparr>)
    = begin_legs ls a (moved (leg_position l c 1) x)"
  using assms(2,3)
proof (induction ts arbitrary: i)
  case (Cons t ts)
  let ?y = "(moved (leg_position l c (real i / real steps)) x)\<lparr>xd_pc := Flying l c steps i ls a\<rparr>"
  have ok: "\<not> leg_broken l ?y" using assms(1) by (simp add: leg_broken_def flies_def split: leg.split)
  show ?case
  proof (cases "i < steps")
    case True
    with ok have "exec_tick t ?y
        = (moved (leg_position l c (real (Suc i) / real steps)) x)\<lparr>xd_pc := Flying l c steps (Suc i) ls a\<rparr>"
      by (simp add: exec_tick_def fly_on_def add.commute flip: moved_def)
    with Cons.IH [of "Suc i"] Cons.prems True show ?thesis by simp
  next
    case False
    with Cons.prems have "i = steps" "ts = []" by simp_all
    with assms(4) show ?thesis by (simp add: exec_tick_def fly_on_def)
  qed
qed simp

lemma fly_first:
  assumes "flies x" and "length ts = leg_steps l (here x)"
    and "\<not> (case l of Navigate target speed \<Rightarrow> speed = 0 | Climb target \<Rightarrow> False)"
  shows "run_ticks ts (begin_legs (l # ls) a x) = begin_legs ls a (moved (leg_position l (here x) 1) x)"
proof -
  let ?n = "leg_steps l (here x)"
  have "\<not> leg_broken l x" using assms(1) by (simp add: leg_broken_def flies_def split: leg.split)
  then have "begin_legs (l # ls) a x
      = (moved (leg_position l (here x) (real 1 / real ?n)) x)\<lparr>xd_pc := Flying l (here x) ?n 1 ls a\<rparr>"
    using assms(3) by (simp add: begin_legs.simps(2) Let_def flip: moved_def)
  then show ?thesis
    using fly_leg [OF assms(1), of ts ?n 1 l "here x" ls a] assms(2) leg_steps_pos [of l "here x"] by simp
qed

lemma flies_moved [simp]: "flies (moved p x) = flies x"
  by (simp add: flies_def)

text \<open>Where a task is worked on, and the time it takes to get there.\<close>

definition work_place :: "executor_config \<Rightarrow> task \<Rightarrow> geo_position" where
  "work_place cfg t = geo_position0\<lparr>gp_latitude := gp_latitude (tk_target_position t),
     gp_longitude := gp_longitude (tk_target_position t), gp_altitude := xc_working_altitude cfg\<rparr>"

lemma transit_arrives:
  assumes "flies x" and "xd_pc x = AtLoop" and "xd_state x = EX_TRANSITING" and "xd_current_task x = Some tid"
    and "dget (xd_tasks x) tid = Some t" and "xc_transit_speed_mps (xd_config x) \<noteq> 0"
  obtains n p where "\<And>ts. length ts = n \<Longrightarrow> run_ticks ts x =
      (moved (work_place (xd_config x) t)
         ((on_node (update_status TRANSITING) x)\<lparr>xd_tasks := dset tid (t\<lparr>tk_target_position := p\<rparr>) (xd_tasks x)\<rparr>))
        \<lparr>xd_state := EX_EXECUTING, xd_pc := AtLoop\<rparr>"
proof -
  let ?cfg = "xd_config x"
  let ?target = "(tk_target_position t)\<lparr>gp_altitude := xc_transit_altitude ?cfg\<rparr>"
  let ?y = "(on_node (update_status TRANSITING) x)
     \<lparr>xd_tasks := dset tid (t\<lparr>tk_target_position := ?target\<rparr>) (xd_tasks x)\<rparr>"
  let ?nav = "Navigate ?target (xc_transit_speed_mps ?cfg)" and ?climb = "Climb (work_place ?cfg t)"
  let ?z = "moved (leg_position ?nav (here ?y) 1) ?y"
  have y: "flies ?y" using assms(1) by (simp add: flies_def on_node_def)
  have e: "exec_tick u x = begin_legs [?nav, ?climb] ThenWork ?y" for u
    using assms by (simp add: exec_tick_def main_loop_head_def handle_transiting_def Let_def flies_def work_place_def)
  let ?n = "leg_steps ?nav (here ?y)" and ?m = "leg_steps ?climb (here ?z)"
  have "run_ticks ts x = arrive ThenWork (moved (leg_position ?climb (here ?z) 1) ?z)"
    if len: "length ts = Suc (?n + ?m)" for ts
  proof -
    obtain u us where ts: "ts = u # us" and us: "length us = ?n + ?m" using len by (cases ts) auto
    have split: "run_ticks us v = run_ticks (drop ?n us) (run_ticks (take ?n us) v)" for v
      by (simp flip: run_ticks_append)
    have "run_ticks (take ?n us) (begin_legs [?nav, ?climb] ThenWork ?y) = begin_legs [?climb] ThenWork ?z"
      using assms(6) us by (intro fly_first [OF y]) simp_all
    moreover have "run_ticks (drop ?n us) (begin_legs [?climb] ThenWork ?z)
        = begin_legs [] ThenWork (moved (leg_position ?climb (here ?z) 1) ?z)"
      using us y by (intro fly_first) simp_all
    ultimately show ?thesis unfolding ts run_ticks_Cons split e by (simp only: begin_legs.simps(1))
  qed
  moreover have "leg_position ?climb (here ?z) 1 = work_place ?cfg t"
    by (simp add: leg_position_def work_place_def)
  ultimately show ?thesis by (intro that [of "Suc (?n + ?m)" ?target]) (simp add: arrive_def)
qed

section \<open>From assignment to completion\<close>

lemma consume_frame [simp]:
  "xd_config (consume_payload ps x) = xd_config x" "xd_tasks (consume_payload ps x) = xd_tasks x"
  "xd_node (consume_payload ps x) = xd_node x" "xd_state (consume_payload ps x) = xd_state x"
  "xd_recalled (consume_payload ps x) = xd_recalled x" "xd_running (consume_payload ps x) = xd_running x"
  "xd_engine (consume_payload ps x) = xd_engine x" "xd_profile (consume_payload ps x) = xd_profile x"
  "xd_pending_escalation (consume_payload ps x) = xd_pending_escalation x"
  "xd_escalation_response (consume_payload ps x) = xd_escalation_response x"
  by (simp_all add: consume_payload_def Let_def split: option.split)

lemma set_task_frame [simp]:
  "xd_config (set_task_state tid st x) = xd_config x" "xd_node (set_task_state tid st x) = xd_node x"
  "xd_state (set_task_state tid st x) = xd_state x" "xd_recalled (set_task_state tid st x) = xd_recalled x"
  "xd_running (set_task_state tid st x) = xd_running x" "xd_engine (set_task_state tid st x) = xd_engine x"
  "xd_profile (set_task_state tid st x) = xd_profile x" "xd_pc (set_task_state tid st x) = xd_pc x"
  "xd_payload_level (set_task_state tid st x) = xd_payload_level x"
  "xd_tank_level_liters (set_task_state tid st x) = xd_tank_level_liters x"
  "xd_pending_escalation (set_task_state tid st x) = xd_pending_escalation x"
  "xd_escalation_response (set_task_state tid st x) = xd_escalation_response x"
  by (simp_all add: set_task_state_def split: option.split)

lemma set_task_get:
  "dget (xd_tasks (set_task_state tid st x)) tid = map_option (\<lambda>t. t\<lparr>tk_state := st\<rparr>) (dget (xd_tasks x) tid)"
  by (simp add: set_task_state_def pydict.get_put split: option.split)

lemma finish_work_spec:
  assumes "dget (xd_tasks x) tid = Some t"
  shows "dget (xd_tasks (finish_work tid x)) tid = Some (t\<lparr>tk_state := COMPLETED\<rparr>)"
    and "xd_state (finish_work tid x) \<in> {EX_IDLE, EX_RETURNING}"
    and "xd_current_task (finish_work tid x) = None" and "xd_pc (finish_work tid x) = AtLoop"
    and "xd_node (finish_work tid x) = xd_node x" and "xd_recalled (finish_work tid x) = xd_recalled x"
  using assms by (simp_all add: finish_work_def Let_def set_task_get)

text \<open>C12: A task that needs no approval is carried out: an executor that takes it and is left alone flies to
  the task's target, works there at the working altitude, and after a number of ticks that only
  depends on the flight has completed the task, holds no task and goes idle or home.\<close>

theorem assigned_task_completes:
  assumes "executor_available x" and "task_type_value (tk_task_type t) \<in> set (xc_capabilities (xd_config x))"
    and "xd_running x" and "\<not> xd_recalled x" and "xd_pc x = AtLoop" and "xc_transit_speed_mps (xd_config x) \<noteq> 0"
    and "assign_task uid now t det x = (y, err)" and "xd_state y = EX_TRANSITING"
  shows "\<exists>n. \<forall>ts. length ts = n \<longrightarrow>
    (let z = run_ticks ts y
     in (case dget (xd_tasks z) (tk_id t) of None \<Rightarrow> False | Some t' \<Rightarrow> tk_state t' = COMPLETED)
        \<and> xd_current_task z = None \<and> xd_state z \<in> {EX_IDLE, EX_RETURNING} \<and> here z = work_place (xd_config x) t)"
proof -
  obtain level engine where s: "score (t\<lparr>tk_assigned_to := Some (xc_drone_id (xd_config x)), tk_state := ASSIGNED\<rparr>)
      det (Some (swarm_context_of x)) (xd_engine x) = (level, engine)" by fastforce
  let ?t = "t\<lparr>tk_assigned_to := Some (xc_drone_id (xd_config x)), tk_state := ASSIGNED, tk_escalation_level := level\<rparr>"
  have "level \<notin> {APPROVE_REQUIRED, EMERGENCY}"
    using assms(7,8) s assms(1,2)
    by (auto simp: assign_task_def await_approval_def Let_def on_node_def split: if_splits option.splits)
  then have y: "y = x\<lparr>xd_current_task := Some (tk_id t), xd_engine := engine,
      xd_tasks := dset (tk_id t) ?t (xd_tasks x), xd_state := EX_TRANSITING\<rparr>"
    using assms(1,2,7) s by (simp add: assign_task_def Let_def)
  have f: "flies y" "xd_pc y = AtLoop" "xd_state y = EX_TRANSITING" "xd_current_task y = Some (tk_id t)"
    "dget (xd_tasks y) (tk_id t) = Some ?t" "xc_transit_speed_mps (xd_config y) \<noteq> 0"
    using assms(3-6) y by (simp_all add: flies_def pydict.get_put)
  obtain n p where run: "\<And>ts. length ts = n \<Longrightarrow> run_ticks ts y = (moved (work_place (xd_config y) ?t)
      ((on_node (update_status TRANSITING) y)\<lparr>xd_tasks := dset (tk_id t) (?t\<lparr>tk_target_position := p\<rparr>) (xd_tasks y)\<rparr>))
        \<lparr>xd_state := EX_EXECUTING, xd_pc := AtLoop\<rparr>"
    using transit_arrives [OF f] by blast
  have "(let z = run_ticks ts y
     in (case dget (xd_tasks z) (tk_id t) of None \<Rightarrow> False | Some t' \<Rightarrow> tk_state t' = COMPLETED)
        \<and> xd_current_task z = None \<and> xd_state z \<in> {EX_IDLE, EX_RETURNING} \<and> here z = work_place (xd_config x) t)"
    if len: "length ts = n + 2" for ts
  proof -
    define us where "us = take n ts"
    have "length (drop n ts) = Suc (Suc 0)" using len by simp
    then obtain u v where "drop n ts = [u, v]" unfolding length_Suc_conv by auto
    then have ts: "ts = us @ [u, v]" "length us = n"
      using len append_take_drop_id [of n ts] by (simp_all add: us_def)
    define w where "w = run_ticks us y"
    have w: "xd_pc w = AtLoop" "xd_running w" "xd_state w = EX_EXECUTING" "xd_current_task w = Some (tk_id t)"
      "dget (xd_tasks w) (tk_id t) = Some (?t\<lparr>tk_target_position := p\<rparr>)" "here w = work_place (xd_config x) t"
      unfolding w_def run [OF ts(2)] using assms(3) y
      by (simp_all add: moved_def on_node_def here_def update_position_def update_status_def work_place_def
          pydict.get_put)
    let ?v = "(on_node (update_status EXECUTING) w)\<lparr>xd_pc := Working (tk_id t)\<rparr>"
    have "exec_tick u w = ?v" using w by (simp add: exec_tick_def main_loop_head_def handle_executing_def)
    then have z: "run_ticks ts y = finish_work (tk_id t) ?v"
      by (simp add: ts(1) run_ticks_append exec_tick_def flip: w_def)
    have "dget (xd_tasks ?v) (tk_id t) = Some (?t\<lparr>tk_target_position := p\<rparr>)" "here ?v = work_place (xd_config x) t"
      using w by (simp_all add: on_node_def here_def update_status_def)
    with finish_work_spec [OF this(1)] show ?thesis unfolding z Let_def by (simp add: here_def)
  qed
  then show ?thesis by blast
qed

section \<open>Recall\<close>

text \<open>A recall does not hold an executor: recalled while it works on a task, it leaves the recalled
  state by itself. The running execution ends as if nothing happened, marks the
  task completed that the recall had cancelled, and takes the executor to idle or home; and an idle
  executor takes the next assignment although it is still recalled.\<close>

theorem recall_does_not_hold:
  assumes "xd_pc x = Working tid" and "xd_current_task x = Some tid" and "dget (xd_tasks x) tid = Some t"
  shows "let y = handle_recall x; z = exec_tick now y
    in xd_state y = EX_RECALLED
       \<and> (case dget (xd_tasks y) tid of None \<Rightarrow> False | Some u \<Rightarrow> tk_state u = CANCELLED)
       \<and> (case dget (xd_tasks z) tid of None \<Rightarrow> False | Some u \<Rightarrow> tk_state u = COMPLETED)
       \<and> xd_state z \<in> {EX_IDLE, EX_RETURNING} \<and> xd_recalled z
       \<and> (xd_state z = EX_IDLE
            \<and> xc_min_battery_percent (xd_config x) < bs_percentage (dt_battery (nd_telemetry (xd_node x)))
            \<and> 0 < xc_payload_capacity (xd_config x)
          \<longrightarrow> executor_available z)"
proof -
  let ?y = "handle_recall x"
  have y: "xd_state ?y = EX_RECALLED" "xd_pc ?y = Working tid" "xd_recalled ?y"
    "dget (xd_tasks ?y) tid = Some (t\<lparr>tk_state := CANCELLED\<rparr>)" "xd_config ?y = xd_config x"
    "dt_battery (nd_telemetry (xd_node ?y)) = dt_battery (nd_telemetry (xd_node x))"
    using assms by (simp_all add: handle_recall_def Let_def on_node_def set_task_get update_status_def)
  let ?z = "exec_tick now ?y"
  have z: "?z = finish_work tid ?y" using y(2) by (simp add: exec_tick_def)
  note f = finish_work_spec [OF y(4), folded z]
  have c: "xd_config ?z = xd_config x" using y(5) by (simp add: z finish_work_def Let_def)
  have "executor_available ?z"
    if "xd_state ?z = EX_IDLE" "0 < xc_payload_capacity (xd_config x)"
      "xc_min_battery_percent (xd_config x) < bs_percentage (dt_battery (nd_telemetry (xd_node x)))"
  proof -
    have "\<not> xd_payload_level ?z < xc_payload_capacity (xd_config x) * 0.20"
      using that(1) y(5) unfolding z finish_work_def Let_def by (auto split: if_splits)
    moreover have "xc_payload_capacity (xd_config x) * 0.05 < xc_payload_capacity (xd_config x) * 0.20"
      using that(2) by simp
    ultimately show ?thesis using that(1,3) f(5) y(6) c unfolding executor_available_def by simp
  qed
  then show ?thesis using y f unfolding Let_def by simp
qed

section \<open>Runs\<close>

datatype executor_event =
    Tick real | AssignTask string real task "detection option" | NodeInput real node_event
  | StartExecutor | StopExecutor

text \<open>The node hands a task or a command on to the executor that registered for it.\<close>

definition node_input :: "real \<Rightarrow> node_event \<Rightarrow> executor \<Rightarrow> executor" where
  "node_input now e x =
     (case e of
        CommandSample s \<Rightarrow> executor_command s x
      | TaskSample s \<Rightarrow>
          (let x' = on_node (on_task_auction s) x
           in case s of
                Inl err \<Rightarrow> x'
              | Inr t \<Rightarrow> if ''_on_task_received'' \<in> set (nd_task_callbacks (xd_node x))
                         then on_task_received now t x' else x')
      | _ \<Rightarrow> on_node (\<lambda>n. node_step n e) x)"

fun executor_step :: "executor \<Rightarrow> executor_event \<Rightarrow> executor" where
  "executor_step x (Tick now) = exec_tick now x"
| "executor_step x (AssignTask uid now t det) = fst (assign_task uid now t det x)"
| "executor_step x (NodeInput now e) = node_input now e x"
| "executor_step x StartExecutor = executor_start x"
| "executor_step x StopExecutor = executor_stop x"

definition approval_action :: "string \<Rightarrow> string" where
  "approval_action vertical = th_timeout_action (ee_thresholds (engine_init vertical None))"

definition executor_inv :: "string option \<Rightarrow> executor_config \<Rightarrow> executor \<Rightarrow> bool" where
  "executor_inv env cfg x \<longleftrightarrow>
     0 \<le> xc_payload_rate cfg \<and> 0 \<le> xc_payload_capacity cfg
     \<and> xd_config x = cfg \<and> xd_profile x = load_profile env None \<and> 0 \<le> xd_payload_level x
     \<and> xd_payload_level x \<le> xc_payload_capacity cfg \<and> xd_tank_level_liters x = xd_payload_level x
     \<and> xd_escalation_response x = None
     \<and> ee_thresholds (xd_engine x) = ee_thresholds (engine_init (xc_vertical cfg) None)
     \<and> pred_option (\<lambda>esc. er_timeout_action esc = approval_action (xc_vertical cfg)) (xd_pending_escalation x)"

lemma inv_node [simp]: "executor_inv env cfg (on_node f x) = executor_inv env cfg x"
  by (simp add: executor_inv_def on_node_def)

lemma inv_neutral [simp]:
  "executor_inv env cfg (x\<lparr>xd_state := st\<rparr>) = executor_inv env cfg x"
  "executor_inv env cfg (x\<lparr>xd_pc := c\<rparr>) = executor_inv env cfg x"
  "executor_inv env cfg (x\<lparr>xd_tasks := ts\<rparr>) = executor_inv env cfg x"
  "executor_inv env cfg (x\<lparr>xd_current_task := ct\<rparr>) = executor_inv env cfg x"
  "executor_inv env cfg (x\<lparr>xd_pending_bids := bs\<rparr>) = executor_inv env cfg x"
  "executor_inv env cfg (x\<lparr>xd_cbba := cb\<rparr>) = executor_inv env cfg x"
  "executor_inv env cfg (x\<lparr>xd_running := rn\<rparr>) = executor_inv env cfg x"
  "executor_inv env cfg (x\<lparr>xd_recalled := rc\<rparr>) = executor_inv env cfg x"
  by (simp_all add: executor_inv_def)

lemma inv_no_escalation [simp]:
  "executor_inv env cfg x \<Longrightarrow> executor_inv env cfg (x\<lparr>xd_pending_escalation := None\<rparr>)"
  "executor_inv env cfg x \<Longrightarrow> executor_inv env cfg (x\<lparr>xd_escalation_response := None\<rparr>)"
  by (simp_all add: executor_inv_def)

lemma inv_set_task [simp]: "executor_inv env cfg (set_task_state tid st x) = executor_inv env cfg x"
  by (simp add: set_task_state_def split: option.split)

lemma inv_legs: "executor_inv env cfg x \<Longrightarrow> executor_inv env cfg (begin_legs ls a x)"
proof (induction ls)
  case (Cons l ls)
  then show ?case by (auto simp: begin_legs.simps(2) Let_def)
qed (simp add: arrive_def split: arrival.split)

lemma loaded_params:
  assumes "dget (mp_task_execution (load_profile env pid)) ty = Some p"
  shows "0 \<le> te_duration p \<and> 0 \<le> te_payload_fraction p"
proof -
  have "load_profile env pid \<in> {ceres, athena, vulcan, hermes}"
    by (auto simp: load_profile_def profiles_def Let_def split: option.split)
  moreover have "p \<in> set (dvals (mp_task_execution (load_profile env pid)))"
    by (rule dget_in_dvals [OF assms])
  ultimately show ?thesis
    by (auto simp: ceres_def athena_def vulcan_def hermes_def exec_params_def)
qed

lemma inv_consume:
  assumes "executor_inv env cfg x"
  shows "executor_inv env cfg (consume_payload (dget (mp_task_execution (xd_profile x)) ty) x)"
proof (cases "dget (mp_task_execution (xd_profile x)) ty")
  case (Some p)
  with assms loaded_params [of env None ty p]
  have "0 \<le> te_duration p / 60 * xc_payload_rate (xd_config x) * te_payload_fraction p"
    by (simp add: executor_inv_def)
  with assms Some show ?thesis by (auto simp: executor_inv_def consume_payload_def Let_def)
qed (use assms in \<open>simp add: consume_payload_def\<close>)

lemma inv_finish:
  assumes "executor_inv env cfg x"
  shows "executor_inv env cfg (finish_work tid x)"
  using inv_consume [OF assms] by (simp add: finish_work_def Let_def)

lemma inv_tick:
  assumes "executor_inv env cfg x"
  shows "executor_inv env cfg (exec_tick now x)"
proof (cases "xd_pc x")
  case AtLoop
  then show ?thesis
    using assms
    by (simp add: exec_tick_def main_loop_head_def handle_idle_def handle_awaiting_approval_def drop_task_def
        handle_transiting_def handle_executing_def handle_returning_def handle_recalled_def Let_def inv_legs
        split: executor_state.split option.split)
next
  case (Working tid)
  then show ?thesis using inv_finish [OF assms] by (simp add: exec_tick_def)
next
  case Refilling
  then show ?thesis using assms by (simp add: exec_tick_def finish_refill_def executor_inv_def)
qed (use assms in \<open>simp add: exec_tick_def fly_on_def inv_legs\<close>)

lemma score_thresholds: "ee_thresholds (snd (score t det cx e)) = ee_thresholds e"
  by (simp add: score_def Let_def split: option.split)

lemma inv_assign:
  assumes "executor_inv env cfg x"
  shows "executor_inv env cfg (fst (assign_task uid now t det x))"
proof -
  let ?t = "t\<lparr>tk_assigned_to := Some (xc_drone_id (xd_config x)), tk_state := ASSIGNED\<rparr>"
  obtain level engine where s: "score ?t det (Some (swarm_context_of x)) (xd_engine x) = (level, engine)"
    by fastforce
  have "ee_thresholds engine = ee_thresholds (xd_engine x)"
    using score_thresholds [of ?t det "Some (swarm_context_of x)" "xd_engine x"] s by simp
  with assms have inv: "executor_inv env cfg (x\<lparr>xd_current_task := c, xd_engine := engine, xd_tasks := ts\<rparr>)" for c ts
    by (simp add: executor_inv_def)
  have "executor_inv env cfg (fst (await_approval uid now u level y))" if "executor_inv env cfg y" for u y
    using that by (simp add: await_approval_def Let_def executor_inv_def create_request_def approval_action_def
        on_node_def split: option.split)
  with inv assms s show ?thesis by (simp add: assign_task_def Let_def)
qed

interpretation executor_machine: event_machine executor_step "executor_inv env cfg"
proof unfold_locales
  fix x e assume inv: "executor_inv env cfg x"
  show "executor_inv env cfg (executor_step x e)"
  proof (cases e)
    case (NodeInput now ne)
    have "executor_inv env cfg (handle_recall y)" if "executor_inv env cfg y" for y
      using that by (simp add: handle_recall_def Let_def split: option.split)
    then have "executor_inv env cfg (executor_command s x)" for s
      using inv by (simp add: executor_command_def on_command_received_def Let_def split: sum.split command_type.split)
    moreover have "executor_inv env cfg (on_task_received now t y)" if "executor_inv env cfg y" for t y
      using that by (simp add: on_task_received_def Let_def split: sum.split option.split)
    ultimately show ?thesis
      using inv NodeInput by (simp add: node_input_def Let_def split: node_event.split sum.split)
  qed (use inv in \<open>simp_all add: inv_tick inv_assign executor_start_def executor_stop_def\<close>)
qed

lemma executor_inv_init:
  "\<lbrakk>0 \<le> xc_payload_rate cfg; 0 \<le> xc_payload_capacity cfg\<rbrakk> \<Longrightarrow> executor_inv env cfg (executor_init env cfg now)"
  by (simp add: executor_inv_def executor_init_def)

text \<open>Whatever commands, tasks and assignments an executor gets between the ticks of its loop, its
  payload stays between zero and its capacity and the alias the old name of the payload is read
  through always agrees with it.\<close>

theorem payload_in_bounds:
  assumes "0 \<le> xc_payload_rate cfg" and "0 \<le> xc_payload_capacity cfg"
  shows "let x = foldl executor_step (executor_init env cfg now) es
    in 0 \<le> xd_payload_level x \<and> xd_payload_level x \<le> xc_payload_capacity cfg
       \<and> xd_tank_level_liters x = xd_payload_level x"
  using executor_machine.run_inv [OF executor_inv_init [OF assms], where es = es]
  by (simp add: executor_inv_def Let_def)

definition sample_config :: "string \<Rightarrow> executor_config" where
  "sample_config vertical = executor_config_init None ''e'' (0, 0) 50 5 15 5 None None 20 None vertical"

lemma sample_config_payload:
  "xc_payload_rate (sample_config vertical) = 5" "xc_payload_capacity (sample_config vertical) = 100"
proof -
  have p: "load_profile None None = athena" by (simp add: load_profile_def profiles_def)
  show "xc_payload_rate (sample_config vertical) = 5" "xc_payload_capacity (sample_config vertical) = 100"
    unfolding sample_config_def executor_config_init_def p Let_def by (simp_all add: athena_def num_or_def)
qed

lemma payload_in_bounds_witness:
  "xd_payload_level (foldl executor_step (executor_init None (sample_config ''ATHENA'') 0) [StartExecutor, Tick 1]) \<le> 100"
  using payload_in_bounds [of "sample_config ''ATHENA''" None 0 "[StartExecutor, Tick 1]"]
  by (simp add: sample_config_payload Let_def)

section \<open>Approval\<close>

lemma tick_to_transit:
  assumes "executor_inv env cfg x" and "xd_state x = EX_AWAITING_APPROVAL" and "xd_state (exec_tick now x) = EX_TRANSITING"
  shows "\<exists>esc. xd_pending_escalation x = Some esc \<and> of_int (er_timeout_seconds esc) \<le> now - er_created_at esc
     \<and> er_timeout_action esc = ''proceed''"
proof -
  have legs: "xd_state (begin_legs ls a y) = xd_state y \<or> xd_state (begin_legs ls a y) = EX_EXECUTING" for ls a y
    by (induction ls)
       (auto simp: begin_legs.simps(2) arrive_def Let_def on_node_def split: arrival.split)
  show ?thesis
  proof (cases "xd_pc x")
    case AtLoop
    then show ?thesis
      using assms
      by (auto simp: exec_tick_def main_loop_head_def handle_awaiting_approval_def drop_task_def executor_inv_def
          Let_def split: option.splits if_splits)
  next
    case (Flying l c steps i ls a)
    then show ?thesis
      using assms(2,3) legs [of ls a x]
      by (auto simp: exec_tick_def fly_on_def on_node_def split: if_splits)
  qed (use assms in \<open>auto simp: exec_tick_def finish_work_def finish_refill_def Let_def split: if_splits\<close>)
qed

text \<open>C37: Nothing but a timeout ever answers a request for approval. In any run, an executor that waits for
  approval starts for its task only at a tick that comes after the timeout, and only in a vertical
  whose action on timeout is to proceed; in the defense vertical it never does.\<close>

theorem approval_only_by_timeout:
  assumes "0 \<le> xc_payload_rate cfg" and "0 \<le> xc_payload_capacity cfg"
    and "x = foldl executor_step (executor_init env cfg t0) es" and "xd_state x = EX_AWAITING_APPROVAL"
    and "xd_state (executor_step x e) = EX_TRANSITING"
  shows "approval_action (xc_vertical cfg) = ''proceed'' \<and> xc_vertical cfg \<noteq> ''ATHENA''
    \<and> (\<exists>now esc. e = Tick now \<and> xd_pending_escalation x = Some esc
          \<and> of_int (er_timeout_seconds esc) \<le> now - er_created_at esc)"
proof -
  have inv: "executor_inv env cfg x"
    unfolding assms(3) by (rule executor_machine.run_inv [OF executor_inv_init [OF assms(1,2)]])
  have "xd_state (executor_command s x) \<noteq> EX_TRANSITING" for s
    using assms(4)
    by (auto simp: executor_command_def on_command_received_def handle_recall_def on_node_def Let_def
        split: sum.split command_type.split)
  then have "\<exists>now. e = Tick now"
    using assms(4,5)
    by (cases e) (auto simp: assign_task_def executor_available_def node_input_def on_task_received_def on_node_def
        executor_start_def executor_stop_def Let_def split: node_event.splits sum.splits if_splits)
  then obtain now where e: "e = Tick now" by blast
  obtain esc where esc: "xd_pending_escalation x = Some esc"
    "of_int (er_timeout_seconds esc) \<le> now - er_created_at esc" "er_timeout_action esc = ''proceed''"
    using tick_to_transit [OF inv assms(4)] assms(5) e by auto
  with inv have a: "approval_action (xc_vertical cfg) = ''proceed''" by (simp add: executor_inv_def)
  have "approval_action ''ATHENA'' = ''abort''"
    by (simp add: approval_action_def engine_init_def vertical_thresholds_def escalation_thresholds0_def)
  with a have "xc_vertical cfg \<noteq> ''ATHENA''" by auto
  with a e esc show ?thesis by blast
qed

definition ready_executor :: "string \<Rightarrow> executor" where
  "ready_executor vertical = executor_start (executor_init None (sample_config vertical) 0)"

definition sample_job :: "task_type \<Rightarrow> task" where
  "sample_job ty = Cbba.sample_task ''t'' ty"

lemma sample_config_fields:
  "xc_vertical (sample_config vertical) = vertical" "xc_min_battery_percent (sample_config vertical) = 20"
  "xc_transit_speed_mps (sample_config vertical) = 15" "xc_drone_id (sample_config vertical) = ''e''"
  "xc_capabilities (sample_config vertical) = map task_type_value all_task_types"
  by (simp_all add: sample_config_def executor_config_init_def Let_def list_or_def)

lemma ready_fields:
  "xd_state (ready_executor v) = EX_IDLE" "xd_running (ready_executor v)" "\<not> xd_recalled (ready_executor v)"
  "xd_pc (ready_executor v) = AtLoop" "xd_config (ready_executor v) = sample_config v"
  "xd_engine (ready_executor v) = engine_init v None" "xd_payload_level (ready_executor v) = 100"
  "bs_percentage (dt_battery (nd_telemetry (xd_node (ready_executor v)))) = 100"
  "ss_members (nd_swarm (xd_node (ready_executor v))) = []" "xd_tasks (ready_executor v) = []"
  "xd_escalation_response (ready_executor v) = None" "xd_current_task (ready_executor v) = None"
  "xd_pending_escalation (ready_executor v) = None"
  by (simp_all add: ready_executor_def executor_start_def executor_init_def on_node_def update_status_def
      update_position_def node_start_def setup_publishers_def setup_subscribers_def node_on_command_def
      node_on_task_def node_init_def telemetry0_def battery_state0_def swarm_state0_def Let_def
      sample_config_payload sample_config_fields)

lemma ready_available: "executor_available (ready_executor v)"
  by (simp add: executor_available_def ready_fields sample_config_fields sample_config_payload)

lemma ready_assign:
  assumes "score (sample_job ty\<lparr>tk_assigned_to := Some ''e'', tk_state := ASSIGNED\<rparr>) None
     (Some (swarm_context_of (ready_executor v))) (engine_init v None) = (level, engine)"
    and "level \<notin> {APPROVE_REQUIRED, EMERGENCY}"
  shows "\<exists>y. assign_task uid now (sample_job ty) None (ready_executor v) = (y, None) \<and> xd_state y = EX_TRANSITING"
proof -
  have "task_type_value (tk_task_type (sample_job ty)) \<in> set (xc_capabilities (xd_config (ready_executor v)))"
    by (cases ty) (simp_all add: ready_fields sample_config_fields sample_job_def Cbba.sample_task_def all_task_types_def)
  then show ?thesis
    using assms ready_available [of v] by (simp add: assign_task_def ready_fields sample_config_fields Let_def)
qed

lemma relay_score:
  "score (sample_job PHOTOGRAPH\<lparr>tk_assigned_to := Some ''e'', tk_state := ASSIGNED\<rparr>) None cx (engine_init v None)
   = (AUTO, engine_init v None)" if "v \<in> {''CERES'', ''ATHENA''}"
  using that by (auto simp: score_def sample_job_def Cbba.sample_task_def engine_init_def vertical_thresholds_def
      escalation_thresholds0_def Let_def)

lemma assigned_task_completes_witness:
  "\<exists>y n. assign_task ''u'' 0 (sample_job PHOTOGRAPH) None (ready_executor ''CERES'') = (y, None)
     \<and> (\<forall>ts. length ts = n \<longrightarrow> xd_current_task (run_ticks ts y) = None)"
proof -
  obtain y where y: "assign_task ''u'' 0 (sample_job PHOTOGRAPH) None (ready_executor ''CERES'') = (y, None)"
    "xd_state y = EX_TRANSITING"
    using ready_assign [OF relay_score, of "''CERES''"] by auto
  have c: "task_type_value (tk_task_type (sample_job PHOTOGRAPH))
      \<in> set (xc_capabilities (xd_config (ready_executor ''CERES'')))"
    by (simp add: ready_fields sample_config_fields sample_job_def Cbba.sample_task_def all_task_types_def)
  have s: "xc_transit_speed_mps (xd_config (ready_executor ''CERES'')) \<noteq> 0"
    by (simp add: ready_fields sample_config_fields)
  from assigned_task_completes [OF ready_available c ready_fields(2-4) s y]
  show ?thesis using y(1) unfolding Let_def by blast
qed

lemma recall_does_not_hold_witness:
  "\<exists>x. xd_state (exec_tick 9 (handle_recall x)) \<in> {EX_IDLE, EX_RETURNING} \<and> xd_recalled (exec_tick 9 (handle_recall x))"
  using recall_does_not_hold [of "(ready_executor ''CERES'')\<lparr>xd_pc := Working ''t'', xd_current_task := Some ''t'',
      xd_tasks := [(''t'', sample_job PHOTOGRAPH)]\<rparr>" "''t''" "sample_job PHOTOGRAPH" 9]
  by (simp add: Let_def) blast

lemma approval_only_by_timeout_witness:
  "\<exists>x. xd_state x = EX_AWAITING_APPROVAL \<and> xd_state (executor_step x (Tick 30)) = EX_TRANSITING
     \<and> approval_action ''CERES'' = ''proceed''"
proof -
  let ?cfg = "sample_config ''CERES''" and ?t = "sample_job DROP_SUPPLIES"
  let ?es = "[StartExecutor, AssignTask ''u'' 0 ?t None]"
  define x where "x = foldl executor_step (executor_init None ?cfg 0) ?es"
  let ?r = "ready_executor ''CERES''"
  have x: "x = fst (assign_task ''u'' 0 ?t None ?r)" by (simp add: x_def ready_executor_def)
  have c: "task_type_value (tk_task_type ?t) \<in> set (xc_capabilities (xd_config ?r))"
    by (simp add: ready_fields sample_config_fields sample_job_def Cbba.sample_task_def all_task_types_def)
  have sc: "score (?t\<lparr>tk_assigned_to := Some ''e'', tk_state := ASSIGNED\<rparr>) None cx (engine_init ''CERES'' None)
      = (APPROVE_REQUIRED, engine_init ''CERES'' None)" for cx
    by (simp add: score_def sample_job_def Cbba.sample_task_def engine_init_def vertical_thresholds_def
        escalation_thresholds0_def Let_def)
  have a: "xd_state x = EX_AWAITING_APPROVAL" "xd_pc x = AtLoop" "xd_running x" "xd_current_task x = Some ''t''"
    "\<exists>esc. xd_pending_escalation x = Some esc \<and> er_timeout_seconds esc = 30 \<and> er_created_at esc = 0
       \<and> er_timeout_action esc = ''proceed''" "xd_escalation_response x = None"
    unfolding x using c ready_available sc
    by (simp_all add: assign_task_def await_approval_def Let_def ready_fields sample_config_fields on_node_def
        create_request_def engine_init_def vertical_thresholds_def escalation_thresholds0_def sample_job_def
        Cbba.sample_task_def split: option.split)
  then have b: "xd_state (executor_step x (Tick 30)) = EX_TRANSITING"
    by (auto simp: exec_tick_def main_loop_head_def handle_awaiting_approval_def)
  have p: "0 \<le> xc_payload_rate ?cfg" "0 \<le> xc_payload_capacity ?cfg" by (simp_all add: sample_config_payload)
  from approval_only_by_timeout [OF p x_def a(1) b] a(1) b show ?thesis by (auto simp: sample_config_fields)
qed

section \<open>Work without approval\<close>

text \<open>The rest of the last leg of a flight to work ends in the executing state, whatever task is held then.\<close>

lemma fly_rest:
  "\<lbrakk>flies x; xd_pc x = Flying l c steps i [] ThenWork; length ts = Suc (steps - i)\<rbrakk> \<Longrightarrow>
     xd_state (run_ticks ts x) = EX_EXECUTING \<and> xd_pc (run_ticks ts x) = AtLoop \<and> flies (run_ticks ts x)
     \<and> xd_current_task (run_ticks ts x) = xd_current_task x \<and> xd_tasks (run_ticks ts x) = xd_tasks x"
proof (induction ts arbitrary: i x)
  case (Cons u us)
  have ok: "\<not> leg_broken l x" using Cons.prems(1) by (simp add: leg_broken_def flies_def split: leg.split)
  show ?case
  proof (cases "i < steps")
    case True
    let ?y = "(moved (leg_position l c ((real i + 1) / real steps)) x)\<lparr>xd_pc := Flying l c steps (i + 1) [] ThenWork\<rparr>"
    have "exec_tick u x = ?y" using True ok Cons.prems(2) by (simp add: exec_tick_def fly_on_def moved_def)
    moreover have "flies ?y" "xd_pc ?y = Flying l c steps (i + 1) [] ThenWork" "length us = Suc (steps - (i + 1))"
      using Cons.prems True by (simp_all add: flies_def)
    ultimately show ?thesis using Cons.IH [of ?y "i + 1"] by simp
  next
    case False
    then have "exec_tick u x = arrive ThenWork x" "us = []"
      using Cons.prems by (simp_all add: exec_tick_def fly_on_def)
    then show ?thesis using Cons.prems(1) by (simp add: arrive_def flies_def)
  qed
qed simp

text \<open>C38: A recall and a redeployment let work go ahead that nobody approved: an executor on the last leg
  of its flight to a task that is recalled, redeployed and then given a task that needs approval waits
  for the approval and flies on; when the old flight ends it works on the new task, without an answer
  and without a timeout.\<close>

theorem unapproved_work:
  assumes "flies x" and "xd_pc x = Flying l c steps i [] ThenWork"
    and "dc_type (cg_command recall) = RECALL_FOR_UPDATE" and "dc_type (cg_command redeploy) = REDEPLOY"
    and "assign_task uid now t det (on_command_received redeploy (on_command_received recall x)) = (y, err)"
    and "xd_state y = EX_AWAITING_APPROVAL"
    and "xd_escalation_response x = None"
  shows "xd_escalation_response y = None \<and> xd_pending_escalation y \<noteq> None
    \<and> (\<exists>n. \<forall>ts. length ts = n \<longrightarrow> xd_pc (run_ticks ts y) = Working (tk_id t))"
proof -
  let ?z = "on_command_received redeploy (on_command_received recall x)"
  have z: "flies ?z" "xd_pc ?z = xd_pc x" "xd_state ?z = EX_IDLE"
    using assms(1,3,4)
    by (simp_all add: on_command_received_def handle_recall_def Let_def on_node_def flies_def split: option.split)
  obtain level engine where s: "score (t\<lparr>tk_assigned_to := Some (xc_drone_id (xd_config ?z)), tk_state := ASSIGNED\<rparr>)
      det (Some (swarm_context_of ?z)) (xd_engine ?z) = (level, engine)" by fastforce
  have y: "flies y" "xd_pc y = xd_pc x" "xd_current_task y = Some (tk_id t)" "xd_pending_escalation y \<noteq> None"
    "xd_escalation_response y = xd_escalation_response ?z"
    using assms(5,6) s z
    by (auto simp: assign_task_def await_approval_def Let_def on_node_def flies_def split: if_splits option.splits)
  have "xd_pc (run_ticks ts y) = Working (tk_id t)" if "length ts = Suc (Suc (steps - i))" for ts
  proof -
    let ?us = "butlast ts" and ?u = "last ts"
    have "ts \<noteq> []" and len: "length ?us = Suc (steps - i)" using that by auto
    then have ts: "ts = ?us @ [?u]" by simp
    have "xd_pc y = Flying l c steps i [] ThenWork" using y(2) assms(2) by simp
    from fly_rest [OF y(1) this len] y(3)
    have "xd_pc (run_ticks (?us @ [?u]) y) = Working (tk_id t)"
      by (simp add: run_ticks_append exec_tick_def main_loop_head_def handle_executing_def flies_def)
    with ts show ?thesis by simp
  qed
  moreover have "xd_escalation_response ?z = None"
    using assms(3,4,7)
    by (simp add: on_command_received_def handle_recall_def Let_def on_node_def split: option.split)
  ultimately show ?thesis using y(4,5) by auto
qed

lemma unapproved_work_witness:
  "\<exists>y. xd_pending_escalation y \<noteq> None \<and> (\<exists>n. \<forall>ts. length ts = n \<longrightarrow> xd_pc (run_ticks ts y) = Working ''t'')"
proof -
  let ?pc = "Flying (Climb geo_position0) geo_position0 5 2 [] ThenWork" and ?t = "sample_job DROP_SUPPLIES"
  let ?x = "(ready_executor ''CERES'')\<lparr>xd_pc := ?pc\<rparr>"
  define cmd where "cmd = (\<lambda>ty. \<lparr>cg_id = ''c'', cg_target_drone = ''e'', cg_command = \<lparr>dc_type = ty, dc_payload = None\<rparr>,
    cg_issued_by = ''b'', cg_issued_at = 0, cg_priority = 5\<rparr> :: brain_command)"
  define z where "z = on_command_received (cmd REDEPLOY) (on_command_received (cmd RECALL_FOR_UPDATE) ?x)"
  have z: "executor_available z" "xd_config z = sample_config ''CERES''" "xd_engine z = engine_init ''CERES'' None"
    using ready_available [of "''CERES''"]
    by (simp_all add: z_def cmd_def on_command_received_def handle_recall_def Let_def on_node_def update_status_def
        executor_available_def ready_fields)
  have c: "task_type_value (tk_task_type ?t) \<in> set (xc_capabilities (sample_config ''CERES''))"
    by (simp add: sample_config_fields sample_job_def Cbba.sample_task_def all_task_types_def)
  have sc: "score (?t\<lparr>tk_assigned_to := Some ''e'', tk_state := ASSIGNED\<rparr>) None cx (engine_init ''CERES'' None)
      = (APPROVE_REQUIRED, engine_init ''CERES'' None)" for cx
    by (simp add: score_def sample_job_def Cbba.sample_task_def engine_init_def vertical_thresholds_def
        escalation_thresholds0_def Let_def)
  obtain y err where y: "assign_task ''u'' 0 ?t None z = (y, err)" by fastforce
  then have "xd_state y = EX_AWAITING_APPROVAL"
    using c sc z by (auto simp: assign_task_def await_approval_def Let_def sample_config_fields on_node_def
        split: option.splits)
  moreover have "flies ?x" by (simp add: flies_def ready_fields)
  moreover have "tk_id ?t = ''t''" by (simp add: sample_job_def Cbba.sample_task_def)
  ultimately show ?thesis
    using unapproved_work [of ?x "Climb geo_position0" geo_position0 5 2 "cmd RECALL_FOR_UPDATE" "cmd REDEPLOY"
        "''u''" 0 ?t None y err] y
    by (auto simp: cmd_def z_def ready_fields)
qed

end
