(* ===== verification/Swarmnet.thy ===== *)
theory Swarmnet
  imports MissionProfile Struct
begin

text \<open>
  The learning layer of the brain (\<open>olympus_brain/swarmnet.py\<close>): the drift detector, the
  on-device trainer, the aggregator at the base station and the controller on each drone.

  numpy is not part of the repository. What the source takes from it as more than arithmetic is the
  record \<open>numpy_lib\<close>, an argument of the operations that use it: the values of a seeded
  \<open>RandomState(seed).randn(n)\<close> and the four bytes of a \<open>float32\<close>. Arrays are lists (a matrix is
  the list of its rows) and their entries exact reals, so the rounding to \<open>float32\<close> shows only where an
  array is turned into bytes. The clock, the random start weights, the fresh ids and the jitter of
  \<open>infer\<close> are arguments; a method that may raise gives back the state it leaves behind too.
\<close>

section \<open>What the code takes from numpy\<close>

record numpy_lib =
  np_randn :: "int \<Rightarrow> nat \<Rightarrow> real list"
  np_f32 :: "real \<Rightarrow> bytes"
  np_of_f32 :: "bytes \<Rightarrow> real"

text \<open>The documented sizes: \<open>randn(n)\<close> has n entries and a \<open>float32\<close> four bytes.\<close>

definition numpy_ok :: "numpy_lib \<Rightarrow> bool" where
  "numpy_ok np \<longleftrightarrow> (\<forall>s n. length (np_randn np s n) = n) \<and> (\<forall>x. length (np_f32 np x) = 4)"

definition softmax :: "real list \<Rightarrow> real list result" where
  "softmax xs =
     (if xs = [] then Inl ValueError
      else let e = map (\<lambda>x. exp (x - Max (set xs))) xs in Inr (map (\<lambda>y. y / sum_list e) e))"

text \<open>\<open>np.argmax\<close>: the first index of the greatest entry.\<close>

definition argmax :: "real list \<Rightarrow> nat" where
  "argmax xs = length (takeWhile (\<lambda>x. x < Max (set xs)) xs)"

text \<open>\<open>features @ weights + bias\<close> for a matrix of \<open>n\<close> columns.\<close>

definition affine :: "nat \<Rightarrow> real list \<Rightarrow> real list list \<Rightarrow> real list \<Rightarrow> real list" where
  "affine n f w b = map (\<lambda>j. sum_list (map2 (\<lambda>a row. a * row ! j) f w) + b ! j) [0..<n]"

text \<open>\<open>weights -= lr * np.outer(features, grad)\<close> and \<open>bias -= lr * grad\<close>.\<close>

definition descend :: "real \<Rightarrow> real list \<Rightarrow> real list \<Rightarrow> real list" where
  "descend lr grad row = map2 (\<lambda>x g. x - lr * g) row grad"

definition descend_outer :: "real \<Rightarrow> real list \<Rightarrow> real list \<Rightarrow> real list list \<Rightarrow> real list list" where
  "descend_outer lr f grad w = map2 (\<lambda>a row. descend (lr * a) grad row) f w"

definition f32_bytes :: "numpy_lib \<Rightarrow> real list \<Rightarrow> bytes" where
  "f32_bytes np xs = concat (map (np_f32 np) xs)"

fun read_floats :: "numpy_lib \<Rightarrow> nat \<Rightarrow> bytes \<Rightarrow> real list" where
  "read_floats np 0 bs = []"
| "read_floats np (Suc n) bs = np_of_f32 np (take 4 bs) # read_floats np n (drop 4 bs)"

text \<open>\<open>reshape(rows, columns)\<close> of an array with that many entries.\<close>

fun reshape :: "nat \<Rightarrow> nat \<Rightarrow> 'a list \<Rightarrow> 'a list list" where
  "reshape 0 c xs = []"
| "reshape (Suc r) c xs = take c xs # reshape r c (drop c xs)"

section \<open>Drift detection\<close>

text \<open>The minima start at \<open>float("inf")\<close>, which is None here.\<close>

record drift_detector =
  dd_threshold :: real
  dd_min_samples :: int
  dd_alpha :: real
  dd_n :: int
  dd_sum :: real
  dd_down :: real
  dd_down_min :: "real option"
  dd_up :: real
  dd_up_min :: "real option"

definition drift_init :: "real \<Rightarrow> int \<Rightarrow> real \<Rightarrow> drift_detector" where
  "drift_init threshold min_samples alpha =
     \<lparr>dd_threshold = threshold, dd_min_samples = min_samples, dd_alpha = alpha, dd_n = 0, dd_sum = 0,
      dd_down = 0, dd_down_min = None, dd_up = 0, dd_up_min = None\<rparr>"

definition lower :: "real option \<Rightarrow> real \<Rightarrow> real" where
  "lower m x = (case m of None \<Rightarrow> x | Some y \<Rightarrow> min y x)"

definition drift_update :: "real \<Rightarrow> drift_detector \<Rightarrow> bool \<times> drift_detector" where
  "drift_update value d =
     (let n = dd_n d + 1; total = dd_sum d + value; mean = total / of_int n;
          up = dd_up d + (value - mean - dd_alpha d); up_min = lower (dd_up_min d) up;
          down = dd_down d + (mean - value - dd_alpha d); down_min = lower (dd_down_min d) down;
          d' = d\<lparr>dd_n := n, dd_sum := total, dd_up := up, dd_up_min := Some up_min,
                 dd_down := down, dd_down_min := Some down_min\<rparr>
      in (if n < dd_min_samples d then False else dd_threshold d < down - down_min, d'))"

definition drift_reset :: "drift_detector \<Rightarrow> drift_detector" where
  "drift_reset d =
     d\<lparr>dd_n := 0, dd_sum := 0, dd_down := 0, dd_down_min := None, dd_up := 0, dd_up_min := None\<rparr>"

section \<open>The trainer\<close>

record local_trainer =
  lt_types :: "string list"
  lt_num_classes :: nat
  lt_class_to_idx :: "(string, nat) dict"
  lt_model_version :: int
  lt_buffer_size :: int
  lt_learning_rate :: real
  lt_feature_dim :: nat
  lt_weights :: "real list list"
  lt_bias :: "real list"
  lt_feature_buffer :: "real list list"
  lt_label_buffer :: "nat list"
  lt_label_counts :: "(string, int) dict"
  lt_correct :: int
  lt_total :: int
  lt_gps_denied :: bool
  lt_origin :: "geo_position option"
  lt_last_position :: "geo_position option"
  lt_displacement :: "real list"

fun class_index :: "nat \<Rightarrow> string list \<Rightarrow> (string, nat) dict \<Rightarrow> (string, nat) dict" where
  "class_index i [] d = d"
| "class_index i (ty # tys) d = class_index (i + 1) tys (dset ty i d)"

text \<open>\<open>w0\<close> is the random start matrix, 32 rows with an entry per class.\<close>

definition trainer_init ::
  "string list \<Rightarrow> int \<Rightarrow> int \<Rightarrow> real \<Rightarrow> bool \<Rightarrow> real list list \<Rightarrow> local_trainer" where
  "trainer_init types model_version buffer_size learning_rate gps_denied w0 =
     \<lparr>lt_types = types, lt_num_classes = length types, lt_class_to_idx = class_index 0 types [],
      lt_model_version = model_version, lt_buffer_size = buffer_size, lt_learning_rate = learning_rate,
      lt_feature_dim = 32, lt_weights = map (map (\<lambda>x. x * 0.1)) w0, lt_bias = replicate (length types) 0,
      lt_feature_buffer = [], lt_label_buffer = [], lt_label_counts = [], lt_correct = 0, lt_total = 0,
      lt_gps_denied = gps_denied, lt_origin = None, lt_last_position = None, lt_displacement = [0, 0, 0]\<rparr>"

definition set_gps_denied :: "bool \<Rightarrow> local_trainer \<Rightarrow> local_trainer" where
  "set_gps_denied denied t =
     (if denied \<and> \<not> lt_gps_denied t
      then t\<lparr>lt_origin := (case lt_last_position t of None \<Rightarrow> lt_origin t | Some p \<Rightarrow> Some p),
             lt_displacement := [0, 0, 0], lt_gps_denied := denied\<rparr>
      else t\<lparr>lt_gps_denied := denied\<rparr>)"

definition features_absolute :: "numpy_lib \<Rightarrow> nat \<Rightarrow> geo_position \<Rightarrow> real list result" where
  "features_absolute np fdim p =
     (let lat = gp_latitude p; lon = gp_longitude p;
          seed = py_int (py_fmod (lat * 1000000 + lon * 1000000) (2 ^ 31))
      in if fdim < 4 then Inl IndexError
         else Inr ([py_fmod lat 1, py_fmod lon 1, sin (lat * 1000), cos (lon * 1000)]
                   @ map (\<lambda>z. z * 0.1) (np_randn np seed (fdim - 4))))"

definition displacement :: "geo_position \<Rightarrow> geo_position \<Rightarrow> real list" where
  "displacement origin p =
     [(gp_longitude p - gp_longitude origin) * 111320 * cos (radians (gp_latitude origin)),
      (gp_latitude p - gp_latitude origin) * 110540, gp_altitude p - gp_altitude origin]"

definition features_relative :: "numpy_lib \<Rightarrow> nat \<Rightarrow> real list \<Rightarrow> real list result" where
  "features_relative np fdim disp =
     (let dx = disp ! 0; dy = disp ! 1; dz = disp ! 2;
          disp_mag = sqrt (dx\<^sup>2 + dy\<^sup>2 + dz\<^sup>2);
          seed = py_int (disp_mag * 1000) mod 2 ^ 31;
          bearing = (if 0.1 < \<bar>dx\<bar> + \<bar>dy\<bar> then Arg (Complex dy dx) else 0)
      in if fdim < 7 then Inl IndexError
         else Inr ([dx / 100, dy / 100, sin (disp_mag / 50), cos (disp_mag / 50), sin bearing, cos bearing, dz / 50]
                   @ map (\<lambda>z. z * 0.1) (np_randn np seed (fdim - 7))))"

definition extract_features :: "numpy_lib \<Rightarrow> geo_position \<Rightarrow> local_trainer \<Rightarrow> real list result \<times> local_trainer" where
  "extract_features np p t =
     (let t1 = t\<lparr>lt_last_position := Some p\<rparr>
      in if lt_gps_denied t
         then let origin = (case lt_origin t of None \<Rightarrow> p | Some q \<Rightarrow> q); disp = displacement origin p
              in (features_relative np (lt_feature_dim t) disp,
                  t1\<lparr>lt_origin := Some origin, lt_displacement := disp\<rparr>)
         else (features_absolute np (lt_feature_dim t) p, t1))"

definition logits :: "real list \<Rightarrow> local_trainer \<Rightarrow> real list" where
  "logits f t = affine (lt_num_classes t) f (lt_weights t) (lt_bias t)"

text \<open>Per class: the fresh id and the two jitters of the detection it may become.\<close>

fun infer_loop ::
  "(nat \<Rightarrow> string \<times> real \<times> real) \<Rightarrow> real \<Rightarrow> geo_position \<Rightarrow> string list \<Rightarrow> nat \<Rightarrow> real list \<Rightarrow> detection list result" where
  "infer_loop fresh now p types i [] = Inr []"
| "infer_loop fresh now p types i (pr # prs) =
     (if 0.5 < pr \<and> i < length types
      then case detection_type_of (types ! i) of
             Inl e \<Rightarrow> infer_loop fresh now p types (i + 1) prs
           | Inr ty \<Rightarrow>
               let (uid, jlat, jlon) = fresh i;
                   spot = geo_position0\<lparr>gp_latitude := gp_latitude p + jlat, gp_longitude := gp_longitude p + jlon,
                                      gp_altitude := 0\<rparr>
               in rbind (detection_create uid now ty spot pr (ascii ''swarmnet'')
                           (max 1 (min 10 (py_int ((1 - pr) * 10)))))
                    (\<lambda>d. rbind (infer_loop fresh now p types (i + 1) prs) (\<lambda>ds. Inr (d # ds)))
      else infer_loop fresh now p types (i + 1) prs)"

definition infer ::
  "numpy_lib \<Rightarrow> (nat \<Rightarrow> string \<times> real \<times> real) \<Rightarrow> real \<Rightarrow> geo_position \<Rightarrow> local_trainer
     \<Rightarrow> detection list result \<times> local_trainer" where
  "infer np fresh now p t =
     (let (f, t1) = extract_features np p t
      in (rbind f (\<lambda>fs. rbind (softmax (logits fs t)) (infer_loop fresh now p (lt_types t) 0)), t1))"

definition gradient_step :: "real \<Rightarrow> real list \<Rightarrow> real list \<Rightarrow> local_trainer \<Rightarrow> local_trainer" where
  "gradient_step lr f grad t =
     t\<lparr>lt_weights := descend_outer lr f grad (lt_weights t), lt_bias := descend lr grad (lt_bias t)\<rparr>"

text \<open>The observation is filed before the step that may raise.\<close>

definition remember :: "string \<Rightarrow> real list \<Rightarrow> nat \<Rightarrow> local_trainer \<Rightarrow> local_trainer" where
  "remember ty f label t =
     (let fb = lt_feature_buffer t @ [f]; lb = lt_label_buffer t @ [label];
          counts = dset ty ((case dget (lt_label_counts t) ty of None \<Rightarrow> 0 | Some k \<Rightarrow> k) + 1) (lt_label_counts t);
          over = lt_buffer_size t < int (length fb)
      in t\<lparr>lt_feature_buffer := (if over then tl fb else fb), lt_label_buffer := (if over then tl lb else lb),
           lt_label_counts := counts\<rparr>)"

definition train_step :: "numpy_lib \<Rightarrow> detection \<Rightarrow> local_trainer \<Rightarrow> local_trainer \<times> py_error option" where
  "train_step np d t =
     (let ty = detection_type_value (de_detection_type d)
      in case dget (lt_class_to_idx t) ty of
           None \<Rightarrow> (t, None)
         | Some label \<Rightarrow>
             (case extract_features np (de_position d) t of
                (Inl e, t1) \<Rightarrow> (t1, Some e)
              | (Inr f, t1) \<Rightarrow>
                  (let t2 = remember ty f label t1
                   in case softmax (logits f t2) of
                        Inl e \<Rightarrow> (t2, Some e)
                      | Inr probs \<Rightarrow>
                          (let t3 = t2\<lparr>lt_correct := lt_correct t2 + (if argmax probs = label then 1 else 0),
                                       lt_total := lt_total t2 + 1\<rparr>
                           in if label < length probs
                              then ((gradient_step (lt_learning_rate t3) f (probs[label := probs ! label - 1]) t3)
                                      \<lparr>lt_model_version := lt_model_version t3 + 1\<rparr>, None)
                              else (t3, Some IndexError)))))"

definition get_weights :: "numpy_lib \<Rightarrow> local_trainer \<Rightarrow> bytes result" where
  "get_weights np t =
     rbind (struct_pack [SU 4, SU 4] [VInt (int (lt_feature_dim t)), VInt (int (lt_num_classes t))])
       (\<lambda>header. Inr (header @ f32_bytes np (concat (lt_weights t)) @ f32_bytes np (lt_bias t)))"

text \<open>The slices are as long as the sizes in the header ask for, so \<open>frombuffer\<close> reads whole entries
  and \<open>reshape\<close> fits.\<close>

definition set_weights :: "numpy_lib \<Rightarrow> bytes \<Rightarrow> local_trainer \<Rightarrow> local_trainer" where
  "set_weights np data t =
     (if length data < 8 then t
      else let feat_dim = nat (le_int (take 4 data)); num_cls = nat (le_int (take 4 (drop 4 data)));
               w_size = feat_dim * num_cls * 4; b_size = num_cls * 4
           in if length data < 8 + w_size + b_size then t
              else t\<lparr>lt_weights := reshape feat_dim num_cls (read_floats np (feat_dim * num_cls) (drop 8 data)),
                     lt_bias := read_floats np num_cls (drop (8 + w_size) data),
                     lt_feature_dim := feat_dim, lt_num_classes := num_cls\<rparr>)"

definition get_accuracy :: "local_trainer \<Rightarrow> real" where
  "get_accuracy t = (if lt_total t = 0 then 0 else of_int (lt_correct t) / of_int (lt_total t))"

definition get_metadata :: "string \<Rightarrow> real \<Rightarrow> local_trainer \<Rightarrow> model_metadata" where
  "get_metadata drone_id now t =
     \<lparr>mm_drone_id = drone_id, mm_model_version = lt_model_version t, mm_accuracy = get_accuracy t,
      mm_label_distribution = lt_label_counts t, mm_timestamp = now\<rparr>"

text \<open>The class probabilities at each position, one after the other; a failing extraction ends the loop.\<close>

fun soft_label_loop ::
  "numpy_lib \<Rightarrow> geo_position list \<Rightarrow> local_trainer \<Rightarrow> real list list result \<times> local_trainer" where
  "soft_label_loop np [] t = (Inr [], t)"
| "soft_label_loop np (p # ps) t =
     (case extract_features np p t of
        (Inl e, t1) \<Rightarrow> (Inl e, t1)
      | (Inr f, t1) \<Rightarrow>
          (case softmax (logits f t1) of
             Inl e \<Rightarrow> (Inl e, t1)
           | Inr probs \<Rightarrow>
               (case soft_label_loop np ps t1 of
                  (Inl e, t2) \<Rightarrow> (Inl e, t2)
                | (Inr rest, t2) \<Rightarrow> (Inr (probs # rest), t2))))"

definition get_soft_labels :: "numpy_lib \<Rightarrow> geo_position list \<Rightarrow> local_trainer \<Rightarrow> bytes result \<times> local_trainer" where
  "get_soft_labels np ps t =
     (let (r, t1) = soft_label_loop np ps t
      in (rbind r (\<lambda>all_probs.
            rbind (struct_pack [SU 4, SU 4] [VInt (int (length ps)), VInt (int (lt_num_classes t1))])
              (\<lambda>header. Inr (header @ f32_bytes np (concat all_probs)))), t1))"

text \<open>One step per position towards the teacher's distribution. \<open>np.log\<close> of \<open>teacher + 1e-8\<close> is \<open>ln\<close>
  for probabilities, which are not negative.\<close>

fun distill_loop ::
  "numpy_lib \<Rightarrow> real \<Rightarrow> real \<Rightarrow> (geo_position \<times> real list) list \<Rightarrow> local_trainer \<Rightarrow> local_trainer \<times> py_error option" where
  "distill_loop np temperature lr [] t = (t, None)"
| "distill_loop np temperature lr ((p, teacher) # rest) t =
     (case extract_features np p t of
        (Inl e, t1) \<Rightarrow> (t1, Some e)
      | (Inr f, t1) \<Rightarrow>
          (case rbind (softmax (map (\<lambda>x. x / temperature) (logits f t1)))
                  (\<lambda>student. rbind (softmax (map (\<lambda>x. ln (x + 1 / 10 ^ 8) / temperature) teacher))
                     (\<lambda>scaled. Inr (map2 (\<lambda>a b. (a - b) * temperature\<^sup>2) student scaled))) of
             Inl e \<Rightarrow> (t1, Some e)
           | Inr grad \<Rightarrow> distill_loop np temperature lr rest (gradient_step lr f grad t1)))"

definition distill_from_soft_labels ::
  "numpy_lib \<Rightarrow> bytes \<Rightarrow> geo_position list \<Rightarrow> real \<Rightarrow> real \<Rightarrow> local_trainer \<Rightarrow> local_trainer \<times> py_error option" where
  "distill_from_soft_labels np data ps temperature lr t =
     (if length data < 8 then (t, None)
      else let n_samples = nat (le_int (take 4 data)); n_classes = nat (le_int (take 4 (drop 4 data)));
               body = drop 8 data
           in if n_samples \<noteq> length ps \<or> n_classes \<noteq> lt_num_classes t then (t, None)
              else if length body mod 4 \<noteq> 0 \<or> length body div 4 \<noteq> n_samples * n_classes then (t, Some ValueError)
              else distill_loop np temperature lr
                     (zip ps (reshape n_samples n_classes (read_floats np (n_samples * n_classes) body))) t)"

definition get_intermediate_features :: "numpy_lib \<Rightarrow> geo_position \<Rightarrow> local_trainer \<Rightarrow> bytes result \<times> local_trainer" where
  "get_intermediate_features np p t =
     (let (f, t1) = extract_features np p t
      in (rbind f (\<lambda>fs. rbind (softmax (logits fs t1)) (\<lambda>probs. Inr (f32_bytes np (fs @ probs)))), t1))"

definition receive_peer_features :: "numpy_lib \<Rightarrow> bytes \<Rightarrow> local_trainer \<Rightarrow> local_trainer \<times> py_error option" where
  "receive_peer_features np data t =
     (let n = lt_feature_dim t + lt_num_classes t
      in if length data \<noteq> n * 4 then (t, None)
         else let combined = read_floats np n data;
                  peer_f = take (lt_feature_dim t) combined; peer_probs = drop (lt_feature_dim t) combined
              in case softmax (logits peer_f t) of
                   Inl e \<Rightarrow> (t, Some e)
                 | Inr student \<Rightarrow>
                     (gradient_step 0.002 peer_f (map2 (\<lambda>a b. a - b) student peer_probs) t, None))"

section \<open>The aggregator at the base station\<close>

record central_aggregator =
  ca_trainer :: local_trainer
  ca_retrain_interval :: real
  ca_contributions :: "(pystr, int) dict"
  ca_last_retrain :: real
  ca_global_version :: int
  ca_drift :: drift_detector
  ca_window :: "real list"
  ca_drift_count :: int
  ca_use_distillation :: bool

definition aggregator_init ::
  "string list \<Rightarrow> real \<Rightarrow> int \<Rightarrow> real \<Rightarrow> real list list \<Rightarrow> real \<Rightarrow> central_aggregator" where
  "aggregator_init types retrain_interval buffer_size drift_threshold w0 now =
     \<lparr>ca_trainer = trainer_init types 0 buffer_size 0.01 False w0, ca_retrain_interval = retrain_interval,
      ca_contributions = [], ca_last_retrain = now, ca_global_version = 0,
      ca_drift = drift_init drift_threshold 50 0.005, ca_window = [], ca_drift_count = 0,
      ca_use_distillation = False\<rparr>"

text \<open>A \<open>deque(maxlen=n)\<close> drops its oldest entry when it is full.\<close>

definition deque_append :: "nat \<Rightarrow> 'a \<Rightarrow> 'a list \<Rightarrow> 'a list" where
  "deque_append n x xs = (let ys = xs @ [x] in drop (length ys - n) ys)"

definition receive_detection ::
  "numpy_lib \<Rightarrow> detection \<Rightarrow> central_aggregator \<Rightarrow> central_aggregator \<times> py_error option" where
  "receive_detection np d a =
     (case train_step np d (ca_trainer a) of
        (t, Some e) \<Rightarrow> (a\<lparr>ca_trainer := t\<rparr>, Some e)
      | (t, None) \<Rightarrow>
          (let who = de_detected_by d;
               k = (case dget (ca_contributions a) who of None \<Rightarrow> 0 | Some k \<Rightarrow> k);
               accuracy = get_accuracy t; (drift, dd) = drift_update accuracy (ca_drift a);
               a1 = a\<lparr>ca_trainer := t, ca_contributions := dset who (k + 1) (ca_contributions a),
                      ca_window := deque_append 100 accuracy (ca_window a), ca_drift := dd\<rparr>
           in (if drift then a1\<lparr>ca_drift := drift_reset dd, ca_drift_count := ca_drift_count a1 + 1\<rparr> else a1, None)))"

definition should_publish :: "real \<Rightarrow> central_aggregator \<Rightarrow> bool" where
  "should_publish now a = (0 < ca_drift_count a \<or> ca_retrain_interval a \<le> now - ca_last_retrain a)"

text \<open>The bookkeeping of both kinds of update.\<close>

definition next_version :: "real \<Rightarrow> central_aggregator \<Rightarrow> central_aggregator" where
  "next_version now a =
     a\<lparr>ca_last_retrain := now, ca_global_version := ca_global_version a + 1,
       ca_drift_count := max 0 (ca_drift_count a - 1)\<rparr>"

definition get_global_weights :: "numpy_lib \<Rightarrow> real \<Rightarrow> central_aggregator \<Rightarrow> (bytes \<times> int) result \<times> central_aggregator" where
  "get_global_weights np now a =
     (let a' = next_version now a
      in (rbind (get_weights np (ca_trainer a')) (\<lambda>w. Inr (w, ca_global_version a')), a'))"

definition aggregator_soft_labels ::
  "numpy_lib \<Rightarrow> geo_position list \<Rightarrow> real \<Rightarrow> central_aggregator \<Rightarrow> (bytes \<times> int) result \<times> central_aggregator" where
  "aggregator_soft_labels np ps now a =
     (let a' = next_version now a; (r, t) = get_soft_labels np ps (ca_trainer a')
      in (rbind r (\<lambda>w. Inr (w, ca_global_version a')), a'\<lparr>ca_trainer := t\<rparr>))"

definition set_bandwidth_mode :: "bool \<Rightarrow> central_aggregator \<Rightarrow> central_aggregator" where
  "set_bandwidth_mode limited a = a\<lparr>ca_use_distillation := limited\<rparr>"

definition aggregator_status :: "real \<Rightarrow> central_aggregator \<Rightarrow> swarm_net_status" where
  "aggregator_status now a =
     \<lparr>sns_active_drones = int (length (ca_contributions a)), sns_model_versions = [(''global'', ca_global_version a)],
      sns_accuracies = [(''global'', get_accuracy (ca_trainer a))], sns_contributions = ca_contributions a,
      sns_timestamp = now\<rparr>"

section \<open>The controller on a drone\<close>

text \<open>\<open>sc_acks\<close> is what the acknowledgement callback, once registered, was called with.\<close>

record swarm_net_controller =
  sc_drone_id :: string
  sc_trainer :: local_trainer
  sc_global_version :: int
  sc_recent :: "geo_position list"
  sc_ack :: bool
  sc_acks :: "(string \<times> int) list"

definition controller_init :: "string \<Rightarrow> local_trainer \<Rightarrow> swarm_net_controller" where
  "controller_init drone_id t =
     \<lparr>sc_drone_id = drone_id, sc_trainer = t, sc_global_version = 0, sc_recent = [], sc_ack = False, sc_acks = []\<rparr>"

definition set_ack_callback :: "swarm_net_controller \<Rightarrow> swarm_net_controller" where
  "set_ack_callback c = c\<lparr>sc_ack := True\<rparr>"

definition receive_global_weights :: "numpy_lib \<Rightarrow> bytes \<Rightarrow> int \<Rightarrow> swarm_net_controller \<Rightarrow> swarm_net_controller" where
  "receive_global_weights np weights version c =
     (if sc_global_version c < version
      then c\<lparr>sc_trainer := (set_weights np weights (sc_trainer c))\<lparr>lt_model_version := version\<rparr>,
             sc_global_version := version,
             sc_acks := (if sc_ack c then sc_acks c @ [(sc_drone_id c, version)] else sc_acks c)\<rparr>
      else c)"

definition receive_soft_labels ::
  "numpy_lib \<Rightarrow> bytes \<Rightarrow> int \<Rightarrow> swarm_net_controller \<Rightarrow> swarm_net_controller \<times> py_error option" where
  "receive_soft_labels np data version c =
     (if sc_global_version c < version \<and> sc_recent c \<noteq> []
      then case distill_from_soft_labels np data (sc_recent c) 2 0.005 (sc_trainer c) of
             (t, Some e) \<Rightarrow> (c\<lparr>sc_trainer := t\<rparr>, Some e)
           | (t, None) \<Rightarrow> (c\<lparr>sc_trainer := t\<lparr>lt_model_version := version\<rparr>, sc_global_version := version\<rparr>, None)
      else (c, None))"

definition record_position :: "geo_position \<Rightarrow> swarm_net_controller \<Rightarrow> swarm_net_controller" where
  "record_position p c = c\<lparr>sc_recent := deque_append 64 p (sc_recent c)\<rparr>"

definition controller_metadata :: "real \<Rightarrow> swarm_net_controller \<Rightarrow> model_metadata" where
  "controller_metadata now c = get_metadata (sc_drone_id c) now (sc_trainer c)"

section \<open>Probabilities\<close>

lemma softmax_spec:
  assumes "softmax xs = Inr ps"
  shows "length ps = length xs" and "\<forall>p\<in>set ps. 0 < p" and "sum_list ps = 1"
proof -
  let ?e = "map (\<lambda>x. exp (x - Max (set xs))) xs"
  have xs: "xs \<noteq> []" and ps: "ps = map (\<lambda>y. y / sum_list ?e) ?e"
    using assms by (auto simp: softmax_def Let_def split: if_splits)
  have pos: "0 < sum_list (map (\<lambda>x. exp (x - m)) ys)" if "ys \<noteq> []" for ys and m :: real
    using that by (induction ys) (auto intro!: add_pos_nonneg sum_list_nonneg)
  have div: "sum_list (map (\<lambda>y. y / s) ys) = sum_list ys / s" for ys and s :: real
    by (induction ys) (simp_all add: add_divide_distrib)
  have S: "0 < sum_list ?e" using pos [OF xs] by blast
  show "length ps = length xs" and "\<forall>p\<in>set ps. 0 < p" unfolding ps using S by auto
  show "sum_list ps = 1" unfolding ps div using S by simp
qed

lemma softmax_total: "xs \<noteq> [] \<Longrightarrow> \<exists>ps. softmax xs = Inr ps"
  by (simp add: softmax_def Let_def)

lemma length_affine [simp]: "length (affine n f w b) = n"
  by (simp add: affine_def)

lemma length_descend [simp]: "length (descend lr g row) = min (length row) (length g)"
  by (simp add: descend_def)

lemma length_descend_outer [simp]: "length (descend_outer lr f g w) = min (length f) (length w)"
  by (simp add: descend_outer_def)

lemma descend_outer_rows:
  assumes "\<forall>row\<in>set w. length row = n" and "length g = n"
  shows "\<forall>row\<in>set (descend_outer lr f g w). length row = n"
  using assms by (auto simp: descend_outer_def dest: set_zip_rightD)

section \<open>What inference answers\<close>

lemma infer_loop_spec:
  assumes "\<forall>p\<in>set prs. 0 < p" and "sum_list prs \<le> 1"
  shows "\<exists>ds. infer_loop fresh now p types i prs = Inr ds \<and> length ds \<le> 1
    \<and> (sum_list prs \<le> 1 / 2 \<longrightarrow> ds = [])
    \<and> (\<forall>d\<in>set ds. 1 / 2 < de_confidence d \<and> de_confidence d \<le> 1 \<and> de_severity d \<in> {1..4}
        \<and> (\<exists>j < length prs. i + j < length types \<and> de_confidence d = prs ! j
             \<and> detection_type_of (types ! (i + j)) = Inr (de_detection_type d)))"
  using assms
proof (induction prs arbitrary: i)
  case (Cons pr prs)
  have pr: "0 < pr" "0 \<le> sum_list prs" "pr + sum_list prs \<le> 1" "sum_list prs \<le> 1"
    using Cons.prems sum_list_nonneg [of prs] by (force simp: less_imp_le)+
  from Cons.IH [of "i + 1"] Cons.prems(1) pr(4) obtain ds where
    ds: "infer_loop fresh now p types (i + 1) prs = Inr ds" "length ds \<le> 1" "sum_list prs \<le> 1 / 2 \<longrightarrow> ds = []"
    and all: "\<forall>d\<in>set ds. 1 / 2 < de_confidence d \<and> de_confidence d \<le> 1 \<and> de_severity d \<in> {1..4}
        \<and> (\<exists>j < length prs. i + 1 + j < length types \<and> de_confidence d = prs ! j
             \<and> detection_type_of (types ! (i + 1 + j)) = Inr (de_detection_type d))" by auto
  have shift: "\<exists>j < length (pr # prs). i + j < length types \<and> de_confidence d = (pr # prs) ! j
      \<and> detection_type_of (types ! (i + j)) = Inr (de_detection_type d)" if "d \<in> set ds" for d
    using all that by (metis Suc_less_eq add.assoc length_Cons nth_Cons_Suc plus_1_eq_Suc)
  show ?case
  proof (cases "0.5 < pr \<and> i < length types \<and> (\<exists>ty. detection_type_of (types ! i) = Inr ty)")
    case False
    then have "infer_loop fresh now p types i (pr # prs) = Inr ds"
      using ds(1) by (auto split: sum.split)
    then show ?thesis using ds(2,3) all shift pr by auto
  next
    case True
    then obtain ty where ty: "detection_type_of (types ! i) = Inr ty" by blast
    obtain uid jlat jlon where fr: "fresh i = (uid, jlat, jlon)" by (cases "fresh i")
    have "ds = []" using True pr ds(3) by simp
    have "0 \<le> (1 - pr) * 10" "(1 - pr) * 10 < 5" using True pr by simp_all
    then have "0 \<le> py_int ((1 - pr) * 10)" "py_int ((1 - pr) * 10) < 5" by (simp_all add: py_int_def floor_less_iff)
    then have sev: "max 1 (min 10 (py_int ((1 - pr) * 10))) \<in> {1..4}" by simp
    then show ?thesis
      using True ty ds(1) \<open>ds = []\<close> pr
      by (auto simp: fr detection_create_def intro!: exI [of _ "0 :: nat"])
  qed
qed simp

lemma extract_total:
  assumes "7 \<le> lt_feature_dim t" and "numpy_ok np"
  shows "\<exists>f t1. extract_features np p t = (Inr f, t1) \<and> length f = lt_feature_dim t
     \<and> t1 = t\<lparr>lt_last_position := lt_last_position t1, lt_origin := lt_origin t1, lt_displacement := lt_displacement t1\<rparr>"
  using assms by (simp add: extract_features_def features_absolute_def features_relative_def Let_def numpy_ok_def) arith

text \<open>Inference is modest: with the trainer's 32 features (any 7 are enough) and at least one class it
  never raises and answers with at most one detection, of the class whose probability is above one half
  and with that probability as its confidence. Its severity, computed from the remaining doubt, is
  between 1 and 4 on the scale of ten: the surer the model, the less severe the finding.\<close>

theorem infer_modest:
  assumes "numpy_ok np" and "7 \<le> lt_feature_dim t" and "0 < lt_num_classes t"
  shows "\<exists>ds t' probs. infer np fresh now p t = (Inr ds, t') \<and> length ds \<le> 1
     \<and> length probs = lt_num_classes t \<and> sum_list probs = 1
     \<and> (\<forall>d\<in>set ds. 1 / 2 < de_confidence d \<and> de_severity d \<in> {1..4}
          \<and> (\<exists>j < length probs. j < length (lt_types t) \<and> de_confidence d = probs ! j
                \<and> detection_type_of (lt_types t ! j) = Inr (de_detection_type d)))"
proof -
  obtain f t1 where f: "extract_features np p t = (Inr f, t1)" using extract_total [OF assms(2,1)] by blast
  have "logits f t \<noteq> []" using assms(3) by (simp add: logits_def flip: length_greater_0_conv)
  then obtain probs where pr: "softmax (logits f t) = Inr probs" using softmax_total by blast
  note s = softmax_spec [OF pr]
  from infer_loop_spec [OF s(2), of fresh now p "lt_types t" 0] s(3)
  obtain ds where "infer_loop fresh now p (lt_types t) 0 probs = Inr ds" "length ds \<le> 1"
    "\<forall>d\<in>set ds. 1 / 2 < de_confidence d \<and> de_confidence d \<le> 1 \<and> de_severity d \<in> {1..4}
        \<and> (\<exists>j < length probs. j < length (lt_types t) \<and> de_confidence d = probs ! j
             \<and> detection_type_of (lt_types t ! j) = Inr (de_detection_type d))" by auto
  with f pr s show ?thesis by (auto simp: infer_def logits_def intro!: exI [of _ probs])
qed

text \<open>A concrete numpy: no noise, and numbers written as the floor of their value.\<close>

definition plain_numpy :: numpy_lib where
  "plain_numpy = \<lparr>np_randn = (\<lambda>s n. replicate n 0), np_f32 = (\<lambda>x. le_bytes 4 \<lfloor>x\<rfloor>),
                  np_of_f32 = (\<lambda>bs. of_int (le_int bs))\<rparr>"

lemma plain_numpy_ok: "numpy_ok plain_numpy"
  by (simp add: numpy_ok_def plain_numpy_def)

definition sample_trainer :: local_trainer where
  "sample_trainer = trainer_init [''weed'', ''pest''] 0 256 0.01 False (replicate 32 [0, 0])"

lemma sample_trainer_fields:
  "lt_feature_dim sample_trainer = 32" "lt_num_classes sample_trainer = 2"
  "lt_bias sample_trainer = [0, 0]" "lt_weights sample_trainer = replicate 32 [0, 0]"
  by (simp_all add: sample_trainer_def trainer_init_def map_replicate_const numeral_2_eq_2)

lemma infer_modest_witness:
  "\<exists>ds t'. infer plain_numpy (\<lambda>i. (''d'', 0, 0)) 0 geo_position0 sample_trainer = (Inr ds, t') \<and> length ds \<le> 1"
  using infer_modest [OF plain_numpy_ok, of sample_trainer "\<lambda>i. (''d'', 0, 0)" 0 geo_position0]
  by (simp add: sample_trainer_fields) blast

section \<open>The trainer stays in shape\<close>

datatype trainer_event =
    Train detection | Infer "nat \<Rightarrow> string \<times> real \<times> real" real geo_position | LoadWeights bytes
  | Distill bytes "geo_position list" | PeerFeatures bytes | SoftLabels "geo_position list"
  | ShareFeatures geo_position | GpsDenied bool

fun trainer_step :: "numpy_lib \<Rightarrow> local_trainer \<Rightarrow> trainer_event \<Rightarrow> local_trainer" where
  "trainer_step np t (Train d) = fst (train_step np d t)"
| "trainer_step np t (Infer fresh now p) = snd (infer np fresh now p t)"
| "trainer_step np t (LoadWeights w) = set_weights np w t"
| "trainer_step np t (Distill w ps) = fst (distill_from_soft_labels np w ps 2 0.005 t)"
| "trainer_step np t (PeerFeatures w) = fst (receive_peer_features np w t)"
| "trainer_step np t (SoftLabels ps) = snd (get_soft_labels np ps t)"
| "trainer_step np t (ShareFeatures p) = snd (get_intermediate_features np p t)"
| "trainer_step np t (GpsDenied b) = set_gps_denied b t"

definition trainer_inv :: "local_trainer \<Rightarrow> bool" where
  "trainer_inv t \<longleftrightarrow>
     length (lt_weights t) = lt_feature_dim t
     \<and> (\<forall>row\<in>set (lt_weights t). length row = lt_num_classes t) \<and> length (lt_bias t) = lt_num_classes t
     \<and> length (lt_feature_buffer t) = length (lt_label_buffer t)
     \<and> int (length (lt_feature_buffer t)) \<le> max 0 (lt_buffer_size t)
     \<and> 0 \<le> lt_correct t \<and> lt_correct t \<le> lt_total t"

lemma length_read_floats [simp]: "length (read_floats np n bs) = n"
  by (induction n arbitrary: bs) simp_all

lemma length_reshape [simp]: "length (reshape r c xs) = r"
  by (induction r arbitrary: xs) auto

lemma reshape_rows: "row \<in> set (reshape r c xs) \<Longrightarrow> length xs = r * c \<Longrightarrow> length row = c"
  by (induction r arbitrary: xs) auto

lemma extract_result:
  assumes "extract_features np p t = (r, t1)" and "numpy_ok np"
  shows "t1 = t\<lparr>lt_last_position := lt_last_position t1, lt_origin := lt_origin t1, lt_displacement := lt_displacement t1\<rparr>"
    and "r = Inr f \<Longrightarrow> length f = lt_feature_dim t"
  using assms
  by (auto simp: extract_features_def features_absolute_def features_relative_def Let_def numpy_ok_def split: if_splits)

lemma extract_inv:
  assumes "extract_features np p t = (r, t1)" and "numpy_ok np"
  shows "trainer_inv t1 \<longleftrightarrow> trainer_inv t"
  by (subst extract_result(1) [OF assms]) (simp add: trainer_inv_def)

lemma gradient_inv [simp]:
  assumes "length f = lt_feature_dim t" and "length grad = lt_num_classes t" and "trainer_inv t"
  shows "trainer_inv (gradient_step lr f grad t)"
  using assms descend_outer_rows [of "lt_weights t" "lt_num_classes t" grad lr f]
  by (simp add: trainer_inv_def gradient_step_def)

lemma remember_frame [simp]:
  "lt_feature_dim (remember ty f l t) = lt_feature_dim t" "lt_num_classes (remember ty f l t) = lt_num_classes t"
  "lt_weights (remember ty f l t) = lt_weights t" "lt_bias (remember ty f l t) = lt_bias t"
  by (simp_all add: remember_def Let_def)

lemma remember_inv [simp]: "trainer_inv t \<Longrightarrow> trainer_inv (remember ty f l t)"
  by (auto simp: trainer_inv_def remember_def Let_def)

lemma logits_length: "softmax (logits f t) = Inr ps \<Longrightarrow> length ps = lt_num_classes t"
  by (drule softmax_spec(1)) (simp add: logits_def)

lemma train_inv:
  assumes np: "numpy_ok np" and "trainer_inv t"
  shows "trainer_inv (fst (train_step np d t))"
proof -
  let ?ty = "detection_type_value (de_detection_type d)"
  obtain r t1 where e: "extract_features np (de_position d) t = (r, t1)" by fastforce
  have t1: "trainer_inv t1" using extract_inv [OF e np] assms(2) by simp
  have dims: "lt_feature_dim t1 = lt_feature_dim t" "lt_num_classes t1 = lt_num_classes t"
    by (subst extract_result(1) [OF e np], simp)+
  have count: "trainer_inv (u\<lparr>lt_correct := lt_correct u + (if b then 1 else 0), lt_total := lt_total u + 1\<rparr>)"
    if "trainer_inv u" for u b using that by (auto simp: trainer_inv_def)
  have version: "trainer_inv (u\<lparr>lt_model_version := k\<rparr>) = trainer_inv u" for u k by (simp add: trainer_inv_def)
  show ?thesis
  proof (cases "dget (lt_class_to_idx t) ?ty")
    case (Some label)
    show ?thesis
    proof (cases r)
      case (Inr f)
      have len: "length f = lt_feature_dim t" using extract_result(2) [OF e np] Inr by simp
      show ?thesis
        using assms(2) t1 len dims
        by (auto simp: train_step_def Let_def Some e Inr version count logits_length
            intro!: gradient_inv count split: sum.split)
    qed (use Some e t1 in \<open>simp add: train_step_def Let_def\<close>)
  qed (use assms in \<open>simp add: train_step_def Let_def\<close>)
qed

lemma distill_inv:
  assumes np: "numpy_ok np"
  shows "trainer_inv t \<Longrightarrow> \<forall>(p, teacher)\<in>set pts. length teacher = lt_num_classes t
     \<Longrightarrow> trainer_inv (fst (distill_loop np temperature lr pts t))"
proof (induction pts arbitrary: t)
  case (Cons pt pts)
  obtain p teacher where pt: "pt = (p, teacher)" by fastforce
  obtain r t1 where e: "extract_features np p t = (r, t1)" by fastforce
  have t1: "trainer_inv t1" using extract_inv [OF e np] Cons.prems(1) by simp
  have dims: "lt_feature_dim t1 = lt_feature_dim t" "lt_num_classes t1 = lt_num_classes t"
    by (subst extract_result(1) [OF e np], simp)+
  have len: "length teacher = lt_num_classes t" using Cons.prems(2) pt by auto
  have step: "trainer_inv (fst (distill_loop np temperature lr pts (gradient_step lr f
        (map2 (\<lambda>a b. (a - b) * temperature\<^sup>2) student scaled) t1)))"
    if "r = Inr f" "softmax (map (\<lambda>x. x / temperature) (logits f t1)) = Inr student"
      "softmax (map (\<lambda>x. ln (x + 1 / 10 ^ 8) / temperature) teacher) = Inr scaled" for f student scaled
    using that extract_result(2) [OF e np] t1 dims len Cons.prems(2) softmax_spec(1) [OF that(2)] softmax_spec(1) [OF that(3)]
    by (intro Cons.IH gradient_inv) (auto simp: logits_def gradient_step_def)
  show ?case using t1 step by (auto simp: pt e rbind_def split: sum.split)
qed simp

lemma soft_label_inv: "numpy_ok np \<Longrightarrow> trainer_inv (snd (soft_label_loop np ps t)) = trainer_inv t"
proof (induction ps arbitrary: t)
  case (Cons p ps)
  obtain r t1 where e: "extract_features np p t = (r, t1)" by fastforce
  from Cons.IH [OF Cons.prems, of t1] extract_inv [OF e Cons.prems]
  show ?case by (auto simp: e split: sum.split prod.split)
qed simp

lemma trainer_step_inv:
  assumes np: "numpy_ok np" and "trainer_inv t"
  shows "trainer_inv (trainer_step np t e)"
proof (cases e)
  case (Train d)
  then show ?thesis using train_inv [OF assms] by simp
next
  case (Infer fresh now p)
  obtain r t1 where e: "extract_features np p t = (r, t1)" by fastforce
  then show ?thesis using assms(2) extract_inv [OF e np] Infer by (simp add: infer_def)
next
  case (LoadWeights w)
  then show ?thesis using assms(2) by (auto simp: set_weights_def Let_def trainer_inv_def reshape_rows)
next
  case (Distill w ps)
  have "length teacher = lt_num_classes t"
    if "(p, teacher) \<in> set (zip ps (reshape (length ps) (lt_num_classes t)
          (read_floats np (length ps * lt_num_classes t) bs)))" for p teacher bs
    using that by (auto dest!: set_zip_rightD intro: reshape_rows)
  then show ?thesis
    using Distill assms(2) by (auto simp: distill_from_soft_labels_def Let_def intro!: distill_inv [OF np])
next
  case (PeerFeatures w)
  let ?all = "read_floats np (lt_feature_dim t + lt_num_classes t) w"
  have "trainer_inv (gradient_step 0.002 (take (lt_feature_dim t) ?all)
      (map2 (\<lambda>a b. a - b) student (drop (lt_feature_dim t) ?all)) t)"
    if "softmax (logits (take (lt_feature_dim t) ?all) t) = Inr student" for student
    using logits_length [OF that] assms(2) by (intro gradient_inv) simp_all
  then show ?thesis
    using PeerFeatures assms(2) by (auto simp: receive_peer_features_def Let_def split: sum.split)
next
  case (SoftLabels ps)
  then show ?thesis using assms soft_label_inv [OF np, of ps t]
    by (auto simp: get_soft_labels_def split: prod.split)
next
  case (ShareFeatures p)
  obtain r t1 where e: "extract_features np p t = (r, t1)" by fastforce
  then show ?thesis using assms(2) extract_inv [OF e np] ShareFeatures by (simp add: get_intermediate_features_def)
next
  case (GpsDenied b)
  then show ?thesis using assms(2) by (simp add: set_gps_denied_def trainer_inv_def)
qed

text \<open>Runs of a trainer, with a numpy of the documented sizes.\<close>

interpretation trainer_machine: event_machine "trainer_step np" "\<lambda>t. numpy_ok np \<and> trainer_inv t" for np
  by unfold_locales (simp add: trainer_step_inv)

lemma trainer_init_inv:
  "length w0 = 32 \<Longrightarrow> \<forall>row\<in>set w0. length row = length types \<Longrightarrow> trainer_inv (trainer_init types v b lr g w0)"
  by (simp add: trainer_inv_def trainer_init_def)

text \<open>C24: Whatever a trainer is given in any order (detections to learn from, weights, soft labels and peer
  features of any length and content, questions), its arrays keep fitting each other: a weight row per
  feature and an entry per class in every row and in the bias, as many remembered labels as feature
  vectors and no more than the buffer holds; and the accuracy it reports is between 0 and 1.\<close>

theorem trainer_sound:
  assumes "numpy_ok np" and "length w0 = 32" and "\<forall>row\<in>set w0. length row = length types"
  shows "let t = foldl (trainer_step np) (trainer_init types v cap lr g w0) es in
     length (lt_weights t) = lt_feature_dim t \<and> length (lt_bias t) = lt_num_classes t
     \<and> (\<forall>row\<in>set (lt_weights t). length row = lt_num_classes t)
     \<and> length (lt_feature_buffer t) = length (lt_label_buffer t)
     \<and> int (length (lt_feature_buffer t)) \<le> max 0 (lt_buffer_size t)
     \<and> 0 \<le> get_accuracy t \<and> get_accuracy t \<le> 1"
proof -
  let ?t = "foldl (trainer_step np) (trainer_init types v cap lr g w0) es"
  have "trainer_inv ?t"
    using trainer_machine.run_inv [of np "trainer_init types v cap lr g w0" es] trainer_init_inv assms by blast
  then show ?thesis by (simp add: trainer_inv_def get_accuracy_def Let_def divide_le_eq)
qed

lemma trainer_sound_witness:
  "get_accuracy (foldl (trainer_step plain_numpy) (trainer_init [''weed''] 0 256 0.01 False (replicate 32 [0]))
     [LoadWeights [], PeerFeatures []]) \<le> 1"
  using trainer_sound [OF plain_numpy_ok, of "replicate 32 [0]" "[''weed'']" 0 256 "0.01" False "[LoadWeights [], PeerFeatures []]"]
  by (simp add: Let_def)

section \<open>Models on their way to a drone\<close>

lemma read_floats_bytes:
  assumes "numpy_ok np" and "\<forall>x\<in>set xs. np_of_f32 np (np_f32 np x) = x"
  shows "read_floats np (length xs) (f32_bytes np xs @ rest) = xs"
  using assms by (induction xs) (simp_all add: f32_bytes_def numpy_ok_def)

lemma length_f32_bytes: "numpy_ok np \<Longrightarrow> length (f32_bytes np xs) = 4 * length xs"
  by (induction xs) (simp_all add: f32_bytes_def numpy_ok_def)

lemma reshape_concat: "\<forall>row\<in>set w. length row = c \<Longrightarrow> reshape (length w) c (concat w) = w"
  by (induction w) simp_all

lemma length_concat_rows: "\<forall>row\<in>set w. length row = c \<Longrightarrow> length (concat w) = length w * c"
  by (induction w) simp_all

lemma le_int_le_bytes4: "0 \<le> k \<Longrightarrow> k < 2 ^ 32 \<Longrightarrow> le_int (le_bytes 4 k) = k"
  by (simp add: le_int_le_bytes)

text \<open>The bytes \<open>get_weights\<close> writes, read back by \<open>set_weights\<close> into any trainer.\<close>

lemma weights_roundtrip:
  assumes "numpy_ok np" and "trainer_inv t"
    and "\<forall>x\<in>set (concat (lt_weights t)) \<union> set (lt_bias t). np_of_f32 np (np_f32 np x) = x"
    and "get_weights np t = Inr w"
  shows "set_weights np w u = u\<lparr>lt_weights := lt_weights t, lt_bias := lt_bias t,
           lt_feature_dim := lt_feature_dim t, lt_num_classes := lt_num_classes t\<rparr>"
proof -
  let ?fd = "lt_feature_dim t" and ?nc = "lt_num_classes t"
  let ?wb = "f32_bytes np (concat (lt_weights t))" and ?bb = "f32_bytes np (lt_bias t)"
  have w: "w = le_bytes 4 (int ?fd) @ le_bytes 4 (int ?nc) @ ?wb @ ?bb" and fit: "int ?fd < 2 ^ 32" "int ?nc < 2 ^ 32"
    using assms(4) by (auto simp: get_weights_def rbind_def split: sum.splits if_splits)
  have shape: "length (lt_weights t) = ?fd" "\<forall>row\<in>set (lt_weights t). length row = ?nc" "length (lt_bias t) = ?nc"
    using assms(2) by (auto simp: trainer_inv_def)
  have lens: "length (concat (lt_weights t)) = ?fd * ?nc" using length_concat_rows [OF shape(2)] shape(1) by simp
  have bytes: "length ?wb = 4 * (?fd * ?nc)" "length ?bb = 4 * ?nc"
    using lens shape(3) by (simp_all add: length_f32_bytes [OF assms(1)])
  have rw: "read_floats np (?fd * ?nc) (?wb @ ?bb) = concat (lt_weights t)"
    using read_floats_bytes [OF assms(1), of "concat (lt_weights t)" ?bb] assms(3) lens by auto
  have rb: "read_floats np ?nc ?bb = lt_bias t"
    using read_floats_bytes [OF assms(1), of "lt_bias t" "[]"] assms(3) shape(3) by auto
  have "drop (8 + ?fd * ?nc * 4) w = ?bb" "drop 8 w = ?wb @ ?bb" "take 4 w = le_bytes 4 (int ?fd)"
    "take 4 (drop 4 w) = le_bytes 4 (int ?nc)" "length w = 8 + ?fd * ?nc * 4 + ?nc * 4"
    using bytes by (simp_all add: w)
  then show ?thesis
    using fit rw rb reshape_concat [OF shape(2)] shape(1)
    by (simp add: set_weights_def Let_def le_int_le_bytes4)
qed

text \<open>A model gets through to the drone: weights the base station publishes, once handed to a controller that
  has an older version, make the drone's trainer compute, for any features, exactly what the base station's
  trainer computes, whatever was loaded before; the drone then reports the published version and
  acknowledges it. (The order of the class names is not part of the message.)\<close>

theorem model_reaches_drone:
  assumes "numpy_ok np" and "trainer_inv (ca_trainer a)"
    and "\<forall>x\<in>set (concat (lt_weights (ca_trainer a))) \<union> set (lt_bias (ca_trainer a)). np_of_f32 np (np_f32 np x) = x"
    and "get_global_weights np now a = (Inr (w, version), a')" and "sc_global_version c < version" and "sc_ack c"
  shows "let c' = receive_global_weights np w version c in
     (\<forall>f. logits f (sc_trainer c') = logits f (ca_trainer a))
     \<and> lt_feature_dim (sc_trainer c') = lt_feature_dim (ca_trainer a)
     \<and> sc_global_version c' = ca_global_version a' \<and> lt_model_version (sc_trainer c') = ca_global_version a'
     \<and> sc_acks c' = sc_acks c @ [(sc_drone_id c, ca_global_version a')]
     \<and> receive_global_weights np w version c' = c'"
proof -
  have v: "get_weights np (ca_trainer a) = Inr w" "version = ca_global_version a'"
    using assms(4) by (auto simp: get_global_weights_def Let_def next_version_def rbind_def split: sum.splits)
  show ?thesis
    using assms(5,6) v(2)
    by (simp add: receive_global_weights_def Let_def logits_def
        weights_roundtrip [OF assms(1-3) v(1)])
qed

lemma model_reaches_drone_witness:
  "\<exists>w a'. get_global_weights plain_numpy 0 (aggregator_init [''weed''] 30 2048 0.1 (replicate 32 [0]) 0) = (Inr (w, 1), a')
     \<and> sc_acks (receive_global_weights plain_numpy w 1 (set_ack_callback (controller_init ''s'' sample_trainer))) = [(''s'', 1)]"
proof -
  let ?a = "aggregator_init [''weed''] 30 2048 0.1 (replicate 32 [0]) 0"
  let ?c = "set_ack_callback (controller_init ''s'' sample_trainer)"
  have t: "ca_trainer ?a = trainer_init [''weed''] 0 2048 0.01 False (replicate 32 [0])"
    by (simp add: aggregator_init_def)
  have zero: "np_of_f32 plain_numpy (np_f32 plain_numpy 0) = 0"
    by (simp add: plain_numpy_def le_int_le_bytes)
  have z: "\<forall>x\<in>set (concat (lt_weights (ca_trainer ?a))) \<union> set (lt_bias (ca_trainer ?a)).
      np_of_f32 plain_numpy (np_f32 plain_numpy x) = x"
    unfolding t by (auto simp: trainer_init_def zero)
  have i: "trainer_inv (ca_trainer ?a)" unfolding t by (rule trainer_init_inv) simp_all
  obtain w a' where w: "get_global_weights plain_numpy 0 ?a = (Inr (w, 1), a')" "ca_global_version a' = 1"
    unfolding get_global_weights_def Let_def get_weights_def
    by (simp add: next_version_def t trainer_init_def aggregator_init_def)
  have "sc_global_version ?c < 1" "sc_ack ?c" "sc_acks ?c = []" "sc_drone_id ?c = ''s''"
    by (simp_all add: set_ack_callback_def controller_init_def)
  with model_reaches_drone [OF plain_numpy_ok i z w(1), of ?c] w show ?thesis by (auto simp: Let_def)
qed

text \<open>A model that never arrived is acknowledged: weights of a newer version that are too short for their own
  header (an empty message is enough) leave the drone's model as it was, and yet the controller takes
  the version over, reports it in its metadata and sends the acknowledgement; every later message with
  that version, complete ones too, is ignored.\<close>

theorem ack_without_load:
  assumes "sc_global_version c < version" and "sc_ack c"
    and "length data < 8 \<or> length data < 8 + nat (le_int (take 4 data)) * nat (le_int (take 4 (drop 4 data))) * 4
           + nat (le_int (take 4 (drop 4 data))) * 4"
  shows "let c' = receive_global_weights np data version c in
     sc_trainer c' = (sc_trainer c)\<lparr>lt_model_version := version\<rparr>
     \<and> sc_acks c' = sc_acks c @ [(sc_drone_id c, version)]
     \<and> mm_model_version (controller_metadata now c') = version
     \<and> (\<forall>w. receive_global_weights np w version c' = c')"
proof -
  have "set_weights np data (sc_trainer c) = sc_trainer c" using assms(3) by (auto simp: set_weights_def Let_def)
  then show ?thesis
    using assms(1,2) by (simp add: receive_global_weights_def Let_def controller_metadata_def get_metadata_def)
qed

lemma ack_without_load_witness:
  "sc_acks (receive_global_weights plain_numpy [] 1 (set_ack_callback (controller_init ''s'' sample_trainer))) = [(''s'', 1)]"
  using ack_without_load [of "set_ack_callback (controller_init ''s'' sample_trainer)" 1 "[]" plain_numpy 0]
  by (simp add: Let_def set_ack_callback_def controller_init_def)

section \<open>What the drift detector looks for\<close>

text \<open>The mean of the first \<open>i\<close> values, and how far the values from the one after the \<open>k\<close>-th to the \<open>n\<close>-th stay
  below the running mean, each less the allowance.\<close>

definition running_mean :: "real list \<Rightarrow> nat \<Rightarrow> real" where
  "running_mean vs i = sum_list (take i vs) / real i"

definition shortfall :: "real \<Rightarrow> real list \<Rightarrow> nat \<Rightarrow> nat \<Rightarrow> real" where
  "shortfall alpha vs k n = (\<Sum>i\<in>{k<..n}. running_mean vs i - vs ! (i - 1) - alpha)"

definition drift_feed :: "drift_detector \<Rightarrow> real list \<Rightarrow> drift_detector" where
  "drift_feed = foldl (\<lambda>d v. snd (drift_update v d))"

definition drift_inv :: "real \<Rightarrow> int \<Rightarrow> real \<Rightarrow> real list \<Rightarrow> drift_detector \<Rightarrow> bool" where
  "drift_inv th ms al vs d \<longleftrightarrow>
     dd_threshold d = th \<and> dd_min_samples d = ms \<and> dd_alpha d = al \<and> dd_n d = int (length vs)
     \<and> dd_sum d = sum_list vs \<and> dd_down d = shortfall al vs 0 (length vs)
     \<and> dd_down_min d = (if vs = [] then None else Some (Min (shortfall al vs 0 ` {1..length vs})))"

lemma shortfall_snoc_old:
  assumes "n \<le> length vs"
  shows "shortfall al (vs @ [v]) k n = shortfall al vs k n"
  unfolding shortfall_def
proof (rule sum.cong)
  fix i
  assume "i \<in> {k<..n}"
  then show "running_mean (vs @ [v]) i - (vs @ [v]) ! (i - 1) - al = running_mean vs i - vs ! (i - 1) - al"
    using assms by (auto simp: running_mean_def nth_append)
qed simp

lemma shortfall_Suc:
  "k \<le> n \<Longrightarrow> shortfall al vs k (Suc n) = shortfall al vs k n + (running_mean vs (Suc n) - vs ! n - al)"
proof -
  assume "k \<le> n"
  then have "{k<..Suc n} = insert (Suc n) {k<..n}" by auto
  then show ?thesis by (simp add: shortfall_def)
qed

lemma shortfall_split:
  "k \<le> n \<Longrightarrow> shortfall al vs 0 n = shortfall al vs 0 k + shortfall al vs k n"
proof (induction n)
  case (Suc n)
  then show ?case
    by (cases "k = Suc n") (simp_all add: shortfall_Suc shortfall_def [of al vs "Suc n" "Suc n"])
qed (simp add: shortfall_def)

lemma drift_step:
  assumes "drift_inv th ms al vs d" and "drift_update v d = (b, d')"
  shows "drift_inv th ms al (vs @ [v]) d'"
    and "b \<longleftrightarrow> ms \<le> int (length vs) + 1
        \<and> th < dd_down d' - Min (shortfall al (vs @ [v]) 0 ` {1..Suc (length vs)})"
proof -
  let ?n = "length vs" and ?ws = "vs @ [v]"
  have mean: "running_mean ?ws (Suc ?n) = (dd_sum d + v) / of_int (dd_n d + 1)"
    using assms(1) by (simp add: running_mean_def drift_inv_def)
  have down: "shortfall al ?ws 0 (Suc ?n) = dd_down d + ((dd_sum d + v) / of_int (dd_n d + 1) - v - al)"
    using assms(1) by (simp add: shortfall_Suc shortfall_snoc_old mean drift_inv_def)
  have img: "shortfall al ?ws 0 ` {1..Suc ?n}
      = insert (shortfall al ?ws 0 (Suc ?n)) (shortfall al vs 0 ` {1..?n})"
  proof -
    have "{1..Suc ?n} = insert (Suc ?n) {1..?n}" by auto
    moreover have "shortfall al ?ws 0 ` {1..?n} = shortfall al vs 0 ` {1..?n}"
      by (rule image_cong) (simp_all add: shortfall_snoc_old)
    ultimately show ?thesis by simp
  qed
  have low: "lower (dd_down_min d) (shortfall al ?ws 0 (Suc ?n)) = Min (shortfall al ?ws 0 ` {1..Suc ?n})"
    unfolding img using assms(1) by (cases "vs = []") (simp_all add: lower_def drift_inv_def Suc_le_eq min.commute)
  have d': "d' = snd (drift_update v d)" and b: "b = fst (drift_update v d)" using assms(2) by simp_all
  show "drift_inv th ms al ?ws d'"
    using assms(1) down low unfolding d' by (simp add: drift_update_def Let_def drift_inv_def)
  show "b \<longleftrightarrow> ms \<le> int ?n + 1 \<and> th < dd_down d' - Min (shortfall al ?ws 0 ` {1..Suc ?n})"
    using assms(1) down low unfolding d' b by (auto simp: drift_update_def Let_def drift_inv_def)
qed

lemma drift_feed_inv: "drift_inv th ms al vs (drift_feed (drift_init th ms al) vs)"
proof (induction vs rule: rev_induct)
  case Nil
  then show ?case by (simp add: drift_feed_def drift_init_def drift_inv_def shortfall_def)
next
  case (snoc v vs)
  obtain b d where "drift_update v (drift_feed (drift_init th ms al) vs) = (b, d)" by fastforce
  from drift_step(1) [OF snoc this] this show ?case by (simp add: drift_feed_def)
qed

text \<open>C25: The accumulators of the drift detector compute what the Page-Hinkley test promises: fed any values
  since its last reset, it reports a drift at a value exactly if it has seen \<open>min_samples\<close> values and over
  some last stretch of them they stayed below the running mean by more than the threshold in sum, each
  less the allowance. (The values are the accuracy since the start, not that of a recent window.)\<close>

theorem drift_fires_iff:
  "fst (drift_update v (drift_feed (drift_init th ms al) vs)) \<longleftrightarrow>
     ms \<le> int (length vs) + 1
     \<and> (\<exists>k\<in>{1..Suc (length vs)}. th < shortfall al (vs @ [v]) k (Suc (length vs)))"
proof -
  let ?S = "shortfall al (vs @ [v])" and ?n = "Suc (length vs)"
  obtain b d where u: "drift_update v (drift_feed (drift_init th ms al) vs) = (b, d)" by fastforce
  note s = drift_step [OF drift_feed_inv u]
  have "dd_down d = ?S 0 ?n" using s(1) by (simp add: drift_inv_def)
  moreover have "th < ?S 0 ?n - Min (?S 0 ` {1..?n}) \<longleftrightarrow> (\<exists>k\<in>{1..?n}. th < ?S k ?n)"
  proof -
    have "th < ?S 0 ?n - Min (?S 0 ` {1..?n}) \<longleftrightarrow> Min (?S 0 ` {1..?n}) < ?S 0 ?n - th" by linarith
    also have "\<dots> \<longleftrightarrow> (\<exists>k\<in>{1..?n}. ?S 0 k < ?S 0 ?n - th)" by (subst Min_less_iff) auto
    also have "\<dots> \<longleftrightarrow> (\<exists>k\<in>{1..?n}. th < ?S k ?n)"
    proof (rule bex_cong)
      fix k
      assume "k \<in> {1..?n}"
      then have "?S 0 ?n = ?S 0 k + ?S k ?n" by (intro shortfall_split) simp
      then show "?S 0 k < ?S 0 ?n - th \<longleftrightarrow> th < ?S k ?n" by linarith
    qed simp
    finally show ?thesis .
  qed
  ultimately show ?thesis using s(2) by (simp add: u)
qed

lemma drift_reset_init:
  "drift_inv th ms al vs d \<Longrightarrow> drift_reset d = drift_init th ms al"
  by (simp add: drift_reset_def drift_init_def drift_inv_def)

end
