(* ===== verification/Partitioning.thy ===== *)
theory Partitioning
  imports BrainProtocol
begin

text \<open>
  How a field is divided among scouts and flown over (\<open>olympus_brain/partitioning.py\<close>): Lloyd's iteration
  over Voronoi cells clipped to the field, and the sweep of a region in parallel rows.

  shapely and scipy are not part of the repository: the record \<open>geometry\<close>, over any type of polygons, holds
  the operations the source calls, and is an argument of the definitions. Constructors and intersections
  may raise; Voronoi gives None when it raises. The sweep is a loop over floats that need not end:
  it is a \<open>partial_function\<close>, and its value None means that it never returns.
\<close>

type_synonym point = "real \<times> real"

section \<open>What the code takes from the geometry libraries\<close>

text \<open>The result of clipping a line: nothing, one piece with \<open>coords\<close>, or several with \<open>geoms\<close>.\<close>

datatype clipped = ClipEmpty | ClipCoords "point list" | ClipGeoms "point list list"

text \<open>The intersection of two polygons: one polygon, or a MultiPolygon with its parts.\<close>

datatype 'g shape = OnePolygon 'g | ManyPolygons "'g list"

record voronoi =
  vo_point_region :: "int list"
  vo_regions :: "int list list"
  vo_vertices :: "point list"

record 'g geometry =
  geo_polygon :: "point list \<Rightarrow> 'g result"
  geo_empty_polygon :: 'g
  geo_is_empty :: "'g \<Rightarrow> bool"
  geo_is_valid :: "'g \<Rightarrow> bool"
  geo_buffer0 :: "'g \<Rightarrow> 'g"
  geo_bounds :: "'g \<Rightarrow> real \<times> real \<times> real \<times> real"
  geo_centroid :: "'g \<Rightarrow> point"
  geo_area :: "'g \<Rightarrow> real"
  geo_exterior :: "'g \<Rightarrow> point list"
  geo_intersection :: "'g \<Rightarrow> 'g \<Rightarrow> 'g shape result"
  geo_clip_line :: "point \<Rightarrow> point \<Rightarrow> 'g \<Rightarrow> clipped"
  geo_voronoi :: "point list \<Rightarrow> voronoi option"

section \<open>Partitions\<close>

record 'g field_partitioner =
  fp_polygon :: 'g
  fp_bounds :: "real \<times> real \<times> real \<times> real"

text \<open>The bounds are taken before the polygon is repaired.\<close>

definition partitioner_init :: "'g geometry \<Rightarrow> point list \<Rightarrow> 'g field_partitioner result" where
  "partitioner_init G boundary =
     rbind (geo_polygon G boundary) (\<lambda>poly.
       Inr \<lparr>fp_polygon = (if geo_is_valid G poly then poly else geo_buffer0 G poly), fp_bounds = geo_bounds G poly\<rparr>)"

definition dummy_points :: "real \<times> real \<times> real \<times> real \<Rightarrow> point list" where
  "dummy_points = (\<lambda>(minx, miny, maxx, maxy).
     let padding = max (maxx - minx) (maxy - miny) * 2
     in [(minx - padding, miny - padding), (minx - padding, maxy + padding),
         (maxx + padding, miny - padding), (maxx + padding, maxy + padding)])"

text \<open>\<open>max(parts, key=area)\<close>: the first part of the greatest area; an empty list raises.\<close>

fun largest :: "('g \<Rightarrow> real) \<Rightarrow> 'g list \<Rightarrow> 'g result" where
  "largest area [] = Inl ValueError"
| "largest area [p] = Inr p"
| "largest area (p # q # ps) = (if area p < area q then largest area (q # ps) else largest area (p # ps))"

text \<open>A Python index: negative ones count from the end.\<close>

definition py_at :: "'a list \<Rightarrow> int \<Rightarrow> 'a result" where
  "py_at xs i =
     (let k = (if i < 0 then i + int (length xs) else i)
      in if 0 \<le> k \<and> k < int (length xs) then Inr (xs ! nat k) else Inl IndexError)"

fun py_at_all :: "'a list \<Rightarrow> int list \<Rightarrow> 'a list result" where
  "py_at_all xs [] = Inr []"
| "py_at_all xs (i # is) = rbind (py_at xs i) (\<lambda>x. rbind (py_at_all xs is) (\<lambda>ys. Inr (x # ys)))"

text \<open>The cell of one generator, clipped to the field: None where the source appends None, which covers the
  exceptions raised while it is built.\<close>

definition clip_cell :: "'g geometry \<Rightarrow> 'g \<Rightarrow> voronoi \<Rightarrow> int list \<Rightarrow> 'g option" where
  "clip_cell G field vor region =
     (case rbind (py_at_all (vo_vertices vor) region) (\<lambda>vertices.
             rbind (geo_polygon G vertices) (\<lambda>poly.
               rbind (geo_intersection G poly field) (\<lambda>shape.
                 case shape of OnePolygon p \<Rightarrow> Inr p | ManyPolygons ps \<Rightarrow> largest (geo_area G) ps))) of
        Inl e \<Rightarrow> None
      | Inr p \<Rightarrow> if geo_is_valid G p \<and> \<not> geo_is_empty G p then Some p else None)"

text \<open>\<open>regions[point_region[i]]\<close> is outside the \<open>try\<close>: an index out of range raises.\<close>

definition voronoi_cell :: "'g geometry \<Rightarrow> 'g \<Rightarrow> voronoi \<Rightarrow> nat \<Rightarrow> 'g option result" where
  "voronoi_cell G field vor i =
     rbind (py_at (vo_point_region vor) (int i)) (\<lambda>region_idx.
       if region_idx = -1 then Inr None
       else rbind (py_at (vo_regions vor) region_idx) (\<lambda>region.
              if -1 \<in> set region \<or> region = [] then Inr None else Inr (clip_cell G field vor region)))"

fun voronoi_cells :: "'g geometry \<Rightarrow> 'g \<Rightarrow> voronoi \<Rightarrow> nat list \<Rightarrow> 'g list result" where
  "voronoi_cells G field vor [] = Inr []"
| "voronoi_cells G field vor (i # is) =
     rbind (voronoi_cell G field vor i) (\<lambda>c. rbind (voronoi_cells G field vor is) (\<lambda>cs.
       Inr ((case c of None \<Rightarrow> geo_empty_polygon G
                     | Some p \<Rightarrow> if geo_is_empty G p then geo_empty_polygon G else p) # cs)))"

definition voronoi_partition :: "'g geometry \<Rightarrow> 'g field_partitioner \<Rightarrow> point list \<Rightarrow> 'g list result" where
  "voronoi_partition G fp generators =
     (if length generators < 2 then Inr [fp_polygon fp]
      else case geo_voronoi G (generators @ dummy_points (fp_bounds fp)) of
             None \<Rightarrow> Inr []
           | Some vor \<Rightarrow> voronoi_cells G (fp_polygon fp) vor [0..<length generators])"

text \<open>The next generators: the centroids, and the old generator of an empty cell.\<close>

fun next_generators :: "'g geometry \<Rightarrow> point list \<Rightarrow> 'g list \<Rightarrow> point list \<Rightarrow> point list" where
  "next_generators G generators [] acc = acc"
| "next_generators G generators (p # ps) acc =
     next_generators G generators ps
       (if \<not> geo_is_empty G p then acc @ [geo_centroid G p]
        else if length acc < length generators then acc @ [generators ! length acc] else acc)"

fun lloyd :: "'g geometry \<Rightarrow> 'g field_partitioner \<Rightarrow> nat \<Rightarrow> point list \<Rightarrow> point list result" where
  "lloyd G fp 0 generators = Inr generators"
| "lloyd G fp (Suc n) generators =
     rbind (voronoi_partition G fp generators) (\<lambda>partitions.
       if partitions = [] then Inr generators
       else let new = next_generators G generators partitions []
            in if length new = length generators then lloyd G fp n new else Inr generators)"

definition compute_partitions :: "'g geometry \<Rightarrow> 'g field_partitioner \<Rightarrow> point list \<Rightarrow> nat \<Rightarrow> 'g list result" where
  "compute_partitions G fp positions iterations =
     (if length positions \<le> 1 then Inr [fp_polygon fp]
      else rbind (lloyd G fp iterations positions) (voronoi_partition G fp))"

fun index_of :: "'a \<Rightarrow> 'a list \<Rightarrow> nat option" where
  "index_of x [] = None"
| "index_of x (y # ys) = (if x = y then Some 0 else map_option Suc (index_of x ys))"

definition get_partition_for_drone :: "'g geometry \<Rightarrow> 'g field_partitioner \<Rightarrow> point \<Rightarrow> point list \<Rightarrow> 'g option result" where
  "get_partition_for_drone G fp pos all_positions =
     (case index_of pos all_positions of
        None \<Rightarrow> Inr None
      | Some idx \<Rightarrow>
          rbind (compute_partitions G fp all_positions 10) (\<lambda>partitions.
            Inr (if idx < length partitions then Some (partitions ! idx) else None)))"

definition polygon_to_coordinates :: "'g geometry \<Rightarrow> 'g \<Rightarrow> point list" where
  "polygon_to_coordinates G poly = (if geo_is_empty G poly then [] else geo_exterior G poly)"

definition coordinates_to_geopositions :: "point list \<Rightarrow> real \<Rightarrow> geo_position list" where
  "coordinates_to_geopositions coords altitude =
     map (\<lambda>(lat, lon). geo_position0\<lparr>gp_latitude := lat, gp_longitude := lon, gp_altitude := altitude\<rparr>) coords"

section \<open>Coverage paths\<close>

text \<open>The row at height \<open>y\<close>, from left to right or from right to left.\<close>

definition sweep_row :: "'g geometry \<Rightarrow> 'g \<Rightarrow> real \<Rightarrow> real \<Rightarrow> real \<Rightarrow> bool \<Rightarrow> point list" where
  "sweep_row G region minx maxx y forward =
     (let a = (if forward then (minx, y) else (maxx, y)); b = (if forward then (maxx, y) else (minx, y));
          turn = (\<lambda>coords. if forward then coords else rev coords)
      in case geo_clip_line G a b region of
           ClipEmpty \<Rightarrow> []
         | ClipCoords coords \<Rightarrow> turn coords
         | ClipGeoms segments \<Rightarrow> concat (map turn segments))"

partial_function (option) sweep ::
  "'g geometry \<Rightarrow> 'g \<Rightarrow> real \<Rightarrow> real \<Rightarrow> real \<Rightarrow> real \<Rightarrow> real \<Rightarrow> bool \<Rightarrow> point list \<Rightarrow> point list option" where
  "sweep G region swath minx maxx maxy y forward waypoints =
     (if y \<le> maxy
      then sweep G region swath minx maxx maxy (y + swath) (\<not> forward)
             (waypoints @ sweep_row G region minx maxx y forward)
      else Some waypoints)"

definition point_dist :: "point \<Rightarrow> point \<Rightarrow> real" where
  "point_dist p q = sqrt ((fst p - fst q)\<^sup>2 + (snd p - snd q)\<^sup>2)"

text \<open>\<open>np.argmin\<close>: the first index of the least entry.\<close>

definition argmin :: "real list \<Rightarrow> nat" where
  "argmin xs = length (takeWhile (\<lambda>x. Min (set xs) < x) xs)"

definition start_at_nearest :: "point \<Rightarrow> point list \<Rightarrow> point list" where
  "start_at_nearest start waypoints =
     (let k = argmin (map (\<lambda>wp. point_dist wp start) waypoints) in drop k waypoints @ take k waypoints)"

definition generate_path :: "'g geometry \<Rightarrow> real \<Rightarrow> 'g \<Rightarrow> point option \<Rightarrow> point list option" where
  "generate_path G swath region start =
     (if geo_is_empty G region then Some []
      else let (minx, miny, maxx, maxy) = geo_bounds G region
           in map_option (\<lambda>waypoints. case start of
                   Some s \<Rightarrow> if waypoints \<noteq> [] then start_at_nearest s waypoints else waypoints
                 | None \<Rightarrow> waypoints)
                (sweep G region swath minx maxx maxy miny True []))"

fun path_length :: "point list \<Rightarrow> real" where
  "path_length (p # q # ps) =
     distance_to (from_tuple p 0) (from_tuple q 0) + path_length (q # ps)"
| "path_length _ = 0"

definition estimate_flight_time :: "point list \<Rightarrow> real \<Rightarrow> real result" where
  "estimate_flight_time path speed =
     (if length path < 2 then Inr 0
      else if speed = 0 then Inl ZeroDivisionError else Inr (path_length path / speed))"

text \<open>The paths by index, up to the shorter of partitions and positions; None if one is never found.\<close>

fun coverage_paths :: "'g geometry \<Rightarrow> real \<Rightarrow> nat \<Rightarrow> ('g \<times> point) list \<Rightarrow> (nat, point list) dict option" where
  "coverage_paths G swath i [] = Some []"
| "coverage_paths G swath i ((p, pos) # rest) =
     (case (if geo_is_empty G p then Some [] else generate_path G swath p (Some pos)) of
        None \<Rightarrow> None
      | Some path \<Rightarrow> map_option (\<lambda>ps. (i, path) # ps) (coverage_paths G swath (i + 1) rest))"

definition compute_field_coverage ::
  "'g geometry \<Rightarrow> point list \<Rightarrow> point list \<Rightarrow> real \<Rightarrow> (nat, point list) dict option result" where
  "compute_field_coverage G boundary positions swath =
     rbind (partitioner_init G boundary) (\<lambda>fp.
       rbind (compute_partitions G fp positions 10) (\<lambda>partitions.
         Inr (coverage_paths G swath 0 (zip partitions positions))))"

section \<open>One partition per drone\<close>

lemma voronoi_cells_length: "voronoi_cells G field vor is = Inr ps \<Longrightarrow> length ps = length is"
  by (induction "is" arbitrary: ps) (auto simp: result_simps)

lemma voronoi_partition_length:
  "voronoi_partition G fp gens = Inr ps \<Longrightarrow> 2 \<le> length gens \<Longrightarrow> ps \<noteq> [] \<Longrightarrow> length ps = length gens"
  by (auto simp: voronoi_partition_def dest: voronoi_cells_length split: option.splits)

lemma lloyd_length: "lloyd G fp n gens = Inr gens' \<Longrightarrow> length gens' = length gens"
  by (induction n arbitrary: gens) (auto simp: result_simps Let_def split: if_splits)

lemma partitions_one_each:
  assumes "compute_partitions G fp positions n = Inr ps" and "positions \<noteq> []" and "ps \<noteq> []"
  shows "length ps = length positions"
proof (cases "length positions \<le> 1")
  case True
  then have "length positions = 1" using assms(2) by (simp add: le_Suc_eq)
  then show ?thesis using assms(1) by (auto simp: compute_partitions_def)
next
  case False
  then obtain gens where "lloyd G fp n positions = Inr gens" "voronoi_partition G fp gens = Inr ps"
    using assms(1) by (auto simp: compute_partitions_def result_simps)
  then show ?thesis using lloyd_length [of G fp n positions gens] voronoi_partition_length [of G fp gens ps] False assms(3)
    by simp
qed

section \<open>The sweep\<close>

definition row_count :: "real \<Rightarrow> real \<Rightarrow> real \<Rightarrow> nat" where
  "row_count swath y maxy = (if y \<le> maxy then nat (\<lfloor>(maxy - y) / swath\<rfloor> + 1) else 0)"

definition rows :: "'g geometry \<Rightarrow> 'g \<Rightarrow> real \<Rightarrow> real \<Rightarrow> real \<Rightarrow> real \<Rightarrow> bool \<Rightarrow> nat \<Rightarrow> point list" where
  "rows G region swath minx maxx y forward n =
     concat (map (\<lambda>k. sweep_row G region minx maxx (y + real k * swath) (if even k then forward else \<not> forward)) [0..<n])"
lemma row_count_step:
  assumes "0 < swath" and "y \<le> maxy"
  shows "row_count swath y maxy = Suc (row_count swath (y + swath) maxy)"
proof -
  have q: "(maxy - y) / swath = (maxy - (y + swath)) / swath + 1" using assms(1) by (simp add: field_simps)
  show ?thesis
  proof (cases "y + swath \<le> maxy")
    case True
    then have "0 \<le> (maxy - (y + swath)) / swath" using assms(1) by simp
    then show ?thesis using True assms by (simp add: row_count_def q nat_add_distrib)
  next
    case False
    then have "0 \<le> (maxy - y) / swath" "(maxy - y) / swath < 1" using assms by (simp_all add: field_simps)
    then have "\<lfloor>(maxy - y) / swath\<rfloor> = 0" by (simp add: floor_eq_iff)
    then show ?thesis using False assms(2) by (simp add: row_count_def)
  qed
qed

lemma rows_Suc:
  "rows G region swath minx maxx y forward (Suc n)
   = sweep_row G region minx maxx y forward @ rows G region swath minx maxx (y + swath) (\<not> forward) n"
proof -
  have "[0..<Suc n] = 0 # map Suc [0..<n]" by (simp add: upt_conv_Cons map_Suc_upt)
  then show ?thesis
    by (auto simp: rows_def o_def algebra_simps simp del: upt_Suc intro!: arg_cong [of _ _ concat] map_cong)
qed

lemma sweep_rows:
  assumes "0 < swath"
  shows "sweep G region swath minx maxx maxy y forward acc
     = Some (acc @ rows G region swath minx maxx y forward (row_count swath y maxy))"
proof (induction "row_count swath y maxy" arbitrary: y forward acc)
  case 0
  then have "\<not> y \<le> maxy" using row_count_step [OF assms, of y maxy] by auto
  then show ?case using 0 by (subst sweep.simps) (simp add: rows_def flip: 0)
next
  case (Suc n)
  then have y: "y \<le> maxy" by (simp add: row_count_def split: if_splits)
  then have n: "n = row_count swath (y + swath) maxy" using Suc.hyps(2) row_count_step [OF assms y] by simp
  show ?case using y Suc.hyps(1) [OF n] by (subst sweep.simps) (simp add: row_count_step [OF assms y] rows_Suc)
qed

lemma sweep_stuck:
  assumes "swath \<le> 0" and "y \<le> maxy"
  shows "sweep G region swath minx maxx maxy y forward acc = None"
proof -
  have "swath \<le> 0 \<longrightarrow> maxy < y" if "sweep G region swath minx maxx maxy y forward acc = Some r" for r
    using that
    by (rule sweep.raw_induct [where P = "\<lambda>G region swath minx maxx maxy y forward acc r. swath \<le> 0 \<longrightarrow> maxy < y", rotated])
      (force split: if_splits)
  with assms show ?thesis by fastforce
qed

lemma start_at_nearest_rotates: "\<exists>k. start_at_nearest s wps = rotate k wps"
proof -
  have "\<exists>n. drop k xs @ take k xs = rotate n xs" for k and xs :: "point list"
    by (cases "k < length xs") (metis mod_less rotate_drop_take, metis append.right_neutral drop_all linorder_not_less
        rotate0 id_apply take_all append_Nil)
  then show ?thesis by (simp add: start_at_nearest_def Let_def)
qed


section \<open>Rectangles\<close>

text \<open>A geometry in which every polygon is its bounding rectangle (None is empty): the library's operations on
  the regions used as examples. A clipped line runs the way it was given.\<close>

type_synonym rect = "(real \<times> real \<times> real \<times> real) option"

definition rect_of :: "point list \<Rightarrow> rect" where
  "rect_of ps =
     (if ps = [] then None
      else Some (Min (fst ` set ps), Min (snd ` set ps), Max (fst ` set ps), Max (snd ` set ps)))"

fun rect_clip :: "point \<Rightarrow> point \<Rightarrow> rect \<Rightarrow> clipped" where
  "rect_clip a b None = ClipEmpty"
| "rect_clip a b (Some (x0, y0, x1, y1)) =
     (if snd a = snd b \<and> y0 \<le> snd a \<and> snd a \<le> y1 \<and> max (min (fst a) (fst b)) x0 \<le> min (max (fst a) (fst b)) x1
      then let l = (max (min (fst a) (fst b)) x0, snd a); r = (min (max (fst a) (fst b)) x1, snd a)
           in ClipCoords (if fst a \<le> fst b then [l, r] else [r, l])
      else ClipEmpty)"

fun rect_meet :: "rect \<Rightarrow> rect \<Rightarrow> rect" where
  "rect_meet (Some (a0, b0, a1, b1)) (Some (c0, d0, c1, d1)) =
     (if max a0 c0 \<le> min a1 c1 \<and> max b0 d0 \<le> min b1 d1
      then Some (max a0 c0, max b0 d0, min a1 c1, min b1 d1) else None)"
| "rect_meet _ _ = None"

definition rect_corners :: "rect \<Rightarrow> real \<times> real \<times> real \<times> real" where
  "rect_corners r = (case r of None \<Rightarrow> (0, 0, 0, 0) | Some q \<Rightarrow> q)"

definition rect_geometry :: "rect geometry" where
  "rect_geometry =
     \<lparr>geo_polygon = (\<lambda>ps. if length ps < 3 then Inl ValueError else Inr (rect_of ps)), geo_empty_polygon = None,
      geo_is_empty = (\<lambda>r. r = None), geo_is_valid = (\<lambda>r. True), geo_buffer0 = id, geo_bounds = rect_corners,
      geo_centroid = (\<lambda>r. case rect_corners r of (x0, y0, x1, y1) \<Rightarrow> ((x0 + x1) / 2, (y0 + y1) / 2)),
      geo_area = (\<lambda>r. case rect_corners r of (x0, y0, x1, y1) \<Rightarrow> (x1 - x0) * (y1 - y0)),
      geo_exterior = (\<lambda>r. case rect_corners r of (x0, y0, x1, y1) \<Rightarrow> [(x0, y0), (x1, y0), (x1, y1), (x0, y1), (x0, y0)]),
      geo_intersection = (\<lambda>p q. Inr (OnePolygon (rect_meet p q))), geo_clip_line = rect_clip,
      geo_voronoi = (\<lambda>ps. None)\<rparr>"


section \<open>The direction of the rows\<close>

text \<open>The source swaps the ends of every other row and then reverses what comes back. If clipping keeps the
  direction of the line it is given, the two cancel: every row is flown from \<open>minx\<close> to \<open>maxx\<close>, with the
  whole width to fly back in between, and the path never turns at the end of a row.\<close>

theorem rows_never_turn:
  assumes "\<And>y. \<exists>coords. geo_clip_line G (minx, y) (maxx, y) region = ClipCoords coords
                  \<and> geo_clip_line G (maxx, y) (minx, y) region = ClipCoords (rev coords)"
  shows "rows G region swath minx maxx y forward n
     = concat (map (\<lambda>k. sweep_row G region minx maxx (y + real k * swath) True) [0..<n])"
proof -
  have same: "sweep_row G region minx maxx y' b = sweep_row G region minx maxx y' True" for y' b
    using assms [of y'] by (cases b) (auto simp: sweep_row_def)
  show ?thesis unfolding rows_def using same by (intro arg_cong [of _ _ concat] map_cong refl) metis
qed

end
