(* ===== verification/Scout.thy ===== *)
theory Scout
  imports Node Swarmnet Partitioning "HOL-Library.Multiset"
begin

text \<open>
  The scout (\<open>olympus_brain/scout.py\<close>): the time slots of its feature broadcasts, the belief map that ranks
  its way points, and the drone with its node, its trainer and its scan loop.

  One iteration of the scan loop is one step, its sleeps and the log left out; what callbacks of the node
  do happens between two iterations. Clocks, fresh ids, random draws and the answer of the detection
  processor are arguments, gathered per iteration in \<open>scan_input\<close>; numpy and the geometry libraries are the
  records of \<open>Swarmnet\<close> and \<open>Partitioning\<close>. The cell size of the belief map is never zero: the
  scout uses the default.
\<close>

section \<open>Time slots\<close>

record tdma_scheduler =
  td_drone_id :: string
  td_frame_period :: real
  td_max_slots :: int
  td_slot_index :: int
  td_last_broadcast :: real

text \<open>The hash is kept to 32 bits at each character, which is the arithmetic of 32-bit words.\<close>

definition id_hash :: "string \<Rightarrow> 32 word" where
  "id_hash drone_id = foldl (\<lambda>h c. h * 31 + of_nat (of_char c)) 0 drone_id"

definition hash_slot :: "int \<Rightarrow> string \<Rightarrow> int" where
  "hash_slot max_slots drone_id = uint (id_hash drone_id) mod max_slots"

definition tdma_init :: "string \<Rightarrow> real \<Rightarrow> int \<Rightarrow> tdma_scheduler result" where
  "tdma_init drone_id frame_period max_slots =
     (if max_slots = 0 then Inl ZeroDivisionError
      else Inr \<lparr>td_drone_id = drone_id, td_frame_period = frame_period, td_max_slots = max_slots,
                td_slot_index = hash_slot max_slots drone_id, td_last_broadcast = 0\<rparr>)"

definition update_slot_count :: "int \<Rightarrow> tdma_scheduler \<Rightarrow> tdma_scheduler" where
  "update_slot_count n_drones t =
     (let m = max 4 (min 32 (n_drones + 2))
      in t\<lparr>td_max_slots := m, td_slot_index := hash_slot m (td_drone_id t) mod m\<rparr>)"

definition should_broadcast :: "real \<Rightarrow> tdma_scheduler \<Rightarrow> bool \<times> tdma_scheduler" where
  "should_broadcast now t =
     (let slot_duration = td_frame_period t / of_int (td_max_slots t);
          time_in_frame = py_fmod now (td_frame_period t);
          my_slot_start = of_int (td_slot_index t) * slot_duration;
          my_slot_end = my_slot_start + slot_duration;
          in_slot = (my_slot_start \<le> time_in_frame \<and> time_in_frame < my_slot_end);
          cooldown_ok = (slot_duration \<le> now - td_last_broadcast t)
      in if in_slot \<and> cooldown_ok then (True, t\<lparr>td_last_broadcast := now\<rparr>) else (False, t))"

section \<open>The belief map\<close>

record belief_map =
  bm_enabled :: bool
  bm_cell_size :: real
  bm_prior :: real
  bm_decay_rate :: real
  bm_min_lat :: real
  bm_max_lat :: real
  bm_min_lon :: real
  bm_max_lon :: real
  bm_cells :: "(int \<times> int, real) dict"

text \<open>The fields a disabled map does not have are zero here; it never reads them.\<close>

definition belief_init :: "point list \<Rightarrow> real \<Rightarrow> real \<Rightarrow> real \<Rightarrow> belief_map" where
  "belief_init bounds cell_size prior decay_rate =
     (if length bounds < 3
      then \<lparr>bm_enabled = False, bm_cell_size = 0, bm_prior = 0, bm_decay_rate = 0, bm_min_lat = 0, bm_max_lat = 0,
            bm_min_lon = 0, bm_max_lon = 0, bm_cells = []\<rparr>
      else \<lparr>bm_enabled = True, bm_cell_size = cell_size, bm_prior = prior, bm_decay_rate = decay_rate,
            bm_min_lat = Min (fst ` set bounds), bm_max_lat = Max (fst ` set bounds),
            bm_min_lon = Min (snd ` set bounds), bm_max_lon = Max (snd ` set bounds), bm_cells = []\<rparr>)"

definition cell_key :: "belief_map \<Rightarrow> real \<Rightarrow> real \<Rightarrow> int \<times> int" where
  "cell_key b lat lon =
     (py_int ((lat - bm_min_lat b) / bm_cell_size b), py_int ((lon - bm_min_lon b) / bm_cell_size b))"

definition cell_center :: "belief_map \<Rightarrow> int \<times> int \<Rightarrow> point" where
  "cell_center b key =
     (bm_min_lat b + (of_int (fst key) + 0.5) * bm_cell_size b, bm_min_lon b + (of_int (snd key) + 0.5) * bm_cell_size b)"

definition belief_at :: "belief_map \<Rightarrow> real \<Rightarrow> real \<Rightarrow> real" where
  "belief_at b lat lon = (case dget (bm_cells b) (cell_key b lat lon) of None \<Rightarrow> bm_prior b | Some p \<Rightarrow> p)"

definition update_visited :: "real \<Rightarrow> real \<Rightarrow> bool \<Rightarrow> belief_map \<Rightarrow> belief_map" where
  "update_visited lat lon detected b =
     (if \<not> bm_enabled b then b
      else let current = belief_at b lat lon
           in b\<lparr>bm_cells := dset (cell_key b lat lon)
                  (if detected then min 0.95 (current * 1.3 + 0.1) else max 0.05 (current * 0.6)) (bm_cells b)\<rparr>)"

definition information_gain :: "belief_map \<Rightarrow> real \<Rightarrow> real \<Rightarrow> real" where
  "information_gain b lat lon =
     (if \<not> bm_enabled b then 0.5
      else let belief = belief_at b lat lon
           in if belief \<le> 0 \<or> 1 \<le> belief then 0
              else - (belief * log 2 belief + (1 - belief) * log 2 (1 - belief)))"

definition waypoint_score :: "belief_map \<Rightarrow> point \<Rightarrow> real \<Rightarrow> real \<Rightarrow> point \<Rightarrow> real" where
  "waypoint_score b current distance_weight info_weight wp =
     (let ig = information_gain b (fst wp) (snd wp); dist = point_dist wp current;
          max_dist = sqrt ((bm_max_lat b - bm_min_lat b)\<^sup>2 + (bm_max_lon b - bm_min_lon b)\<^sup>2);
          dist_score = (if 0 < max_dist then 1 - dist / max_dist else 1)
      in info_weight * ig + distance_weight * dist_score)"

definition rank_waypoints :: "belief_map \<Rightarrow> point list \<Rightarrow> point \<Rightarrow> real \<Rightarrow> real \<Rightarrow> point list" where
  "rank_waypoints b waypoints current distance_weight info_weight =
     (if \<not> bm_enabled b \<or> waypoints = [] then waypoints
      else let scores = map (\<lambda>wp. (waypoint_score b current distance_weight info_weight wp, wp)) waypoints
           in map snd (sort_key (\<lambda>x. - fst x) scores))"

section \<open>The scout\<close>

record scout_config =
  sf_drone_id :: string
  sf_field_boundary :: "point list"
  sf_operational_altitude :: real
  sf_scan_speed_mps :: real
  sf_swath_width :: real
  sf_detection_confidence_threshold :: real

record 'g scout =
  sd_config :: scout_config
  sd_env :: "string option"
  sd_node :: node
  sd_partitioner :: "'g field_partitioner"
  sd_assigned_zone :: "'g option"
  sd_current_path :: "point list"
  sd_path_index :: nat
  sd_belief_map :: belief_map
  sd_use_info_gain :: bool
  sd_running :: bool
  sd_detection_processor :: bool
  sd_swarmnet :: swarm_net_controller
  sd_tdma :: tdma_scheduler
  sd_last_recompute :: real

text \<open>The trainer the scout and its controller share is the controller's.\<close>

definition with_node :: "(node \<Rightarrow> node) \<Rightarrow> 'g scout \<Rightarrow> 'g scout" where
  "with_node f s = s\<lparr>sd_node := f (sd_node s)\<rparr>"

definition with_trainer :: "(local_trainer \<Rightarrow> local_trainer) \<Rightarrow> 'g scout \<Rightarrow> 'g scout" where
  "with_trainer f s = s\<lparr>sd_swarmnet := (sd_swarmnet s)\<lparr>sc_trainer := f (sc_trainer (sd_swarmnet s))\<rparr>\<rparr>"

definition with_belief :: "(belief_map \<Rightarrow> belief_map) \<Rightarrow> 'g scout \<Rightarrow> 'g scout" where
  "with_belief f s = s\<lparr>sd_belief_map := f (sd_belief_map s)\<rparr>"

definition scout_trainer :: "'g scout \<Rightarrow> local_trainer" where
  "scout_trainer s = sc_trainer (sd_swarmnet s)"

definition scout_position :: "'g scout \<Rightarrow> geo_position" where
  "scout_position s = dt_position (nd_telemetry (sd_node s))"

definition trainer_types :: "mission_profile \<Rightarrow> string list" where
  "trainer_types profile =
     (let types = dkeys (mp_detection_to_task profile)
      in if types = [] then map detection_type_value all_detection_types else types)"

text \<open>\<open>w0\<close> is the trainer's random start matrix. The last recomputation is set when the loop starts.\<close>

definition scout_init ::
  "'g geometry \<Rightarrow> string option \<Rightarrow> real list list \<Rightarrow> scout_config \<Rightarrow> real \<Rightarrow> 'g scout result" where
  "scout_init G env w0 cfg now =
     rbind (partitioner_init G (sf_field_boundary cfg)) (\<lambda>fp.
       rbind (tdma_init (sf_drone_id cfg) 10 32) (\<lambda>tdma.
         Inr \<lparr>sd_config = cfg, sd_env = env, sd_node = node_init (node_config0 (sf_drone_id cfg) SCOUT) now,
              sd_partitioner = fp, sd_assigned_zone = None, sd_current_path = [], sd_path_index = 0,
              sd_belief_map = belief_init (sf_field_boundary cfg) 0.00005 0.5 0.01, sd_use_info_gain = True,
              sd_running = False, sd_detection_processor = False,
              sd_swarmnet = controller_init (sf_drone_id cfg)
                (trainer_init (trainer_types (load_profile env None)) 0 256 0.01 False w0),
              sd_tdma = tdma, sd_last_recompute = now\<rparr>))"

definition scout_start :: "'g scout \<Rightarrow> 'g scout" where
  "scout_start s =
     (with_node (node_on_features ''_on_peer_features'' \<circ> node_on_global_model ''receive_global_weights'' \<circ> node_start) s)
       \<lparr>sd_swarmnet := set_ack_callback (sd_swarmnet s), sd_running := True\<rparr>"

definition scout_stop :: "'g scout \<Rightarrow> 'g scout" where
  "scout_stop s = with_node node_stop (s\<lparr>sd_running := False\<rparr>)"

definition set_detection_processor :: "'g scout \<Rightarrow> 'g scout" where
  "set_detection_processor s = s\<lparr>sd_detection_processor := True\<rparr>"

text \<open>The other scouts' positions, in the order of the table, without those at this scout's own position.\<close>

definition scout_positions :: "'g scout \<Rightarrow> point list" where
  "scout_positions s =
     (let my_pos = to_tuple (scout_position s)
      in my_pos # filter (\<lambda>pos. pos \<noteq> my_pos)
           (map (\<lambda>m. to_tuple (dt_position m))
              (filter (\<lambda>m. dt_role m = SCOUT \<and> dt_status m \<noteq> OFFLINE) (dvals (ss_members (nd_swarm (sd_node s)))))))"

text \<open>\<open>Inl\<close> is the exception of the partitioner, \<open>Inr None\<close> a path that is never found.\<close>

definition recompute_zone :: "'g geometry \<Rightarrow> 'g scout \<Rightarrow> 'g scout option result" where
  "recompute_zone G s =
     rbind (compute_partitions G (sd_partitioner s) (scout_positions s) 10) (\<lambda>partitions.
       let my_pos = to_tuple (scout_position s);
           zone = (case partitions of [] \<Rightarrow> fp_polygon (sd_partitioner s) | p # ps \<Rightarrow> p);
           s1 = s\<lparr>sd_assigned_zone := Some zone\<rparr>
       in if geo_is_empty G zone then Inr (Some (s1\<lparr>sd_current_path := []\<rparr>))
          else Inr (map_option (\<lambda>raw_path.
                  s1\<lparr>sd_current_path := (if sd_use_info_gain s \<and> raw_path \<noteq> []
                                         then rank_waypoints (sd_belief_map s) raw_path my_pos 0.3 0.7 else raw_path),
                     sd_path_index := 0\<rparr>)
                (generate_path G (sf_swath_width (sd_config s)) zone (Some my_pos))))"

text \<open>One leg of the scan, step by step; a speed of zero raises before the first step.\<close>

definition fly_step :: "geo_position \<Rightarrow> geo_position \<Rightarrow> nat \<Rightarrow> nat \<Rightarrow> 'g scout \<Rightarrow> 'g scout" where
  "fly_step current target steps i s =
     (let t = real (i + 1) / real steps;
          lat = gp_latitude current + t * (gp_latitude target - gp_latitude current);
          lon = gp_longitude current + t * (gp_longitude target - gp_longitude current)
      in with_belief (update_visited lat lon False)
           (with_node (update_position (geo_position0\<lparr>gp_latitude := lat, gp_longitude := lon,
                         gp_altitude := sf_operational_altitude (sd_config s)\<rparr>)) s))"

definition scan_navigate :: "point \<Rightarrow> 'g scout \<Rightarrow> 'g scout result" where
  "scan_navigate target s =
     (let current = scout_position s; cfg = sd_config s;
          target_pos = from_tuple target (sf_operational_altitude cfg);
          steps = nat (max 1 (py_int (distance_to current target_pos / sf_scan_speed_mps cfg * 2)))
      in if sf_scan_speed_mps cfg = 0 then Inl ZeroDivisionError
         else Inr (if sd_running s then fold (fly_step current target_pos steps) [0..<steps] s else s))"

definition detection_to_task_type :: "string option \<Rightarrow> detection_type \<Rightarrow> task_type" where
  "detection_to_task_type env ty =
     (case dget (mp_detection_to_task (load_profile env None)) (detection_type_value ty) of
        None \<Rightarrow> INSPECT
      | Some task_str \<Rightarrow>
          if task_str = [] then INSPECT else (case task_type_of task_str of Inl e \<Rightarrow> INSPECT | Inr tt \<Rightarrow> tt))"

text \<open>\<open>await\<close> of the value of a plain function that returns None raises.\<close>

definition await_none :: "unit result" where
  "await_none = Inl TypeError"

text \<open>The second component is the exception, if one is raised; \<open>uid\<close> and \<open>now\<close> are those of the new task.\<close>

definition handle_detection ::
  "string \<Rightarrow> real \<Rightarrow> detection \<Rightarrow> 'g scout \<Rightarrow> 'g scout \<times> py_error option" where
  "handle_detection uid now d s =
     (let s1 = with_belief (update_visited (gp_latitude (de_position d)) (gp_longitude (de_position d)) True) s
      in if de_confidence d < sf_detection_confidence_threshold (sd_config s) then (s1, None)
         else let s2 = with_node (publish_detection d) s1
              in case await_none of
                   Inl e \<Rightarrow> (s2, Some e)
                 | Inr _ \<Rightarrow>
                     (case task_from_detection uid now d (detection_to_task_type (sd_env s) (de_detection_type d)) of
                        Inl e \<Rightarrow> (s2, Some e)
                      | Inr task \<Rightarrow>
                          (case publish_task task (sd_node s2) of
                             Inl e \<Rightarrow> (s2, Some e)
                           | Inr n \<Rightarrow>
                               (case await_none of Inl e \<Rightarrow> (s2\<lparr>sd_node := n\<rparr>, Some e)
                                                 | Inr _ \<Rightarrow> (s2\<lparr>sd_node := n\<rparr>, None)))))"

fun handle_all ::
  "numpy_lib \<Rightarrow> (nat \<Rightarrow> string) \<Rightarrow> real \<Rightarrow> nat \<Rightarrow> detection list \<Rightarrow> 'g scout \<Rightarrow> 'g scout \<times> py_error option" where
  "handle_all np uids now i [] s = (s, None)"
| "handle_all np uids now i (d # ds) s =
     (case train_step np d (scout_trainer s) of
        (t, Some e) \<Rightarrow> (with_trainer (\<lambda>_. t) s, Some e)
      | (t, None) \<Rightarrow>
          (case handle_detection (uids i) now d (with_trainer (\<lambda>_. t) s) of
             (s', Some e) \<Rightarrow> (s', Some e)
           | (s', None) \<Rightarrow> handle_all np uids now (i + 1) ds s'))"

text \<open>What one iteration reads from outside: the two clocks, the answer of the detection processor, the ids and
  jitters of inference, whether \<open>random() > 0.95\<close> and the detection drawn then, and the tasks' ids.\<close>

record scan_input =
  si_utcnow :: real
  si_monotonic :: real
  si_processor :: "detection list result"
  si_fresh :: "nat \<Rightarrow> string \<times> real \<times> real"
  si_lucky :: bool
  si_drawn :: "detection_type \<times> string \<times> real \<times> real \<times> real \<times> int"
  si_task_ids :: "nat \<Rightarrow> string"

definition drawn_detection :: "scan_input \<Rightarrow> 'g scout \<Rightarrow> detection result" where
  "drawn_detection inp s =
     (let (ty, uid, jlat, jlon, confidence, severity) = si_drawn inp; pos = scout_position s
      in detection_create uid (si_utcnow inp) ty
           (geo_position0\<lparr>gp_latitude := gp_latitude pos + jlat, gp_longitude := gp_longitude pos + jlon,
                          gp_altitude := 0\<rparr>)
           confidence (ascii (sf_drone_id (sd_config s))) severity)"

definition swarmnet_inference :: "numpy_lib \<Rightarrow> scan_input \<Rightarrow> 'g scout \<Rightarrow> 'g scout \<times> py_error option" where
  "swarmnet_inference np inp s =
     (let (r, t) = infer np (si_fresh inp) (si_utcnow inp) (scout_position s) (scout_trainer s);
          s1 = with_trainer (\<lambda>_. t) s
      in case r of
           Inl e \<Rightarrow> (s1, Some e)
         | Inr detections \<Rightarrow>
             if detections = [] \<and> si_lucky inp
             then (case drawn_detection inp s1 of
                     Inl e \<Rightarrow> (s1, Some e)
                   | Inr d \<Rightarrow> handle_all np (si_task_ids inp) (si_utcnow inp) 0 [d] s1)
             else handle_all np (si_task_ids inp) (si_utcnow inp) 0
                    (map (\<lambda>d. d\<lparr>de_detected_by := ascii (sf_drone_id (sd_config s))\<rparr>) detections) s1)"

definition process_detections :: "numpy_lib \<Rightarrow> scan_input \<Rightarrow> 'g scout \<Rightarrow> 'g scout \<times> py_error option" where
  "process_detections np inp s =
     (if sd_detection_processor s
      then (case si_processor inp of
              Inl e \<Rightarrow> (s, Some e)
            | Inr detections \<Rightarrow> handle_all np (si_task_ids inp) (si_utcnow inp) 0 detections s)
      else swarmnet_inference np inp s)"

text \<open>The features are shared when it is the scout's turn; a failing computation of them raises.\<close>

definition share_features :: "numpy_lib \<Rightarrow> scan_input \<Rightarrow> 'g scout \<Rightarrow> 'g scout \<times> py_error option" where
  "share_features np inp s =
     (let n_scouts = int (length (filter (\<lambda>m. dt_role m = SCOUT \<and> dt_status m \<noteq> OFFLINE)
                           (dvals (ss_members (nd_swarm (sd_node s)))))) + 1;
          (turn, tdma) = should_broadcast (si_monotonic inp) (update_slot_count n_scouts (sd_tdma s));
          s1 = s\<lparr>sd_tdma := tdma\<rparr>
      in if \<not> turn then (s1, None)
         else let (r, t) = get_intermediate_features np (scout_position s1) (scout_trainer s1);
                  s2 = with_trainer (\<lambda>_. t) s1
              in case r of Inl e \<Rightarrow> (s2, Some e)
                         | Inr features \<Rightarrow> (if features = [] then s2 else with_node (publish_features features) s2, None))"

definition advance_path :: "'g scout \<Rightarrow> 'g scout" where
  "advance_path s =
     (let i = sd_path_index s + 1 in s\<lparr>sd_path_index := (if length (sd_current_path s) \<le> i then 0 else i)\<rparr>)"

text \<open>The work at the next way point; an exception ends it, and the loop goes on after the log entry.\<close>

definition scan_waypoint :: "numpy_lib \<Rightarrow> scan_input \<Rightarrow> 'g scout \<Rightarrow> 'g scout" where
  "scan_waypoint np inp s =
     (if sd_path_index s < length (sd_current_path s)
      then case scan_navigate (sd_current_path s ! sd_path_index s) s of
             Inl e \<Rightarrow> s
           | Inr s1 \<Rightarrow>
               (let s2 = s1\<lparr>sd_swarmnet := record_position (scout_position s1) (sd_swarmnet s1)\<rparr>
                in case process_detections np inp s2 of
                     (s3, Some e) \<Rightarrow> s3
                   | (s3, None) \<Rightarrow>
                       (case share_features np inp s3 of
                          (s4, Some e) \<Rightarrow> s4
                        | (s4, None) \<Rightarrow> advance_path s4))
      else s)"

definition scan_round :: "'g geometry \<Rightarrow> numpy_lib \<Rightarrow> scan_input \<Rightarrow> 'g scout \<Rightarrow> 'g scout option" where
  "scan_round G np inp s =
     (let scan = (\<lambda>s. scan_waypoint np inp (with_node (update_status SCANNING) s))
      in if \<not> sd_running s then Some s
         else if 60 < si_utcnow inp - sd_last_recompute s
         then case recompute_zone G s of
                Inl e \<Rightarrow> Some s
              | Inr None \<Rightarrow> None
              | Inr (Some s1) \<Rightarrow> Some (scan (s1\<lparr>sd_last_recompute := si_utcnow inp\<rparr>))
         else Some (scan s))"

text \<open>The start of the loop, where an exception of the first recomputation ends the task; None is again a path
  that is never found.\<close>

definition scan_begin :: "'g geometry \<Rightarrow> real \<Rightarrow> 'g scout \<Rightarrow> 'g scout option result" where
  "scan_begin G now s = rbind (recompute_zone G s) (\<lambda>r. Inr (map_option (\<lambda>s1. s1\<lparr>sd_last_recompute := now\<rparr>) r))"

definition swarmnet_round :: "real \<Rightarrow> 'g scout \<Rightarrow> 'g scout" where
  "swarmnet_round now s = with_node (publish_model_metadata (controller_metadata now (sd_swarmnet s))) s"

definition scout_on_peer_features :: "numpy_lib \<Rightarrow> bytes \<Rightarrow> 'g scout \<Rightarrow> 'g scout" where
  "scout_on_peer_features np raw s = with_trainer (\<lambda>t. fst (receive_peer_features np raw t)) s"

definition send_model_ack :: "string \<Rightarrow> real \<Rightarrow> string \<Rightarrow> int \<Rightarrow> 'g scout \<Rightarrow> 'g scout result" where
  "send_model_ack uid now drone_id version s =
     rbind (send_command uid now ''*'' MODEL_ACK
              (Some [(''drone_id'', CText drone_id), (''model_version'', CInt version)]) (sd_node s))
       (\<lambda>n. Inr (s\<lparr>sd_node := n\<rparr>))"

text \<open>The callback of the controller is \<open>_send_model_ack\<close>, whose exceptions it catches.\<close>

definition scout_global_model :: "numpy_lib \<Rightarrow> string \<Rightarrow> real \<Rightarrow> bytes \<Rightarrow> int \<Rightarrow> 'g scout \<Rightarrow> 'g scout" where
  "scout_global_model np uid now weights version s =
     (let c = sd_swarmnet s; s1 = s\<lparr>sd_swarmnet := receive_global_weights np weights version c\<rparr>
      in if sc_global_version c < version \<and> sc_ack c
         then case send_model_ack uid now (sc_drone_id c) version s1 of Inl e \<Rightarrow> s1 | Inr s2 \<Rightarrow> s2
         else s1)"

section \<open>Runs\<close>

datatype scout_event =
    StartScout | StopScout | SetProcessor | NodeInput node_event | GlobalModel string real bytes int
  | PeerInput bytes | ScanBegin real | ScanRound scan_input | SwarmnetRound real

text \<open>A loop that never finds its path leaves everything as it is.\<close>

fun scout_step :: "'g geometry \<Rightarrow> numpy_lib \<Rightarrow> 'g scout \<Rightarrow> scout_event \<Rightarrow> 'g scout" where
  "scout_step G np s StartScout = scout_start s"
| "scout_step G np s StopScout = scout_stop s"
| "scout_step G np s SetProcessor = set_detection_processor s"
| "scout_step G np s (NodeInput e) = with_node (\<lambda>n. node_step n e) s"
| "scout_step G np s (GlobalModel uid now w v) = scout_global_model np uid now w v s"
| "scout_step G np s (PeerInput raw) = scout_on_peer_features np raw s"
| "scout_step G np s (ScanBegin now) = (case scan_begin G now s of Inr (Some s') \<Rightarrow> s' | _ \<Rightarrow> s)"
| "scout_step G np s (ScanRound inp) = (case scan_round G np inp s of None \<Rightarrow> s | Some s' \<Rightarrow> s')"
| "scout_step G np s (SwarmnetRound now) = swarmnet_round now s"

section \<open>Frames\<close>

lemma with_frame [simp]:
  "sd_node (with_node f s) = f (sd_node s)" "sd_node (with_trainer g s) = sd_node s" "sd_node (with_belief h s) = sd_node s"
  "sd_belief_map (with_node f s) = sd_belief_map s" "sd_belief_map (with_trainer g s) = sd_belief_map s"
  "sd_belief_map (with_belief h s) = h (sd_belief_map s)"
  "sd_swarmnet (with_node f s) = sd_swarmnet s" "sd_swarmnet (with_belief h s) = sd_swarmnet s"
  "sd_config (with_node f s) = sd_config s" "sd_config (with_trainer g s) = sd_config s" "sd_config (with_belief h s) = sd_config s"
  "sd_current_path (with_node f s) = sd_current_path s" "sd_current_path (with_trainer g s) = sd_current_path s"
  "sd_current_path (with_belief h s) = sd_current_path s"
  "sd_path_index (with_node f s) = sd_path_index s" "sd_path_index (with_trainer g s) = sd_path_index s"
  "sd_path_index (with_belief h s) = sd_path_index s"
  "sd_running (with_node f s) = sd_running s" "sd_detection_processor (with_node f s) = sd_detection_processor s"
  "sd_detection_processor (with_trainer g s) = sd_detection_processor s"
  "sd_detection_processor (with_belief h s) = sd_detection_processor s"
  "sd_last_recompute (with_node f s) = sd_last_recompute s"
  "sd_tdma (with_node f s) = sd_tdma s" "sd_tdma (with_trainer g s) = sd_tdma s" "sd_tdma (with_belief h s) = sd_tdma s"
  by (simp_all add: with_node_def with_trainer_def with_belief_def)

lemma update_position_effects [simp]:
  "nd_effects (update_position p n) = nd_effects n" "nd_publishers (update_position p n) = nd_publishers n"
  "nd_effects (update_status st n) = nd_effects n" "nd_publishers (update_status st n) = nd_publishers n"
  by (simp_all add: update_position_def update_status_def)

lemma fly_frame:
  "nd_effects (sd_node (fold (fly_step p q k) is s)) = nd_effects (sd_node s)"
  "nd_publishers (sd_node (fold (fly_step p q k) is s)) = nd_publishers (sd_node s)"
  "sd_swarmnet (fold (fly_step p q k) is s) = sd_swarmnet s" "sd_config (fold (fly_step p q k) is s) = sd_config s"
  "sd_current_path (fold (fly_step p q k) is s) = sd_current_path s"
  "sd_path_index (fold (fly_step p q k) is s) = sd_path_index s"
  "sd_detection_processor (fold (fly_step p q k) is s) = sd_detection_processor s"
  "dt_status (nd_telemetry (sd_node (fold (fly_step p q k) is s))) = dt_status (nd_telemetry (sd_node s))"
  by (induction "is" arbitrary: s) (simp_all add: fly_step_def Let_def update_position_def)

lemma scan_navigate_frame:
  assumes "scan_navigate target s = Inr s'"
  shows "nd_effects (sd_node s') = nd_effects (sd_node s)" "nd_publishers (sd_node s') = nd_publishers (sd_node s)"
    "sd_swarmnet s' = sd_swarmnet s" "sd_config s' = sd_config s" "sd_current_path s' = sd_current_path s"
    "sd_path_index s' = sd_path_index s" "sd_detection_processor s' = sd_detection_processor s"
    "dt_status (nd_telemetry (sd_node s')) = dt_status (nd_telemetry (sd_node s))"
  using assms by (auto simp: scan_navigate_def Let_def fly_frame split: if_splits)

section \<open>Beliefs\<close>

definition belief_ok :: "belief_map \<Rightarrow> bool" where
  "belief_ok b \<longleftrightarrow> (bm_enabled b \<longrightarrow> bm_prior b = 1 / 2) \<and> (\<forall>p\<in>set (dvals (bm_cells b)). 0.05 \<le> p \<and> p \<le> 0.95)"

lemma belief_at_bounds:
  assumes "belief_ok b" and "bm_enabled b"
  shows "0.05 \<le> belief_at b lat lon" and "belief_at b lat lon \<le> 0.95"
  using assms dget_in_dvals [of "bm_cells b" "cell_key b lat lon"]
  by (auto simp: belief_ok_def belief_at_def split: option.split)

lemma dvals_dset: "q \<in> set (dvals (dset k v d)) \<Longrightarrow> q = v \<or> q \<in> set (dvals d)"
  by (induction d) (auto split: if_splits)

lemma belief_update_ok [simp]:
  assumes "belief_ok b"
  shows "belief_ok (update_visited lat lon detected b)"
proof (cases "bm_enabled b")
  case True
  then show ?thesis
    using assms belief_at_bounds [OF assms True, of lat lon]
    by (auto simp: update_visited_def Let_def belief_ok_def min_def max_def dest!: dvals_dset)
qed (use assms in \<open>simp add: update_visited_def\<close>)

lemma belief_init_ok: "belief_ok (belief_init bounds cell (1 / 2) decay)"
  by (simp add: belief_ok_def belief_init_def)

text \<open>The entropy of a coin.\<close>

lemma entropy_bounds:
  fixes p :: real
  assumes "0 < p" and "p < 1"
  shows "0 < - (p * log 2 p + (1 - p) * log 2 (1 - p))" and "- (p * log 2 p + (1 - p) * log 2 (1 - p)) \<le> 1"
proof -
  have below: "x * (- ln 2 - ln x) \<le> 1 / 2 - x" if "0 < x" for x :: real
  proof -
    have "ln (1 / (2 * x)) \<le> 1 / (2 * x) - 1" using that by (intro ln_le_minus_one) simp
    moreover have "ln (1 / (2 * x)) = - ln 2 - ln x" using that by (simp add: ln_div ln_mult)
    ultimately have "x * (- ln 2 - ln x) \<le> x * (1 / (2 * x) - 1)" using that by (intro mult_left_mono) auto
    also have "\<dots> = 1 / 2 - x" using that by (simp add: field_simps)
    finally show ?thesis .
  qed
  have h: "- (p * log 2 p + (1 - p) * log 2 (1 - p)) = - (p * ln p + (1 - p) * ln (1 - p)) / ln 2"
    by (simp add: log_def add_divide_distrib diff_divide_distrib)
  have neg: "ln x < 0" if "0 < x" "x < 1" for x :: real using that by simp
  have "p * ln p < 0" "(1 - p) * ln (1 - p) < 0" using neg assms by (auto intro!: mult_pos_neg)
  then show "0 < - (p * log 2 p + (1 - p) * log 2 (1 - p))" unfolding h by (intro divide_pos_pos) auto
  have "- (p * ln p + (1 - p) * ln (1 - p)) \<le> ln 2"
    using below [of p] below [of "1 - p"] assms by (simp add: algebra_simps)
  then show "- (p * log 2 p + (1 - p) * log 2 (1 - p)) \<le> 1" unfolding h by simp
qed

lemma information_gain_bounds:
  assumes "belief_ok b"
  shows "0 < information_gain b lat lon \<and> information_gain b lat lon \<le> 1"
proof (cases "bm_enabled b")
  case True
  note a = belief_at_bounds [OF assms True, of lat lon]
  then have p: "0 < belief_at b lat lon" "belief_at b lat lon < 1" by simp_all
  then show ?thesis using entropy_bounds [OF p] True by (simp add: information_gain_def Let_def)
qed (simp add: information_gain_def)

section \<open>No task comes from a scout\<close>

fun is_put_task :: "node_effect \<Rightarrow> bool" where
  "is_put_task (Put key (PutTask t)) = True"
| "is_put_task _ = False"

definition quiet :: "node \<Rightarrow> bool" where
  "quiet n \<longleftrightarrow> (\<forall>e\<in>set (nd_effects n). \<not> is_put_task e)"

lemma quiet_emit [simp]: "quiet (emit es n) \<longleftrightarrow> quiet n \<and> (\<forall>e\<in>set es. \<not> is_put_task e)"
  by (auto simp: quiet_def emit_def)

lemma quiet_neutral [simp]:
  "quiet (n\<lparr>nd_telemetry := t\<rparr>) = quiet n" "quiet (n\<lparr>nd_swarm := w\<rparr>) = quiet n" "quiet (n\<lparr>nd_running := r\<rparr>) = quiet n"
  "quiet (n\<lparr>nd_publishers := ps\<rparr>) = quiet n" "quiet (n\<lparr>nd_subscribers := subs\<rparr>) = quiet n"
  "quiet (n\<lparr>nd_feature_callbacks := fc\<rparr>) = quiet n" "quiet (n\<lparr>nd_global_model_callbacks := gc\<rparr>) = quiet n"
  by (simp_all add: quiet_def)

lemma quiet_put_on: "put_on pub p n = Inr n' \<Longrightarrow> \<not> is_put_task (Put [] p) \<Longrightarrow> quiet n \<Longrightarrow> quiet n'"
  by (cases p) (auto simp: put_on_def split: option.splits)

lemma quiet_node_step: "quiet n \<Longrightarrow> quiet (node_step n e)"
  by (cases e)
    (auto simp: on_swarm_telemetry_def on_command_def process_command_def with_status_def on_detection_def
      on_task_auction_def on_model_metadata_def on_global_model_def on_peer_features_def on_registry_event_def
      telemetry_round_def cleanup_round_def update_position_def update_status_def node_start_def setup_publishers_def
      setup_subscribers_def node_stop_def Let_def intro: quiet_put_on split: sum.splits command_type.splits)

definition scout_inv :: "'g scout \<Rightarrow> bool" where
  "scout_inv s \<longleftrightarrow> quiet (sd_node s) \<and> belief_ok (sd_belief_map s)"

lemma quiet_handle: "scout_inv s \<Longrightarrow> scout_inv (fst (handle_detection uid now d s))"
  by (simp add: scout_inv_def handle_detection_def await_none_def Let_def publish_detection_def split: option.split)

lemma quiet_handle_all: "scout_inv s \<Longrightarrow> scout_inv (fst (handle_all np uids now i ds s))"
proof (induction ds arbitrary: i s)
  case (Cons d ds)
  obtain t e where t: "train_step np d (scout_trainer s) = (t, e)" by fastforce
  obtain s' e' where h: "handle_detection (uids i) now d (with_trainer (\<lambda>_. t) s) = (s', e')" by fastforce
  have "scout_inv s'" using quiet_handle [of "with_trainer (\<lambda>_. t) s" "uids i" now d] Cons.prems h by (simp add: scout_inv_def)
  then show ?case using Cons.prems Cons.IH [of s' "i + 1"] by (auto simp: t h scout_inv_def split: option.split)
qed simp

lemma quiet_process: "scout_inv s \<Longrightarrow> scout_inv (fst (process_detections np inp s))"
  by (auto simp: process_detections_def swarmnet_inference_def Let_def scout_inv_def [of "with_trainer f s" for f]
      simp del: handle_all.simps intro!: quiet_handle_all split: sum.split prod.split) (simp_all add: scout_inv_def)

lemma quiet_share: "scout_inv s \<Longrightarrow> scout_inv (fst (share_features np inp s))"
  by (auto simp: scout_inv_def share_features_def Let_def publish_features_def split: sum.split prod.split option.split)

lemma quiet_recompute: "recompute_zone G s = Inr (Some s') \<Longrightarrow> scout_inv s \<Longrightarrow> scout_inv s'"
  by (auto simp: scout_inv_def recompute_zone_def Let_def result_simps split: if_splits)

lemma fly_beliefs: "scan_navigate target s = Inr s' \<Longrightarrow> belief_ok (sd_belief_map s) \<Longrightarrow> belief_ok (sd_belief_map s')"
proof -
  have "belief_ok (sd_belief_map x) \<Longrightarrow> belief_ok (sd_belief_map (fold (fly_step p q k) is x))" for p q k "is" and x :: "'a scout"
    by (induction "is" arbitrary: x) (simp_all add: fly_step_def Let_def)
  then show "scan_navigate target s = Inr s' \<Longrightarrow> belief_ok (sd_belief_map s) \<Longrightarrow> belief_ok (sd_belief_map s')"
    by (auto simp: scan_navigate_def Let_def split: if_splits)
qed

lemma quiet_waypoint:
  assumes "scout_inv s"
  shows "scout_inv (scan_waypoint np inp s)"
proof (cases "scan_navigate (sd_current_path s ! sd_path_index s) s")
  case (Inr s1)
  let ?s2 = "s1\<lparr>sd_swarmnet := record_position (scout_position s1) (sd_swarmnet s1)\<rparr>"
  have s2: "scout_inv ?s2" using scan_navigate_frame(1) [OF Inr] fly_beliefs [OF Inr] assms by (simp add: scout_inv_def quiet_def)
  obtain s3 e where p: "process_detections np inp ?s2 = (s3, e)" by fastforce
  obtain s4 e' where sh: "share_features np inp s3 = (s4, e')" by fastforce
  have "scout_inv s3" using quiet_process [OF s2, of np inp] by (simp add: p)
  moreover from quiet_share [OF this, of np inp] have "scout_inv s4" by (simp add: sh)
  ultimately show ?thesis
    using assms by (auto simp: scan_waypoint_def Let_def Inr p sh advance_path_def scout_inv_def split: option.split)
qed (use assms in \<open>simp add: scan_waypoint_def\<close>)

lemma scout_inv_neutral [simp]:
  "scout_inv (with_node (update_status st) s) = scout_inv s" "scout_inv (s\<lparr>sd_last_recompute := now\<rparr>) = scout_inv s"
  by (simp_all add: scout_inv_def update_status_def)

lemma quiet_round: "scout_inv s \<Longrightarrow> scan_round G np inp s = Some s' \<Longrightarrow> scout_inv s'"
  by (auto simp: scan_round_def Let_def dest!: quiet_recompute intro!: quiet_waypoint
      split: if_splits sum.splits option.splits)

lemma quiet_step: "scout_inv s \<Longrightarrow> scout_inv (scout_step G np s e)"
proof (cases e)
  case (GlobalModel uid now w v)
  then show "scout_inv s \<Longrightarrow> ?thesis"
    by (auto simp: scout_inv_def scout_global_model_def send_model_ack_def send_command_def Let_def result_simps
        intro: quiet_put_on split: sum.splits)
next
  case (ScanRound inp)
  then show "scout_inv s \<Longrightarrow> ?thesis" using quiet_round [of s G np inp] by (auto split: option.split)
qed (auto dest: quiet_recompute simp: scout_inv_def scout_start_def scout_stop_def set_detection_processor_def node_start_def setup_publishers_def
      setup_subscribers_def node_on_features_def node_on_global_model_def node_stop_def Let_def quiet_node_step
      scout_on_peer_features_def scan_begin_def result_simps swarmnet_round_def
      publish_model_metadata_def split: sum.splits option.splits)

interpretation scout_machine: event_machine "scout_step G np" scout_inv for G np
  by unfold_locales (rule quiet_step)

lemma scout_init_inv: "scout_init G env w0 cfg now = Inr s \<Longrightarrow> scout_inv s"
  by (auto simp: scout_init_def result_simps node_init_def quiet_def scout_inv_def belief_init_ok)

text \<open>A scout never asks for work: in any run of a scout, whatever it detects, infers or is told, no task is
  ever put up for auction. The first confident detection is published, and waiting for the value of the
  plain function that published it raises before the task is made.\<close>

theorem scout_publishes_no_task:
  assumes "scout_init G env w0 cfg now = Inr s"
  shows "\<forall>key t. Put key (PutTask t) \<notin> set (nd_effects (sd_node (foldl (scout_step G np) s es)))"
proof -
  have "scout_inv s" by (rule scout_init_inv [OF assms])
  from scout_machine.run_inv [OF this, of G np es] show ?thesis by (force simp: quiet_def scout_inv_def)
qed

definition sample_scout_config :: "string \<Rightarrow> scout_config" where
  "sample_scout_config drone_id =
     \<lparr>sf_drone_id = drone_id, sf_field_boundary = [(0, 0), (2, 0), (2, 1), (0, 1)], sf_operational_altitude = 35,
      sf_scan_speed_mps = 10, sf_swath_width = 1, sf_detection_confidence_threshold = 0.7\<rparr>"

definition sample_scout :: "rect scout" where
  "sample_scout =
     \<lparr>sd_config = sample_scout_config ''s'', sd_env = None,
      sd_node = node_init (node_config0 ''s'' SCOUT) 0,
      sd_partitioner = \<lparr>fp_polygon = rect_of [(0, 0), (2, 0), (2, 1), (0, 1)],
                        fp_bounds = rect_corners (rect_of [(0, 0), (2, 0), (2, 1), (0, 1)])\<rparr>,
      sd_assigned_zone = None, sd_current_path = [], sd_path_index = 0,
      sd_belief_map = belief_init [(0, 0), (2, 0), (2, 1), (0, 1)] 0.00005 0.5 0.01, sd_use_info_gain = True,
      sd_running = False, sd_detection_processor = False,
      sd_swarmnet = controller_init ''s'' (trainer_init (trainer_types (load_profile None None)) 0 256 0.01 False []),
      sd_tdma = \<lparr>td_drone_id = ''s'', td_frame_period = 10, td_max_slots = 32, td_slot_index = hash_slot 32 ''s'',
                 td_last_broadcast = 0\<rparr>, sd_last_recompute = 0\<rparr>"

lemma sample_scout_init: "scout_init rect_geometry None [] (sample_scout_config ''s'') 0 = Inr sample_scout"
  by (simp add: scout_init_def sample_scout_def sample_scout_config_def partitioner_init_def rect_geometry_def
      tdma_init_def)

lemma scout_publishes_no_task_witness:
  "\<forall>key t. Put key (PutTask t) \<notin> set (nd_effects (sd_node
     (foldl (scout_step rect_geometry plain_numpy) sample_scout [StartScout, ScanBegin 0])))"
  by (rule scout_publishes_no_task [OF sample_scout_init])

section \<open>What a detection does to the scan\<close>

lemma scan_round_plain:
  assumes "sd_running s" and "si_utcnow inp - sd_last_recompute s \<le> 60"
  shows "scan_round G np inp s = Some (scan_waypoint np inp (with_node (update_status SCANNING) s))"
  using assms by (simp add: scan_round_def Let_def)

text \<open>A confident detection stops the scan where it is: in an iteration in which the detection processor reports
  a detection at least as sure as the threshold, that detection is published, but those reported after it
  are dropped, no features are shared and the path does not advance, so that the next iteration flies to
  the same way point again.\<close>

theorem detection_stalls_scan:
  assumes "sd_running s" and "si_utcnow inp - sd_last_recompute s \<le> 60"
    and "sd_path_index s < length (sd_current_path s)" and "sf_scan_speed_mps (sd_config s) \<noteq> 0"
    and "sd_detection_processor s" and "si_processor inp = Inr (d # ds)"
    and "sf_detection_confidence_threshold (sd_config s) \<le> de_confidence d"
    and "snd (train_step np d (scout_trainer s)) = None"
    and "dget (nd_publishers (sd_node s)) ''detection'' = Some key"
  shows "\<exists>s'. scan_round G np inp s = Some s'
     \<and> nd_effects (sd_node s') = nd_effects (sd_node s) @ [Put key (PutDetection d)]
     \<and> sd_path_index s' = sd_path_index s \<and> sd_current_path s' = sd_current_path s
     \<and> sd_tdma s' = sd_tdma s"
proof -
  let ?s0 = "with_node (update_status SCANNING) s"
  obtain s1 where n: "scan_navigate (sd_current_path s ! sd_path_index s) ?s0 = Inr s1"
    and tdma: "sd_tdma s1 = sd_tdma s"
  proof -
    have "sd_tdma (fold (fly_step p q k) is x) = sd_tdma x" for p q k "is" and x :: "'a scout"
      by (induction "is" arbitrary: x) (simp_all add: fly_step_def Let_def)
    then show ?thesis using that assms(4) by (simp add: scan_navigate_def Let_def)
  qed
  note f = scan_navigate_frame [OF n]
  let ?s2 = "s1\<lparr>sd_swarmnet := record_position (scout_position s1) (sd_swarmnet s1)\<rparr>"
  have tr: "scout_trainer ?s2 = scout_trainer s" using f(3) by (simp add: scout_trainer_def record_position_def)
  obtain t where t: "train_step np d (scout_trainer ?s2) = (t, None)"
    using assms(8) by (cases "train_step np d (scout_trainer s)") (simp add: tr)
  have "scan_round G np inp s = Some (scan_waypoint np inp ?s0)" by (rule scan_round_plain [OF assms(1,2)])
  moreover have "scan_waypoint np inp ?s0 = fst (process_detections np inp ?s2)"
    and "fst (process_detections np inp ?s2)
      = fst (handle_detection (si_task_ids inp 0) (si_utcnow inp) d (with_trainer (\<lambda>_. t) ?s2))"
    using assms(3,5,6,7) f t n
    by (simp_all add: scan_waypoint_def process_detections_def handle_detection_def Let_def await_none_def)
  ultimately show ?thesis
    using assms(7,9) f tdma
    by (simp add: handle_detection_def Let_def await_none_def publish_detection_def emit_def)
qed

definition sample_sighting :: detection where
  "sample_sighting = \<lparr>de_id = ''d'', de_detection_type = WEED, de_position = geo_position0, de_confidence = 0.9,
     de_severity = 5, de_detected_by = [], de_timestamp = 0\<rparr>"

definition sample_input :: scan_input where
  "sample_input = \<lparr>si_utcnow = 0, si_monotonic = 0, si_processor = Inr [sample_sighting, sample_sighting],
     si_fresh = (\<lambda>i. ([], 0, 0)), si_lucky = False, si_drawn = (WEED, [], 0, 0, 0.9, 5), si_task_ids = (\<lambda>i. [])\<rparr>"

definition scanning_scout :: "rect scout" where
  "scanning_scout = (scout_start sample_scout)\<lparr>sd_current_path := [(1, 1)], sd_detection_processor := True\<rparr>"

lemma scanning_scout_fields:
  "sd_running scanning_scout" "sd_last_recompute scanning_scout = 0" "sd_path_index scanning_scout = 0"
  "sd_current_path scanning_scout = [(1, 1)]" "sf_scan_speed_mps (sd_config scanning_scout) = 10"
  "sd_detection_processor scanning_scout" "sf_detection_confidence_threshold (sd_config scanning_scout) = 0.7"
  "dget (nd_publishers (sd_node scanning_scout)) ''detection'' = Some (zk_detection ''s'')"
  "nd_effects (sd_node scanning_scout) = []"
  "dget (lt_class_to_idx (scout_trainer scanning_scout)) ''weed'' = None"
  by (simp_all add: scanning_scout_def scout_start_def sample_scout_def sample_scout_config_def with_node_def
      node_start_def setup_publishers_def setup_subscribers_def node_on_features_def node_on_global_model_def
      node_init_def node_config0_def nd_role_def nd_drone_id_def Let_def scout_trainer_def set_ack_callback_def
      controller_init_def trainer_init_def trainer_types_def load_profile_def profiles_def athena_def)

lemma detection_stalls_scan_witness:
  "\<exists>s'. scan_round rect_geometry plain_numpy sample_input scanning_scout = Some s'
     \<and> nd_effects (sd_node s') = [Put (zk_detection ''s'') (PutDetection sample_sighting)] \<and> sd_path_index s' = 0"
proof -
  have "snd (train_step plain_numpy sample_sighting (scout_trainer scanning_scout)) = None"
    by (simp add: train_step_def Let_def sample_sighting_def scanning_scout_fields)
  with detection_stalls_scan [of scanning_scout sample_input sample_sighting "[sample_sighting]" plain_numpy
      "zk_detection ''s''" rect_geometry]
  show ?thesis by (simp add: scanning_scout_fields sample_input_def sample_sighting_def) blast
qed

section \<open>Commands to a scout\<close>

lemma scout_position_neutral [simp]:
  "scout_position (with_trainer f s) = scout_position s" "scout_position (with_belief g s) = scout_position s"
  "scout_position (s\<lparr>sd_tdma := td\<rparr>) = scout_position s" "scout_position (s\<lparr>sd_path_index := i\<rparr>) = scout_position s"
  "scout_position (s\<lparr>sd_swarmnet := c\<rparr>) = scout_position s"
  by (simp_all add: scout_position_def)

definition whereabouts :: "'g scout \<Rightarrow> geo_position \<times> drone_status" where
  "whereabouts s = (scout_position s, dt_status (nd_telemetry (sd_node s)))"

lemma whereabouts_neutral [simp]:
  "whereabouts (with_trainer f s) = whereabouts s" "whereabouts (with_belief g s) = whereabouts s"
  "whereabouts (s\<lparr>sd_tdma := td\<rparr>) = whereabouts s" "whereabouts (s\<lparr>sd_path_index := i\<rparr>) = whereabouts s"
  "whereabouts (s\<lparr>sd_swarmnet := c\<rparr>) = whereabouts s"
  "whereabouts (with_node (publish_detection d) s) = whereabouts s"
  "whereabouts (with_node (publish_features fs) s) = whereabouts s"
  by (simp_all add: whereabouts_def scout_position_def publish_detection_def publish_features_def emit_def
      split: option.split)

lemma handle_whereabouts: "whereabouts (fst (handle_detection uid now d s)) = whereabouts s"
  by (simp add: handle_detection_def Let_def await_none_def)

lemma handle_all_whereabouts: "whereabouts (fst (handle_all np uids now i ds s)) = whereabouts s"
proof (induction ds arbitrary: i s)
  case (Cons d ds)
  obtain t e where t: "train_step np d (scout_trainer s) = (t, e)" by fastforce
  obtain s' e' where h: "handle_detection (uids i) now d (with_trainer (\<lambda>_. t) s) = (s', e')" by fastforce
  have "whereabouts s' = whereabouts s" using handle_whereabouts [of "uids i" now d "with_trainer (\<lambda>_. t) s"] h by simp
  then show ?case using Cons.IH [of "i + 1" s'] by (auto simp: t h split: option.split)
qed simp

lemma process_whereabouts: "whereabouts (fst (process_detections np inp s)) = whereabouts s"
  by (simp add: process_detections_def swarmnet_inference_def Let_def handle_all_whereabouts
      del: handle_all.simps split: sum.split prod.split)

lemma share_whereabouts: "whereabouts (fst (share_features np inp s)) = whereabouts s"
  by (simp add: share_features_def Let_def split: sum.split prod.split)

text \<open>After the work at a way point the scout is where the flight there took it.\<close>

lemma waypoint_whereabouts:
  assumes "sd_path_index s < length (sd_current_path s)"
    and "scan_navigate (sd_current_path s ! sd_path_index s) s = Inr s1"
  shows "whereabouts (scan_waypoint np inp s) = whereabouts s1"
proof -
  let ?s2 = "s1\<lparr>sd_swarmnet := record_position (scout_position s1) (sd_swarmnet s1)\<rparr>"
  obtain s3 e where p: "process_detections np inp ?s2 = (s3, e)" by fastforce
  obtain s4 e' where sh: "share_features np inp s3 = (s4, e')" by fastforce
  have "whereabouts s3 = whereabouts s1" using process_whereabouts [of np inp ?s2] by (simp add: p)
  moreover have "whereabouts s4 = whereabouts s3" using share_whereabouts [of np inp s3] by (simp add: sh)
  ultimately show ?thesis
    using assms by (simp add: scan_waypoint_def Let_def p sh advance_path_def split: option.split)
qed

lemma fly_step_position:
  "scout_position (fly_step p q k i s) =
     (let t = real (i + 1) / real k
      in geo_position0\<lparr>gp_latitude := gp_latitude p + t * (gp_latitude q - gp_latitude p),
           gp_longitude := gp_longitude p + t * (gp_longitude q - gp_longitude p),
           gp_altitude := sf_operational_altitude (sd_config s)\<rparr>)"
  by (simp add: fly_step_def Let_def scout_position_def update_position_def)

lemma fly_position:
  "is \<noteq> [] \<Longrightarrow> scout_position (fold (fly_step p q k) is s) =
     (let t = real (last is + 1) / real k
      in geo_position0\<lparr>gp_latitude := gp_latitude p + t * (gp_latitude q - gp_latitude p),
           gp_longitude := gp_longitude p + t * (gp_longitude q - gp_longitude p),
           gp_altitude := sf_operational_altitude (sd_config s)\<rparr>)"
proof (induction "is" rule: rev_induct)
  case (snoc i "is")
  show ?case by (simp add: fly_step_position fly_frame Let_def)
qed simp

lemma scan_navigate_position:
  assumes "sd_running s" and "sf_scan_speed_mps (sd_config s) \<noteq> 0" and "scan_navigate target s = Inr s1"
    and "sd_running s'" and "sd_config s' = sd_config s" and "scout_position s' = scout_position s"
  shows "\<exists>s2. scan_navigate target s' = Inr s2 \<and> scout_position s2 = scout_position s1"
  using assms by (auto simp: scan_navigate_def Let_def fly_position)

text \<open>No command reaches the scan. Whatever command the scout's node acts on, an emergency stop addressed to it
  included, the next iteration of the scan loop flies to the same place as without the command and reports
  the status SCANNING, as it does when it was commanded to return or to pause.\<close>

theorem command_does_not_stop_scan:
  assumes "sd_running s" and "si_utcnow inp - sd_last_recompute s \<le> 60"
    and "sd_path_index s < length (sd_current_path s)" and "sf_scan_speed_mps (sd_config s) \<noteq> 0"
  shows "\<exists>s1 s2. scan_round G np inp s = Some s1
     \<and> scan_round G np inp (scout_step G np s (NodeInput (CommandSample (Inr cmd)))) = Some s2
     \<and> scout_position s2 = scout_position s1
     \<and> dt_status (nd_telemetry (sd_node s2)) = SCANNING"
proof -
  let ?c = "with_node (on_command (Inr cmd)) s" and ?scan = "with_node (update_status SCANNING)"
  let ?target = "sd_current_path s ! sd_path_index s"
  have pos: "scout_position ?c = scout_position s"
    by (simp add: scout_position_def on_command_def process_command_def with_status_def emit_def Let_def
        split: command_type.split)
  have scan: "scout_position (?scan x) = scout_position x" for x :: "'a scout"
    by (simp add: scout_position_def update_status_def)
  obtain s1 where s1: "scan_navigate ?target (?scan s) = Inr s1"
    using assms(4) by (simp add: scan_navigate_def Let_def)
  obtain s2 where s2: "scan_navigate ?target (?scan ?c) = Inr s2" "scout_position s2 = scout_position s1"
    using scan_navigate_position [OF _ _ s1, of "?scan ?c"] assms(1,4) pos scan by auto
  have "dt_status (nd_telemetry (sd_node s2)) = SCANNING"
    using scan_navigate_frame(8) [OF s2(1)] by (simp add: update_status_def)
  then show ?thesis
    using waypoint_whereabouts [of "?scan s" s1 np inp] waypoint_whereabouts [of "?scan ?c" s2 np inp] s1 s2 assms
    by (simp add: scan_round_plain whereabouts_def)
qed

lemma command_does_not_stop_scan_witness:
  "\<exists>s2. scan_round rect_geometry plain_numpy sample_input (with_node (on_command (Inr
      (emergency_stop_all ''u'' 0 ''b''))) scanning_scout) = Some s2
    \<and> dt_status (nd_telemetry (sd_node s2)) = SCANNING"
  using command_does_not_stop_scan [of scanning_scout sample_input rect_geometry plain_numpy
      "emergency_stop_all ''u'' 0 ''b''"]
  by (simp add: scanning_scout_fields sample_input_def) blast

section \<open>Slots\<close>

lemma broadcast_cooldown:
  assumes "fst (should_broadcast now s)" and "t < td_frame_period s / of_int (td_max_slots s)"
  shows "\<not> fst (should_broadcast (now + t) (snd (should_broadcast now s)))"
  using assms by (auto simp: should_broadcast_def Let_def split: if_splits)

text \<open>A time slot is not dedicated to a drone. Of two schedulers with the same frame, adjusted to the same size
  of the swarm and past their waiting time, both may broadcast at an instant if and only if it is one's turn
  and their ids have the same hash modulo the number of slots (four to 32 of them): such drones always
  broadcast together, and then both keep silent for a slot's length.\<close>

theorem tdma_slots_shared:
  assumes "0 < td_frame_period a" and "td_frame_period b = td_frame_period a"
    and "a' = update_slot_count n a" and "b' = update_slot_count n b"
    and "td_frame_period a / of_int (td_max_slots a') \<le> now - td_last_broadcast a"
    and "td_frame_period a / of_int (td_max_slots a') \<le> now - td_last_broadcast b"
  shows "(fst (should_broadcast now a') \<and> fst (should_broadcast now b')
          \<longleftrightarrow> fst (should_broadcast now a')
              \<and> uint (id_hash (td_drone_id a)) mod td_max_slots a' = uint (id_hash (td_drone_id b)) mod td_max_slots a')
     \<and> td_max_slots a' \<in> {4..32}
     \<and> (fst (should_broadcast now a') \<longrightarrow> 0 < t \<and> t < td_frame_period a / of_int (td_max_slots a')
          \<longrightarrow> \<not> fst (should_broadcast (now + t) (snd (should_broadcast now a'))))"
proof -
  let ?m = "max 4 (min 32 (n + 2))" and ?P = "td_frame_period a"
  let ?d = "?P / of_int ?m" and ?tf = "py_fmod now ?P"
  let ?ia = "hash_slot ?m (td_drone_id a)" and ?ib = "hash_slot ?m (td_drone_id b)"
  have m: "0 < ?m" by simp
  have d: "0 < ?d" using assms(1) by simp
  have a': "td_max_slots a' = ?m" "td_slot_index a' = ?ia" "td_frame_period a' = ?P"
    "td_last_broadcast a' = td_last_broadcast a"
    by (simp_all add: assms(3) update_slot_count_def Let_def hash_slot_def)
  have b': "td_max_slots b' = ?m" "td_slot_index b' = ?ib" "td_frame_period b' = ?P"
    "td_last_broadcast b' = td_last_broadcast b"
    by (simp_all add: assms(2,4) update_slot_count_def Let_def hash_slot_def)
  have fa: "fst (should_broadcast now a') \<longleftrightarrow> of_int ?ia * ?d \<le> ?tf \<and> ?tf < of_int ?ia * ?d + ?d"
    using assms(5) by (simp add: should_broadcast_def a' Let_def)
  have fb: "fst (should_broadcast now b') \<longleftrightarrow> of_int ?ib * ?d \<le> ?tf \<and> ?tf < of_int ?ib * ?d + ?d"
    using assms(6) by (simp add: should_broadcast_def b' a'(1) Let_def)
  have slot: "\<lfloor>x / e\<rfloor> = i \<longleftrightarrow> of_int i * e \<le> x \<and> x < of_int i * e + e" if "0 < e" for x e :: real and i
    using that by (simp add: floor_eq_iff pos_le_divide_eq pos_divide_less_eq ring_distribs)
  have quiet: "\<not> fst (should_broadcast (now + t) (snd (should_broadcast now a')))"
    if "fst (should_broadcast now a')" "t < ?d"
    by (rule broadcast_cooldown [OF that(1)]) (use that(2) in \<open>simp only: a'\<close>)
  have fa': "fst (should_broadcast now a') \<longleftrightarrow> \<lfloor>?tf / ?d\<rfloor> = ?ia" unfolding fa by (rule slot [OF d, symmetric])
  have fb': "fst (should_broadcast now b') \<longleftrightarrow> \<lfloor>?tf / ?d\<rfloor> = ?ib" unfolding fb by (rule slot [OF d, symmetric])
  have "fst (should_broadcast now a') \<and> fst (should_broadcast now b')
      \<longleftrightarrow> fst (should_broadcast now a') \<and> ?ia = ?ib"
    unfolding fa' fb' by metis
  moreover have "td_max_slots a' \<in> {4..32}" unfolding a'(1) by simp
  ultimately show ?thesis using quiet unfolding a'(1) hash_slot_def by blast
qed

definition sample_slot :: "string \<Rightarrow> tdma_scheduler" where
  "sample_slot d = \<lparr>td_drone_id = d, td_frame_period = 10, td_max_slots = 32, td_slot_index = hash_slot 32 d,
                    td_last_broadcast = 0\<rparr>"

lemma tdma_slots_shared_witness:
  "fst (should_broadcast 105 (update_slot_count 2 (sample_slot ''scout_01'')))
   \<and> fst (should_broadcast 105 (update_slot_count 2 (sample_slot ''scout_05'')))"
proof -
  let ?a = "sample_slot ''scout_01''" and ?b = "sample_slot ''scout_05''"
  have h: "uint (id_hash ''scout_01'') mod 4 = 2" "uint (id_hash ''scout_05'') mod 4 = 2" by code_simp+
  have f: "\<lfloor>105 / 10 :: real\<rfloor> = 10" by (simp add: floor_eq_iff)
  have m: "td_max_slots (update_slot_count 2 ?a) = 4" "td_frame_period ?a = 10" "td_frame_period ?b = 10"
    "td_last_broadcast ?a = 0" "td_last_broadcast ?b = 0" "td_drone_id ?a = ''scout_01''" "td_drone_id ?b = ''scout_05''"
    by (simp_all add: update_slot_count_def Let_def sample_slot_def)
  have "fst (should_broadcast 105 (update_slot_count 2 ?a))"
    using h(1) f by (simp add: should_broadcast_def update_slot_count_def sample_slot_def Let_def hash_slot_def py_fmod_def)
  with tdma_slots_shared [of ?a ?b "update_slot_count 2 ?a" 2 "update_slot_count 2 ?b" 105] h m show ?thesis by simp
qed

section \<open>Ranking\<close>

text \<open>Ranking reorders the path and loses nothing of it: the way points stay the same with their repetitions, and
  of an enabled map they come in the order of their score, the best first, where the score weighs the
  information gain against the distance from the scout.\<close>

theorem ranking_reorders_path:
  assumes "bm_enabled b"
  shows "mset (rank_waypoints b wps cur dw iw) = mset wps
     \<and> sorted_wrt (\<lambda>p q. waypoint_score b cur dw iw q \<le> waypoint_score b cur dw iw p) (rank_waypoints b wps cur dw iw)"
proof -
  let ?f = "waypoint_score b cur dw iw"
  have r: "rank_waypoints b wps cur dw iw = map snd (sort_key (\<lambda>x. - fst x) (map (\<lambda>wp. (?f wp, wp)) wps))"
    using assms by (simp add: rank_waypoints_def)
  let ?s = "sort_key (\<lambda>x. - fst x) (map (\<lambda>wp. (?f wp, wp)) wps)"
  have sc: "\<forall>x\<in>set ?s. fst x = ?f (snd x)" by auto
  have "sorted (map (\<lambda>x. - fst x) ?s)" by simp
  then have "sorted_wrt (\<lambda>x y. fst y \<le> fst x) ?s" by (simp add: sorted_map)
  then have "sorted_wrt (\<lambda>x y. ?f (snd y) \<le> ?f (snd x)) ?s"
    by (rule sorted_wrt_mono_rel [rotated]) (use sc in simp)
  moreover have "mset (map snd ?s) = mset wps" by (simp add: multiset.map_comp o_def)
  ultimately show ?thesis unfolding r by (simp add: sorted_wrt_map)
qed

lemma ranking_reorders_path_witness:
  "mset (rank_waypoints (sd_belief_map sample_scout) [(1, 1), (0, 1)] (0, 0) 0.3 0.7) = mset [(1, 1), (0, 1)]"
  using ranking_reorders_path [of "sd_belief_map sample_scout" "[(1, 1), (0, 1)]" "(0, 0)" "0.3" "0.7"]
  by (simp add: sample_scout_def belief_init_def)


text \<open>C32: Beliefs stay beliefs: in any run of a scout, every cell it flew over or found something in holds a
  probability between 0.05 and 0.95, so that each place keeps some information to gain, at most the one bit
  of a place never visited, and no place is ever written off or certain.\<close>

theorem beliefs_stay_open:
  assumes "scout_init G env w0 cfg now = Inr s" and "s' = foldl (scout_step G np) s es"
  shows "(\<forall>p\<in>set (dvals (bm_cells (sd_belief_map s'))). 0.05 \<le> p \<and> p \<le> 0.95)
     \<and> 0 < information_gain (sd_belief_map s') lat lon \<and> information_gain (sd_belief_map s') lat lon \<le> 1"
proof -
  have "scout_inv s" by (rule scout_init_inv [OF assms(1)])
  from scout_machine.run_inv [OF this, of G np es] have "belief_ok (sd_belief_map s')"
    unfolding assms(2) by (simp add: scout_inv_def)
  then show ?thesis using information_gain_bounds by (auto simp: belief_ok_def)
qed

lemma beliefs_stay_open_witness:
  "0 < information_gain (sd_belief_map (foldl (scout_step rect_geometry plain_numpy) sample_scout [StartScout, ScanBegin 0])) 1 1"
  using beliefs_stay_open [OF sample_scout_init refl, of plain_numpy "[StartScout, ScanBegin 0]" 1 1] by blast

end
