(* ===== verification/Lifecycle.thy ===== *)
theory Lifecycle
  imports Executor
begin

text \<open>
  What an executor promises its operator: a task goes from acceptance, perhaps over an approval, to flight,
  work and completion, one at a time. The lifecycle is a small step relation over phases; the
  detailed executor of \<open>Executor\<close>, with its payload, its legs, its node and its program counter,
  refines it as long as nobody recalls it.
\<close>

section \<open>The abstract machine\<close>

datatype phase = Ready | Waiting string | Underway string | AtWork string | Homebound | Held

inductive lifecycle :: "phase \<Rightarrow> phase \<Rightarrow> bool" where
  accept: "lifecycle Ready (Underway t)"
| ask: "lifecycle Ready (Waiting t)"
| approve: "lifecycle (Waiting t) (Underway t)"
| refuse: "lifecycle (Waiting t) Ready"
| reach: "lifecycle (Underway t) (AtWork t)"
| complete: "lifecycle (AtWork t) Ready"
| complete_low: "lifecycle (AtWork t) Homebound"
| run_low: "lifecycle Ready Homebound"
| refill: "lifecycle Homebound Ready"

inductive_simps lifecycle_to_work [simp]: "lifecycle p (AtWork t)"
inductive_cases lifecycle_from_waiting: "lifecycle (Waiting t) p"

text \<open>The phase of an executor.\<close>

definition with_task :: "(string \<Rightarrow> phase) \<Rightarrow> string option \<Rightarrow> phase" where
  "with_task f ct = (case ct of None \<Rightarrow> Held | Some t \<Rightarrow> f t)"

fun phase_in :: "executor_state \<Rightarrow> string option \<Rightarrow> phase" where
  "phase_in EX_IDLE ct = Ready"
| "phase_in EX_BIDDING ct = Ready"
| "phase_in EX_RETURNING ct = Homebound"
| "phase_in EX_RECALLED ct = Held"
| "phase_in EX_AWAITING_APPROVAL ct = with_task Waiting ct"
| "phase_in EX_TRANSITING ct = with_task Underway ct"
| "phase_in EX_EXECUTING ct = with_task AtWork ct"

definition phase_of :: "executor \<Rightarrow> phase" where
  "phase_of x = phase_in (xd_state x) (xd_current_task x)"

lemma with_task_Some [simp]: "with_task f (Some t) = f t"
  by (simp add: with_task_def)

section \<open>The invariant\<close>

text \<open>Where the main loop waits agrees with the state, and the state with the task that is held.\<close>

fun loop_state :: "exec_pc \<Rightarrow> executor_state \<Rightarrow> string option \<Rightarrow> bool" where
  "loop_state AtLoop st ct \<longleftrightarrow> True"
| "loop_state (Flying l c steps i ls ThenWork) st ct \<longleftrightarrow> st = EX_TRANSITING"
| "loop_state (Flying l c steps i ls ThenRefill) st ct \<longleftrightarrow> st = EX_RETURNING"
| "loop_state (Working tid) st ct \<longleftrightarrow> st = EX_EXECUTING \<and> ct = Some tid"
| "loop_state Refilling st ct \<longleftrightarrow> st = EX_RETURNING"

definition agrees :: "executor \<Rightarrow> bool" where
  "agrees x \<longleftrightarrow> loop_state (xd_pc x) (xd_state x) (xd_current_task x) \<and> (xd_pc x = AtLoop \<or> xd_running x)"

definition lawful :: "executor \<Rightarrow> bool" where
  "lawful x \<longleftrightarrow>
     \<not> xd_recalled x \<and> agrees x \<and> xd_state x \<notin> {EX_BIDDING, EX_RECALLED}
     \<and> (xd_current_task x \<noteq> None \<longleftrightarrow> xd_state x \<in> {EX_AWAITING_APPROVAL, EX_TRANSITING, EX_EXECUTING})
     \<and> (xd_state x = EX_AWAITING_APPROVAL \<longrightarrow> xd_pending_escalation x \<noteq> None)"

text \<open>A step is in order if it keeps the invariant and is a step of the lifecycle or none.\<close>

definition in_order :: "executor \<Rightarrow> executor \<Rightarrow> bool" where
  "in_order x y \<longleftrightarrow> lawful y \<and> (phase_of y = phase_of x \<or> lifecycle (phase_of x) (phase_of y))"

fun not_recall :: "executor_event \<Rightarrow> bool" where
  "not_recall (NodeInput now (CommandSample (Inr cmd))) \<longleftrightarrow> dc_type (cg_command cmd) \<noteq> RECALL_FOR_UPDATE"
| "not_recall _ \<longleftrightarrow> True"

lemma phase_neutral [simp]:
  "phase_of (on_node f x) = phase_of x" "phase_of (x\<lparr>xd_pc := c\<rparr>) = phase_of x" "phase_of (x\<lparr>xd_tasks := ts\<rparr>) = phase_of x"
  "phase_of (x\<lparr>xd_engine := en\<rparr>) = phase_of x" "phase_of (x\<lparr>xd_running := rn\<rparr>) = phase_of x"
  "phase_of (x\<lparr>xd_cbba := cb\<rparr>) = phase_of x" "phase_of (x\<lparr>xd_pending_bids := pb\<rparr>) = phase_of x"
  by (simp_all add: phase_of_def on_node_def)

lemma lawful_neutral [simp]:
  "lawful (on_node f x) = lawful x" "lawful (x\<lparr>xd_tasks := ts\<rparr>) = lawful x"
  "lawful (x\<lparr>xd_cbba := cb\<rparr>) = lawful x" "lawful (x\<lparr>xd_pending_bids := pb\<rparr>) = lawful x"
  by (simp_all add: lawful_def agrees_def on_node_def)

text \<open>An executor that holds a task in transit, at the head of its loop or in the air, and one on its way home.\<close>

definition bound_for :: "arrival \<Rightarrow> executor \<Rightarrow> bool" where
  "bound_for a x \<longleftrightarrow> xd_running x \<and> \<not> xd_recalled x
     \<and> (case a of ThenWork \<Rightarrow> xd_state x = EX_TRANSITING \<and> xd_current_task x \<noteq> None
                | ThenRefill \<Rightarrow> xd_state x = EX_RETURNING \<and> xd_current_task x = None)"

lemma bound_for_neutral [simp]:
  "bound_for a (on_node f x) = bound_for a x" "bound_for a (x\<lparr>xd_tasks := ts\<rparr>) = bound_for a x"
  by (simp_all add: bound_for_def on_node_def split: arrival.split)

lemma bound_for_flying:
  "bound_for a x \<Longrightarrow> lawful (x\<lparr>xd_pc := Flying l c steps i ls a\<rparr>)"
  by (auto simp: bound_for_def lawful_def agrees_def split: arrival.splits)

lemma flying_bound_for: "lawful x \<Longrightarrow> xd_pc x = Flying l c steps i ls a \<Longrightarrow> bound_for a x"
  by (auto simp: bound_for_def lawful_def agrees_def split: arrival.splits)

lemma arrive_in_order: "bound_for a x \<Longrightarrow> in_order x (arrive a x)"
  by (auto simp: bound_for_def in_order_def arrive_def lawful_def agrees_def phase_of_def
      intro: lifecycle.intros split: arrival.splits)

lemma begin_legs_in_order: "bound_for a x \<Longrightarrow> in_order x (begin_legs ls a x)"
proof (cases ls)
  case (Cons l ls')
  assume b: "bound_for a x"
  then have "\<not> leg_broken l x" by (auto simp: bound_for_def leg_broken_def split: leg.split)
  moreover have "lawful (x\<lparr>xd_pc := AtLoop\<rparr>)"
    using b by (auto simp: bound_for_def lawful_def agrees_def split: arrival.splits)
  ultimately show ?thesis
    using bound_for_flying [of a "on_node f x" for f] b Cons
    by (simp add: begin_legs.simps(2) in_order_def Let_def)
qed (simp add: arrive_in_order)

lemma in_order_from: "phase_of x = phase_of x' \<Longrightarrow> in_order x' y \<Longrightarrow> in_order x y"
  by (simp add: in_order_def)

lemma set_task_neutral [simp]:
  "xd_state (set_task_state tid st x) = xd_state x" "xd_pc (set_task_state tid st x) = xd_pc x"
  "xd_recalled (set_task_state tid st x) = xd_recalled x" "xd_running (set_task_state tid st x) = xd_running x"
  "xd_current_task (set_task_state tid st x) = xd_current_task x"
  by (simp_all add: set_task_state_def split: option.split)

lemma work_in_order:
  assumes "lawful x" and "xd_pc x = Working tid"
  shows "in_order x (finish_work tid x)"
proof -
  have "xd_recalled (consume_payload p x) = xd_recalled x" for p
    by (simp add: consume_payload_def Let_def split: option.split)
  then show ?thesis
    using assms by (auto simp: in_order_def finish_work_def Let_def lawful_def agrees_def phase_of_def
        intro: lifecycle.intros)
qed

lemma in_order_refl: "lawful x \<Longrightarrow> in_order x x"
  by (simp add: in_order_def)

lemma awaiting_in_order:
  assumes "lawful x" and "xd_pc x = AtLoop" and "xd_state x = EX_AWAITING_APPROVAL"
  shows "in_order x (handle_awaiting_approval now x)"
proof -
  obtain tid esc where "xd_current_task x = Some tid" "xd_pending_escalation x = Some esc"
    using assms by (auto simp: lawful_def)
  then show ?thesis
    using assms
    by (auto simp: handle_awaiting_approval_def drop_task_def Let_def in_order_def lawful_def agrees_def phase_of_def
        intro: lifecycle.intros split: option.split)
qed

lemma head_in_order:
  assumes "lawful x" and "xd_pc x = AtLoop"
  shows "in_order x (main_loop_head now x)"
proof (cases "xd_running x")
  case True
  show ?thesis
  proof (cases "xd_state x")
    case EX_IDLE
    then show ?thesis using assms True
      by (auto simp: main_loop_head_def handle_idle_def Let_def in_order_def lawful_def agrees_def phase_of_def
          on_node_def intro: lifecycle.intros)
  next
    case EX_AWAITING_APPROVAL
    then show ?thesis using awaiting_in_order [OF assms] True by (simp add: main_loop_head_def)
  next
    case EX_TRANSITING
    then obtain tid where tid: "xd_current_task x = Some tid" using assms by (auto simp: lawful_def)
    have "bound_for ThenWork x" using assms True EX_TRANSITING tid by (simp add: bound_for_def lawful_def)
    then have "in_order x (begin_legs ls ThenWork ((on_node f x)\<lparr>xd_tasks := ts\<rparr>))" for ls f ts
      using begin_legs_in_order [of ThenWork "(on_node f x)\<lparr>xd_tasks := ts\<rparr>" ls] by (simp add: in_order_def)
    then show ?thesis using True EX_TRANSITING tid in_order_refl [OF assms(1)]
      by (simp add: main_loop_head_def handle_transiting_def Let_def split: option.split)
  next
    case EX_EXECUTING
    then show ?thesis using assms True
      by (auto simp: main_loop_head_def handle_executing_def in_order_def lawful_def agrees_def on_node_def phase_of_def
          split: option.split)
  next
    case EX_RETURNING
    then have "bound_for ThenRefill x" using assms True by (auto simp: bound_for_def lawful_def)
    then have "in_order x (begin_legs ls ThenRefill (on_node f x))" for ls f
      using begin_legs_in_order [of ThenRefill "on_node f x" ls] by (simp add: in_order_def)
    then show ?thesis using True EX_RETURNING by (simp add: main_loop_head_def handle_returning_def Let_def)
  qed (use assms in \<open>auto simp: lawful_def\<close>)
qed (use assms in_order_refl in \<open>simp add: main_loop_head_def\<close>)

lemma tick_in_order:
  assumes "lawful x"
  shows "in_order x (exec_tick now x)"
proof (cases "xd_pc x")
  case (Flying l c steps i ls a)
  note b = flying_bound_for [OF assms Flying]
  have "in_order x ((on_node f x)\<lparr>xd_pc := Flying l c steps j ls a\<rparr>)" for f j
    using bound_for_flying [of a "on_node f x"] b by (simp add: in_order_def)
  then show ?thesis
    using begin_legs_in_order [OF b] Flying by (simp add: exec_tick_def fly_on_def)
next
  case Refilling
  then show ?thesis
    using assms by (auto simp: exec_tick_def finish_refill_def in_order_def lawful_def agrees_def phase_of_def
        intro: lifecycle.intros)
qed (use assms head_in_order work_in_order in \<open>simp_all add: exec_tick_def\<close>)

lemma assign_in_order:
  assumes "lawful x"
  shows "in_order x (fst (assign_task uid now t det x))"
proof (cases "executor_available x")
  case True
  then have idle: "xd_state x = EX_IDLE" by (simp add: executor_available_def)
  then have pc: "xd_pc x = AtLoop" and ct: "xd_current_task x = None"
    using assms by (auto simp: lawful_def agrees_def elim: loop_state.elims)
  obtain level engine where "score (t\<lparr>tk_assigned_to := Some (xc_drone_id (xd_config x)), tk_state := ASSIGNED\<rparr>)
      det (Some (swarm_context_of x)) (xd_engine x) = (level, engine)" by fastforce
  then show ?thesis
    using assms True idle pc ct
    by (auto simp: assign_task_def await_approval_def Let_def in_order_def lawful_def agrees_def phase_of_def on_node_def
        intro: lifecycle.intros split: option.split)
qed (use assms in_order_refl in \<open>simp add: assign_task_def\<close>)

lemma in_order_neutral [simp]:
  "in_order x (on_node f y) = in_order x y" "in_order (on_node f x) y = in_order x y"
  "in_order x (y\<lparr>xd_cbba := cb\<rparr>) = in_order x y" "in_order x (y\<lparr>xd_pending_bids := pb\<rparr>) = in_order x y"
  by (simp_all add: in_order_def)

lemma input_in_order:
  assumes "lawful x" and "not_recall (NodeInput now e)"
  shows "in_order x (node_input now e x)"
proof -
  have received: "in_order x (on_task_received t task (on_node f x))" for t task f
    using in_order_refl [OF assms(1)]
    by (simp add: on_task_received_def Let_def split: sum.split option.split)
  have commanded: "in_order x (on_command_received cmd (on_node f x))"
    if "dc_type (cg_command cmd) \<noteq> RECALL_FOR_UPDATE" for cmd f
  proof -
    have "\<not> xd_recalled (on_node f x)" using assms(1) by (simp add: lawful_def on_node_def)
    then have "on_command_received cmd (on_node f x) = on_node f x"
      using that by (simp add: on_command_received_def split: command_type.split)
    then show ?thesis using in_order_refl [OF assms(1)] by simp
  qed
  show ?thesis
    using assms(2) in_order_refl [OF assms(1)] received commanded
    by (cases e) (auto simp: node_input_def executor_command_def Let_def split: sum.splits)
qed

text \<open>Starting and stopping leave the phase alone.\<close>

lemma restart_in_order:
  assumes "lawful x"
  shows "in_order x (executor_start x)" and "in_order x (executor_stop x)"
  using assms by (simp_all add: executor_start_def executor_stop_def in_order_def lawful_def agrees_def phase_of_def on_node_def)

lemma step_in_order: "lawful x \<Longrightarrow> not_recall e \<Longrightarrow> in_order x (executor_step x e)"
  by (cases e) (simp_all add: tick_in_order assign_in_order input_in_order restart_in_order)

interpretation executor_refines: refinement executor_step not_recall lawful phase_of lifecycle
proof unfold_locales
  fix x e
  assume "lawful x" and "not_recall e"
  from step_in_order [OF this] show "lawful (executor_step x e)"
    and "phase_of (executor_step x e) = phase_of x \<or> lifecycle (phase_of x) (phase_of (executor_step x e))"
    by (simp_all add: in_order_def)
qed

lemma executor_init_lawful: "lawful (executor_init env cfg now)" and executor_init_ready: "phase_of (executor_init env cfg now) = Ready"
  by (simp_all add: executor_init_def lawful_def agrees_def phase_of_def)

section \<open>The executor implements the lifecycle\<close>

text \<open>C11: As long as no recall is handed to it, an executor implements the lifecycle: seen as its phase, every step
  of any run (loop iterations, assignments, samples, starts and stops) is a step of the lifecycle or
  none, and so the run is a path of the lifecycle from Ready. In particular it only ever comes to work on a
  task after being underway to that task, and a task that waits for an approval is taken up or given up.\<close>

theorem executor_implements_lifecycle:
  assumes "\<forall>e'\<in>set es \<union> {e}. not_recall e'" and "x = foldl executor_step (executor_init env cfg now) es"
  shows "lifecycle\<^sup>*\<^sup>* Ready (phase_of x)
     \<and> (phase_of (executor_step x e) = phase_of x \<or> lifecycle (phase_of x) (phase_of (executor_step x e)))
     \<and> (\<forall>t. phase_of (executor_step x e) = AtWork t \<longrightarrow> phase_of x \<in> {AtWork t, Underway t})
     \<and> (\<forall>t. phase_of x = Waiting t \<longrightarrow> phase_of (executor_step x e) \<in> {Waiting t, Underway t, Ready})"
proof -
  have l: "lawful x" unfolding assms(2) using assms(1) by (intro executor_refines.inv_run executor_init_lawful) simp
  have s: "phase_of (executor_step x e) = phase_of x \<or> lifecycle (phase_of x) (phase_of (executor_step x e))"
    using executor_refines.simulation [OF l] assms(1) by simp
  have "lifecycle\<^sup>*\<^sup>* Ready (phase_of x)"
    using executor_refines.run_path [OF executor_init_lawful, of es env cfg now] assms by (simp add: executor_init_ready)
  then show ?thesis using s by (auto elim: lifecycle_from_waiting)
qed

lemma executor_implements_lifecycle_witness:
  "lifecycle\<^sup>*\<^sup>* Ready (phase_of (foldl executor_step (executor_init None (sample_config ''CERES'') 0)
     [StartExecutor, AssignTask ''u'' 0 (sample_job PHOTOGRAPH) None]))"
  using executor_implements_lifecycle [of "[StartExecutor, AssignTask ''u'' 0 (sample_job PHOTOGRAPH) None]" "Tick 0", OF _ refl]
  by simp

end
