(* ===== verification/AiAgent.thy ===== *)
theory AiAgent
  imports Scout
begin

text \<open>
  The strategic agent at the base station (\<open>olympus_brain/ai_agent.py\<close>): it recalls the fleet, pushes the
  model the aggregator has trained, waits for the acknowledgements and sends the fleet out again. Its
  coroutine is cut where it sleeps: each segment takes the moment it wakes at and returns where it sleeps
  next. The audit database is the list of its rows, in the order of insertion, \<open>None\<close> once it is closed;
  whether the session accepts the model is an argument, and the log is left out.
\<close>

section \<open>State\<close>

text \<open>The texts of the details, as values.\<close>

datatype action_detail = NoDetail | AllScouts | PushedModel int nat | MissingAcks "string list" int

record agent_action =
  ac_id :: int
  ac_action :: string
  ac_timestamp :: real
  ac_model_version :: int
  ac_before :: real
  ac_after :: real
  ac_details :: action_detail

record ai_agent =
  ai_aggregator :: central_aggregator
  ai_node :: node
  ai_check_interval :: real
  ai_running :: bool
  ai_conn :: "agent_action list option"
  ai_model_version :: int
  ai_last_recall :: "real option"
  ai_last_redeploy :: "real option"
  ai_recall_count :: int
  ai_retrain_count :: int
  ai_pending_acks :: "string list"
  ai_received_acks :: "(cmd_value, cmd_value) dict"
  ai_ack_timeout_s :: real

text \<open>\<open>audit\<close> is what an earlier run left in the database file.\<close>

definition ai_init :: "central_aggregator \<Rightarrow> node \<Rightarrow> real \<Rightarrow> agent_action list \<Rightarrow> ai_agent" where
  "ai_init aggregator n check_interval audit =
     \<lparr>ai_aggregator = aggregator, ai_node = n, ai_check_interval = check_interval, ai_running = False,
      ai_conn = Some audit, ai_model_version = 0, ai_last_recall = None, ai_last_redeploy = None,
      ai_recall_count = 0, ai_retrain_count = 0, ai_pending_acks = [], ai_received_acks = [],
      ai_ack_timeout_s = 15\<rparr>"

text \<open>\<open>AUTOINCREMENT\<close> takes the next id above all there have been; no row is ever deleted.\<close>

definition next_id :: "agent_action list \<Rightarrow> int" where
  "next_id audit = 1 + foldl max 0 (map ac_id audit)"

definition log_action :: "string \<Rightarrow> real \<Rightarrow> real \<Rightarrow> action_detail \<Rightarrow> real \<Rightarrow> ai_agent \<Rightarrow> ai_agent" where
  "log_action action before after details now a =
     (case ai_conn a of
        None \<Rightarrow> a
      | Some audit \<Rightarrow> a\<lparr>ai_conn := Some (audit @
          [\<lparr>ac_id = next_id audit, ac_action = action, ac_timestamp = now, ac_model_version = ai_model_version a,
            ac_before = before, ac_after = after, ac_details = details\<rparr>])\<rparr>)"

definition ai_start :: "ai_agent \<Rightarrow> ai_agent" where
  "ai_start a =
     a\<lparr>ai_running := True,
       ai_node := node_on_command ''_on_command'' (node_on_detection ''receive_detection'' (ai_node a))\<rparr>"

definition ai_stop :: "ai_agent \<Rightarrow> ai_agent" where
  "ai_stop a = a\<lparr>ai_running := False, ai_conn := None\<rparr>"

text \<open>The handler of the acknowledgements. \<open>cmd.command.payload or {}\<close> turns an empty payload into an empty one.\<close>

definition ai_on_command :: "brain_command \<Rightarrow> ai_agent \<Rightarrow> ai_agent" where
  "ai_on_command cmd a =
     (if dc_type (cg_command cmd) = MODEL_ACK
      then let payload = (case dc_payload (cg_command cmd) of None \<Rightarrow> [] | Some p \<Rightarrow> p);
               drone_id = (case dget payload ''drone_id'' of None \<Rightarrow> CText (cg_issued_by cmd) | Some v \<Rightarrow> v);
               version = (case dget payload ''model_version'' of None \<Rightarrow> CInt 0 | Some v \<Rightarrow> v)
           in a\<lparr>ai_received_acks := dset drone_id version (ai_received_acks a),
                ai_pending_acks := filter (\<lambda>d. CText d \<noteq> drone_id) (ai_pending_acks a)\<rparr>
      else a)"

text \<open>What reaches the agent through its node: each callback is called with the sample, an exception in it is logged.\<close>

definition ai_command_sample :: "brain_command result \<Rightarrow> ai_agent \<Rightarrow> ai_agent" where
  "ai_command_sample sample a =
     (let n' = on_command sample (ai_node a); a' = a\<lparr>ai_node := n'\<rparr>
      in case sample of
           Inl e \<Rightarrow> a'
         | Inr cmd \<Rightarrow>
             if CallCommand ''_on_command'' cmd \<in> set (drop (length (nd_effects (ai_node a))) (nd_effects n'))
             then ai_on_command cmd a' else a')"

definition ai_detection :: "numpy_lib \<Rightarrow> detection \<Rightarrow> ai_agent \<Rightarrow> ai_agent" where
  "ai_detection np d a = a\<lparr>ai_aggregator := fst (receive_detection np d (ai_aggregator a))\<rparr>"

section \<open>Recall, push, redeploy\<close>

text \<open>A moment the coroutine runs at: the clocks, the ids of the commands it sends, and the exception the
  session raises when the model is put, if any.\<close>

record moment =
  mo_now :: real
  mo_uid :: string
  mo_put :: "py_error option"

definition recall_fleet :: "moment \<Rightarrow> ai_agent \<Rightarrow> ai_agent \<times> py_error option" where
  "recall_fleet m a =
     (case send_command (mo_uid m) (mo_now m) ''*'' RECALL_FOR_UPDATE None (ai_node a) of
        Inl e \<Rightarrow> (a, Some e)
      | Inr n \<Rightarrow>
          (log_action ''recall'' 0 0 AllScouts (mo_now m)
             (a\<lparr>ai_node := n, ai_last_recall := Some (mo_now m), ai_recall_count := ai_recall_count a + 1\<rparr>), None))"

definition redeploy_fleet :: "moment \<Rightarrow> ai_agent \<Rightarrow> ai_agent \<times> py_error option" where
  "redeploy_fleet m a =
     (case send_command (mo_uid m) (mo_now m) ''*'' REDEPLOY None (ai_node a) of
        Inl e \<Rightarrow> (a, Some e)
      | Inr n \<Rightarrow>
          (log_action ''redeploy'' 0 0 AllScouts (mo_now m) (a\<lparr>ai_node := n, ai_last_redeploy := Some (mo_now m)\<rparr>), None))"

text \<open>A node has a session from its start on, when it also declares its publishers.\<close>

definition publish_global_model :: "moment \<Rightarrow> bytes \<Rightarrow> int \<Rightarrow> ai_agent \<Rightarrow> ai_agent \<times> py_error option" where
  "publish_global_model m weights version a =
     (case struct_pack [SU 4] [VInt version] of
        Inl e \<Rightarrow> (a, Some e)
      | Inr header \<Rightarrow>
          if nd_publishers (ai_node a) = [] then (a, None)
          else case mo_put m of
                 Some e \<Rightarrow> (a, Some e)
               | None \<Rightarrow>
                   (a\<lparr>ai_node := emit [Put zk_swarmnet_global_model (PutModel (header @ weights))] (ai_node a)\<rparr>, None))"

text \<open>Where a cycle sleeps: after the recall (with the accuracy it began with), or waiting for the
  acknowledgements of a version since some time. A segment ends asleep, at the end of the
  cycle (\<open>None\<close>), or in an exception.\<close>

datatype ai_cycle = AfterRecall real | AwaitingAcks int real

type_synonym segment = "ai_agent \<times> ai_cycle option result"

definition begin_cycle :: "moment \<Rightarrow> real \<Rightarrow> ai_agent \<Rightarrow> segment" where
  "begin_cycle m accuracy_before a =
     (case recall_fleet m a of
        (a1, Some e) \<Rightarrow> (a1, Inl e)
      | (a1, None) \<Rightarrow> (a1, Inr (Some (AfterRecall accuracy_before))))"

definition await_acks :: "moment \<Rightarrow> int \<Rightarrow> real \<Rightarrow> ai_agent \<Rightarrow> segment" where
  "await_acks m version ack_start a =
     (if ai_pending_acks a \<noteq> [] \<and> mo_now m - ack_start < ai_ack_timeout_s a
      then (a, Inr (Some (AwaitingAcks version ack_start)))
      else let a1 = (if ai_pending_acks a \<noteq> []
                     then log_action ''ack_timeout'' 0 0 (MissingAcks (ai_pending_acks a) version) (mo_now m) a
                     else a)
           in case redeploy_fleet m a1 of
                (a2, Some e) \<Rightarrow> (a2, Inl e)
              | (a2, None) \<Rightarrow> (a2, Inr None))"

definition push_model :: "numpy_lib \<Rightarrow> moment \<Rightarrow> real \<Rightarrow> ai_agent \<Rightarrow> segment" where
  "push_model np m accuracy_before a =
     (let (w, agg) = get_global_weights np (mo_now m) (ai_aggregator a); a1 = a\<lparr>ai_aggregator := agg\<rparr>
      in case w of
           Inl e \<Rightarrow> (a1, Inl e)
         | Inr (weights, version) \<Rightarrow>
             (let a2 = a1\<lparr>ai_model_version := version,
                          ai_pending_acks := remdups (map dt_drone_id (get_scouts (nd_swarm (ai_node a1)))),
                          ai_received_acks := []\<rparr>
              in case publish_global_model m weights version a2 of
                   (a3, Some e) \<Rightarrow> (a3, Inl e)
                 | (a3, None) \<Rightarrow>
                     (let accuracy_after = get_accuracy (ca_trainer (ai_aggregator a3));
                          a4 = log_action ''retrain_push'' accuracy_before accuracy_after
                                 (PushedModel version (length weights)) (mo_now m)
                                 (a3\<lparr>ai_retrain_count := ai_retrain_count a3 + 1\<rparr>)
                      in await_acks m version (mo_now m) a4)))"

fun wake_cycle :: "numpy_lib \<Rightarrow> moment \<Rightarrow> ai_cycle \<Rightarrow> ai_agent \<Rightarrow> segment" where
  "wake_cycle np m (AfterRecall accuracy_before) a = push_model np m accuracy_before a"
| "wake_cycle np m (AwaitingAcks version ack_start) a = await_acks m version ack_start a"

text \<open>The monitor between two cycles, woken from its sleep of \<open>check_interval\<close>; an exception of the
  cycle is logged and the monitor sleeps again, so a segment of the monitor never raises.\<close>

definition monitor_head :: "moment \<Rightarrow> ai_agent \<Rightarrow> ai_agent \<times> ai_cycle option" where
  "monitor_head m a =
     (if ai_running a \<and> should_publish (mo_now m) (ai_aggregator a)
      then case begin_cycle m (get_accuracy (ca_trainer (ai_aggregator a))) a of
             (a1, Inl e) \<Rightarrow> (a1, None)
           | (a1, Inr c) \<Rightarrow> (a1, c)
      else (a, None))"

definition force_retrain :: "moment \<Rightarrow> ai_agent \<Rightarrow> segment" where
  "force_retrain m a =
     (let accuracy_before = get_accuracy (ca_trainer (ai_aggregator a))
      in begin_cycle m accuracy_before (log_action ''force_retrain_requested'' accuracy_before 0 NoDetail (mo_now m) a))"

section \<open>What the agent reports\<close>

record ai_status =
  st_model_version :: int
  st_accuracy :: real
  st_active_drones :: int
  st_contributions :: "(pystr, int) dict"
  st_drift_detected :: bool
  st_recall_count :: int
  st_retrain_count :: int
  st_last_recall :: "real option"
  st_last_redeploy :: "real option"

definition ai_get_status :: "real \<Rightarrow> ai_agent \<Rightarrow> ai_status" where
  "ai_get_status now a =
     (let status = aggregator_status now (ai_aggregator a)
      in \<lparr>st_model_version = ai_model_version a,
          st_accuracy = (case dget (sns_accuracies status) ''global'' of None \<Rightarrow> 0 | Some v \<Rightarrow> v),
          st_active_drones = sns_active_drones status, st_contributions = sns_contributions status,
          st_drift_detected = (0 < ca_drift_count (ai_aggregator a)), st_recall_count = ai_recall_count a,
          st_retrain_count = ai_retrain_count a, st_last_recall = ai_last_recall a,
          st_last_redeploy = ai_last_redeploy a\<rparr>)"

text \<open>SQLite reads a negative limit as none.\<close>

definition get_history :: "int \<Rightarrow> ai_agent \<Rightarrow> agent_action list" where
  "get_history limit a =
     (case ai_conn a of
        None \<Rightarrow> []
      | Some audit \<Rightarrow> (let newest = rev (sort_key ac_id audit)
                      in if limit < 0 then newest else take (nat limit) newest))"


section \<open>Runs\<close>

text \<open>The base station over time: the agent, the cycles under way (the monitor's and those that were forced),
  and how many cycles were lost after their recall, to an exception or with the task that ran them.\<close>

record ai_system =
  sy_agent :: ai_agent
  sy_cycles :: "ai_cycle list"
  sy_lost :: nat

datatype ai_event =
    StartAgent | StopAgent | CommandIn "brain_command result" | DetectionIn detection | NodeIn node_event
  | MonitorHead moment | ForceRetrain moment | WakeCycle nat moment | CancelCycle nat

definition without_nth :: "nat \<Rightarrow> 'a list \<Rightarrow> 'a list" where
  "without_nth i xs = take i xs @ drop (Suc i) xs"

fun ai_step :: "numpy_lib \<Rightarrow> ai_system \<Rightarrow> ai_event \<Rightarrow> ai_system" where
  "ai_step np s StartAgent = s\<lparr>sy_agent := ai_start (sy_agent s)\<rparr>"
| "ai_step np s StopAgent = s\<lparr>sy_agent := ai_stop (sy_agent s)\<rparr>"
| "ai_step np s (CommandIn x) = s\<lparr>sy_agent := ai_command_sample x (sy_agent s)\<rparr>"
| "ai_step np s (DetectionIn d) = s\<lparr>sy_agent := ai_detection np d (sy_agent s)\<rparr>"
| "ai_step np s (NodeIn e) = s\<lparr>sy_agent := (sy_agent s)\<lparr>ai_node := node_step (ai_node (sy_agent s)) e\<rparr>\<rparr>"
| "ai_step np s (MonitorHead m) =
     (case monitor_head m (sy_agent s) of
        (a, None) \<Rightarrow> s\<lparr>sy_agent := a\<rparr>
      | (a, Some c) \<Rightarrow> s\<lparr>sy_agent := a, sy_cycles := sy_cycles s @ [c]\<rparr>)"
| "ai_step np s (ForceRetrain m) =
     (case force_retrain m (sy_agent s) of
        (a, Inr (Some c)) \<Rightarrow> s\<lparr>sy_agent := a, sy_cycles := sy_cycles s @ [c]\<rparr>
      | (a, _) \<Rightarrow> s\<lparr>sy_agent := a\<rparr>)"
| "ai_step np s (WakeCycle i m) =
     (if i < length (sy_cycles s)
      then case wake_cycle np m (sy_cycles s ! i) (sy_agent s) of
             (a, Inr (Some c)) \<Rightarrow> s\<lparr>sy_agent := a, sy_cycles := (sy_cycles s)[i := c]\<rparr>
           | (a, Inr None) \<Rightarrow> s\<lparr>sy_agent := a, sy_cycles := without_nth i (sy_cycles s)\<rparr>
           | (a, Inl e) \<Rightarrow> s\<lparr>sy_agent := a, sy_cycles := without_nth i (sy_cycles s), sy_lost := sy_lost s + 1\<rparr>
      else s)"
| "ai_step np s (CancelCycle i) =
     (if i < length (sy_cycles s) then s\<lparr>sy_cycles := without_nth i (sy_cycles s), sy_lost := sy_lost s + 1\<rparr> else s)"

fun puts_command :: "command_type \<Rightarrow> node_effect \<Rightarrow> bool" where
  "puts_command c (Put key (PutCommand cmd)) \<longleftrightarrow> dc_type (cg_command cmd) = c"
| "puts_command c _ \<longleftrightarrow> False"

definition sent :: "command_type \<Rightarrow> ai_agent \<Rightarrow> nat" where
  "sent c a = length (filter (puts_command c) (nd_effects (ai_node a)))"

definition logged :: "string \<Rightarrow> agent_action list \<Rightarrow> nat" where
  "logged action audit = length (filter (\<lambda>r. ac_action r = action) audit)"

text \<open>What the counters of an agent say about the commands it has sent and the audit it keeps.\<close>

definition ai_books :: "ai_agent \<Rightarrow> nat \<Rightarrow> bool" where
  "ai_books a open_cycles \<longleftrightarrow>
     int (sent RECALL_FOR_UPDATE a) = ai_recall_count a
     \<and> sent RECALL_FOR_UPDATE a = sent REDEPLOY a + open_cycles
     \<and> (case ai_conn a of
          None \<Rightarrow> True
        | Some audit \<Rightarrow>
            int (logged ''recall'' audit) = ai_recall_count a \<and> logged ''redeploy'' audit = sent REDEPLOY a
            \<and> int (logged ''retrain_push'' audit) = ai_retrain_count a
            \<and> sorted_wrt (<) (map ac_id audit) \<and> (\<forall>r\<in>set audit. 0 < ac_id r \<and> ac_model_version r \<le> ai_model_version a))
     \<and> ai_model_version a \<le> ca_global_version (ai_aggregator a) \<and> distinct (ai_pending_acks a)"

definition ai_inv :: "ai_system \<Rightarrow> bool" where
  "ai_inv s \<longleftrightarrow> ai_books (sy_agent s) (length (sy_cycles s) + sy_lost s)"


section \<open>The books are kept\<close>

lemma next_id_above: "r \<in> set audit \<Longrightarrow> ac_id r < next_id audit" "0 < next_id audit"
proof -
  have "k \<le> foldl max k xs \<and> (\<forall>x\<in>set xs. x \<le> foldl max k xs)" for k :: int and xs
  proof (induction xs arbitrary: k)
    case (Cons x xs)
    from Cons.IH [of "max k x"] show ?case by auto
  qed simp
  from this [of 0 "map ac_id audit"] show "r \<in> set audit \<Longrightarrow> ac_id r < next_id audit" "0 < next_id audit"
    by (auto simp: next_id_def)
qed

lemma log_frame [simp]:
  "ai_node (log_action act b c d now a) = ai_node a" "ai_aggregator (log_action act b c d now a) = ai_aggregator a"
  "ai_recall_count (log_action act b c d now a) = ai_recall_count a"
  "ai_retrain_count (log_action act b c d now a) = ai_retrain_count a"
  "ai_model_version (log_action act b c d now a) = ai_model_version a"
  "ai_pending_acks (log_action act b c d now a) = ai_pending_acks a"
  "ai_last_redeploy (log_action act b c d now a) = ai_last_redeploy a"
  "ai_ack_timeout_s (log_action act b c d now a) = ai_ack_timeout_s a"
  "ai_running (log_action act b c d now a) = ai_running a"
  by (simp_all add: log_action_def split: option.split)

lemma sent_log [simp]: "sent k (log_action act b c d now a) = sent k a"
  by (simp add: sent_def)

lemma logged_snoc [simp]: "logged act (audit @ [r]) = logged act audit + (if ac_action r = act then 1 else 0)"
  by (simp add: logged_def)

lemma node_step_commands:
  "filter (puts_command c) (nd_effects (node_step n e)) = filter (puts_command c) (nd_effects n)"
  by (cases e)
    (auto simp: on_swarm_telemetry_def on_command_def process_command_def with_status_def on_detection_def emit_def
      on_task_auction_def on_model_metadata_def on_global_model_def on_peer_features_def on_registry_event_def
      telemetry_round_def cleanup_round_def update_position_def update_status_def node_start_def setup_publishers_def
      setup_subscribers_def node_stop_def put_on_def filter_empty_conv Let_def
      split: sum.splits option.splits command_type.splits)

text \<open>Rows that are not of the three counted kinds, and changes of the fields the books do not mention.\<close>

lemma books_log:
  "act \<notin> {''recall'', ''redeploy'', ''retrain_push''} \<Longrightarrow> ai_books a k \<Longrightarrow> ai_books (log_action act b c d now a) k"
  by (auto simp: ai_books_def log_action_def sent_def next_id_above sorted_wrt_append split: option.splits)

lemma books_node:
  "filter (puts_command RECALL_FOR_UPDATE) (nd_effects n) = filter (puts_command RECALL_FOR_UPDATE) (nd_effects (ai_node a))
   \<Longrightarrow> filter (puts_command REDEPLOY) (nd_effects n) = filter (puts_command REDEPLOY) (nd_effects (ai_node a))
   \<Longrightarrow> ai_books (a\<lparr>ai_node := n\<rparr>) k = ai_books a k"
  by (simp add: ai_books_def sent_def split: option.split)

lemma send_command_sent:
  "send_command uid now ''*'' c p n = Inr n' \<Longrightarrow>
     length (filter (puts_command k) (nd_effects n')) = length (filter (puts_command k) (nd_effects n)) + (if k = c then 1 else 0)"
  by (auto simp: send_command_def put_on_def emit_def Let_def split: option.splits)

lemma books_recall:
  "recall_fleet m a = (a', r) \<Longrightarrow> ai_books a k \<Longrightarrow> ai_books a' (k + (case r of None \<Rightarrow> 1 | Some e \<Rightarrow> 0))"
  by (auto simp: recall_fleet_def ai_books_def log_action_def sent_def send_command_sent next_id_above sorted_wrt_append
      split: sum.splits option.splits)

lemma books_redeploy:
  "redeploy_fleet m a = (a', r) \<Longrightarrow> ai_books a (Suc k) \<Longrightarrow> ai_books a' (k + (case r of None \<Rightarrow> 0 | Some e \<Rightarrow> 1))"
  by (auto simp: redeploy_fleet_def ai_books_def log_action_def sent_def send_command_sent next_id_above sorted_wrt_append
      split: sum.splits option.splits)

definition still_open :: "ai_cycle option result \<Rightarrow> nat" where
  "still_open r = (case r of Inr None \<Rightarrow> 0 | _ \<Rightarrow> 1)"

lemma books_await:
  assumes "await_acks m v t a = (a', r)" and "ai_books a (Suc k)"
  shows "ai_books a' (k + still_open r)"
proof (cases "ai_pending_acks a \<noteq> [] \<and> mo_now m - t < ai_ack_timeout_s a")
  case True
  with assms show ?thesis by (auto simp: await_acks_def still_open_def)
next
  case False
  let ?a = "if ai_pending_acks a \<noteq> [] then log_action ''ack_timeout'' 0 0 (MissingAcks (ai_pending_acks a) v) (mo_now m) a else a"
  obtain b e where b: "redeploy_fleet m ?a = (b, e)" by fastforce
  have "ai_books ?a (Suc k)" using assms(2) by (simp add: books_log)
  from books_redeploy [OF b this] assms(1) False b show ?thesis
    by (auto simp: await_acks_def still_open_def Let_def split: option.splits)
qed

lemma books_push:
  assumes "push_model np m acc a = (a', r)" and "ai_books a (Suc k)"
  shows "ai_books a' (k + still_open r)"
proof -
  obtain w agg where w: "get_global_weights np (mo_now m) (ai_aggregator a) = (w, agg)" by fastforce
  then have agg: "ca_global_version agg = ca_global_version (ai_aggregator a) + 1"
    "w = Inr (ws, v) \<Longrightarrow> v = ca_global_version agg" for ws v
    by (auto simp: get_global_weights_def next_version_def Let_def rbind_def split: sum.splits)
  have books1: "ai_books (a\<lparr>ai_aggregator := agg\<rparr>) (Suc k)"
    using assms(2) agg(1) by (simp add: ai_books_def sent_def split: option.splits)
  show ?thesis
  proof (cases w)
    case (Inl e)
    with assms(1) w books1 show ?thesis by (auto simp: push_model_def still_open_def)
  next
    case (Inr wv)
    then obtain ws v where v: "w = Inr (ws, v)" by (cases wv) auto
    let ?b = "a\<lparr>ai_aggregator := agg, ai_model_version := v,
      ai_pending_acks := remdups (map dt_drone_id (get_scouts (nd_swarm (ai_node a)))), ai_received_acks := []\<rparr>"
    have books2: "ai_books ?b (Suc k)"
      using assms(2) agg(1) agg(2) [OF v] by (force simp: ai_books_def sent_def split: option.splits)
    obtain c e where c: "publish_global_model m ws v ?b = (c, e)" by fastforce
    have books3: "ai_books c (Suc k)"
      using c books2 by (auto simp: publish_global_model_def books_node emit_def split: sum.splits if_splits option.splits)
    show ?thesis
    proof (cases e)
      case None
      let ?d = "log_action ''retrain_push'' acc (get_accuracy (ca_trainer (ai_aggregator c))) (PushedModel v (length ws))
          (mo_now m) (c\<lparr>ai_retrain_count := ai_retrain_count c + 1\<rparr>)"
      have "ai_books ?d (Suc k)"
        using books3 by (auto simp: ai_books_def log_action_def sent_def next_id_above sorted_wrt_append split: option.splits)
      moreover have "await_acks m v (mo_now m) ?d = (a', r)"
        using assms(1) w v c None by (simp add: push_model_def Let_def)
      ultimately show ?thesis by (rule books_await [rotated])
    next
      case (Some x)
      with assms(1) w v c books3 show ?thesis by (auto simp: push_model_def Let_def still_open_def)
    qed
  qed
qed

lemma books_wake:
  "wake_cycle np m c a = (a', r) \<Longrightarrow> ai_books a (Suc k) \<Longrightarrow> ai_books a' (k + still_open r)"
  by (cases c) (auto intro: books_push books_await)

lemma books_begin:
  "begin_cycle m acc a = (a', r) \<Longrightarrow> ai_books a k \<Longrightarrow> ai_books a' (k + (case r of Inl e \<Rightarrow> 0 | Inr c \<Rightarrow> 1)) \<and> r \<noteq> Inr None"
  by (auto simp: begin_cycle_def dest: books_recall split: prod.splits option.splits)


lemma books_command: "ai_books a k \<Longrightarrow> ai_books (ai_command_sample x a) k"
proof -
  assume books: "ai_books a k"
  have f: "filter (puts_command c) (nd_effects (on_command x n)) = filter (puts_command c) (nd_effects n)" for c n
    using node_step_commands [of c n "CommandSample x"] by simp
  have n: "ai_books (a\<lparr>ai_node := on_command x (ai_node a)\<rparr>) k" using books by (simp add: books_node f)
  have "ai_books (ai_on_command cmd b) k" if "ai_books b k" for cmd b
    using that by (simp add: ai_on_command_def ai_books_def sent_def Let_def split: option.splits)
  with n show ?thesis by (auto simp: ai_command_sample_def Let_def split: sum.split)
qed

lemma detection_version [simp]: "ca_global_version (fst (receive_detection np d g)) = ca_global_version g"
  by (auto simp: receive_detection_def Let_def split: prod.splits option.splits)

lemma length_without_nth [simp]: "i < length xs \<Longrightarrow> Suc (length (without_nth i xs)) = length xs"
  by (simp add: without_nth_def)

interpretation ai_machine: event_machine "ai_step np" ai_inv for np
proof unfold_locales
  fix s e
  assume inv: "ai_inv s"
  let ?a = "sy_agent s" and ?k = "length (sy_cycles s) + sy_lost s"
  have books: "ai_books ?a ?k" using inv by (simp add: ai_inv_def)
  show "ai_inv (ai_step np s e)"
  proof (cases e)
    case StartAgent
    then show ?thesis using books
      by (simp add: ai_inv_def ai_start_def node_on_command_def node_on_detection_def ai_books_def sent_def split: option.splits)
  next
    case StopAgent
    then show ?thesis using books by (simp add: ai_inv_def ai_stop_def ai_books_def sent_def)
  next
    case (CommandIn x)
    then show ?thesis using books by (simp add: ai_inv_def books_command)
  next
    case (DetectionIn d)
    then show ?thesis using books by (simp add: ai_inv_def ai_detection_def ai_books_def sent_def split: option.splits)
  next
    case (NodeIn ne)
    then show ?thesis using books by (simp add: ai_inv_def books_node node_step_commands)
  next
    case (MonitorHead m)
    obtain a' r where b: "begin_cycle m (get_accuracy (ca_trainer (ai_aggregator ?a))) ?a = (a', r)" by fastforce
    from books_begin [OF b books] MonitorHead b books show ?thesis
      by (auto simp: ai_inv_def monitor_head_def split: sum.splits)
  next
    case (ForceRetrain m)
    let ?acc = "get_accuracy (ca_trainer (ai_aggregator ?a))"
    let ?b = "log_action ''force_retrain_requested'' ?acc 0 NoDetail (mo_now m) ?a"
    obtain a' r where b: "begin_cycle m ?acc ?b = (a', r)" by fastforce
    have "ai_books ?b ?k" using books by (simp add: books_log)
    from books_begin [OF b this] ForceRetrain b show ?thesis
      by (auto simp: ai_inv_def force_retrain_def Let_def split: sum.splits option.splits)
  next
    case (WakeCycle i m)
    show ?thesis
    proof (cases "i < length (sy_cycles s)")
      case True
      then obtain k where k: "length (sy_cycles s) = Suc k" "length (without_nth i (sy_cycles s)) = k"
        using length_without_nth [OF True] by metis
      obtain a' r where w: "wake_cycle np m (sy_cycles s ! i) ?a = (a', r)" by fastforce
      from books_wake [OF w, of "k + sy_lost s"] books k(1) have "ai_books a' (k + sy_lost s + still_open r)" by simp
      with WakeCycle True w k show ?thesis
        by (auto simp: ai_inv_def still_open_def split: sum.splits option.splits)
    qed (use WakeCycle inv in simp)
  next
    case (CancelCycle i)
    then show ?thesis using books length_without_nth [of i "sy_cycles s"]
      by (auto simp: ai_inv_def simp del: length_without_nth) (metis add_Suc add_Suc_right)
  qed
qed

section \<open>Properties\<close>

text \<open>C13: The base station keeps its books: over any run of detections, commands, monitor rounds, forced
  retrainings, wake-ups, failures and cancellations of cycles, the fleet has been recalled exactly as often
  as the counter says, and sent out again exactly once for each recall whose cycle is neither under way
  nor was lost after it; the audit, while open, has one row for each recall, each push and each redeployment,
  with ids that strictly increase, and no row and no status reports a model newer than the aggregator's.\<close>

theorem fleet_books_balance:
  "let s = foldl (ai_step np) \<lparr>sy_agent = ai_init (aggregator_init types ri bs dt w0 t1) (node_init cfg t0) interval [],
             sy_cycles = [], sy_lost = 0\<rparr> es;
       a = sy_agent s
   in sent RECALL_FOR_UPDATE a = sent REDEPLOY a + length (sy_cycles s) + sy_lost s
    \<and> int (sent RECALL_FOR_UPDATE a) = ai_recall_count a
    \<and> (case ai_conn a of
         None \<Rightarrow> True
       | Some audit \<Rightarrow>
           logged ''recall'' audit = sent RECALL_FOR_UPDATE a \<and> logged ''redeploy'' audit = sent REDEPLOY a
           \<and> int (logged ''retrain_push'' audit) = ai_retrain_count a \<and> sorted_wrt (<) (map ac_id audit)
           \<and> list_all (\<lambda>r. ac_model_version r \<le> ai_model_version a) audit)
    \<and> ai_model_version a \<le> ca_global_version (ai_aggregator a)"
proof -
  let ?s0 = "\<lparr>sy_agent = ai_init (aggregator_init types ri bs dt w0 t1) (node_init cfg t0) interval [],
    sy_cycles = [], sy_lost = 0\<rparr>"
  have "ai_inv ?s0"
    by (simp add: ai_inv_def ai_books_def ai_init_def sent_def node_init_def logged_def aggregator_init_def)
  from ai_machine.run_inv [OF this, of np es] show ?thesis
    by (auto simp: ai_inv_def ai_books_def Let_def list_all_iff split: option.splits)
qed

text \<open>The wait of a cycle: at each wake-up the commands that have arrived since, then the segment.\<close>

fun ack_wait ::
  "numpy_lib \<Rightarrow> ai_cycle \<Rightarrow> (brain_command result list \<times> moment) list \<Rightarrow> ai_agent \<Rightarrow> segment" where
  "ack_wait np c [] a = (a, Inr (Some c))"
| "ack_wait np c ((cmds, m) # ws) a =
     (case wake_cycle np m c (foldl (\<lambda>b x. ai_command_sample x b) a cmds) of
        (b, Inr (Some c')) \<Rightarrow> ack_wait np c' ws b
      | r \<Rightarrow> r)"

lemma command_sample_frame [simp]:
  "nd_publishers (ai_node (ai_command_sample x a)) = nd_publishers (ai_node a)"
  "ai_ack_timeout_s (ai_command_sample x a) = ai_ack_timeout_s a"
  "ai_last_redeploy (ai_command_sample x a) = ai_last_redeploy a"
  by (auto simp: ai_command_sample_def ai_on_command_def on_command_def emit_def process_command_def with_status_def
      Let_def split: sum.split command_type.split)

lemma command_samples_frame [simp]:
  "nd_publishers (ai_node (foldl (\<lambda>b x. ai_command_sample x b) a cmds)) = nd_publishers (ai_node a)"
  "ai_ack_timeout_s (foldl (\<lambda>b x. ai_command_sample x b) a cmds) = ai_ack_timeout_s a"
  by (induction cmds arbitrary: a) auto

text \<open>A wake-up ends the cycle, with the fleet sent out, unless somebody is missing and there is time left.\<close>

lemma await_ends:
  assumes "dget (nd_publishers (ai_node a)) ''command'' = Some key"
    and "ai_pending_acks a = [] \<or> ai_ack_timeout_s a \<le> mo_now m - t"
  shows "\<exists>b cmd. await_acks m v t a = (b, Inr None) \<and> nd_effects (ai_node b) = nd_effects (ai_node a) @ [Put key (PutCommand cmd)]
    \<and> cg_target_drone cmd = ''*'' \<and> dc_type (cg_command cmd) = REDEPLOY \<and> ai_last_redeploy b = Some (mo_now m)"
  using assms by (auto simp: await_acks_def redeploy_fleet_def send_command_def put_on_def emit_def Let_def)

lemma await_stays:
  "ai_pending_acks a \<noteq> [] \<Longrightarrow> mo_now m - t < ai_ack_timeout_s a \<Longrightarrow> await_acks m v t a = (a, Inr (Some (AwaitingAcks v t)))"
  by (simp add: await_acks_def)



definition late_moments :: "(brain_command result list \<times> moment) list" where
  "late_moments = replicate 30 ([], \<lparr>mo_now = 15, mo_uid = ''u'', mo_put = None\<rparr>)"

definition sample_base :: ai_agent where
  "sample_base = ai_init (aggregator_init [''weed''] 30 2048 0.1 (replicate 32 [0]) 0)
     (node_start (node_init (node_config0 ''base'' EXECUTOR) 0)) 10 []"

lemma sample_base_node:
  "dget (nd_publishers (ai_node sample_base)) ''command'' = Some (zk_command ''*'')" "ai_ack_timeout_s sample_base = 15"
  by (simp_all add: sample_base_def ai_init_def node_start_def setup_publishers_def setup_subscribers_def
      node_init_def node_config0_def nd_role_def Let_def)


lemma begin_cycle_effect:
  assumes "begin_cycle m acc a = (a1, Inr (Some c))"
  shows "c = AfterRecall acc" and "dget (nd_publishers (ai_node a1)) ''command'' \<noteq> None"
    and "ai_aggregator a1 = ai_aggregator a" and "ai_last_redeploy a1 = ai_last_redeploy a"
    and "ai_pending_acks a1 = ai_pending_acks a" and "nd_publishers (ai_node a1) = nd_publishers (ai_node a)"
    and "nd_swarm (ai_node a1) = nd_swarm (ai_node a)" and "nd_command_callbacks (ai_node a1) = nd_command_callbacks (ai_node a)"
    and "sent RECALL_FOR_UPDATE a1 = sent RECALL_FOR_UPDATE a + 1" and "sent REDEPLOY a1 = sent REDEPLOY a"
  using assms
  by (auto simp: begin_cycle_def recall_fleet_def send_command_def put_on_def emit_def sent_def Let_def
      split: sum.splits option.splits)

lemma await_returns:
  assumes "dget (nd_publishers (ai_node a)) ''command'' \<noteq> None"
  shows "await_acks m v t a \<noteq> (b, Inl e)"
  using assms by (auto simp: await_acks_def redeploy_fleet_def send_command_def put_on_def Let_def)

text \<open>The segments of a push: it fails before anything is sent, or the model is put and the wait begins.\<close>

lemma push_cases:
  assumes "push_model np m acc a = (b, r)" and "dget (nd_publishers (ai_node a)) ''command'' \<noteq> None"
  obtains e where "r = Inl e" and "ai_node b = ai_node a" and "ai_last_redeploy b = ai_last_redeploy a"
      and "ai_aggregator b = next_version (mo_now m) (ai_aggregator a)"
  | w v header c where "get_global_weights np (mo_now m) (ai_aggregator a) = (Inr (w, v), next_version (mo_now m) (ai_aggregator a))"
      and "struct_pack [SU 4] [VInt v] = Inr header" and "mo_put m = None"
      and "ai_node c = emit [Put zk_swarmnet_global_model (PutModel (header @ w))] (ai_node a)"
      and "ai_pending_acks c = remdups (map dt_drone_id (get_scouts (nd_swarm (ai_node a))))"
      and "await_acks m v (mo_now m) c = (b, r)"
proof -
  obtain wr agg where w: "get_global_weights np (mo_now m) (ai_aggregator a) = (wr, agg)" by fastforce
  then have agg: "agg = next_version (mo_now m) (ai_aggregator a)"
    by (simp add: get_global_weights_def Let_def)
  have p: "nd_publishers (ai_node a) \<noteq> []" using assms(2) by auto
  show ?thesis
  proof (cases wr)
    case (Inl e)
    with assms(1) w agg show ?thesis by (intro that(1)) (auto simp: push_model_def)
  next
    case (Inr wv)
    then obtain ws v where wr: "wr = Inr (ws, v)" by (cases wv) auto
    show ?thesis
    proof (cases "\<exists>header. struct_pack [SU 4] [VInt v] = Inr header \<and> mo_put m = None")
      case True
      then obtain header where h: "struct_pack [SU 4] [VInt v] = Inr header" "mo_put m = None" by blast
      show ?thesis
        by (rule that(2) [OF _ h]) (use assms(1) w agg wr h p in \<open>auto simp: push_model_def publish_global_model_def Let_def\<close>)
    next
      case False
      then consider e where "struct_pack [SU 4] [VInt v] = Inl e"
        | header e where "struct_pack [SU 4] [VInt v] = Inr header" "mo_put m = Some e"
        by (cases "struct_pack [SU 4] [VInt v]"; cases "mo_put m") auto
      then show ?thesis
        by cases (rule that(1), use assms(1) w agg wr p in \<open>auto simp: push_model_def publish_global_model_def Let_def\<close>)+
    qed
  qed
qed

text \<open>C39: A push that fails strands the fleet: when the session refuses the model after the recall, the
  cycle ends in the exception with the fleet recalled and not sent out again, the version is used up although
  nobody received it, and the monitor does not repeat the cycle before the retraining interval has
  passed or new drift has been found.\<close>

theorem failed_push_strands:
  assumes "begin_cycle m1 acc a = (a1, Inr (Some c))" and "wake_cycle np m2 c a1 = (a2, Inl e)"
    and "ca_drift_count (ai_aggregator a) \<le> 1" and "mo_now m3 - mo_now m2 < ca_retrain_interval (ai_aggregator a)"
  shows "sent RECALL_FOR_UPDATE a2 = sent RECALL_FOR_UPDATE a + 1 \<and> sent REDEPLOY a2 = sent REDEPLOY a
    \<and> ai_last_redeploy a2 = ai_last_redeploy a
    \<and> ca_global_version (ai_aggregator a2) = ca_global_version (ai_aggregator a) + 1
    \<and> monitor_head m3 a2 = (a2, None)"
proof -
  note b = begin_cycle_effect [OF assms(1)]
  have "push_model np m2 acc a1 = (a2, Inl e)" using assms(2) b(1) by simp
  then show ?thesis
  proof (cases rule: push_cases [OF _ b(2), consumes 1])
    case (1 e')
    have "\<not> should_publish (mo_now m3) (ai_aggregator a2)"
      using assms(3,4) 1(4) b(3) by (simp add: should_publish_def next_version_def)
    moreover have "sent k a2 = sent k a1" for k using 1(2) by (simp add: sent_def)
    ultimately show ?thesis using b 1 by (simp add: monitor_head_def next_version_def)
  next
    case (2 w v header c)
    have "dget (nd_publishers (ai_node c)) ''command'' \<noteq> None" using b(2) 2(4) by (simp add: emit_def)
    from await_returns [OF this] 2(6) show ?thesis by blast
  qed
qed


lemma failed_push_strands_witness:
  "\<exists>a1 a2. begin_cycle \<lparr>mo_now = 0, mo_uid = ''u'', mo_put = None\<rparr> 0 sample_base = (a1, Inr (Some (AfterRecall 0)))
     \<and> wake_cycle plain_numpy \<lparr>mo_now = 2, mo_uid = ''u'', mo_put = Some OverflowError\<rparr> (AfterRecall 0) a1 = (a2, Inl OverflowError)
     \<and> monitor_head \<lparr>mo_now = 12, mo_uid = ''u'', mo_put = None\<rparr> a2 = (a2, None)"
proof -
  let ?m1 = "\<lparr>mo_now = 0, mo_uid = ''u'', mo_put = None\<rparr>" and ?m2 = "\<lparr>mo_now = 2, mo_uid = ''u'', mo_put = Some OverflowError\<rparr>"
    and ?m3 = "\<lparr>mo_now = 12, mo_uid = ''u'', mo_put = None\<rparr>"
  obtain a1 where a1: "begin_cycle ?m1 0 sample_base = (a1, Inr (Some (AfterRecall 0)))"
    using sample_base_node(1) by (simp add: begin_cycle_def recall_fleet_def send_command_def put_on_def)
  note e = begin_cycle_effect [OF a1]
  have p: "nd_publishers (ai_node a1) \<noteq> []" using e(2) by auto
  have g: "ai_aggregator sample_base = aggregator_init [''weed''] 30 2048 0.1 (replicate 32 [0]) 0"
    by (simp add: sample_base_def ai_init_def)
  then obtain w where w: "get_global_weights plain_numpy 2 (ai_aggregator a1) = (Inr (w, 1), next_version 2 (ai_aggregator a1))"
    unfolding e(3) g get_global_weights_def Let_def get_weights_def
    by (simp add: next_version_def trainer_init_def aggregator_init_def)
  obtain a2 where a2: "wake_cycle plain_numpy ?m2 (AfterRecall 0) a1 = (a2, Inl OverflowError)"
    using p w by (simp add: push_model_def publish_global_model_def Let_def)
  have d: "ca_drift_count (ai_aggregator sample_base) \<le> 1" "ca_retrain_interval (ai_aggregator sample_base) = 30"
    unfolding g by (simp_all add: aggregator_init_def)
  from failed_push_strands [OF a1 a2 d(1), of ?m3] a1 a2 d(2) show ?thesis by auto
qed

text \<open>C14: A model reaches a scout and the confirmation comes back: the message the base puts is taken apart by the
  scout's node into the weights and the version of the push; a scout with an older model then infers as
  the aggregator does and broadcasts an acknowledgement, and a base that admits the scout's commands
  takes it off the list of those it waits for, with the version it has confirmed.\<close>

theorem model_delivery:
  assumes "numpy_ok np" and "trainer_inv (ca_trainer (ai_aggregator a))"
    and "\<forall>x\<in>set (concat (lt_weights (ca_trainer (ai_aggregator a)))) \<union> set (lt_bias (ca_trainer (ai_aggregator a))).
      np_of_f32 np (np_f32 np x) = x"
    and "push_model np m acc a = (b, Inr (Some (AwaitingAcks v t)))" and "dget (nd_publishers (ai_node a)) ''command'' \<noteq> None"
    and "sc_global_version (sd_swarmnet s) < v" and "sc_ack (sd_swarmnet s)"
    and "dget (nd_publishers (sd_node s)) ''command'' = Some key"
    and "''_on_command'' \<in> set (nd_command_callbacks (ai_node a))"
    and "is_command_allowed (nd_drone_id (sd_node s)) MODEL_ACK (nd_swarm (ai_node a))"
  shows "\<exists>raw w ack. nd_effects (ai_node b) = nd_effects (ai_node a) @ [Put zk_swarmnet_global_model (PutModel raw)]
    \<and> on_global_model raw (sd_node s)
        = emit (map (\<lambda>cb. CallGlobalModel cb w v) (nd_global_model_callbacks (sd_node s))) (sd_node s)
    \<and> (let s' = scout_global_model np uid now w v s; b' = ai_command_sample (Inr ack) b in
         (\<forall>f. logits f (sc_trainer (sd_swarmnet s')) = logits f (ca_trainer (ai_aggregator a)))
         \<and> nd_effects (sd_node s') = nd_effects (sd_node s) @ [Put key (PutCommand ack)]
         \<and> ai_pending_acks b' = filter (\<lambda>d. d \<noteq> sc_drone_id (sd_swarmnet s)) (ai_pending_acks b)
         \<and> dget (ai_received_acks b') (CText (sc_drone_id (sd_swarmnet s))) = Some (CInt v))"
  using assms(4)
proof (cases rule: push_cases [OF _ assms(5), consumes 1])
  case (2 w version header c)
  have v: "version = v" and b: "b = c"
    using 2(6) by (auto simp: await_acks_def Let_def split: if_splits option.splits prod.splits)
  have header: "header = le_bytes 4 v" and range: "0 \<le> v" "v < 2 ^ 32"
    using 2(2) unfolding v by (auto simp: rbind_def split: if_splits)
  have raw: "on_global_model (header @ w) n = emit (map (\<lambda>cb. CallGlobalModel cb w v) (nd_global_model_callbacks n)) n" for n
    using le_int_le_bytes4 [OF range] by (simp add: on_global_model_def header Let_def)
  have w: "get_weights np (ca_trainer (ai_aggregator a)) = Inr w"
    using 2(1) by (auto simp: get_global_weights_def Let_def next_version_def rbind_def split: sum.splits)
  let ?d = "sc_drone_id (sd_swarmnet s)"
  let ?ack = "\<lparr>cg_id = uid, cg_target_drone = ''*'', cg_command = \<lparr>dc_type = MODEL_ACK,
      dc_payload = Some [(''drone_id'', CText ?d), (''model_version'', CInt v)]\<rparr>,
    cg_issued_by = nd_drone_id (sd_node s), cg_issued_at = now, cg_priority = 5\<rparr>"
  have scout: "nd_effects (sd_node (scout_global_model np uid now w v s)) = nd_effects (sd_node s) @ [Put key (PutCommand ?ack)]"
    "logits f (sc_trainer (sd_swarmnet (scout_global_model np uid now w v s))) = logits f (ca_trainer (ai_aggregator a))" for f
    using assms(6-8) by (simp_all add: scout_global_model_def send_model_ack_def send_command_def put_on_def emit_def
        receive_global_weights_def logits_def rbind_def Let_def weights_roundtrip [OF assms(1-3) w])
  have base: "ai_pending_acks (ai_command_sample (Inr ?ack) c) = filter (\<lambda>d. d \<noteq> ?d) (ai_pending_acks c)"
    "dget (ai_received_acks (ai_command_sample (Inr ?ack) c)) (CText ?d) = Some (CInt v)"
    using assms(9,10) 2(4)
    by (simp_all add: ai_command_sample_def on_command_def process_command_def emit_def ai_on_command_def Let_def
        pydict.get_put)
  show ?thesis
    by (intro exI [of _ "header @ w"] exI [of _ w] exI [of _ ?ack])
      (use 2(4) raw scout base b in \<open>simp add: emit_def Let_def\<close>)
qed simp


definition swarm_base :: ai_agent where
  "swarm_base = ai_start (sample_base\<lparr>ai_node := (ai_node sample_base)\<lparr>nd_swarm := swarm_state0
     \<lparr>ss_members := [(''s'', telemetry0 ''s'' SCOUT 0)],
      ss_trust_registry := [(''s'', \<lparr>vt_tier = TRUSTED, vt_status = APPROVED, vt_manifest = None\<rparr>)]\<rparr>\<rparr>\<rparr>)"

lemma model_delivery_witness:
  "\<exists>b ack. push_model plain_numpy \<lparr>mo_now = 0, mo_uid = ''u'', mo_put = None\<rparr> 0 swarm_base
       = (b, Inr (Some (AwaitingAcks 1 0)))
     \<and> ai_pending_acks b = [''s''] \<and> ai_pending_acks (ai_command_sample (Inr ack) b) = []"
proof -
  let ?m = "\<lparr>mo_now = 0, mo_uid = ''u'', mo_put = None\<rparr>" and ?s = "scout_start sample_scout"
  have g: "ai_aggregator swarm_base = aggregator_init [''weed''] 30 2048 0.1 (replicate 32 [0]) 0"
    by (simp add: swarm_base_def ai_start_def sample_base_def ai_init_def)
  then have t: "ca_trainer (ai_aggregator swarm_base) = trainer_init [''weed''] 0 2048 0.01 False (replicate 32 [0])"
    by (simp add: aggregator_init_def)
  have zero: "np_of_f32 plain_numpy (np_f32 plain_numpy 0) = 0"
    by (simp add: plain_numpy_def le_int_le_bytes)
  have i: "trainer_inv (ca_trainer (ai_aggregator swarm_base))" unfolding t by (rule trainer_init_inv) simp_all
  have z: "\<forall>x\<in>set (concat (lt_weights (ca_trainer (ai_aggregator swarm_base))))
      \<union> set (lt_bias (ca_trainer (ai_aggregator swarm_base))). np_of_f32 plain_numpy (np_f32 plain_numpy x) = x"
    unfolding t by (auto simp: trainer_init_def zero)
  have n: "dget (nd_publishers (ai_node swarm_base)) ''command'' \<noteq> None"
    "''_on_command'' \<in> set (nd_command_callbacks (ai_node swarm_base))"
    "is_command_allowed ''s'' MODEL_ACK (nd_swarm (ai_node swarm_base))"
    "nd_swarm (ai_node swarm_base) = swarm_state0\<lparr>ss_members := [(''s'', telemetry0 ''s'' SCOUT 0)],
      ss_trust_registry := [(''s'', \<lparr>vt_tier = TRUSTED, vt_status = APPROVED, vt_manifest = None\<rparr>)]\<rparr>"
    using sample_base_node(1)
    by (simp_all add: swarm_base_def ai_start_def node_on_command_def node_on_detection_def is_command_allowed_def)
  have p: "nd_publishers (ai_node swarm_base) \<noteq> []" using n(1) by auto
  have timeout: "ai_ack_timeout_s swarm_base = 15" by (simp add: swarm_base_def ai_start_def sample_base_node)
  obtain b where b: "push_model plain_numpy ?m 0 swarm_base = (b, Inr (Some (AwaitingAcks 1 0)))" "ai_pending_acks b = [''s'']"
    using p timeout unfolding push_model_def get_global_weights_def Let_def get_weights_def g
    by (simp add: next_version_def trainer_init_def aggregator_init_def publish_global_model_def await_acks_def
        n(4) get_scouts_def telemetry0_def result_simps)
  have sc: "sc_global_version (sd_swarmnet ?s) < 1" "sc_ack (sd_swarmnet ?s)" "nd_drone_id (sd_node ?s) = ''s''"
    "sc_drone_id (sd_swarmnet ?s) = ''s''" "dget (nd_publishers (sd_node ?s)) ''command'' = Some (zk_command ''*'')"
    by (simp_all add: scout_start_def sample_scout_def set_ack_callback_def controller_init_def with_node_def node_start_def
        setup_publishers_def setup_subscribers_def node_init_def node_config0_def nd_drone_id_def nd_role_def
        node_on_features_def node_on_global_model_def Let_def)
  from model_delivery [where uid = "''u''" and now = 0, OF plain_numpy_ok i z b(1) n(1) sc(1,2,5) n(2), unfolded sc(3,4), OF n(3)] b
  show ?thesis by (auto simp: Let_def)
qed

text \<open>The number of the version plays no part in the wait: an acknowledgement of any model, an old one included,
  takes the drone off the list.\<close>

lemma any_version_confirms:
  assumes "dc_type (cg_command cmd) = MODEL_ACK" and "dc_payload (cg_command cmd) = Some p" and "dget p ''drone_id'' = Some (CText d)"
  shows "ai_pending_acks (ai_on_command cmd a) = filter (\<lambda>x. x \<noteq> d) (ai_pending_acks a)"
  using assms by (simp add: ai_on_command_def Let_def)

text \<open>A scout the base does not admit is waited for all the same: its acknowledgement is dropped by the node, so
  every cycle it is a member of lasts until the timeout.\<close>

lemma unadmitted_never_confirms:
  assumes "\<not> is_command_allowed (cg_issued_by cmd) MODEL_ACK (nd_swarm (ai_node a))" and "dc_type (cg_command cmd) = MODEL_ACK"
  shows "ai_pending_acks (ai_command_sample (Inr cmd) a) = ai_pending_acks a"
  using assms by (simp add: ai_command_sample_def on_command_def Let_def)

end
