(* ===== verification/Json.thy ===== *)
theory Json
  imports Utf8 "HOL-Library.Sublist"
begin

text \<open>
  Values of parsed JSON and what Python does with them when their type is not the expected one: lookup,
  membership, iteration, hashing, truth and comparison with numbers, each with the exception it may raise.
\<close>

section \<open>Parsed JSON\<close>

datatype jval =
    JsNull | JsBool bool | JsNum real | JsStr pystr | JsArr "jval list" | JsObj "(pystr, jval) dict"

text \<open>\<open>d.get(k, default)\<close> of an object, and \<open>v.get(k, default)\<close> of any value: only objects have a \<open>get\<close>.\<close>

definition js_get :: "(pystr, jval) dict \<Rightarrow> string \<Rightarrow> jval \<Rightarrow> jval" where
  "js_get d k v = (case dget d (ascii k) of None \<Rightarrow> v | Some x \<Rightarrow> x)"

fun js_value_get :: "jval \<Rightarrow> string \<Rightarrow> jval \<Rightarrow> jval result" where
  "js_value_get (JsObj d) k v = Inr (js_get d k v)"
| "js_value_get _ k v = Inl AttributeError"

text \<open>\<open>k in v\<close>: a key of an object, a part of a text, an element of an array.\<close>

fun js_in :: "string \<Rightarrow> jval \<Rightarrow> bool result" where
  "js_in k (JsObj d) = Inr (dget d (ascii k) \<noteq> None)"
| "js_in k (JsStr s) = Inr (sublist (ascii k) s)"
| "js_in k (JsArr xs) = Inr (JsStr (ascii k) \<in> set xs)"
| "js_in k _ = Inl TypeError"

text \<open>What a \<open>for\<close> over a value goes through: the elements, the characters, the keys.\<close>

fun js_iter :: "jval \<Rightarrow> jval list result" where
  "js_iter (JsArr xs) = Inr xs"
| "js_iter (JsStr s) = Inr (map (\<lambda>c. JsStr [c]) s)"
| "js_iter (JsObj d) = Inr (map (\<lambda>(k, v). JsStr k) d)"
| "js_iter _ = Inl TypeError"

text \<open>A value as the key of a dictionary: arrays and objects have no hash, and a truth value is the number it equals.\<close>

fun js_key :: "jval \<Rightarrow> jval result" where
  "js_key (JsArr xs) = Inl TypeError"
| "js_key (JsObj d) = Inl TypeError"
| "js_key (JsBool b) = Inr (JsNum (if b then 1 else 0))"
| "js_key v = Inr v"

text \<open>A value compared with a number.\<close>

fun js_number :: "jval \<Rightarrow> real result" where
  "js_number (JsNum x) = Inr x"
| "js_number (JsBool b) = Inr (if b then 1 else 0)"
| "js_number _ = Inl TypeError"

text \<open>The truth of a value.\<close>

fun js_true :: "jval \<Rightarrow> bool" where
  "js_true JsNull = False"
| "js_true (JsBool b) = b"
| "js_true (JsNum x) = (x \<noteq> 0)"
| "js_true (JsStr s) = (s \<noteq> [])"
| "js_true (JsArr xs) = (xs \<noteq> [])"
| "js_true (JsObj d) = (d \<noteq> [])"

text \<open>\<open>f"{v:.4f}"\<close>: a number is formatted, a text raises \<open>ValueError\<close>, anything else \<open>TypeError\<close>.\<close>

fun js_format :: "jval \<Rightarrow> real result" where
  "js_format (JsStr s) = Inl ValueError"
| "js_format v = js_number v"

end
