(* ===== verification/NrfLink.thy ===== *)
theory NrfLink
  imports Json
begin

text \<open>
  What the companion computer reads besides the radio: the JSON link to the sensor firmware
  (\<open>jetson_agent/nrf_link.py\<close>), the GPS daemon (\<open>sensors.py\<close>) and the detections of the perception process
  (\<open>detections.py\<close>). Lines and datagrams arrive with the outcome of parsing them; what the code then does
  with a value of any JSON type, its exceptions included, is modelled. Opening the port, the sockets and
  the threads are left out: a session is a run of steps between a connection and its loss.
\<close>

section \<open>The sensor link\<close>

datatype nrf_effect =
    SentAck jval jval | ManifestCallback "(pystr, jval) dict" | DataCallback jval jval "(pystr, jval) dict"
  | StallWarning real

record nrf_link =
  nl_schema :: int
  nl_on_manifest :: bool
  nl_on_data :: bool
  nl_node :: jval
  nl_sensors :: "(jval, jval) dict"
  nl_latest :: "(jval, jval) dict"
  nl_stopped :: bool
  nl_acked :: bool
  nl_acked_at :: real
  nl_last_data :: real
  nl_last_wait_log :: real
  nl_effects :: "nrf_effect list"

definition nrf_init :: "bool \<Rightarrow> bool \<Rightarrow> int \<Rightarrow> nrf_link" where
  "nrf_init on_manifest on_data schema =
     \<lparr>nl_schema = schema, nl_on_manifest = on_manifest, nl_on_data = on_data, nl_node = JsNull, nl_sensors = [],
      nl_latest = [], nl_stopped = False, nl_acked = False, nl_acked_at = 0, nl_last_data = 0,
      nl_last_wait_log = 0, nl_effects = []\<rparr>"

definition nrf_emit :: "nrf_effect \<Rightarrow> nrf_link \<Rightarrow> nrf_link" where
  "nrf_emit e l = l\<lparr>nl_effects := nl_effects l @ [e]\<rparr>"

definition nrf_start :: "nrf_link \<Rightarrow> nrf_link" where
  "nrf_start l = l\<lparr>nl_stopped := False\<rparr>"

definition nrf_stop :: "nrf_link \<Rightarrow> nrf_link" where
  "nrf_stop l = l\<lparr>nl_stopped := True\<rparr>"

text \<open>The port is open: what the session begins with.\<close>

definition open_session :: "nrf_link \<Rightarrow> nrf_link" where
  "open_session l = l\<lparr>nl_acked := False, nl_last_data := 0, nl_last_wait_log := 0\<rparr>"

text \<open>\<open>io\<close> is the exception the port raises when it is written to, if any.\<close>

definition send_ack :: "real \<Rightarrow> py_error option \<Rightarrow> (pystr, jval) dict \<Rightarrow> nrf_link \<Rightarrow> nrf_link \<times> py_error option" where
  "send_ack now io manifest l =
     (case io of
        Some e \<Rightarrow> (l, Some e)
      | None \<Rightarrow>
          ((nrf_emit (SentAck (js_get manifest ''schema'' (JsNum (of_int (nl_schema l)))) (js_get manifest ''node'' JsNull)) l)
             \<lparr>nl_acked := True, nl_acked_at := now\<rparr>, None))"

text \<open>The comprehension over the announced sensors, element by element.\<close>

fun sensor_table :: "jval list \<Rightarrow> (jval, jval) dict \<Rightarrow> (jval, jval) dict result" where
  "sensor_table [] acc = Inr acc"
| "sensor_table (s # ss) acc =
     rbind (js_in ''id'' s) (\<lambda>present.
       if \<not> present then sensor_table ss acc
       else rbind (js_value_get s ''id'' JsNull) (\<lambda>i. rbind (js_key i) (\<lambda>k. sensor_table ss (dset k s acc))))"

fun is_js_str :: "jval \<Rightarrow> bool" where
  "is_js_str (JsStr s) \<longleftrightarrow> True"
| "is_js_str _ \<longleftrightarrow> False"

text \<open>Joining the ids for the log raises unless all of them are texts, and comes before the acknowledgement.\<close>

definition handle_manifest :: "real \<Rightarrow> py_error option \<Rightarrow> (pystr, jval) dict \<Rightarrow> nrf_link \<Rightarrow> nrf_link \<times> py_error option" where
  "handle_manifest now io frame l =
     (let l1 = l\<lparr>nl_node := js_get frame ''node'' JsNull\<rparr>
      in case rbind (js_iter (js_get frame ''sensors'' (JsArr []))) (\<lambda>ss. sensor_table ss []) of
           Inl e \<Rightarrow> (l1, Some e)
         | Inr table \<Rightarrow>
             (let l2 = l1\<lparr>nl_sensors := table\<rparr>
              in if \<not> list_all is_js_str (map fst table) then (l2, Some TypeError)
                 else case send_ack now io frame l2 of
                        (l3, Some e) \<Rightarrow> (l3, Some e)
                      | (l3, None) \<Rightarrow> (if nl_on_manifest l3 then nrf_emit (ManifestCallback frame) l3 else l3, None)))"

definition log_sample :: "jval \<Rightarrow> py_error option" where
  "log_sample value =
     (case rbind (js_in ''fix'' value) (\<lambda>f. if f then js_in ''lat'' value else Inr False) of
        Inl e \<Rightarrow> Some e
      | Inr False \<Rightarrow> None
      | Inr True \<Rightarrow>
          (case rbind (js_value_get value ''fix'' (JsNum 0)) js_number of Inl e \<Rightarrow> Some e | Inr x \<Rightarrow> None))"

definition handle_data :: "real \<Rightarrow> (pystr, jval) dict \<Rightarrow> nrf_link \<Rightarrow> nrf_link \<times> py_error option" where
  "handle_data now frame l =
     (let sid = js_get frame ''id'' JsNull; value = js_get frame ''value'' (JsObj [])
      in if sid = JsNull then (l, None)
         else case js_key sid of
                Inl e \<Rightarrow> (l, Some e)
              | Inr k \<Rightarrow>
                  (let l1 = l\<lparr>nl_latest := dset k value (nl_latest l), nl_last_data := now\<rparr>
                   in if nl_on_data l1 then (nrf_emit (DataCallback sid value frame) l1, None)
                      else (l1, log_sample value)))"

definition dispatch_frame :: "real \<Rightarrow> py_error option \<Rightarrow> (pystr, jval) dict \<Rightarrow> nrf_link \<Rightarrow> nrf_link \<times> py_error option" where
  "dispatch_frame now io frame l =
     (let ftype = js_get frame ''type'' JsNull
      in if ftype = JsStr (ascii ''manifest'') then handle_manifest now io frame l
         else if ftype = JsStr (ascii ''data'') then handle_data now frame l
         else (l, None))"

definition watchdog :: "real \<Rightarrow> nrf_link \<Rightarrow> nrf_link" where
  "watchdog now l =
     (if \<not> nl_acked l \<or> nl_last_data l \<noteq> 0 then l
      else if 3 \<le> now - nl_acked_at l \<and> 5 \<le> now - nl_last_wait_log l
      then nrf_emit (StallWarning now) (l\<lparr>nl_last_wait_log := now\<rparr>) else l)"

text \<open>What \<open>readline\<close> and the parser make of the port: nothing within the second, a line that is blank or not
  JSON, or a value.\<close>

datatype nrf_line = NothingRead | BlankLine | NotJson | Parsed jval

definition session_line :: "real \<Rightarrow> py_error option \<Rightarrow> nrf_line \<Rightarrow> nrf_link \<Rightarrow> nrf_link \<times> py_error option" where
  "session_line now io line l =
     (let l1 = watchdog now l
      in case line of
           Parsed (JsObj frame) \<Rightarrow> dispatch_frame now io frame l1
         | _ \<Rightarrow> (l1, None))"

text \<open>A session reads until it is stopped or something raises; \<open>run\<close> catches what it raises, forgets the port
  and, unless stopped, opens the port again.\<close>

fun session_loop :: "(real \<times> py_error option \<times> nrf_line) list \<Rightarrow> nrf_link \<Rightarrow> nrf_link" where
  "session_loop [] l = l"
| "session_loop ((now, io, line) # ls) l =
     (if nl_stopped l then l
      else case session_line now io line l of (l1, Some e) \<Rightarrow> l1 | (l1, None) \<Rightarrow> session_loop ls l1)"

fun link_run :: "(real \<times> py_error option \<times> nrf_line) list list \<Rightarrow> nrf_link \<Rightarrow> nrf_link" where
  "link_run [] l = l"
| "link_run (s # ss) l = (if nl_stopped l then l else link_run ss (session_loop s (open_session l)))"

section \<open>The GPS daemon\<close>

type_synonym gps_fix = "real \<times> real \<times> real \<times> int"

text \<open>\<open>loads\<close> is the outcome of parsing a line (\<open>None\<close> for a \<open>ValueError\<close>), \<open>number\<close> that of reading a text as a float.\<close>

record json_text =
  jt_loads :: "bytes \<Rightarrow> jval option"
  jt_number :: "pystr \<Rightarrow> real option"

fun to_float :: "json_text \<Rightarrow> jval \<Rightarrow> real result" where
  "to_float J (JsStr s) = (case jt_number J s of None \<Rightarrow> Inl ValueError | Some x \<Rightarrow> Inr x)"
| "to_float J v = js_number v"

definition gpsd_ingest :: "json_text \<Rightarrow> bytes \<Rightarrow> gps_fix option \<Rightarrow> gps_fix option result" where
  "gpsd_ingest J line fx =
     (case jt_loads J line of
        None \<Rightarrow> Inr fx
      | Some obj \<Rightarrow>
          rbind (js_value_get obj ''class'' JsNull) (\<lambda>cls.
            if cls \<noteq> JsStr (ascii ''TPV'') then Inr fx
            else rbind (js_value_get obj ''lat'' JsNull) (\<lambda>lat. rbind (js_value_get obj ''lon'' JsNull) (\<lambda>lon.
              if lat = JsNull \<or> lon = JsNull then Inr fx
              else rbind (js_value_get obj ''alt'' (JsNum 0)) (\<lambda>alt. rbind (js_value_get obj ''mode'' (JsNum 0)) (\<lambda>mode.
                rbind (js_number mode) (\<lambda>m.
                  let quality = (if 3 \<le> m then 200 else 150)
                  in rbind (to_float J lat) (\<lambda>la. rbind (to_float J lon) (\<lambda>lo. rbind (to_float J alt) (\<lambda>al.
                       Inr (Some (la, lo, al, quality))))))))))))"

fun cut_line :: "bytes \<Rightarrow> (bytes \<times> bytes) option" where
  "cut_line [] = None"
| "cut_line (b # bs) = (if b = 10 then Some ([], bs) else map_option (\<lambda>(line, rest). (b # line, rest)) (cut_line bs))"

lemma cut_line_shorter: "cut_line bs = Some (line, rest) \<Longrightarrow> length rest < length bs"
  by (induction bs arbitrary: line) (auto split: if_splits)

text \<open>The inner loop over the lines of the buffer: the fix it leaves, and the rest of the buffer or the exception.\<close>

function gpsd_lines :: "json_text \<Rightarrow> bytes \<Rightarrow> gps_fix option \<Rightarrow> gps_fix option \<times> bytes result" where
  "gpsd_lines J buf fx =
     (case cut_line buf of
        None \<Rightarrow> (fx, Inr buf)
      | Some (line, rest) \<Rightarrow>
          (case gpsd_ingest J line fx of Inl e \<Rightarrow> (fx, Inl e) | Inr fx' \<Rightarrow> gpsd_lines J rest fx'))"
  by pat_completeness auto
termination
  by (relation "measure (\<lambda>(J, buf, fx). length buf)") (auto dest: cut_line_shorter)

declare gpsd_lines.simps [simp del]

text \<open>A connection: chunks until an empty one, an exception, or the end of what arrives.\<close>

fun gpsd_session :: "json_text \<Rightarrow> bytes list \<Rightarrow> bytes \<Rightarrow> gps_fix option \<Rightarrow> gps_fix option \<times> bytes result" where
  "gpsd_session J [] buf fx = (fx, Inr buf)"
| "gpsd_session J (chunk # chunks) buf fx =
     (if chunk = [] then (fx, Inr buf)
      else case gpsd_lines J (buf @ chunk) fx of
             (fx', Inl e) \<Rightarrow> (fx', Inl e)
           | (fx', Inr rest) \<Rightarrow> gpsd_session J chunks rest fx')"

section \<open>Detections of the perception process\<close>

record detection_reader =
  dr_latest :: jval
  dr_ts :: jval
  dr_ok :: bool

definition detection_reader_init :: "bool \<Rightarrow> detection_reader" where
  "detection_reader_init bound = \<lparr>dr_latest = JsArr [], dr_ts = JsNum 0, dr_ok = bound\<rparr>"

fun drain :: "jval option list \<Rightarrow> detection_reader \<Rightarrow> detection_reader" where
  "drain [] r = r"
| "drain (Some (JsObj msg) # ds) r =
     drain ds (r\<lparr>dr_latest := js_get msg ''items'' (JsArr []), dr_ts := js_get msg ''ts'' (JsNum 0)\<rparr>)"
| "drain (d # ds) r = drain ds r"

definition poll :: "jval option list \<Rightarrow> detection_reader \<Rightarrow> jval \<times> detection_reader" where
  "poll datagrams r = (if dr_ok r then (dr_latest (drain datagrams r), drain datagrams r) else (JsArr [], r))"


section \<open>The link answers every manifest it can read\<close>

fun is_ack :: "nrf_effect \<Rightarrow> bool" where
  "is_ack (SentAck sch nd) \<longleftrightarrow> True"
| "is_ack _ \<longleftrightarrow> False"

definition acks :: "nrf_link \<Rightarrow> nat" where
  "acks l = length (filter is_ack (nl_effects l))"

text \<open>A sensor that is announced properly: an object whose id is a text.\<close>

fun named_sensor :: "jval \<Rightarrow> bool" where
  "named_sensor (JsObj d) = (case dget d (ascii ''id'') of Some (JsStr s) \<Rightarrow> True | _ \<Rightarrow> False)"
| "named_sensor v = False"

fun sensor_id :: "jval \<Rightarrow> jval" where
  "sensor_id (JsObj d) = js_get d ''id'' JsNull"
| "sensor_id v = JsNull"

lemma named_sensorE:
  assumes "named_sensor s"
  obtains d i where "s = JsObj d" and "dget d (ascii ''id'') = Some (JsStr i)"
  using assms by (cases s) (auto split: option.splits jval.splits)

lemma dset_keys_str:
  "list_all is_js_str (map fst acc) \<Longrightarrow> list_all is_js_str (map fst (dset (JsStr i) v acc))"
  by (induction acc) (auto split: if_splits)

lemma sensor_table_named:
  "list_all named_sensor ss \<Longrightarrow> list_all is_js_str (map fst acc) \<Longrightarrow>
     \<exists>t. sensor_table ss acc = Inr t \<and> list_all is_js_str (map fst t)
       \<and> (\<forall>k. dget t k = (case find (\<lambda>s. sensor_id s = k) (rev ss) of None \<Rightarrow> dget acc k | Some s \<Rightarrow> Some s))"
proof (induction ss arbitrary: acc)
  case (Cons s ss)
  from Cons.prems obtain d i where s: "s = JsObj d" "dget d (ascii ''id'') = Some (JsStr i)" by (auto elim: named_sensorE)
  have step: "sensor_table (s # ss) acc = sensor_table ss (dset (JsStr i) s acc)"
    using s by (simp add: rbind_def js_get_def)
  have snoc: "find P (xs @ [s]) = (case find P xs of None \<Rightarrow> if P s then Some s else None | Some y \<Rightarrow> Some y)" for P and xs :: "jval list"
    by (induction xs) auto
  have i: "sensor_id s = JsStr i" using s by (simp add: js_get_def)
  have "list_all named_sensor ss" "list_all is_js_str (map fst (dset (JsStr i) s acc))"
    using Cons.prems by (simp_all add: dset_keys_str)
  then obtain t where t: "sensor_table ss (dset (JsStr i) s acc) = Inr t" "list_all is_js_str (map fst t)"
    and lookup: "\<And>k. dget t k = (case find (\<lambda>s. sensor_id s = k) (rev ss) of None \<Rightarrow> dget (dset (JsStr i) s acc) k | Some s \<Rightarrow> Some s)"
    using Cons.IH by meson
  have "dget t k = (case find (\<lambda>s. sensor_id s = k) (rev (s # ss)) of None \<Rightarrow> dget acc k | Some s \<Rightarrow> Some s)" for k
    unfolding lookup rev.simps snoc i
    by (cases "find (\<lambda>s. sensor_id s = k) (rev ss)") (simp_all add: pydict.get_put)
  with t step show ?case by auto
qed simp

text \<open>A manifest whose sensors all have a text for an id is acknowledged in the step that reads it, with its own
  schema and node, before any callback; the table then gives each id the last sensor announced under it.\<close>

theorem manifest_acknowledged:
  assumes "js_get frame ''sensors'' (JsArr []) = JsArr ss" and "list_all named_sensor ss"
  shows "\<exists>l'. handle_manifest now None frame l = (l', None) \<and> nl_acked l' \<and> nl_acked_at l' = now
    \<and> nl_effects l' = nl_effects l @ SentAck (js_get frame ''schema'' (JsNum (of_int (nl_schema l)))) (js_get frame ''node'' JsNull)
        # (if nl_on_manifest l then [ManifestCallback frame] else [])
    \<and> (\<forall>k. dget (nl_sensors l') k = find (\<lambda>s. sensor_id s = k) (rev ss))"
proof -
  obtain t where t: "sensor_table ss [] = Inr t" "list_all is_js_str (map fst t)"
    and lookup: "\<And>k. dget t k = (case find (\<lambda>s. sensor_id s = k) (rev ss) of None \<Rightarrow> dget [] k | Some s \<Rightarrow> Some s)"
    using sensor_table_named [OF assms(2), of "[]"] by (force simp del: dget_code)
  have "dget t k = find (\<lambda>s. sensor_id s = k) (rev ss)" for k
    unfolding lookup by (cases "find (\<lambda>s. sensor_id s = k) (rev ss)") simp_all
  with t show ?thesis
    by (simp add: handle_manifest_def assms(1) rbind_def send_ack_def nrf_emit_def Let_def)
qed

lemma manifest_acknowledged_witness:
  "\<exists>l'. handle_manifest 1 None [(ascii ''sensors'', JsArr [JsObj [(ascii ''id'', JsStr (ascii ''gps0''))]])] (nrf_init True True 1)
     = (l', None) \<and> nl_acked l'"
  using manifest_acknowledged [of "[(ascii ''sensors'', JsArr [JsObj [(ascii ''id'', JsStr (ascii ''gps0''))]])]"
      "[JsObj [(ascii ''id'', JsStr (ascii ''gps0''))]]" 1 "nrf_init True True 1"]
  by (force simp: js_get_def ascii_def)

text \<open>A manifest in which a sensor has a number for an id.\<close>

fun number_id :: "jval \<Rightarrow> bool" where
  "number_id (JsObj d) = (case dget d (ascii ''id'') of Some (JsNum x) \<Rightarrow> True | _ \<Rightarrow> False)"
| "number_id v = False"

definition numbered_manifest :: "(pystr, jval) dict \<Rightarrow> bool" where
  "numbered_manifest frame \<longleftrightarrow>
     (case js_get frame ''sensors'' (JsArr []) of
        JsArr ss \<Rightarrow> list_ex number_id ss
      | _ \<Rightarrow> False)"

definition hopeless :: "nrf_line \<Rightarrow> bool" where
  "hopeless line \<longleftrightarrow>
     (case line of
        Parsed (JsObj frame) \<Rightarrow> js_get frame ''type'' JsNull \<noteq> JsStr (ascii ''manifest'') \<or> numbered_manifest frame
      | _ \<Rightarrow> True)"

lemma dset_keeps_odd_key:
  "\<not> list_all is_js_str (map fst acc) \<Longrightarrow> \<not> list_all is_js_str (map fst (dset k v acc))"
  by (induction acc) (auto split: if_splits)

lemma dset_odd_key: "\<not> is_js_str k \<Longrightarrow> \<not> list_all is_js_str (map fst (dset k v acc))"
  by (induction acc) (auto split: if_splits)

lemma sensor_table_keeps_odd:
  "sensor_table ss acc = Inr t \<Longrightarrow> \<not> list_all is_js_str (map fst acc) \<Longrightarrow> \<not> list_all is_js_str (map fst t)"
proof (induction ss arbitrary: acc)
  case (Cons s ss)
  from Cons.prems(1) consider "sensor_table ss acc = Inr t" | k where "sensor_table ss (dset k s acc) = Inr t"
    by (auto simp: result_simps split: if_splits)
  then show ?case
  proof cases
    case 1
    from Cons.IH [OF 1 Cons.prems(2)] show ?thesis .
  next
    case (2 k)
    from Cons.IH [OF 2 dset_keeps_odd_key [OF Cons.prems(2)]] show ?thesis .
  qed
qed simp

lemma number_idE:
  assumes "number_id s"
  obtains d x where "s = JsObj d" and "dget d (ascii ''id'') = Some (JsNum x)"
  using assms by (cases s) (auto split: option.splits jval.splits)

lemma sensor_table_odd:
  assumes "sensor_table ss acc = Inr t" and "JsObj d \<in> set ss" and "dget d (ascii ''id'') = Some (JsNum x)"
  shows "\<not> list_all is_js_str (map fst t)"
  using assms
proof (induction ss arbitrary: acc)
  case (Cons s ss)
  show ?case
  proof (cases "s = JsObj d")
    case True
    with Cons.prems have "sensor_table ss (dset (JsNum x) s acc) = Inr t" by (simp add: rbind_def js_get_def)
    from sensor_table_keeps_odd [OF this] show ?thesis by (simp add: dset_odd_key)
  next
    case False
    with Cons show ?thesis by (auto simp: result_simps split: if_splits)
  qed
qed simp

lemma numbered_never_acked:
  assumes "numbered_manifest frame"
  shows "\<exists>l' e. handle_manifest now io frame l = (l', Some e) \<and> nl_effects l' = nl_effects l"
proof -
  obtain ss d x where ss: "js_get frame ''sensors'' (JsArr []) = JsArr ss" "JsObj d \<in> set ss"
    "dget d (ascii ''id'') = Some (JsNum x)"
    using assms by (auto simp: numbered_manifest_def list_ex_iff elim!: number_idE split: jval.splits)
  show ?thesis
    using sensor_table_odd [OF _ ss(2,3)] by (cases "sensor_table ss []") (auto simp: handle_manifest_def ss(1) rbind_def Let_def)
qed

lemma hopeless_line: "hopeless line \<Longrightarrow> session_line now io line l = (l', r) \<Longrightarrow> acks l' = acks l"
proof -
  assume h: "hopeless line" and s: "session_line now io line l = (l', r)"
  have w: "acks (watchdog now k) = acks k" for k by (simp add: watchdog_def acks_def nrf_emit_def)
  have d: "acks (fst (handle_data now frame k)) = acks k" for frame k
    by (simp add: handle_data_def acks_def nrf_emit_def Let_def split: sum.split)
  have m: "numbered_manifest frame \<Longrightarrow> acks (fst (handle_manifest now io frame k)) = acks k" for frame k
    using numbered_never_acked [of frame now io k] by (auto simp: acks_def)
  show ?thesis
  proof (cases "\<exists>frame. line = Parsed (JsObj frame)")
    case True
    then obtain frame where f: "line = Parsed (JsObj frame)" by blast
    with h s show ?thesis
      using d [of frame "watchdog now l"] m [of frame "watchdog now l"] w [of l]
      by (auto simp: session_line_def dispatch_frame_def hopeless_def Let_def split: if_splits)
  next
    case False
    with s w show ?thesis by (auto simp: session_line_def Let_def split: nrf_line.splits jval.splits)
  qed
qed

text \<open>A module that gives one of its sensors a number for an id is never acknowledged: through any number of sessions in
  which each manifest is of that kind, whatever else is sent and whatever else raises, the link sends no
  acknowledgement; reading the manifest ends the session instead.\<close>

theorem numbered_sensors_starve:
  assumes "\<forall>(now, io, line) \<in> set (concat sessions). hopeless line"
  shows "acks (link_run sessions l) = acks l"
proof -
  have loop: "acks (session_loop ls k) = acks k" if "\<forall>(now, io, line) \<in> set ls. hopeless line" for ls k
    using that
  proof (induction ls arbitrary: k)
    case (Cons a ls)
    obtain now io line where a: "a = (now, io, line)" by (cases a) auto
    obtain k' r where s: "session_line now io line k = (k', r)" by fastforce
    have "acks k' = acks k" using hopeless_line [OF _ s] Cons.prems a by simp
    then show ?case using Cons.IH [of k'] Cons.prems by (auto simp: a s split: option.split)
  qed simp
  show ?thesis using assms
  proof (induction sessions arbitrary: l)
    case (Cons s sessions)
    have o: "acks (open_session l) = acks l" by (simp add: open_session_def acks_def)
    show ?case using Cons loop [of s "open_session l"] o by simp
  qed simp
qed

definition numbered_sample :: nrf_line where
  "numbered_sample = Parsed (JsObj [(ascii ''type'', JsStr (ascii ''manifest'')),
     (ascii ''sensors'', JsArr [JsObj [(ascii ''id'', JsNum 7)]])])"

lemma numbered_sensors_starve_witness:
  "acks (link_run (replicate 5 [(0, None, numbered_sample)]) (nrf_init True True 1)) = 0"
proof -
  have "hopeless numbered_sample"
    by (simp add: hopeless_def numbered_sample_def numbered_manifest_def js_get_def ascii_def)
  then have "\<forall>(now, io, line) \<in> set (concat (replicate 5 [(0, None, numbered_sample)])). hopeless line" by auto
  from numbered_sensors_starve [OF this, of "nrf_init True True 1"] show ?thesis by (simp add: acks_def nrf_init_def)
qed

section \<open>The daemon's stream\<close>

lemma cut_line_append:
  "cut_line bs = Some (line, rest) \<Longrightarrow> cut_line (bs @ cs) = Some (line, rest @ cs)"
  by (induction bs arbitrary: line) (auto split: if_splits)

lemma gpsd_lines_append:
  "gpsd_lines J (xs @ ys) fx =
     (case gpsd_lines J xs fx of (f, Inl e) \<Rightarrow> (f, Inl e) | (f, Inr r) \<Rightarrow> gpsd_lines J (r @ ys) f)"
proof (induction J xs fx rule: gpsd_lines.induct)
  case (1 J buf fx)
  show ?case
  proof (cases "cut_line buf")
    case None
    then show ?thesis by (simp add: gpsd_lines.simps [of J buf])
  next
    case (Some lr)
    obtain line rest where lr: "lr = (line, rest)" by fastforce
    with Some have c: "cut_line buf = Some (line, rest)" by simp
    show ?thesis
    proof (cases "gpsd_ingest J line fx")
      case (Inl e)
      then show ?thesis
        by (simp add: gpsd_lines.simps [of J buf] gpsd_lines.simps [of J "buf @ ys"] c cut_line_append [OF c])
    next
      case (Inr fx')
      from "1" [OF c refl Inr] Inr show ?thesis
        by (simp add: gpsd_lines.simps [of J buf] gpsd_lines.simps [of J "buf @ ys"] c cut_line_append [OF c])
    qed
  qed
qed

lemma gpsd_rest: "gpsd_lines J buf fx = (f, Inr r) \<Longrightarrow> cut_line r = None"
proof (induction J buf fx rule: gpsd_lines.induct)
  case (1 J buf fx)
  show ?case
  proof (cases "cut_line buf")
    case None
    with "1.prems" show ?thesis by (simp add: gpsd_lines.simps [of J buf])
  next
    case (Some lr)
    obtain line rest where c: "cut_line buf = Some (line, rest)" using Some by (cases lr) simp
    with "1.prems" obtain fx' where i: "gpsd_ingest J line fx = Inr fx'"
      by (auto simp: gpsd_lines.simps [of J buf] split: sum.splits)
    with "1.prems" c have "gpsd_lines J rest fx' = (f, Inr r)" by (simp add: gpsd_lines.simps [of J buf])
    from "1.IH" [OF c refl i this] show ?thesis .
  qed
qed

text \<open>How the daemon's stream is cut into chunks makes no difference: the fix, the unfinished line that is left, and
  the exception a malformed report ends the connection with are those of the stream as a whole.\<close>

theorem gpsd_chunking:
  assumes "[] \<notin> set chunks"
  shows "gpsd_session J chunks [] fx = gpsd_lines J (concat chunks) fx"
proof -
  have "cut_line buf = None \<Longrightarrow> gpsd_session J chunks buf fx = gpsd_lines J (buf @ concat chunks) fx" for buf
    using assms
  proof (induction chunks arbitrary: buf fx)
    case Nil
    then show ?case by (simp add: gpsd_lines.simps [of J buf])
  next
    case (Cons c cs)
    obtain f r where g: "gpsd_lines J (buf @ c) fx = (f, r)" by fastforce
    have whole: "gpsd_lines J (buf @ concat (c # cs)) fx
        = (case r of Inl e \<Rightarrow> (f, Inl e) | Inr r' \<Rightarrow> gpsd_lines J (r' @ concat cs) f)"
      using gpsd_lines_append [of J "buf @ c" "concat cs" fx] g by simp
    have c: "c \<noteq> []" "[] \<notin> set cs" using Cons.prems(2) by auto
    show ?case
    proof (cases r)
      case (Inl e)
      then show ?thesis unfolding whole using c g by simp
    next
      case (Inr r')
      then show ?thesis unfolding whole using c g Cons.IH [OF gpsd_rest c(2), of J "buf @ c" fx f r'] by simp
    qed
  qed
  from this [of "[]"] show ?thesis by simp
qed

lemma gpsd_chunking_witness:
  "gpsd_session \<lparr>jt_loads = (\<lambda>l. None), jt_number = (\<lambda>s. None)\<rparr> [[65], [10, 66]] [] None
     = gpsd_lines \<lparr>jt_loads = (\<lambda>l. None), jt_number = (\<lambda>s. None)\<rparr> [65, 10, 66] None"
  using gpsd_chunking [of "[[65], [10, 66]]" "\<lparr>jt_loads = (\<lambda>l. None), jt_number = (\<lambda>s. None)\<rparr>" None] by simp

section \<open>A silent perception process\<close>

text \<open>The reader never forgets: after datagrams that bring no object, or none at all, however long ago the last report
  was, a poll answers with the detections of that report.\<close>

lemma silence_keeps_detections:
  "list_all (\<lambda>d. case d of Some (JsObj m) \<Rightarrow> False | _ \<Rightarrow> True) ds \<Longrightarrow> dr_ok r \<Longrightarrow> poll ds r = (dr_latest r, r)"
proof -
  assume a: "list_all (\<lambda>d. case d of Some (JsObj m) \<Rightarrow> False | _ \<Rightarrow> True) ds" and ok: "dr_ok r"
  from a have "drain ds r = r" by (induction ds r rule: drain.induct) auto
  with ok show ?thesis by (simp add: poll_def)
qed

end
