(* ===== verification/Advisor.thy ===== *)
theory Advisor
  imports Json
begin

text \<open>
  The operators' advisor (\<open>olympus_brain/advisor.py\<close>) and its HTTP front (\<open>api.py\<close>): what a request must look
  like to reach the language model, which context and which part of the conversation the model is
  given, and how each failure is answered. The web server, the HTTP client and the language model are
  arguments: a request arrives as its parsed body, every call of the client as its outcome. Composed texts are
  values of their own, one constructor per sentence of the source.
\<close>

section \<open>Text\<close>

text \<open>What Python takes from the Unicode database, and the text of a value.\<close>

record text_lib =
  tl_printable :: "nat \<Rightarrow> bool"
  tl_space :: "nat \<Rightarrow> bool"
  tl_str :: "jval \<Rightarrow> pystr"

definition strip :: "text_lib \<Rightarrow> pystr \<Rightarrow> pystr" where
  "strip T s = rev (dropWhile (tl_space T) (rev (dropWhile (tl_space T) s)))"

definition max_message_length :: nat where
  "max_message_length = 2000"

definition sanitize_message :: "text_lib \<Rightarrow> pystr \<Rightarrow> pystr" where
  "sanitize_message T message = filter (\<lambda>ch. ch = 10 \<or> tl_printable T ch) (strip T (take max_message_length message))"

text \<open>\<open>re.IGNORECASE\<close>: the characters that match an ASCII letter are its two cases and four others of Unicode.\<close>

definition fold_case :: "nat \<Rightarrow> nat" where
  "fold_case c =
     (if 65 \<le> c \<and> c \<le> 90 then c + 32 else if c = 0x130 \<or> c = 0x131 then 105 else if c = 0x17F then 115
      else if c = 0x212A then 107 else c)"

definition injection_patterns :: "pystr list" where
  "injection_patterns =
     map ascii [''ignore previous'', ''system prompt'', ''you are now'', ''forget everything'', ''disregard'']"

definition injected :: "pystr \<Rightarrow> bool" where
  "injected s = list_ex (\<lambda>p. sublist p (map fold_case s)) injection_patterns"

text \<open>\<open>SwarmContextGatherer._sanitize\<close>.\<close>

definition san :: "text_lib \<Rightarrow> nat \<Rightarrow> jval \<Rightarrow> pystr" where
  "san T max_len value = filter (\<lambda>c. tl_printable T c \<and> c \<noteq> 10) (take max_len (tl_str T value))"

section \<open>The context\<close>

datatype fetched = FetchOk jval | FetchStatus | FetchUnreachable | FetchRaised

text \<open>The four requests run together; one that raises something else than a connection error raises for all.\<close>

definition gather :: "(string \<times> fetched) list \<Rightarrow> (string, jval) dict option" where
  "gather fs =
     (if list_ex (\<lambda>(k, f). f = FetchRaised) fs then None
      else Some (map (\<lambda>(k, f). (k, case f of FetchOk v \<Rightarrow> v | _ \<Rightarrow> JsNull)) fs))"

definition ctx_get :: "(string, jval) dict \<Rightarrow> string \<Rightarrow> jval" where
  "ctx_get d k = (case dget d k of None \<Rightarrow> JsNull | Some v \<Rightarrow> v)"

datatype ctx_line =
    FleetUnavailable | FleetHeader | ActiveVehicles nat "(pystr, nat) dict"
  | VehicleLine pystr pystr jval real real jval "pystr option" "pystr option"
  | DetectionsUnavailable | DetectionsHeader | DetectionTotal nat "(pystr \<times> nat) list" | AverageConfidence real
  | EmptyLine

definition count_in :: "pystr \<Rightarrow> (pystr, nat) dict \<Rightarrow> (pystr, nat) dict" where
  "count_in k d = dset k ((case dget d k of None \<Rightarrow> 0 | Some n \<Rightarrow> n) + 1) d"

fun role_counts :: "text_lib \<Rightarrow> jval list \<Rightarrow> (pystr, nat) dict \<Rightarrow> (pystr, nat) dict result" where
  "role_counts T [] acc = Inr acc"
| "role_counts T (v # vs) acc =
     rbind (js_value_get v ''role'' (JsStr (ascii ''unknown''))) (\<lambda>r. role_counts T vs (count_in (san T 20 r) acc))"

definition vehicle_line :: "text_lib \<Rightarrow> jval \<Rightarrow> ctx_line result" where
  "vehicle_line T v =
     rbind (js_value_get v ''vehicle_id'' (JsStr (ascii ''unknown''))) (\<lambda>vid.
     rbind (js_value_get v ''status'' (JsStr (ascii ''unknown''))) (\<lambda>status.
     rbind (js_value_get v ''battery_pct'' (JsStr (ascii ''?''))) (\<lambda>battery.
     rbind (js_value_get v ''position'' (JsObj [])) (\<lambda>pos.
     rbind (js_value_get pos ''latitude'' (JsNum 0)) (\<lambda>lat.
     rbind (js_value_get pos ''longitude'' (JsNum 0)) (\<lambda>lon.
     rbind (js_value_get v ''signal_rssi'' (JsStr (ascii ''?''))) (\<lambda>rssi.
     rbind (js_value_get v ''trust_tier'' (JsStr (ascii ''trusted''))) (\<lambda>trust.
     rbind (js_value_get v ''current_task'' JsNull) (\<lambda>task.
     rbind (js_format lat) (\<lambda>la. rbind (js_format lon) (\<lambda>lo.
       Inr (VehicleLine (san T 64 vid) (san T 20 status) battery la lo rssi
         (if san T 20 trust \<noteq> ascii ''trusted'' then Some (san T 20 trust) else None)
         (if js_true task then Some (san T 64 task) else None)))))))))))))"

fun map_result :: "('a \<Rightarrow> 'b result) \<Rightarrow> 'a list \<Rightarrow> 'b list result" where
  "map_result f [] = Inr []"
| "map_result f (x # xs) = rbind (f x) (\<lambda>y. rbind (map_result f xs) (\<lambda>ys. Inr (y # ys)))"

definition fleet_lines :: "text_lib \<Rightarrow> jval \<Rightarrow> ctx_line list result" where
  "fleet_lines T vehicles =
     (case vehicles of
        JsArr (v # vs) \<Rightarrow>
          (let shown = take 20 (v # vs)
           in rbind (role_counts T shown []) (\<lambda>roles. rbind (map_result (vehicle_line T) shown) (\<lambda>ls.
                Inr (FleetHeader # ActiveVehicles (length shown) roles # ls))))
      | _ \<Rightarrow> Inr [FleetUnavailable])"

fun detection_counts :: "text_lib \<Rightarrow> jval list \<Rightarrow> (pystr, nat) dict \<Rightarrow> real \<Rightarrow> ((pystr, nat) dict \<times> real) result" where
  "detection_counts T [] acc conf_sum = Inr (acc, conf_sum)"
| "detection_counts T (d # ds) acc conf_sum =
     rbind (js_value_get d ''detection_type'' (JsStr (ascii ''unknown''))) (\<lambda>ty.
     rbind (js_value_get d ''confidence'' (JsNum 0)) (\<lambda>c.
     rbind (js_number c) (\<lambda>x. detection_counts T ds (count_in (san T 32 ty) acc) (conf_sum + x))))"

text \<open>The most frequent types first, ties in the order of their first appearance.\<close>

definition detection_lines :: "text_lib \<Rightarrow> jval \<Rightarrow> ctx_line list result" where
  "detection_lines T detections =
     (case detections of
        JsArr (d # ds) \<Rightarrow>
          (let det_count = length (d # ds)
           in rbind (detection_counts T (take 50 (d # ds)) [] 0) (\<lambda>(by_type, total_conf).
                Inr [DetectionsHeader, DetectionTotal det_count (sort_key (\<lambda>(t, c). - int c) by_type),
                     AverageConfidence (total_conf / real (max det_count 1))]))
      | _ \<Rightarrow> Inr [DetectionsUnavailable])"

definition format_context :: "text_lib \<Rightarrow> (string, jval) dict \<Rightarrow> ctx_line list result" where
  "format_context T data =
     rbind (fleet_lines T (ctx_get data ''vehicles'')) (\<lambda>fleet.
     rbind (detection_lines T (ctx_get data ''detections'')) (\<lambda>dets.
       Inr (fleet @ [EmptyLine] @ dets @ [EmptyLine])))"

section \<open>The retraining assessment\<close>

datatype assess_line =
    StatusUnavailable | GlobalModel jval | CurrentAccuracy real | ActiveDrones jval | DriftDetection bool
  | RetrainCounts jval jval | LastRetrain jval | TopContributors "(pystr \<times> jval) list" | AssessEmpty
  | AdviseDrift | AdviseLow real | AdviseGood real | AdviseNormal

definition top_contributors :: "jval \<Rightarrow> (pystr \<times> jval) list result" where
  "top_contributors c =
     (case c of
        JsObj d \<Rightarrow>
          rbind (map_result (\<lambda>(k, v). rbind (js_number v) (\<lambda>x. Inr (- x, k, v))) d) (\<lambda>keyed.
            Inr (take 5 (map snd (sort_key fst keyed))))
      | _ \<Rightarrow> Inl AttributeError)"

text \<open>The accuracy is formatted before it is compared, so it is a number, or absent, when the advice is chosen.\<close>

definition advice :: "bool \<Rightarrow> real option \<Rightarrow> assess_line" where
  "advice drift accuracy =
     (if drift then AdviseDrift
      else case accuracy of
             Some a \<Rightarrow> if a < 0.80 then AdviseLow a else if 0.85 \<le> a then AdviseGood a else AdviseNormal
           | None \<Rightarrow> AdviseNormal)"

definition assess :: "jval \<Rightarrow> assess_line list result" where
  "assess status =
     (if \<not> js_true status then Inr [StatusUnavailable]
      else rbind (js_value_get status ''model_version'' (JsStr (ascii ''unknown''))) (\<lambda>version.
           rbind (js_value_get status ''accuracy'' JsNull) (\<lambda>accuracy.
           rbind (js_value_get status ''drift_detected'' (JsBool False)) (\<lambda>drift.
           rbind (js_value_get status ''retrain_count'' (JsNum 0)) (\<lambda>retrains.
           rbind (js_value_get status ''recall_count'' (JsNum 0)) (\<lambda>recalls.
           rbind (js_value_get status ''active_drones'' (JsNum 0)) (\<lambda>drones.
           rbind (js_value_get status ''last_retrain_at'' JsNull) (\<lambda>last_retrain.
           rbind (js_value_get status ''contributions'' (JsObj [])) (\<lambda>contributions.
           rbind (if accuracy = JsNull then Inr None else rbind (js_format accuracy) (\<lambda>x. Inr (Some x))) (\<lambda>acc.
           rbind (if js_true contributions then rbind (top_contributors contributions) (\<lambda>t. Inr [TopContributors t]) else Inr []) (\<lambda>top.
             Inr (GlobalModel version # (case acc of None \<Rightarrow> [] | Some x \<Rightarrow> [CurrentAccuracy x])
               @ [ActiveDrones drones, DriftDetection (js_true drift), RetrainCounts retrains recalls]
               @ (if js_true last_retrain then [LastRetrain last_retrain] else []) @ top
               @ [AssessEmpty, advice (js_true drift) acc]))))))))))))"


section \<open>The language model\<close>

datatype http_outcome = ConnectError | TimeoutError | HttpRaised | HttpResponse int "jval option"

datatype unavailable = NotRunning | OllamaTimedOut | ModelMissing

datatype ollama_answer = Answered jval | Unavailable unavailable | OllamaRaised

text \<open>\<open>raise_for_status\<close> lets the statuses from 200 to 299 pass; a body that is not JSON raises.\<close>

definition ollama_chat :: "http_outcome \<Rightarrow> ollama_answer" where
  "ollama_chat out =
     (case out of
        ConnectError \<Rightarrow> Unavailable NotRunning
      | TimeoutError \<Rightarrow> Unavailable OllamaTimedOut
      | HttpRaised \<Rightarrow> OllamaRaised
      | HttpResponse status body \<Rightarrow>
          if status = 404 then Unavailable ModelMissing
          else if status < 200 \<or> 300 \<le> status then OllamaRaised
          else case body of
                 None \<Rightarrow> OllamaRaised
               | Some data \<Rightarrow>
                   (case rbind (js_value_get data ''message'' (JsObj [])) (\<lambda>m. js_value_get m ''content'' (JsStr [])) of
                      Inl e \<Rightarrow> OllamaRaised
                    | Inr content \<Rightarrow> Answered content))"

record ollama_health =
  oh_connected :: bool
  oh_model_available :: bool
  oh_models :: "jval list option"

text \<open>\<open>self._model in m\<close> for the name of a model, whatever its type.\<close>

fun names_model :: "pystr \<Rightarrow> jval \<Rightarrow> bool result" where
  "names_model m (JsStr s) = Inr (sublist m s)"
| "names_model m (JsArr xs) = Inr (JsStr m \<in> set xs)"
| "names_model m (JsObj d) = Inr (dget d m \<noteq> None)"
| "names_model m _ = Inl TypeError"

fun any_names :: "pystr \<Rightarrow> jval list \<Rightarrow> bool result" where
  "any_names m [] = Inr False"
| "any_names m (x # xs) = rbind (names_model m x) (\<lambda>b. if b then Inr True else any_names m xs)"

definition health_check :: "pystr \<Rightarrow> http_outcome \<Rightarrow> ollama_health result" where
  "health_check model out =
     (let down = \<lparr>oh_connected = False, oh_model_available = False, oh_models = None\<rparr>
      in case out of
           ConnectError \<Rightarrow> Inr down
         | TimeoutError \<Rightarrow> Inr down
         | HttpRaised \<Rightarrow> Inl ValueError
         | HttpResponse status body \<Rightarrow>
             if status \<noteq> 200 then Inr down
             else case body of
                    None \<Rightarrow> Inl ValueError
                  | Some tags \<Rightarrow>
                      rbind (js_value_get tags ''models'' (JsArr [])) (\<lambda>ms. rbind (js_iter ms) (\<lambda>items.
                      rbind (map_result (\<lambda>m. js_value_get m ''name'' (JsStr [])) items) (\<lambda>models.
                      rbind (any_names model models) (\<lambda>available.
                        Inr \<lparr>oh_connected = True, oh_model_available = available, oh_models = Some models\<rparr>)))))"

section \<open>The conversation\<close>

text \<open>The system prompt is the profile's own text, without its placeholder, and the two blocks.\<close>

record system_prompt =
  sp_base :: pystr
  sp_fleet :: "ctx_line list"
  sp_retraining :: "assess_line list"

datatype chat_message = SystemMessage system_prompt | UserMessage pystr | AssistantMessage jval

function remove_all :: "pystr \<Rightarrow> pystr \<Rightarrow> pystr" where
  "remove_all p s =
     (if s = [] then [] else if p \<noteq> [] \<and> take (length p) s = p then remove_all p (drop (length p) s)
      else hd s # remove_all p (tl s))"
  by pat_completeness auto
termination by (relation "measure (\<lambda>(p, s). length s)") (auto simp: length_greater_0_conv)

declare remove_all.simps [simp del]

definition build_system_prompt :: "text_lib \<Rightarrow> pystr \<Rightarrow> ctx_line list \<Rightarrow> assess_line list \<Rightarrow> system_prompt" where
  "build_system_prompt T profile_prompt fleet retraining =
     \<lparr>sp_base = strip T (remove_all (ascii ''Current context: {context}'') profile_prompt), sp_fleet = fleet,
      sp_retraining = retraining\<rparr>"

datatype source = FleetTelemetry | DetectionRecords | AgentStatus

datatype chat_text = ModelText jval | UnavailableText unavailable | InternalText

record advisor =
  ad_prompt :: pystr
  ad_history :: "chat_message list"

definition advisor_init :: "pystr \<Rightarrow> advisor" where
  "advisor_init profile_prompt = \<lparr>ad_prompt = profile_prompt, ad_history = []\<rparr>"

text \<open>\<open>deque(maxlen=20)\<close>.\<close>

definition remember_message :: "chat_message \<Rightarrow> chat_message list \<Rightarrow> chat_message list" where
  "remember_message m h = (let h' = h @ [m] in drop (length h' - 20) h')"

definition last_ten :: "'a list \<Rightarrow> 'a list" where
  "last_ten h = drop (length h - 10) h"

definition chat_messages :: "system_prompt \<Rightarrow> pystr \<Rightarrow> advisor \<Rightarrow> chat_message list" where
  "chat_messages prompt user_message a = SystemMessage prompt # last_ten (ad_history a) @ [UserMessage user_message]"

definition chat_sources :: "(string, jval) dict \<Rightarrow> source list" where
  "chat_sources d =
     (if ctx_get d ''vehicles'' \<noteq> JsNull then [FleetTelemetry] else [])
     @ (if ctx_get d ''detections'' \<noteq> JsNull then [DetectionRecords] else [])
     @ (if ctx_get d ''ai_agent'' \<noteq> JsNull then [AgentStatus] else [])"

text \<open>The first half of \<open>chat\<close>, up to the call of the model: the context and the messages; and the second half, with
  the outcome of the call. Other requests may run between the two.\<close>

definition chat_request :: "text_lib \<Rightarrow> (string \<times> fetched) list \<Rightarrow> pystr \<Rightarrow> advisor \<Rightarrow> ((string, jval) dict \<times> chat_message list) result" where
  "chat_request T fetches user_message a =
     (let data = (case gather fetches of None \<Rightarrow> [] | Some d \<Rightarrow> d)
      in rbind (format_context T data) (\<lambda>fleet. rbind (assess (ctx_get data ''ai_agent'')) (\<lambda>retraining.
           Inr (data, chat_messages (build_system_prompt T (ad_prompt a) fleet retraining) user_message a))))"

definition chat_finish :: "(string, jval) dict \<Rightarrow> pystr \<Rightarrow> http_outcome \<Rightarrow> advisor \<Rightarrow> (chat_text \<times> source list) \<times> advisor" where
  "chat_finish data user_message out a =
     (case ollama_chat out of
        Unavailable u \<Rightarrow> ((UnavailableText u, []), a)
      | OllamaRaised \<Rightarrow> ((InternalText, []), a)
      | Answered response \<Rightarrow>
          ((ModelText response, chat_sources data),
           a\<lparr>ad_history := remember_message (AssistantMessage response)
               (remember_message (UserMessage user_message) (ad_history a))\<rparr>))"

definition get_conversation :: "advisor \<Rightarrow> chat_message list" where
  "get_conversation a = ad_history a"

definition clear_history :: "advisor \<Rightarrow> advisor" where
  "clear_history a = a\<lparr>ad_history := []\<rparr>"

section \<open>The HTTP front\<close>

datatype reply =
    InvalidJson | MessageRequired | Disallowed | ChatReply chat_text "source list" | AdvisorError | Uncaught py_error
  | HealthReply bool bool

text \<open>A request up to its call of the advisor: an answer at once, or the message that goes on. The message has to
  be a text to be stripped.\<close>

definition accept_chat :: "text_lib \<Rightarrow> jval option \<Rightarrow> reply + pystr" where
  "accept_chat T body =
     (case body of
        None \<Rightarrow> Inl InvalidJson
      | Some b \<Rightarrow>
          (case js_value_get b ''message'' (JsStr []) of
             Inl e \<Rightarrow> Inl (Uncaught e)
           | Inr (JsStr m) \<Rightarrow>
               (let message = sanitize_message T (strip T m)
                in if strip T m = [] then Inl MessageRequired
                   else if injected message then Inl Disallowed else Inr message)
           | Inr _ \<Rightarrow> Inl (Uncaught AttributeError)))"

definition handle_chat_start ::
  "text_lib \<Rightarrow> jval option \<Rightarrow> (string \<times> fetched) list \<Rightarrow> advisor \<Rightarrow> reply + pystr \<times> (string, jval) dict \<times> chat_message list" where
  "handle_chat_start T body fetches a =
     (case accept_chat T body of
        Inl r \<Rightarrow> Inl r
      | Inr message \<Rightarrow>
          (case chat_request T fetches message a of
             Inl e \<Rightarrow> Inl AdvisorError
           | Inr (data, messages) \<Rightarrow> Inr (message, data, messages)))"

definition handle_chat_finish :: "pystr \<Rightarrow> (string, jval) dict \<Rightarrow> http_outcome \<Rightarrow> advisor \<Rightarrow> reply \<times> advisor" where
  "handle_chat_finish message data out a =
     (let ((text, sources), a') = chat_finish data message out a in (ChatReply text sources, a'))"

definition handle_health :: "pystr \<Rightarrow> http_outcome \<Rightarrow> reply" where
  "handle_health model out =
     (case health_check model out of
        Inl e \<Rightarrow> Uncaught e
      | Inr h \<Rightarrow> HealthReply (oh_connected h) (oh_model_available h))"


section \<open>Requests over time\<close>

text \<open>The server with the requests that wait for the model, and everything the model was given.\<close>

record front =
  fr_advisor :: advisor
  fr_waiting :: "(pystr \<times> (string, jval) dict) list"
  fr_heard :: "chat_message list list"

datatype front_event =
    ChatStart "jval option" "(string \<times> fetched) list" | ChatFinish nat http_outcome | ClearHistory

fun front_step :: "text_lib \<Rightarrow> front \<Rightarrow> front_event \<Rightarrow> front" where
  "front_step T s (ChatStart body fetches) =
     (case handle_chat_start T body fetches (fr_advisor s) of
        Inl r \<Rightarrow> s
      | Inr (message, data, messages) \<Rightarrow>
          s\<lparr>fr_waiting := fr_waiting s @ [(message, data)], fr_heard := fr_heard s @ [messages]\<rparr>)"
| "front_step T s (ChatFinish i out) =
     (if i < length (fr_waiting s)
      then let (message, data) = fr_waiting s ! i
           in s\<lparr>fr_advisor := snd (handle_chat_finish message data out (fr_advisor s)),
                fr_waiting := take i (fr_waiting s) @ drop (Suc i) (fr_waiting s)\<rparr>
      else s)"
| "front_step T s ClearHistory = s\<lparr>fr_advisor := clear_history (fr_advisor s)\<rparr>"

definition clean :: "text_lib \<Rightarrow> pystr \<Rightarrow> bool" where
  "clean T m \<longleftrightarrow> \<not> injected m \<and> length m \<le> max_message_length \<and> list_all (\<lambda>ch. ch = 10 \<or> tl_printable T ch) m"

text \<open>A conversation: questions that passed the filter, each followed by its answer.\<close>

fun conversation :: "text_lib \<Rightarrow> chat_message list \<Rightarrow> bool" where
  "conversation T [] = True"
| "conversation T (UserMessage m # AssistantMessage r # h) \<longleftrightarrow> clean T m \<and> conversation T h"
| "conversation T _ = False"

text \<open>What the model may be given: the system prompt, at most ten earlier messages, and the question.\<close>

definition well_put :: "text_lib \<Rightarrow> chat_message list \<Rightarrow> bool" where
  "well_put T ms \<longleftrightarrow>
     (\<exists>prompt h m. ms = SystemMessage prompt # h @ [UserMessage m] \<and> conversation T h \<and> length h \<le> 10 \<and> clean T m)"

lemma conversation_append:
  "conversation T h \<Longrightarrow> conversation T (h @ k) \<longleftrightarrow> conversation T k"
  by (induction T h rule: conversation.induct) auto

lemma conversation_even: "conversation T h \<Longrightarrow> even (length h)"
  by (induction T h rule: conversation.induct) auto

lemma conversation_drop: "conversation T h \<Longrightarrow> even n \<Longrightarrow> conversation T (drop n h)"
proof (induction T h arbitrary: n rule: conversation.induct)
  case (2 T m r h)
  show ?case
  proof (cases n)
    case (Suc k)
    with 2(3) obtain j where "n = Suc (Suc j)" "even j" by (cases k) auto
    then show ?thesis using 2 by simp
  qed (use 2 in simp)
qed auto

lemma last_ten_conversation:
  assumes "conversation T h"
  shows "conversation T (last_ten h)" and "length (last_ten h) \<le> 10"
proof -
  have "even (length h - 10)" using conversation_even [OF assms] by (cases "10 \<le> length h") auto
  with assms show "conversation T (last_ten h)" unfolding last_ten_def by (rule conversation_drop)
  show "length (last_ten h) \<le> 10" by (simp add: last_ten_def)
qed

text \<open>A question and its answer push the oldest pair out once the history is full.\<close>

lemma remember_pair:
  assumes "length h \<le> 20" and "even (length h)"
  shows "remember_message y (remember_message x h) = (if length h = 20 then drop 2 h @ [x, y] else h @ [x, y])"
proof -
  have "length h < 19 \<or> length h = 20" using assms by presburger
  then show ?thesis by (auto simp: remember_message_def Let_def numeral_2_eq_2)
qed

lemma remember_conversation:
  assumes "conversation T h" and "length h \<le> 20" and "clean T m"
  shows "conversation T (remember_message (AssistantMessage r) (remember_message (UserMessage m) h))"
    and "length (remember_message (AssistantMessage r) (remember_message (UserMessage m) h)) \<le> 20"
proof -
  note e = conversation_even [OF assms(1)]
  have "length h = 20 \<or> length h \<le> 18" using assms(2) e by presburger
  then show "length (remember_message (AssistantMessage r) (remember_message (UserMessage m) h)) \<le> 20"
    by (auto simp: remember_pair [OF assms(2) e])
  show "conversation T (remember_message (AssistantMessage r) (remember_message (UserMessage m) h))"
    using assms(1,3) by (simp add: remember_pair [OF assms(2) e] conversation_append conversation_drop)
qed

lemma length_strip: "length (strip T s) \<le> length s"
  using length_dropWhile_le [of "tl_space T" "rev (dropWhile (tl_space T) s)"] length_dropWhile_le [of "tl_space T" s]
  by (simp add: strip_def del: length_dropWhile_le)

lemma sanitize_clean: "\<not> injected (sanitize_message T m) \<Longrightarrow> clean T (sanitize_message T m)"
proof -
  have "length (sanitize_message T m) \<le> max_message_length"
    unfolding sanitize_message_def
    using length_filter_le [of _ "strip T (take max_message_length m)"] length_strip [of T "take max_message_length m"]
    by (rule order.trans [OF _ order.trans]) simp
  then show "\<not> injected (sanitize_message T m) \<Longrightarrow> clean T (sanitize_message T m)"
    by (simp add: clean_def sanitize_message_def list_all_iff)
qed

lemma accept_clean: "accept_chat T body = Inr m \<Longrightarrow> clean T m"
  by (auto simp: accept_chat_def Let_def sanitize_clean split: option.splits sum.splits jval.splits if_splits)

definition front_inv :: "text_lib \<Rightarrow> front \<Rightarrow> bool" where
  "front_inv T s \<longleftrightarrow> conversation T (ad_history (fr_advisor s)) \<and> length (ad_history (fr_advisor s)) \<le> 20
     \<and> list_all (\<lambda>(m, d). clean T m) (fr_waiting s) \<and> list_all (well_put T) (fr_heard s)"

interpretation front_machine: event_machine "front_step T" "front_inv T" for T
proof unfold_locales
  fix s e
  assume inv: "front_inv T s"
  show "front_inv T (front_step T s e)"
  proof (cases e)
    case (ChatStart body fetches)
    show ?thesis
    proof (cases "handle_chat_start T body fetches (fr_advisor s)")
      case (Inr req)
      obtain message data messages where r: "req = (message, data, messages)" by (cases req) auto
      then have c: "clean T message" "chat_request T fetches message (fr_advisor s) = Inr (data, messages)"
        using Inr by (auto simp: handle_chat_start_def intro: accept_clean split: sum.splits)
      have "well_put T messages"
        using c last_ten_conversation [of T "ad_history (fr_advisor s)"] inv
        by (auto simp: chat_request_def result_simps well_put_def chat_messages_def front_inv_def Let_def)
      with c(1) inv ChatStart Inr r show ?thesis by (simp add: front_inv_def)
    qed (use ChatStart inv in simp)
  next
    case (ChatFinish i out)
    show ?thesis
    proof (cases "i < length (fr_waiting s)")
      case True
      obtain message data where w: "fr_waiting s ! i = (message, data)" by fastforce
      have c: "clean T message" using inv True w by (auto simp: front_inv_def list_all_length dest!: spec [of _ i])
      have waiting: "list_all (\<lambda>(m, d). clean T m) (take i (fr_waiting s) @ drop (Suc i) (fr_waiting s))"
        using inv by (auto simp: front_inv_def list_all_iff dest: in_set_takeD in_set_dropD)
      have "conversation T (ad_history (snd (handle_chat_finish message data out (fr_advisor s))))
          \<and> length (ad_history (snd (handle_chat_finish message data out (fr_advisor s)))) \<le> 20"
        using inv remember_conversation [OF _ _ c, of "ad_history (fr_advisor s)"]
        by (auto simp: handle_chat_finish_def chat_finish_def front_inv_def split: ollama_answer.split)
      with True w waiting inv ChatFinish show ?thesis by (simp add: front_inv_def)
    qed (use ChatFinish inv in simp)
  next
    case ClearHistory
    with inv show ?thesis by (simp add: front_inv_def clear_history_def)
  qed
qed

text \<open>C31: What reaches the language model is in form, whatever is asked and however the requests overlap: each call has the
  system prompt first, then at most ten earlier messages, questions and answers in alternation and in
  pairs, and the question last; every question in it is at most 2000 characters long, has only printable
  characters and line breaks, and none of the disallowed phrases in any case; and the history holds at most
  ten pairs, and none whose answer never came.\<close>

theorem advisor_hears_clean:
  "let s = foldl (front_step T) \<lparr>fr_advisor = advisor_init p, fr_waiting = [], fr_heard = []\<rparr> es
   in list_all (well_put T) (fr_heard s) \<and> conversation T (get_conversation (fr_advisor s))
      \<and> length (get_conversation (fr_advisor s)) \<le> 20"
proof -
  have "front_inv T \<lparr>fr_advisor = advisor_init p, fr_waiting = [], fr_heard = []\<rparr>"
    by (simp add: front_inv_def advisor_init_def)
  from front_machine.run_inv [OF this, of es] show ?thesis
    by (simp add: front_inv_def get_conversation_def Let_def)
qed

section \<open>What the context says\<close>

text \<open>The average confidence adds up the first fifty detections and divides by the number of all.\<close>

definition sure_detection :: "real \<Rightarrow> jval" where
  "sure_detection c = JsObj [(ascii ''confidence'', JsNum c)]"

lemma detection_counts_sure:
  "\<exists>d. detection_counts T (replicate n (sure_detection c)) acc x = Inr (d, x + real n * c)"
proof (induction n arbitrary: acc x)
  case (Suc n)
  from Suc [of _ "x + c"] show ?case
    by (auto simp: sure_detection_def js_get_def ascii_def rbind_def algebra_simps)
qed simp

theorem average_of_first_fifty:
  assumes "50 \<le> n" 
  shows "\<exists>ls. detection_lines T (JsArr (replicate n (sure_detection c))) = Inr ls \<and> last ls = AverageConfidence (50 * c / real n)"
proof -
  let ?xs = "replicate n (sure_detection c)"
  have lines: "xs \<noteq> [] \<Longrightarrow> detection_counts T (take 50 xs) [] 0 = Inr (d, t) \<Longrightarrow>
      \<exists>ls. detection_lines T (JsArr xs) = Inr ls \<and> last ls = AverageConfidence (t / real (max (length xs) 1))" for xs d t
    by (cases xs) (simp_all add: detection_lines_def rbind_def del: detection_counts.simps)
  have "take 50 ?xs = replicate 50 (sure_detection c)" using assms by (simp add: min_def)
  then obtain d where "detection_counts T (take 50 ?xs) [] 0 = Inr (d, 50 * c)"
    using detection_counts_sure [of T 50 c "[]" 0] by auto
  from lines [OF _ this] assms show ?thesis by (simp add: max_def)
qed

lemma average_of_first_fifty_witness:
  "\<exists>ls. detection_lines T (JsArr (replicate 500 (sure_detection 1))) = Inr ls \<and> last ls = AverageConfidence (50 * 1 / real 500)"
  by (rule average_of_first_fifty) simp

text \<open>A field of the telemetry reaches the prompt as it is when it is short and printable, whatever it asks the model to do.\<close>

lemma telemetry_text_survives:
  assumes "tl_str T v = s" and "length s \<le> max_len" and "list_all (tl_printable T) s" and "10 \<notin> set s"
  shows "san T max_len v = s"
  using assms by (auto simp: san_def list_all_iff filter_id_conv)

end
