(* ===== verification/Boot.thy ===== *)
theory Boot
  imports Framing Service
begin

text \<open>
  The serial transport (\<open>olympus_link/serial_link.py\<close>) and the boot launcher of a companion computer
  (\<open>tools/swarm_boot.py\<close>): which device is the radio, whether this module is the command station, and
  which stack is started. What a read of the descriptor gives, which devices exist and the clock are
  arguments; terminal settings and the process that is started are left out.
\<close>

section \<open>The transport\<close>

datatype read_outcome = WouldBlock | ReadError | DataRead bytes

record async_serial =
  as_reader :: serial_reader
  as_written :: bytes
  as_started :: bool
  as_closed :: bool

definition async_serial_init :: async_serial where
  "async_serial_init = \<lparr>as_reader = serial_reader_init, as_written = [], as_started = False, as_closed = False\<rparr>"

definition serial_start :: "async_serial \<Rightarrow> async_serial" where
  "serial_start s = s\<lparr>as_started := True\<rparr>"

text \<open>The handler takes the state it works on and returns the one it leaves, also where it raises: the reader logs
  what a handler raises and goes on with the next payload.\<close>

definition on_readable ::
  "('s \<Rightarrow> bytes \<Rightarrow> 's) \<Rightarrow> read_outcome \<Rightarrow> async_serial \<times> 's \<Rightarrow> (async_serial \<times> 's) \<times> py_error option" where
  "on_readable h out st =
     (case out of
        WouldBlock \<Rightarrow> (st, None)
      | ReadError \<Rightarrow> (st, None)
      | DataRead data \<Rightarrow>
          if data = [] then (st, None)
          else case serial_feed (as_reader (fst st)) data of
                 Inl e \<Rightarrow> (st, Some e)
               | Inr (payloads, r) \<Rightarrow> (((fst st)\<lparr>as_reader := r\<rparr>, foldl h (snd st) payloads), None))"

text \<open>\<open>accepted\<close> says whether the descriptor takes the bytes; if not, the error is logged.\<close>

definition write_payload :: "bool \<Rightarrow> bytes \<Rightarrow> async_serial \<Rightarrow> async_serial result" where
  "write_payload accepted payload s =
     rbind (frame_serial payload) (\<lambda>frame.
       Inr (if accepted then s\<lparr>as_written := as_written s @ frame\<rparr> else s))"

definition serial_close :: "async_serial \<Rightarrow> async_serial" where
  "serial_close s = s\<lparr>as_started := False, as_closed := True\<rparr>"

section \<open>The boot launcher\<close>

text \<open>The first of the sorted names is the least in the order of the character codes.\<close>

fun name_le :: "string \<Rightarrow> string \<Rightarrow> bool" where
  "name_le [] ys = True"
| "name_le (x # xs) [] = False"
| "name_le (x # xs) (y # ys) =
     ((of_char x :: nat) < of_char y \<or> (of_char x :: nat) = of_char y \<and> name_le xs ys)"

definition first_name :: "string list \<Rightarrow> string option" where
  "first_name xs = (case xs of [] \<Rightarrow> None | y # ys \<Rightarrow> Some (foldl (\<lambda>a b. if name_le a b then a else b) y ys))"

text \<open>\<open>find_port\<close>: what it finds at each look, with the time since it began; a fixed port or the first of the sorted names.\<close>

fun find_port :: "string option \<Rightarrow> real \<Rightarrow> (real \<times> string list) list \<Rightarrow> string option" where
  "find_port want wait_s [] = None"
| "find_port want wait_s ((elapsed, devices) # looks) =
     (if \<not> elapsed < wait_s then None
      else case (if want \<noteq> None \<and> want \<noteq> Some [] \<and> want \<noteq> Some ''auto''
                 then (if the want \<in> set devices then want else None)
                 else first_name devices) of
             Some p \<Rightarrow> Some p
           | None \<Rightarrow> find_port want wait_s looks)"

record probe =
  pb_leader :: bool
  pb_saw :: bool

definition probe_payload :: "probe \<Rightarrow> bytes \<Rightarrow> probe" where
  "probe_payload res payload =
     (case decode_message payload of
        Inl e \<Rightarrow> res
      | Inr None \<Rightarrow> res
      | Inr (Some msg) \<Rightarrow>
          \<lparr>pb_leader = pb_leader res \<or> has_bits (message_flags msg) (flag_bit F_GATEWAY OR flag_bit F_LEADER),
           pb_saw = True\<rparr>)"

text \<open>The loop of the probe: at each look at the clock (the time since it began) it ends or sleeps, and the reads that
  happen during the sleep come with it.\<close>

fun probe_loop :: "real \<Rightarrow> (real \<times> read_outcome list) list \<Rightarrow> async_serial \<times> probe \<Rightarrow> async_serial \<times> probe" where
  "probe_loop timeout [] st = st"
| "probe_loop timeout ((elapsed, reads) # looks) st =
     (if elapsed < timeout \<and> \<not> pb_leader (snd st)
      then probe_loop timeout looks (foldl (\<lambda>x out. fst (on_readable probe_payload out x)) st reads)
      else st)"

definition probe_role :: "real \<Rightarrow> (real \<times> read_outcome list) list \<Rightarrow> string option" where
  "probe_role timeout looks =
     (let res = snd (probe_loop timeout looks (serial_start async_serial_init, \<lparr>pb_leader = False, pb_saw = False\<rparr>))
      in if pb_leader res then Some ''leader'' else if pb_saw res then Some ''member'' else None)"

text \<open>\<open>opened\<close> says whether the port can be opened; a failure is logged and counts as silence.\<close>

definition detect_role :: "bool \<Rightarrow> (real \<times> read_outcome list) list \<Rightarrow> string option" where
  "detect_role opened looks = (if opened then probe_role 8 looks else None)"

datatype boot = NoPort | Started string string

definition boot_main ::
  "string \<Rightarrow> string option \<Rightarrow> (real \<times> string list) list \<Rightarrow> bool \<Rightarrow> (real \<times> read_outcome list) list \<Rightarrow> boot" where
  "boot_main configured want devices opened looks =
     (case find_port want 60 devices of
        None \<Rightarrow> NoPort
      | Some p \<Rightarrow>
          (let role = (if configured = ''auto''
                       then (case detect_role opened looks of None \<Rightarrow> ''member'' | Some r \<Rightarrow> r) else configured)
           in Started (if role = ''leader'' then ''olympus_link'' else ''jetson_agent'') p))"


section \<open>What a broadcast does to a booting module\<close>

lemma leader_stays: "pb_leader res \<Longrightarrow> pb_leader (foldl probe_payload res ps)"
  by (induction ps arbitrary: res) (auto simp: probe_payload_def split: sum.split option.split)

text \<open>A frame at the start of what is read reaches the handler whatever follows it.\<close>

lemma frame_first:
  assumes "frame_serial p = Inr f"
  shows "\<exists>ps r. serial_feed serial_reader_init (f @ rest) = Inr (p # ps, r)"
proof -
  have f: "f = frame_body p @ [0]" using assms by (simp add: frame_serial_body)
  have s: "split_frames [] (frame_body p @ [0]) = ([frame_body p], [])" using serial.split_stream [of "[p]"] by simp
  show ?thesis
    by (simp add: serial_feed_spec serial_reader_init_def f split_frames_append [of "[]" "frame_body p @ [0]" rest, simplified]
        s frame_payloads_body split: prod.split)
qed

lemma probe_reads_leader:
  assumes "decode_message p = Inr (Some msg)" and "has_bits (message_flags msg) (flag_bit F_GATEWAY OR flag_bit F_LEADER)"
    and "frame_serial p = Inr f" and "0 < timeout"
  shows "probe_role timeout ((0, [DataRead (f @ rest)]) # looks) = Some ''leader''"
proof -
  let ?st = "(serial_start async_serial_init, \<lparr>pb_leader = False, pb_saw = False\<rparr>)"
  obtain ps r where feed: "serial_feed serial_reader_init (f @ rest) = Inr (p # ps, r)" using frame_first [OF assms(3)] by blast
  have "f \<noteq> []" using assms(3) by (auto simp: frame_serial_body)
  obtain res where res: "res = foldl probe_payload \<lparr>pb_leader = False, pb_saw = False\<rparr> (p # ps)" by simp
  have lead: "pb_leader res" using leader_stays assms(1,2) by (simp add: res probe_payload_def)
  have read: "fst (on_readable probe_payload (DataRead (f @ rest)) ?st) = ((fst ?st)\<lparr>as_reader := r\<rparr>, res)"
    using feed \<open>f \<noteq> []\<close> unfolding res by (simp add: on_readable_def serial_start_def async_serial_init_def)
  have stop: "probe_loop timeout looks (x, res) = (x, res)" for x
    using lead by (cases looks) auto
  show ?thesis using assms(4) lead by (simp add: probe_role_def read stop Let_def)
qed

text \<open>C40: A fleet broadcast makes a second command station: a member that starts while its radio forwards a command
  the station has broadcast (which carries the flag LEADER, not the sender's role) takes itself for the leader
  and starts the command station's stack, whatever else the radio says and however the frames are cut after it.\<close>

theorem broadcast_elects_member:
  assumes "sv_serial s" and "0 \<le> sv_seq s" and "sv_seq s + 1 < 2 ^ 32" and "wf_cmd_body op ps"
    and "rg_gateway_eui (sv_reg s) \<noteq> []" and "eui_bytes (rg_gateway_eui (sv_reg s)) = Inr g8"
    and "service_send_broadcast op ps s = (s1, None)" and "frame_serial (last (sv_frames s1)) = Inr f"
    and "find_port want 60 devices = Some port"
  shows "boot_main ''auto'' want devices True ((0, [DataRead (f @ rest)]) # looks) = Started ''olympus_link'' port"
proof -
  obtain b where b: "s1 = s\<lparr>sv_seq := sv_seq s + 1, sv_frames := sv_frames s @ [b]\<rparr>"
    "decode_message b = Inr (Some (MBroadcast \<lparr>bc_eui = g8, bc_op = op, bc_params = ps, bc_seq = sv_seq s + 1,
          bc_flags = flag_bit F_LEADER OR flag_bit F_OVERRIDE\<rparr>))"
    using broadcast_frame [OF assms(1-6)] assms(7) by auto
  have "has_bits (flag_bit F_LEADER OR flag_bit F_OVERRIDE) (flag_bit F_GATEWAY OR flag_bit F_LEADER)" by code_simp
  with b(2) have "probe_role 8 ((0, [DataRead (f @ rest)]) # looks) = Some ''leader''"
    using assms(8) b(1) by (intro probe_reads_leader [OF b(2)]) simp_all
  then show ?thesis using assms(9) by (simp add: boot_main_def detect_role_def)
qed

lemma broadcast_elects_member_witness:
  "\<exists>f. frame_serial (last (sv_frames (fst (service_send_broadcast (cmd_code IDENTIFY) []
        ((service_init ''0000000000000002'' (olympus_client_init ''rest'' ''ceres'' False))\<lparr>sv_serial := True\<rparr>))))) = Inr f
     \<and> boot_main ''auto'' None [(0, [''/dev/ttyACM0''])] True [(0, [DataRead (f @ [])])] = Started ''olympus_link'' ''/dev/ttyACM0''"
proof -
  let ?s = "(service_init ''0000000000000002'' (olympus_client_init ''rest'' ''ceres'' False))\<lparr>sv_serial := True\<rparr>"
  have e: "eui_bytes ''0000000000000002'' = Inr [0, 0, 0, 0, 0, 0, 0, 2]" by code_simp
  have s: "sv_serial ?s" "0 \<le> sv_seq ?s" "sv_seq ?s + 1 < 2 ^ 32" "rg_gateway_eui (sv_reg ?s) = ''0000000000000002''"
    by (simp_all add: service_init_def registry0_def)
  have g: "rg_gateway_eui (sv_reg ?s) \<noteq> []" "eui_bytes (rg_gateway_eui (sv_reg ?s)) = Inr [0, 0, 0, 0, 0, 0, 0, 2]"
    unfolding s(4) e by simp_all
  have w: "wf_cmd_body (cmd_code IDENTIFY) []" by (simp add: wf_cmd_body_def)
  obtain b where b: "service_send_broadcast (cmd_code IDENTIFY) [] ?s
      = (?s\<lparr>sv_seq := sv_seq ?s + 1, sv_frames := sv_frames ?s @ [b]\<rparr>, None)"
    using broadcast_frame [OF s(1-3) w g] by blast
  obtain f where f: "frame_serial (last (sv_frames (?s\<lparr>sv_seq := sv_seq ?s + 1, sv_frames := sv_frames ?s @ [b]\<rparr>))) = Inr f"
    by (simp add: frame_serial_body)
  have p: "find_port None 60 [(0, [''/dev/ttyACM0''])] = Some ''/dev/ttyACM0''" by (simp add: first_name_def)
  from broadcast_elects_member [OF s(1-3) w g b f p, of "[]" "[]"] f b show ?thesis by auto
qed

section \<open>The probe and the stream\<close>

text \<open>A probe that ends as a member has seen a frame, and none with one of the two flags: with the transport as it is,
  how the radio's bytes are cut into reads makes no difference to what the handler is given.\<close>

fun read_all :: "('s \<Rightarrow> bytes \<Rightarrow> 's) \<Rightarrow> bytes list \<Rightarrow> async_serial \<times> 's \<Rightarrow> async_serial \<times> 's" where
  "read_all h [] st = st"
| "read_all h (c # cs) st = read_all h cs (fst (on_readable h (DataRead c) st))"

theorem reads_join:
  assumes "0 \<notin> set (sr_buf (as_reader (fst st)))"
  shows "\<exists>payloads r. serial_feed (as_reader (fst st)) (concat chunks) = Inr (payloads, r)
    \<and> read_all h chunks st = ((fst st)\<lparr>as_reader := r\<rparr>, foldl h (snd st) payloads)"
  using assms
proof (induction chunks arbitrary: st)
  case Nil
  then show ?case by (cases "as_reader (fst st)") (simp add: serial_feed_spec prod_eq_iff)
next
  case (Cons c cs)
  obtain fs q where fq: "split_frames (sr_buf (as_reader (fst st))) c = (fs, q)" by fastforce
  have q: "0 \<notin> set q" using split_frames_rest [OF Cons.prems, of c] fq by simp
  let ?st = "((fst st)\<lparr>as_reader := \<lparr>sr_buf = q\<rparr>\<rparr>, foldl h (snd st) (concat (map frame_payloads fs)))"
  have step: "fst (on_readable h (DataRead c) st) = ?st"
  proof (cases "c = []")
    case True
    with fq have "fs = []" "q = sr_buf (as_reader (fst st))" by simp_all
    with True show ?thesis by (simp add: on_readable_def prod_eq_iff)
  next
    case False
    then show ?thesis using fq by (simp add: on_readable_def serial_feed_spec [OF Cons.prems])
  qed
  from Cons.IH [of ?st] q show ?case
    by (auto simp: step serial_feed_spec [OF Cons.prems] serial_feed_spec split_frames_append fq split: prod.splits)
qed

lemma reads_join_witness:
  "\<exists>payloads r. serial_feed serial_reader_init (concat [[2], [7, 0, 1]]) = Inr (payloads, r)
    \<and> read_all (\<lambda>n p. n + 1) [[2], [7, 0, 1]] (async_serial_init, 0 :: nat) = (async_serial_init\<lparr>as_reader := r\<rparr>, foldl (\<lambda>n p. n + 1) 0 payloads)"
  using reads_join [of "(async_serial_init, 0 :: nat)" "[[2], [7, 0, 1]]" "\<lambda>n p. n + 1"]
  by (simp add: async_serial_init_def serial_reader_init_def)

end
