(* ===== verification/Spec2Isabelle.thy ===== *)
theory Spec2Isabelle
  imports Framing Messages Registry Localization Dijkstra Autorouter BrainProtocol Escalation
    Consensus CommsMonitor Navigation Coordination Ekf JetsonAgent Service Tunnel DetectionBuffer
    Orca MissionProfile Athena Cbba Node Executor Swarmnet Partitioning Scout Lifecycle
    AiAgent Json NrfLink Advisor Boot
begin

text \<open>
  Modular Swarm: a fleet of reconfigurable radio modules, some of them on vehicles, with a command station
  and a brain for autonomous drones. This library models the Python of the repository that decides
  something; each theory reads like the file it stands for and names it in its first text.

  How the parts interact, and where they are.

  (1) The wire, \<open>src/proto/swarm_proto.py\<close>. Modules, vehicles and the station exchange messages
  in frames: a payload, its CRC16 and a COBS encoding closed by a zero byte. \<open>Framing\<close> has
  checksum, stuffing and the stream reader (\<open>crc16\<close>, \<open>cobs_encode\<close>, \<open>frame_serial\<close>,
  \<open>serial_feed\<close>), \<open>Struct\<close> and \<open>Utf8\<close> the part of the standard library's codecs the protocol
  uses, \<open>Protocol\<close> the enumerations and ids, \<open>Messages\<close> a record, an encoder and a decoder per message
  class and the dispatch \<open>decode_message\<close>. Shown: every message and every frame is read back,
  the reader does not depend on how the stream is cut and recovers after garbage, the quantisation
  of positions is bounded, and each malformed input ends in the exception the code raises.

  (2) The command station, \<open>src/olympus_link\<close>. \<open>Registry\<close> (\<open>model.py\<close>) keeps a
  record per module (\<open>module_state\<close>) in a dictionary by id; \<open>Localization\<close> (\<open>localization.py\<close>)
  places modules without GPS from ranges; \<open>Dijkstra\<close> and \<open>Autorouter\<close> (\<open>autorouter.py\<close>) choose parents
  and subscriptions; \<open>OlympusClient\<close> (\<open>olympus_client.py\<close>) builds what is pushed to Olympus;
  \<open>Service\<close> (\<open>service.py\<close>, \<open>commands.py\<close>) composes them: frames in, one tick per second, operator
  commands out; \<open>Boot\<close> has the serial transport (\<open>serial_link.py\<close>) and the launcher that decides which stack a
  module runs (\<open>tools/swarm_boot.py\<close>). Shown: the registry's invariant over any run of events, shortest paths, primary
  parents that lead to the gateway when the margin for re-parenting is zero, exact answers of the solver for exact ranges.

  (3) The vehicle, \<open>src/jetson_agent\<close>. \<open>Ekf\<close> (\<open>ekf.py\<close>) is the fusion filter, \<open>Coordination\<close>
  (\<open>coordination.py\<close>, \<open>peers.py\<close>) the velocity policy, \<open>JetsonAgent\<close> (\<open>override.py\<close>, \<open>mission.py\<close>,
  \<open>agent.py\<close>) the override, the planner and the agent that takes payloads and ticks; \<open>NrfLink\<close> (\<open>nrf_link.py\<close>, \<open>sensors.py\<close>, \<open>detections.py\<close>, over the JSON
  values of \<open>Json\<close>) the sensors read beside the radio. Shown: bounds of
  the commanded velocity, a covariance that stays symmetric and positive, the agent's invariant.

  (4) The brain, \<open>src/olympus/brain/olympus_brain\<close>. \<open>BrainProtocol\<close> is the data model with its
  JSON keys; \<open>Escalation\<close>, \<open>Consensus\<close> (\<open>swarm_consensus.py\<close>), \<open>CommsMonitor\<close>, \<open>Navigation\<close>,
  \<open>Tunnel\<close> (\<open>mavlink_tunnel.py\<close>), \<open>DetectionBuffer\<close>, \<open>Orca\<close>, \<open>MissionProfile\<close>, \<open>Athena\<close>,
  \<open>Cbba\<close>, \<open>Swarmnet\<close> and \<open>Partitioning\<close> are the services a drone uses; \<open>Node\<close> is what every drone
  runs; \<open>Executor\<close> and \<open>Scout\<close> are the two kinds of drones on top of it. \<open>Lifecycle\<close> is the
  specification of what an executor does with a task, and the proof that \<open>Executor\<close> refines it.
  \<open>AiAgent\<close> (\<open>ai_agent.py\<close>) is the base station's cycle of recall, push, acknowledgement and redeployment,
  and \<open>Advisor\<close> (\<open>advisor.py\<close>, \<open>api.py\<close>) the chat of the operators with a language model.
  Shown: at most one leader per term, decisions within the rules of engagement, hysteresis of the
  communication mode, a bounded archive that drains in order, greedy bundles, commands only from
  admitted senders, completion of assigned tasks, a trainer whose weights keep their shape, sweeps
  that end, beliefs strictly between zero and one, a model that travels from the base to a scout and its
  confirmation back, recalls and redeployments that balance, a redeployment after every push within the
  timeout, and a language model that is only asked filtered questions.

  Some properties hold and are unwelcome: they state exactly what the code does where it does not
  do what it is meant to (the manifest lists them as findings).

  Conventions. A method is a function that takes the object's record (and the clock, the random
  draw or the new id it would read) and returns the updated record, with its result and the
  exception it may raise as a value of \<open>py_error + 'a\<close> (\<open>Inl\<close> is the raise). A dictionary is an
  association list in insertion order, a set of ids a list without duplicates or a HOL set, text of
  the user a list of code points, an id an ASCII string. Python's unbounded integers are \<open>int\<close>, with
  the wrap-around or the \<open>struct.error\<close> of the packed fields written out; bytes are words of 8 bits, the
  checksum a word of 16. Floats are exact reals: the rounding of IEEE arithmetic is not modelled,
  every rounding and clamp the source asks for is; infinities and NaN do not occur, except where the
  source tests for them, and are then a value of an option. A loop that runs for ever
  (\<open>while running\<close>) is one function per iteration, and its invariants hold over any list of
  events; a coroutine is cut at the points where it gives up control. Events of different sources
  interleave between the cuts, never inside; the scan loop of the scout is one step per iteration,
  so what happens during its sleeps inside an iteration is not distinguished.

  Bounds and fuel. Shortest paths are searched with fuel: the number of heap entries ever pushed is
  at most one more than the number of edges, and the search is given that bound, proved to be enough. The solver of
  \<open>Localization\<close> and the iteration of \<open>Partitioning\<close> run the number of rounds the source
  fixes. The sweep over a field is a \<open>partial_function (option)\<close>: it returns for every positive
  swath width (proved), and not for others. The other loops recurse on their data, with a measure
  where the recursion is not structural (\<open>cobs_loop\<close>, \<open>feed_loop\<close>, \<open>bundle_phase\<close>).

  Interfaces. \<open>keyed_store\<close> (a dictionary), \<open>event_machine\<close> (steps that keep an invariant) and \<open>refinement\<close> (a
  machine whose steps are paths of a specification) are locales of \<open>Prelude\<close>; \<open>stuffing\<close> is one of \<open>Framing\<close>,
  \<open>fixed_codec\<close> one of \<open>Struct\<close>. Each is interpreted on the definitions of the components that provide
  it, and the properties rest on the interpretations.

  Parameters. Code that is not in the repository is an argument: the geometry of shapely and
  scipy (\<open>Partitioning\<close>), numpy's seeded noise and the bytes of its 32-bit floats (\<open>Swarmnet\<close>), the detector
  plugged into a scout, the language model and its HTTP client (\<open>Advisor\<close>), whether a publication or a request
  succeeds; so are the tables of Unicode and the parser of JSON text, which are the standard library's. What is assumed of it is
  written into the theorem that needs it.

  Not modelled. Input and output proper: opening, reading and writing descriptors, sockets, databases and
  sessions (the terminal settings of \<open>serial_link.py\<close>, the connection parts of \<open>nrf_link.py\<close>, \<open>sensors.py\<close> and
  \<open>detections.py\<close>); the text of log messages and prompts; parsing of JSON text (handlers take the parsed
  value or its failure). \<open>mission_planner.py\<close>: it imports a name that does not exist, so no code of it ever
  runs. The registration tool, the
  camera pipelines and their visual odometry (OpenCV, GStreamer, RealSense, YOLO), the computer-aided design of the mount, the
  simulator, the tests and the tools; the firmware in C and the web front end, which are in other
  languages.
\<close>

section \<open>Properties that span components\<close>

text \<open>C34: The emergency stop does not stop a vehicle that was sent somewhere: the operator's go_to
  (translated, framed and sent by the service, decoded and applied by the vehicle's agent)
  followed by EMERGENCY_STOP (broadcast to the fleet as a hold) leaves the waypoint as the
  override goal without time limit, and a vehicle with no neighbor around commands 4 m/s straight
  towards it, in mode LOITER, for as long as it is more than one metre away.\<close>

theorem emergency_stop_keeps_waypoint:
  assumes "json_int (json_get p ''priority'' (JNum 5)) = Inr pri" and "json_int (json_get p ''ttl_s'' (JNum 0)) = Inr ttl"
    and "json_get p ''latitude'' (json_get p ''lat'' JNull) = JNum lat" and "\<bar>lat\<bar> \<le> 214"
    and "json_get p ''longitude'' (json_get p ''lon'' JNull) = JNum lon" and "\<bar>lon\<bar> \<le> 214"
    and "json_get p ''altitude'' (json_get p ''alt'' (JNum 0)) = JNum alt" and "\<bar>alt\<bar> \<le> 21000000"
    and "sv_serial s" and "0 \<le> sv_seq s" and "sv_seq s + 2 < 2 ^ 32"
    and "rg_gateway_eui (sv_reg s) \<noteq> []" and "eui_bytes (rg_gateway_eui (sv_reg s)) = Inr g8"
    and "eui_bytes own = Inr e8" and "map lower_char own \<notin> set fleet_targets" and "CHR ''/'' \<notin> set own"
  shows "\<exists>b1 b2 f1 f2 s1 s2.
      on_sample (''ceres/command/'' @ own) (Some (Some ''go_to'', p))
        = Inr (Some (own, cmd_code SET_WAYPOINT, b1, False))
    \<and> on_sample ''ceres/command/all'' (Some (Some ''EMERGENCY_STOP'', []))
        = Inr (Some (''all'', cmd_code SET_MISSION, b2, True))
    \<and> dispatch own (cmd_code SET_WAYPOINT) b1 False s = (s1, None)
    \<and> dispatch ''all'' (cmd_code SET_MISSION) b2 True s1 = (s2, None)
    \<and> sv_frames s2 = sv_frames s @ [f1, f2]
    \<and> (\<forall>a t1 t2 t e fr pl out pl'.
          mission_step t e [] (ag_override (fst (agent_on_payload t2 f2 (fst (agent_on_payload t1 f1 a))))) fr pl
            = Inr (out, pl')
          \<and> 1 < vnorm (vsub (to_enu e (wire_e7 lat) (wire_e7 lon)) (to_enu e (fx_lat (get_fix e)) (fx_lon (get_fix e))))
          \<longrightarrow> mo_mode out = mission_code LOITER \<and> vnorm (pr_velocity (mo_policy out)) = 4
            \<and> pr_velocity (mo_policy out)
              = vscale (vnormalize (vsub (to_enu e (wire_e7 lat) (wire_e7 lon))
                                      (to_enu e (fx_lat (get_fix e)) (fx_lon (get_fix e))))) 4)"
proof -
  obtain b1 where b1: "translate (Some ''go_to'') p = Inr (Some (SET_WAYPOINT, b1, False))" "length b1 = 16"
    "unpack_waypoint b1 = Inr \<lparr>wp_lat = wire_e7 lat, wp_lon = wire_e7 lon, wp_alt = wire_centi alt,
        wp_mission_type = mission_code GOTO, wp_priority = pri mod 256, wp_ttl_s = ttl mod 65536\<rparr>"
    using translate_go_to [OF assms(1,2,3,5,4,6) refl] assms(7,8) by auto
  obtain b2 where b2: "translate (Some ''EMERGENCY_STOP'') [] = Inr (Some (SET_MISSION, b2, True))"
    "length b2 < 256" "unpack_mission b2 = Inr (mission_code LOITER, 0)"
    using translate_emergency_stop [of "[]" 5 0] py_int_of_int [of 5] py_int_of_int [of 0] by (auto simp: json_get_def dget_or_def json_int_def)
  let ?s1 = "\<lambda>f. s\<lparr>sv_seq := sv_seq s + 1, sv_frames := sv_frames s @ [f]\<rparr>"
  have wf1: "wf_cmd_body (cmd_code SET_WAYPOINT) b1" using b1(2) by (simp add: wf_cmd_body_def)
  obtain f1 where f1: "service_send_command own (cmd_code SET_WAYPOINT) b1 s = (?s1 f1, None)"
    "decode_message f1 = Inr (Some (MCmd \<lparr>cm_eui = e8, cm_op = cmd_code SET_WAYPOINT, cm_params = b1,
        cm_seq = sv_seq s + 1, cm_flags = flag_bit F_GATEWAY\<rparr>))"
    using command_frame [OF assms(9,10) _ wf1 assms(14)] assms(11) by auto
  have wf2: "wf_cmd_body (cmd_code SET_MISSION) b2" using b2(2) by (simp add: wf_cmd_body_def)
  obtain f2 where f2: "service_send_broadcast (cmd_code SET_MISSION) b2 (?s1 f1)
      = ((?s1 f1)\<lparr>sv_seq := 2 + sv_seq s, sv_frames := (sv_frames s @ [f1]) @ [f2]\<rparr>, None)"
    "decode_message f2 = Inr (Some (MBroadcast \<lparr>bc_eui = g8, bc_op = cmd_code SET_MISSION, bc_params = b2,
        bc_seq = 2 + sv_seq s, bc_flags = flag_bit F_LEADER OR flag_bit F_OVERRIDE\<rparr>))"
    using broadcast_frame [of "?s1 f1" "cmd_code SET_MISSION" b2 g8] assms(9-13) wf2 by auto
  have ov: "ag_override (fst (agent_on_payload t2 f2 (fst (agent_on_payload t1 f1 a))))
      = hold_after_go_to (wire_e7 lat) (wire_e7 lon) t2" for a t1 t2
    using agent_takes_broadcast [OF f2(2)] agent_takes_command [OF f1(2)]
      go_to_then_hold [OF b1(3) b2(3)] by simp
  have "last_segment ''ceres/command/all'' = ''all''" by code_simp
  then have os: "on_sample ''ceres/command/all'' (Some (Some ''EMERGENCY_STOP'', []))
        = Inr (Some (''all'', cmd_code SET_MISSION, b2, True))"
    using b2(1) by (simp add: on_sample_def)
  have og: "on_sample (''ceres/command/'' @ own) (Some (Some ''go_to'', p))
        = Inr (Some (own, cmd_code SET_WAYPOINT, b1, False))"
    using b1(1) last_segment_own [OF assms(16)] eui_bytes_nonempty [OF assms(14)] by (simp add: on_sample_def)
  have d1: "dispatch own (cmd_code SET_WAYPOINT) b1 False s = (?s1 f1, None)"
    using f1(1) assms(15) by (simp add: dispatch_def)
  let ?s2 = "(?s1 f1)\<lparr>sv_seq := 2 + sv_seq s, sv_frames := (sv_frames s @ [f1]) @ [f2]\<rparr>"
  have d2: "dispatch ''all'' (cmd_code SET_MISSION) b2 True (?s1 f1) = (?s2, None)"
    using f2(1) by (simp add: dispatch_def)
  have frames: "sv_frames ?s2 = sv_frames s @ [f1, f2]" by simp
  show ?thesis
    by (intro exI conjI) (rule og, rule os, rule d1, rule d2, rule frames,
        use hold_flight in \<open>simp only: ov, blast\<close>)
qed

lemma emergency_stop_keeps_waypoint_witness:
  "\<exists>b1 b2 s1 s2. dispatch ''0000000000000001'' (cmd_code SET_WAYPOINT) b1 False
       ((service_init ''0000000000000002'' (olympus_client_init ''rest'' ''ceres'' False))\<lparr>sv_serial := True\<rparr>) = (s1, None)
     \<and> dispatch ''all'' (cmd_code SET_MISSION) b2 True s1 = (s2, None) \<and> length (sv_frames s2) = 2"
proof -
  let ?s = "(service_init ''0000000000000002'' (olympus_client_init ''rest'' ''ceres'' False))\<lparr>sv_serial := True\<rparr>"
  let ?p = "[(''lat'', JNum (of_int 1)), (''lon'', JNum (of_int 2)), (''priority'', JNum (of_int 5)),
             (''ttl_s'', JNum (of_int 60))]"
  have p: "json_int (json_get ?p ''priority'' (JNum 5)) = Inr 5" "json_int (json_get ?p ''ttl_s'' (JNum 0)) = Inr 60"
    "json_get ?p ''latitude'' (json_get ?p ''lat'' JNull) = JNum 1"
    "json_get ?p ''longitude'' (json_get ?p ''lon'' JNull) = JNum 2"
    "json_get ?p ''altitude'' (json_get ?p ''alt'' (JNum 0)) = JNum 0"
    using py_int_of_int [of 5] py_int_of_int [of 60]
    by (simp_all add: json_get_def dget_or_def json_int_def)
  have s: "sv_serial ?s" "0 \<le> sv_seq ?s" "sv_seq ?s + 2 < 2 ^ 32" "rg_gateway_eui (sv_reg ?s) = ''0000000000000002''"
    "sv_frames ?s = []"
    by (simp_all add: service_init_def registry0_def)
  have e: "eui_bytes ''0000000000000001'' = Inr [0, 0, 0, 0, 0, 0, 0, 1]"
    "eui_bytes ''0000000000000002'' = Inr [0, 0, 0, 0, 0, 0, 0, 2]"
    "map lower_char ''0000000000000001'' \<notin> set fleet_targets" "CHR ''/'' \<notin> set ''0000000000000001''"
    by code_simp+
  have g: "rg_gateway_eui (sv_reg ?s) \<noteq> []" "eui_bytes (rg_gateway_eui (sv_reg ?s)) = Inr [0, 0, 0, 0, 0, 0, 0, 2]"
    unfolding s(4) e(2) by simp_all
  have b: "\<bar>1 :: real\<bar> \<le> 214" "\<bar>2 :: real\<bar> \<le> 214" "\<bar>0 :: real\<bar> \<le> 21000000" by simp_all
  from emergency_stop_keeps_waypoint [OF p(1,2,3) b(1) p(4) b(2) p(5) b(3) s(1-3) g e(1,3,4)]
  show ?thesis unfolding s(5) by (metis append_Nil length_Cons list.size(3) numeral_2_eq_2)
qed

text \<open>C35: A vehicle whose first frame is a fleet broadcast takes the gateway for itself: an agent that has
  not yet learnt its module's id adopts the gateway's id from the broadcast it is forwarded (whose
  flags mark it neither as the gateway's nor as relayed), keeps it whatever arrives later, and
  so, as long as the gateway is not in its own registry, never fuses, plans or publishes again.\<close>

theorem broadcast_claims_identity:
  assumes "sv_serial s" and "0 \<le> sv_seq s" and "sv_seq s + 1 < 2 ^ 32" and "wf_cmd_body op ps"
    and "rg_gateway_eui (sv_reg s) \<noteq> []" and "eui_bytes (rg_gateway_eui (sv_reg s)) = Inr g8"
    and "service_send_broadcast op ps s = (s1, None)"
    and "agent_inv a" and "ag_own_eui a = None"
  shows "ag_own_eui (foldl agent_step a (SerialPayload now (last (sv_frames s1)) # es)) = Some (eui_str g8)
    \<and> (\<forall>b inp t. b = foldl agent_step a (SerialPayload now (last (sv_frames s1)) # es)
         \<and> dget (rg_modules (ag_reg b)) (eui_str g8) = None \<longrightarrow> agent_tick t inp b = (b, None))"
proof -
  obtain f where f: "s1 = s\<lparr>sv_seq := sv_seq s + 1, sv_frames := sv_frames s @ [f]\<rparr>"
    "decode_message f = Inr (Some (MBroadcast \<lparr>bc_eui = g8, bc_op = op, bc_params = ps, bc_seq = sv_seq s + 1,
          bc_flags = flag_bit F_LEADER OR flag_bit F_OVERRIDE\<rparr>))"
    using broadcast_frame [OF assms(1-6)] assms(7) by auto
  then have l: "last (sv_frames s1) = f" by simp
  have o: "ag_own_eui (agent_step a (SerialPayload now f)) = Some (eui_str g8)"
    using f(2) assms(9)
    by (simp add: agent_on_payload_def learn_eui_def take_command_def has_bits_def Let_def split: sum.split)
  have "agent_inv (agent_step a (SerialPayload now f))" by (rule agent_machine.step_inv [OF assms(8)])
  from own_eui_run [OF this o]
  have own: "ag_own_eui (foldl agent_step a (SerialPayload now f # es)) = Some (eui_str g8)"
    by (simp only: foldl.simps)
  then show ?thesis unfolding l by (auto simp: agent_tick_def)
qed

lemma broadcast_claims_identity_witness:
  "ag_own_eui (foldl agent_step jetson_agent_init (SerialPayload 0 (last (sv_frames (fst
     (service_send_broadcast (cmd_code IDENTIFY) [] ((service_init ''0000000000000002''
        (olympus_client_init ''rest'' ''ceres'' False))\<lparr>sv_serial := True\<rparr>))))) # []))
   = Some (eui_str [0, 0, 0, 0, 0, 0, 0, 2])"
proof -
  let ?s = "(service_init ''0000000000000002'' (olympus_client_init ''rest'' ''ceres'' False))\<lparr>sv_serial := True\<rparr>"
  have e: "eui_bytes ''0000000000000002'' = Inr [0, 0, 0, 0, 0, 0, 0, 2]" by code_simp
  have s: "sv_serial ?s" "0 \<le> sv_seq ?s" "sv_seq ?s + 1 < 2 ^ 32" "rg_gateway_eui (sv_reg ?s) = ''0000000000000002''"
    by (simp_all add: service_init_def registry0_def)
  have g: "rg_gateway_eui (sv_reg ?s) \<noteq> []" "eui_bytes (rg_gateway_eui (sv_reg ?s)) = Inr [0, 0, 0, 0, 0, 0, 0, 2]"
    unfolding s(4) e by simp_all
  have w: "wf_cmd_body (cmd_code IDENTIFY) []" by (simp add: wf_cmd_body_def)
  obtain f where f: "service_send_broadcast (cmd_code IDENTIFY) [] ?s
      = (?s\<lparr>sv_seq := sv_seq ?s + 1, sv_frames := sv_frames ?s @ [f]\<rparr>, None)"
    using broadcast_frame [OF s(1-3) w g] by blast
  have a: "ag_own_eui jetson_agent_init = None" by (simp add: jetson_agent_init_def)
  from broadcast_claims_identity [OF s(1-3) w g f agent_inv_init a, of 0 "[]"]
  show ?thesis unfolding f fst_conv by blast
qed

text \<open>What the station knows of a module that has said \<open>h\<close>.\<close>

definition known_as :: "hello \<Rightarrow> module_state \<Rightarrow> bool" where
  "known_as h m \<longleftrightarrow> md_online m \<and> md_role m = he_role h \<and> md_mount m = he_mount h \<and> md_sensors m = he_sensors h
     \<and> md_attached_to m = cut_text 32 (he_attached_to h) \<and> md_capabilities m = he_capabilities h
     \<and> md_battery_pct m = he_battery_pct h"

lemma hello_heard:
  assumes "registry_inv (sv_reg s)" and "decode_message b = Inr (Some (MHello (hello_on_wire h)))"
    and "\<not> has_bits (he_flags h) (flag_bit F_GATEWAY)"
  shows "registry_inv (sv_reg (service_on_payload now b s))
    \<and> (\<exists>m. dget (rg_modules (sv_reg (service_on_payload now b s))) (eui_str (he_eui h)) = Some m \<and> known_as h m)
    \<and> (\<forall>k. k \<noteq> eui_str (he_eui h) \<longrightarrow> dget (rg_modules (sv_reg (service_on_payload now b s))) k = dget (rg_modules (sv_reg s)) k)"
proof -
  have r: "sv_reg (service_on_payload now b s) = on_hello now (hello_on_wire h) (sv_reg s)"
    using assms(2,3) by (simp add: service_on_payload_def adopt_gateway_def hello_on_wire_def Let_def)
  have e: "eui_str (he_eui h) = eui_str (he_eui (hello_on_wire h))" by (simp add: hello_on_wire_def)
  from hello_spec [OF assms(1) e, of now] heard_props(2) [OF assms(1), of now "eui_str (he_eui h)"] show ?thesis
    unfolding r by (simp add: known_as_def hello_update_def hello_on_wire_def)
qed

lemma hellos_heard:
  assumes "list_all2 (\<lambda>h b. decode_message b = Inr (Some (MHello (hello_on_wire h))) \<and> \<not> has_bits (he_flags h) (flag_bit F_GATEWAY)) hs bs"
    and "distinct (map he_eui hs)" and "registry_inv (sv_reg s)"
  shows "registry_inv (sv_reg (foldl (\<lambda>s b. service_on_payload now b s) s bs))
    \<and> (\<forall>h\<in>set hs. \<exists>m. dget (rg_modules (sv_reg (foldl (\<lambda>s b. service_on_payload now b s) s bs))) (eui_str (he_eui h)) = Some m
         \<and> known_as h m)
    \<and> (\<forall>k. k \<notin> (eui_str \<circ> he_eui) ` set hs \<longrightarrow>
         dget (rg_modules (sv_reg (foldl (\<lambda>s b. service_on_payload now b s) s bs))) k = dget (rg_modules (sv_reg s)) k)"
  using assms
proof (induction hs bs arbitrary: s rule: list_all2_induct)
  case (Cons h hs b bs)
  note one = hello_heard [OF Cons.prems(2), of b h now]
  have step: "registry_inv (sv_reg (service_on_payload now b s))" using one Cons.hyps(1) by blast
  have "eui_str (he_eui h) \<notin> (eui_str \<circ> he_eui) ` set hs" using Cons.prems(1) by (auto dest: eui_str_inj)
  with Cons.IH [OF _ step] Cons.prems(1) Cons.hyps(1) one show ?case by auto
qed simp

text \<open>C4: What modules say on the wire is what the station knows, however the bytes are cut: the announcements of any
  modules with different ids (well-formed ones, none from a gateway), framed one after the other and read in chunks of
  any sizes, leave each of them in the registry, online, with the role, the mount, the sensors, the capabilities and
  the battery it announced and the first 32 bytes of the name of what it is attached to; nothing else is added or changed.\<close>

theorem fleet_discovered:
  assumes "list_all wf_hello hs" and "list_all (\<lambda>h. \<not> has_bits (he_flags h) (flag_bit F_GATEWAY)) hs"
    and "distinct (map he_eui hs)" and "registry_inv (sv_reg s)"
    and "map hello_encode hs = map Inr payloads" and "map frame_serial payloads = map Inr frames"
    and "concat chunks = concat frames"
  shows "\<exists>ser s'. read_all (\<lambda>s b. service_on_payload now b s) chunks (async_serial_init, s) = (ser, s')
    \<and> list_all (\<lambda>h. case dget (rg_modules (sv_reg s')) (eui_str (he_eui h)) of None \<Rightarrow> False | Some m \<Rightarrow> known_as h m) hs
    \<and> (\<forall>k. k \<in> set (map (eui_str \<circ> he_eui) hs) \<or> dget (rg_modules (sv_reg s')) k = dget (rg_modules (sv_reg s)) k)"
proof -
  let ?h = "\<lambda>s b. service_on_payload now b s"
  have decoded: "list_all2 (\<lambda>h b. decode_message b = Inr (Some (MHello (hello_on_wire h)))
      \<and> \<not> has_bits (he_flags h) (flag_bit F_GATEWAY)) hs payloads"
    using assms(1,2,5)
  proof (induction hs arbitrary: payloads)
    case (Cons h hs)
    then obtain b bs where b: "payloads = b # bs" "hello_encode h = Inr b" by (cases payloads) auto
    from message_decodes [of "MHello h"] Cons.prems(1) b(2) have "decode_message (b @ []) = Inr (Some (MHello (hello_on_wire h)))"
      by (auto simp del: append_Nil2)
    then have "decode_message b = Inr (Some (MHello (hello_on_wire h)))" by simp
    with Cons b show ?case by auto
  qed simp
  have frames: "frames = map (\<lambda>p. frame_body p @ [0]) payloads"
    using assms(6) by (induction payloads arbitrary: frames) (auto simp: frame_serial_body Cons_eq_map_conv)
  have "concat (map frame_payloads (map frame_body payloads)) = payloads"
    by (induction payloads) (simp_all add: frame_payloads_body)
  then have "serial_feed serial_reader_init (concat chunks) = Inr (payloads, serial_reader_init)"
    unfolding assms(7) frames by (simp add: serial_feed_spec serial_reader_init_def serial.split_stream)
  then have read: "read_all ?h chunks (async_serial_init, s)
      = (async_serial_init\<lparr>as_reader := serial_reader_init\<rparr>, foldl ?h s payloads)"
    using reads_join [of "(async_serial_init, s)" chunks ?h] by (auto simp: async_serial_init_def serial_reader_init_def)
  from hellos_heard [OF decoded assms(3,4), of now] show ?thesis
    unfolding read by (fastforce simp: list_all_iff split: option.split)
qed

lemma fleet_discovered_witness:
  "\<exists>b f ser s'. hello_encode sample_hello = Inr b \<and> frame_serial b = Inr f
     \<and> read_all (\<lambda>s b. service_on_payload 5 b s) [take 3 f, drop 3 f]
          (async_serial_init, service_init [] (olympus_client_init ''rest'' ''ceres'' False)) = (ser, s')
     \<and> dget (rg_modules (sv_reg s')) (eui_str (replicate 8 1)) \<noteq> None"
proof -
  let ?s = "service_init [] (olympus_client_init ''rest'' ''ceres'' False)"
  have w: "list_all wf_hello [sample_hello]"
    by (simp add: wf_hello_def sample_hello_def wf_hdr_fields_def hello_fmt_def scalar_value_def)
  obtain b where b: "hello_encode sample_hello = Inr b" using message_decodes [of "MHello sample_hello"] w by auto
  obtain f where f: "frame_serial b = Inr f" by (simp add: frame_serial_body)
  have g: "list_all (\<lambda>h. \<not> has_bits (he_flags h) (flag_bit F_GATEWAY)) [sample_hello]"
    by (simp add: sample_hello_def has_bits_def)
  have r: "registry_inv (sv_reg ?s)" by (simp add: service_init_def registry_inv_init)
  have e: "map hello_encode [sample_hello] = map Inr [b]" "map frame_serial [b] = map Inr [f]"
    "concat [take 3 f, drop 3 f] = concat [f]" using b f by simp_all
  have d: "distinct (map he_eui [sample_hello])" by simp
  from fleet_discovered [OF w g d r e, of 5] b f show ?thesis
    by (auto simp: sample_hello_def split: option.splits)
qed

end
